(* ===== verification/Elf_Prelude.thy ===== *)
theory Elf_Prelude imports Main "HOL-Library.Word" begin

text \<open>
  Shared vocabulary of the development: machine integers at the widths the code uses, byte
  strings, the exceptions of \<^verbatim>\<open>utils/error.hpp\<close> as values of one datatype, the two throw macros
  as combinators of a result type \<open>elf_error + 'a\<close>, byte ranges of a buffer (\<open>bslice\<close> for what a
  \<^verbatim>\<open>memcpy\<close> reads, \<open>bwrite\<close> for what it leaves behind), and the lemma collections the component
  theories draw on.
\<close>

section \<open>Machine integers and byte strings\<close>

type_synonym u8 = "8 word"
type_synonym u16 = "16 word"
type_synonym u32 = "32 word"
type_synonym u64 = "64 word"
type_synonym bytes = "8 word list"

unbundle bit_operations_syntax

section \<open>Versions and exceptions\<close>

text \<open>
  The class \<^verbatim>\<open>Version\<close> is a datatype with its four private members. It is declared before the
  exceptions because a \<^verbatim>\<open>VersioningError\<close> carries the provided and the required version.
\<close>

datatype version = Version (major: u32) (minor: u32) (patch: u32) (isValid: bool)

text \<open>
  One constructor per exception class the sources throw. \<open>OutOfRange\<close> is \<^verbatim>\<open>std::out_of_range\<close>,
  thrown by \<^verbatim>\<open>map::at\<close>, and \<open>BadAlloc\<close> stands for \<^verbatim>\<open>std::bad_alloc\<close> and \<^verbatim>\<open>std::length_error\<close>,
  thrown by a container that cannot grow. \<open>UndefinedBehaviour\<close> is not an exception: it marks the branches where the
  C++ program has no defined behaviour (an index past the end of a vector, a shift by the width
  of its operand, a null dereference), so that no theorem can rest on what happens there.
\<close>

datatype elf_error =
    AccessError | HeaderError | SectionError | RelocError | AllocError
  | RangeError | SequenceError | ArgsError | ImplausibleState | RuntimeError
  | VersioningError (providedVersion: version) (requiredVersion: version)
  | OutOfRange | BadAlloc
  | UndefinedBehaviour

type_synonym 'a res = "elf_error + 'a"

section \<open>Throwing and sequencing\<close>

definition throw_when :: "bool \<Rightarrow> elf_error \<Rightarrow> 'a res \<Rightarrow> 'a res" where
  "throw_when c e k = (if c then Inl e else k)"

definition throw_unless :: "bool \<Rightarrow> elf_error \<Rightarrow> 'a res \<Rightarrow> 'a res" where
  "throw_unless c e k = (if \<not> c then Inl e else k)"

definition bindE :: "'a res \<Rightarrow> ('a \<Rightarrow> 'b res) \<Rightarrow> 'b res" where
  "bindE m f = (case m of Inl e \<Rightarrow> Inl e | Inr x \<Rightarrow> f x)"

lemma bindE_simps [simp]:
  "bindE (Inl e) f = Inl e"
  "bindE (Inr x) f = f x"
  by (simp_all add: bindE_def)

lemma bindE_Inr_iff: "bindE m f = Inr y \<longleftrightarrow> (\<exists>x. m = Inr x \<and> f x = Inr y)"
  by (cases m) auto

lemma bindE_Inl_iff: "bindE m f = Inl e \<longleftrightarrow> m = Inl e \<or> (\<exists>x. m = Inr x \<and> f x = Inl e)"
  by (cases m) auto

lemma bindE_assoc: "bindE (bindE m f) g = bindE m (\<lambda>x. bindE (f x) g)"
  by (cases m) auto

lemma throw_when_simps [simp]:
  "throw_when True e k = Inl e"
  "throw_when False e k = k"
  by (simp_all add: throw_when_def)

lemma throw_unless_simps [simp]:
  "throw_unless True e k = k"
  "throw_unless False e k = Inl e"
  by (simp_all add: throw_unless_def)

lemma throw_when_Inr_iff [simp]: "throw_when c e k = Inr y \<longleftrightarrow> \<not> c \<and> k = Inr y"
  by (simp add: throw_when_def)

lemma throw_unless_Inr_iff [simp]: "throw_unless c e k = Inr y \<longleftrightarrow> c \<and> k = Inr y"
  by (simp add: throw_unless_def)

text \<open>A \<^verbatim>\<open>for\<close> loop over the elements of a vector whose body may throw.\<close>

fun foldE :: "('a \<Rightarrow> 's \<Rightarrow> 's res) \<Rightarrow> 'a list \<Rightarrow> 's \<Rightarrow> 's res" where
  "foldE f [] s = Inr s"
| "foldE f (x # xs) s = bindE (f x s) (foldE f xs)"

lemma foldE_append: "foldE f (xs @ ys) s = bindE (foldE f xs s) (foldE f ys)"
proof (induction xs arbitrary: s)
  case Nil
  then show ?case by simp
next
  case (Cons x xs)
  then show ?case by (cases "f x s") simp_all
qed

lemma foldE_invariant:
  assumes "foldE f xs s = Inr t" and "I s"
    and "\<And>x s s'. x \<in> set xs \<Longrightarrow> I s \<Longrightarrow> f x s = Inr s' \<Longrightarrow> I s'"
  shows "I t"
  using assms
proof (induction xs arbitrary: s)
  case Nil
  then show ?case by simp
next
  case (Cons x xs)
  from Cons.prems(1) obtain s' where s': "f x s = Inr s'" and t: "foldE f xs s' = Inr t"
    by (auto simp: bindE_Inr_iff)
  have "I s'" using Cons.prems(3) [of x s s'] Cons.prems(2) s' by simp
  show ?case
  proof (rule Cons.IH [OF t \<open>I s'\<close>])
    fix y u u'
    assume "y \<in> set xs" and "I u" and "f y u = Inr u'"
    then show "I u'" using Cons.prems(3) [of y u u'] by simp
  qed
qed

section \<open>Byte ranges\<close>

definition bslice :: "nat \<Rightarrow> nat \<Rightarrow> 'a list \<Rightarrow> 'a list" where
  "bslice off n xs = take n (drop off xs)"

definition bwrite :: "nat \<Rightarrow> 'a list \<Rightarrow> 'a list \<Rightarrow> 'a list" where
  "bwrite off ys xs = take off xs @ ys @ drop (off + length ys) xs"

named_theorems byte_range \<open>lengths and overlaps of byte ranges\<close>

lemma length_bslice [simp]: "length (bslice off n xs) = min n (length xs - off)"
  by (simp add: bslice_def)

lemma bslice_0 [simp]: "bslice off 0 xs = []"
  by (simp add: bslice_def)

lemma bslice_all [simp]: "bslice 0 (length xs) xs = xs"
  by (simp add: bslice_def)

lemma bslice_whole: "length xs = n \<Longrightarrow> bslice 0 n xs = xs"
  by (simp add: bslice_def)

lemma bslice_append_left [byte_range]:
  "off + n \<le> length xs \<Longrightarrow> bslice off n (xs @ ys) = bslice off n xs"
  by (simp add: bslice_def)

lemma bslice_append_right [byte_range]:
  "length xs \<le> off \<Longrightarrow> bslice off n (xs @ ys) = bslice (off - length xs) n ys"
  by (simp add: bslice_def)

lemma bslice_join [byte_range]:
  "bslice off n xs @ bslice (off + n) m xs = bslice off (n + m) xs"
  unfolding bslice_def take_add by (simp add: add.commute)

lemma bslice_bslice [byte_range]:
  "i + n \<le> m \<Longrightarrow> bslice i n (bslice off m xs) = bslice (off + i) n xs"
  by (simp add: bslice_def drop_take ac_simps)

lemma nth_bslice [byte_range]:
  "i < n \<Longrightarrow> off + i < length xs \<Longrightarrow> bslice off n xs ! i = xs ! (off + i)"
  by (simp add: bslice_def)

lemma length_bwrite [simp]:
  "off + length ys \<le> length xs \<Longrightarrow> length (bwrite off ys xs) = length xs"
  by (simp add: bwrite_def)

lemma bwrite_Nil [simp]: "bwrite off [] xs = xs"
  by (simp add: bwrite_def)

lemma bslice_bwrite_same [byte_range]:
  "off + length ys \<le> length xs \<Longrightarrow> bslice off (length ys) (bwrite off ys xs) = ys"
  by (simp add: bslice_def bwrite_def)

lemma bslice_bwrite_before [byte_range]:
  assumes "i + n \<le> off" and "off \<le> length xs"
  shows "bslice i n (bwrite off ys xs) = bslice i n xs"
proof -
  have "bslice i n (bwrite off ys xs) = bslice i n (take off xs)"
    unfolding bwrite_def using assms by (intro bslice_append_left) simp
  also have "\<dots> = bslice i n xs"
    using assms by (simp add: bslice_def drop_take)
  finally show ?thesis .
qed

lemma bslice_bwrite_after [byte_range]:
  "off + length ys \<le> i \<Longrightarrow> off + length ys \<le> length xs \<Longrightarrow>
    bslice i n (bwrite off ys xs) = bslice i n xs"
  by (simp add: bslice_def bwrite_def)

lemma bslice_bwrite_disjoint:
  assumes "off + length ys \<le> length xs"
    and "i + n \<le> off \<or> off + length ys \<le> i"
  shows "bslice i n (bwrite off ys xs) = bslice i n xs"
  using assms by (auto intro: bslice_bwrite_before bslice_bwrite_after)

lemma bslice_bwrite_inside [byte_range]:
  assumes "off + length ys \<le> length xs" and "off \<le> i" and "i + n \<le> off + length ys"
  shows "bslice i n (bwrite off ys xs) = bslice (i - off) n ys"
  using assms by (simp add: bslice_def bwrite_def)

lemma nth_bwrite:
  assumes "off + length ys \<le> length xs" and "i < length xs"
  shows "bwrite off ys xs ! i =
    (if i < off then xs ! i else if i < off + length ys then ys ! (i - off) else xs ! i)"
  using assms by (auto simp: bwrite_def nth_append min_def)

section \<open>Words as numbers\<close>

lemma unat_add_no_wrap:
  "unat (a :: u64) + unat b < 2 ^ 64 \<Longrightarrow> unat (a + b) = unat a + unat b"
  by (simp add: unat_word_ariths)

lemma unat_mult_no_wrap:
  "unat (a :: u64) * unat b < 2 ^ 64 \<Longrightarrow> unat (a * b) = unat a * unat b"
  by (simp add: unat_word_ariths)

lemma unat_of_nat_u64: "n < 2 ^ 64 \<Longrightarrow> unat (of_nat n :: u64) = n"
  by (simp add: unat_of_nat take_bit_nat_eq_self)

lemma unat_u64_less [simp]: "unat (w :: u64) < 2 ^ 64"
  using unsigned_less [of w] by simp

end
