(* ===== verification/Elf_Bytes.thy ===== *)
theory Elf_Bytes imports Elf_Prelude begin

text \<open>
  The byte image of the plain-old-data structures. The sources never serialise field by field:
  they \<^verbatim>\<open>memcpy\<close> structures and \<^verbatim>\<open>reinterpret_cast\<close> buffers, so the byte image is the memory layout
  of the target, which is little-endian (\<^verbatim>\<open>ELFDATA2LSB\<close>). \<open>le_bytes n w\<close> is the image of an
  \<open>n\<close>-byte integer and \<open>le_word\<close> reads it back. The locale \<open>pod\<close> is the contract of a type with a
  fixed image: it is interpreted for every structure that the reader, the writer, the loader and
  the serialiser copy, and it carries the lemmas on arrays of such structures once.
\<close>

section \<open>Little-endian integers\<close>

primrec le_bytes :: "nat \<Rightarrow> 'a::len word \<Rightarrow> bytes" where
  "le_bytes 0 w = []"
| "le_bytes (Suc n) w = ucast w # le_bytes n (drop_bit 8 w)"

primrec le_word :: "bytes \<Rightarrow> 'a::len word" where
  "le_word [] = 0"
| "le_word (b # bs) = ucast b OR push_bit 8 (le_word bs)"

lemma length_le_bytes [simp]: "length (le_bytes n w) = n"
  by (induction n arbitrary: w) auto

lemma le_word_le_bytes_take: "le_word (le_bytes n w) = take_bit (8 * n) w"
proof (induction n arbitrary: w)
  case 0
  then show ?case by simp
next
  case (Suc n)
  show ?case
  proof (rule bit_word_eqI)
    fix i
    assume i: "i < LENGTH('a)"
    show "bit (le_word (le_bytes (Suc n) w) :: 'a word) i = bit (take_bit (8 * Suc n) w) i"
      using i by (auto simp: Suc bit_simps)
  qed
qed

lemma le_word_le_bytes:
  "LENGTH('a::len) \<le> 8 * n \<Longrightarrow> le_word (le_bytes n (w :: 'a word)) = w"
  by (simp add: le_word_le_bytes_take take_bit_word_eq_self)

lemma le_word_le_bytes_16 [simp]: "le_word (le_bytes 2 (w :: u16)) = w"
  by (rule le_word_le_bytes) simp

lemma le_word_le_bytes_32 [simp]: "le_word (le_bytes 4 (w :: u32)) = w"
  by (rule le_word_le_bytes) simp

lemma le_word_le_bytes_64 [simp]: "le_word (le_bytes 8 (w :: u64)) = w"
  by (rule le_word_le_bytes) simp

lemma le_word_le_bytes_8 [simp]: "le_word (le_bytes (Suc 0) (w :: u8)) = w"
  by (rule le_word_le_bytes) simp

lemma le_bytes_le_word:
  assumes "8 * length bs \<le> LENGTH('a::len)"
  shows "le_bytes (length bs) (le_word bs :: 'a word) = bs"
  using assms
proof (induction bs)
  case Nil
  then show ?case by simp
next
  case (Cons b bs)
  let ?w = "ucast b OR push_bit 8 (le_word bs) :: 'a word"
  have len: "8 * length bs + 8 \<le> LENGTH('a)" using Cons.prems by simp
  have head: "ucast ?w = b"
    by (rule bit_word_eqI) (use len in \<open>auto simp: bit_simps\<close>)
  have bound: "\<not> bit (le_word bs :: 'a word) i" if "8 * length bs \<le> i" for i
  proof -
    have "le_word bs = take_bit (8 * length bs) (le_word bs :: 'a word)"
      using Cons.IH len le_word_le_bytes_take [of "length bs" "le_word bs :: 'a word"] by simp
    then show ?thesis using that by (metis bit_take_bit_iff not_le)
  qed
  have rest: "drop_bit 8 ?w = le_word bs"
  proof (rule bit_word_eqI)
    fix i
    assume "i < LENGTH('a)"
    show "bit (drop_bit 8 ?w) i = bit (le_word bs :: 'a word) i"
    proof (cases "8 + i < LENGTH('a)")
      case True
      have "\<not> bit b (8 + i)" using bit_imp_le_length [of b "8 + i"] by auto
      with True show ?thesis by (simp add: bit_simps)
    next
      case False
      then have "\<not> bit (le_word bs :: 'a word) i" using bound [of i] len by simp
      with False show ?thesis by (simp add: bit_simps)
    qed
  qed
  have "le_bytes (length bs) (le_word bs :: 'a word) = bs" using Cons.IH len by simp
  then show ?case by (simp only: list.size le_word.simps le_bytes.simps head rest add_0_right add_Suc_right)
qed

lemma le_bytes_le_word_16: "length bs = 2 \<Longrightarrow> le_bytes 2 (le_word bs :: u16) = bs"
  using le_bytes_le_word [of bs, where 'a = 16] by simp

lemma le_bytes_le_word_32: "length bs = 4 \<Longrightarrow> le_bytes 4 (le_word bs :: u32) = bs"
  using le_bytes_le_word [of bs, where 'a = 32] by simp

lemma le_bytes_le_word_64: "length bs = 8 \<Longrightarrow> le_bytes 8 (le_word bs :: u64) = bs"
  using le_bytes_le_word [of bs, where 'a = 64] by simp

lemma le_bytes_le_word_8: "length bs = Suc 0 \<Longrightarrow> le_bytes (Suc 0) (le_word bs :: u8) = bs"
  using le_bytes_le_word [of bs, where 'a = 8] by simp

lemmas le_bytes_inverse =
  le_bytes_le_word_8 le_bytes_le_word_16 le_bytes_le_word_32 le_bytes_le_word_64

text \<open>Images and readings of concrete width, for evaluation.\<close>

lemma le_bytes_eval:
  "le_bytes 2 w = [ucast w, ucast (drop_bit 8 w)]"
  "le_bytes 4 w = [ucast w, ucast (drop_bit 8 w), ucast (drop_bit 16 w), ucast (drop_bit 24 w)]"
  "le_bytes 8 w = [ucast w, ucast (drop_bit 8 w), ucast (drop_bit 16 w), ucast (drop_bit 24 w),
     ucast (drop_bit 32 w), ucast (drop_bit 40 w), ucast (drop_bit 48 w), ucast (drop_bit 56 w)]"
proof -
  have n: "2 = Suc (Suc 0)" "4 = Suc (Suc (Suc (Suc 0)))"
    "8 = Suc (Suc (Suc (Suc (Suc (Suc (Suc (Suc 0)))))))" by simp_all
  show "le_bytes 2 w = [ucast w, ucast (drop_bit 8 w)]"
    by (subst n(1)) simp
  show "le_bytes 4 w = [ucast w, ucast (drop_bit 8 w), ucast (drop_bit 16 w), ucast (drop_bit 24 w)]"
    by (subst n(2)) simp
  have "le_bytes (Suc (Suc (Suc (Suc (Suc (Suc (Suc (Suc 0)))))))) w =
    [ucast w, ucast (drop_bit 8 w), ucast (drop_bit 16 w), ucast (drop_bit 24 w),
     ucast (drop_bit 32 w), ucast (drop_bit 40 w), ucast (drop_bit 48 w), ucast (drop_bit 56 w)]"
    by simp
  then show "le_bytes 8 w = [ucast w, ucast (drop_bit 8 w), ucast (drop_bit 16 w),
     ucast (drop_bit 24 w), ucast (drop_bit 32 w), ucast (drop_bit 40 w), ucast (drop_bit 48 w),
     ucast (drop_bit 56 w)]"
    by (simp only: n(3) [symmetric])
qed

section \<open>Plain-old-data types\<close>

text \<open>Tables of entries of one width.\<close>

definition table_enc :: "('a \<Rightarrow> bytes) \<Rightarrow> 'a list \<Rightarrow> bytes" where
  "table_enc enc xs = concat (map enc xs)"

definition table_dec :: "(bytes \<Rightarrow> 'a) \<Rightarrow> nat \<Rightarrow> nat \<Rightarrow> bytes \<Rightarrow> 'a list" where
  "table_dec dec width n bs = map (\<lambda>i. dec (bslice (i * width) width bs)) [0..<n]"

text \<open>
  \<open>enc\<close> is the image, \<open>dec\<close> reads one, \<open>width\<close> is \<^verbatim>\<open>sizeof\<close>, and \<open>wf\<close> says that the array members
  have the length of their C++ declaration.
\<close>

locale pod =
  fixes enc :: "'a \<Rightarrow> bytes"
    and dec :: "bytes \<Rightarrow> 'a"
    and width :: nat
    and wf :: "'a \<Rightarrow> bool"
  assumes width_pos: "0 < width"
    and length_enc: "wf x \<Longrightarrow> length (enc x) = width"
    and dec_enc: "wf x \<Longrightarrow> dec (enc x) = x"
    and wf_dec: "length bs = width \<Longrightarrow> wf (dec bs)"
    and enc_dec: "length bs = width \<Longrightarrow> enc (dec bs) = bs"
begin

abbreviation enc_table :: "'a list \<Rightarrow> bytes" where
  "enc_table \<equiv> table_enc enc"

abbreviation dec_table :: "nat \<Rightarrow> bytes \<Rightarrow> 'a list" where
  "dec_table \<equiv> table_dec dec width"

lemmas enc_table_def = table_enc_def [of enc]

lemmas dec_table_def = table_dec_def [of dec width]

lemma length_enc_table: "list_all wf xs \<Longrightarrow> length (enc_table xs) = length xs * width"
  by (induction xs) (auto simp: enc_table_def length_enc)

lemma bslice_enc_table:
  "list_all wf xs \<Longrightarrow> i < length xs \<Longrightarrow> bslice (i * width) width (enc_table xs) = enc (xs ! i)"
proof (induction xs arbitrary: i)
  case Nil
  then show ?case by simp
next
  case (Cons x xs)
  have x: "length (enc x) = width" using Cons.prems by (simp add: length_enc)
  show ?case
  proof (cases i)
    case 0
    then show ?thesis using x by (simp add: enc_table_def bslice_def)
  next
    case (Suc j)
    then have "bslice (i * width) width (enc_table (x # xs)) =
        bslice (j * width) width (enc_table xs)"
      using x by (simp add: enc_table_def bslice_append_right)
    then show ?thesis using Cons Suc by simp
  qed
qed

lemma dec_table_enc_table:
  assumes "list_all wf xs"
  shows "dec_table (length xs) (enc_table xs) = xs"
proof (rule nth_equalityI)
  show "length (dec_table (length xs) (enc_table xs)) = length xs" by (simp add: dec_table_def)
next
  fix i
  assume "i < length (dec_table (length xs) (enc_table xs))"
  then have i: "i < length xs" by (simp add: dec_table_def)
  then have "wf (xs ! i)" using assms by (simp add: list_all_length)
  then show "dec_table (length xs) (enc_table xs) ! i = xs ! i"
    using i by (simp add: dec_table_def bslice_enc_table [OF assms] dec_enc)
qed

lemma dec_table_enc_table_n: "length xs = n \<Longrightarrow> list_all wf xs \<Longrightarrow> dec_table n (enc_table xs) = xs"
  using dec_table_enc_table by blast

lemma enc_table_dec_table:
  assumes "length bs = n * width"
  shows "enc_table (dec_table n bs) = bs"
  using assms
proof (induction n arbitrary: bs)
  case 0
  then show ?case by (simp add: enc_table_def dec_table_def)
next
  case (Suc n)
  let ?r = "drop width bs"
  have hd: "enc (dec (bslice 0 width bs)) = take width bs"
    using Suc.prems by (subst enc_dec) (simp_all add: bslice_def)
  have tl: "map (\<lambda>i. dec (bslice (i * width) width bs)) [1..<Suc n] = dec_table n ?r"
    by (rule nth_equalityI) (simp_all add: dec_table_def bslice_def add.commute del: upt_Suc)
  have "[0..<Suc n] = 0 # [1..<Suc n]" by (simp add: upt_conv_Cons del: upt_Suc)
  then have "dec_table (Suc n) bs = dec (bslice 0 width bs) # dec_table n ?r"
    by (simp only: dec_table_def [of "Suc n"] list.map tl mult_0)
  then have "enc_table (dec_table (Suc n) bs) =
      enc (dec (bslice 0 width bs)) @ enc_table (dec_table n ?r)"
    by (simp add: enc_table_def)
  also have "\<dots> = take width bs @ ?r" using Suc by (simp add: hd)
  finally show ?case by simp
qed

lemma wf_dec_table: "n * width \<le> length bs \<Longrightarrow> list_all wf (dec_table n bs)"
proof -
  assume len: "n * width \<le> length bs"
  have "length (bslice (i * width) width bs) = width" if "i < n" for i
  proof -
    have "Suc i * width \<le> n * width" using that by (intro mult_le_mono1) simp
    then show ?thesis using len by simp
  qed
  then show ?thesis by (auto simp: list_all_length dec_table_def wf_dec)
qed

lemma length_dec_table [simp]: "length (dec_table n bs) = n"
  by (simp add: dec_table_def)

lemma nth_dec_table [simp]: "i < n \<Longrightarrow> dec_table n bs ! i = dec (bslice (i * width) width bs)"
  by (simp add: dec_table_def)

lemma dec_inject: "length as = width \<Longrightarrow> length bs = width \<Longrightarrow> dec as = dec bs \<Longrightarrow> as = bs"
  by (metis enc_dec)

end

text \<open>The integers themselves are the first instances.\<close>

lemma list_all_True [simp]: "list_all (\<lambda>_. True) xs"
  by (simp add: list_all_iff)

interpretation pod_u16: pod "le_bytes 2" "le_word :: bytes \<Rightarrow> u16" 2 "\<lambda>_. True"
  by unfold_locales (simp_all add: le_bytes_le_word_16)

interpretation pod_u32: pod "le_bytes 4" "le_word :: bytes \<Rightarrow> u32" 4 "\<lambda>_. True"
  by unfold_locales (simp_all add: le_bytes_le_word_32)

interpretation pod_u64: pod "le_bytes 8" "le_word :: bytes \<Rightarrow> u64" 8 "\<lambda>_. True"
  by unfold_locales (simp_all add: le_bytes_le_word_64)

end
