(* ===== verification/Elf_Types.thy ===== *)
theory Elf_Types imports Elf_Bytes begin

text \<open>
  The ELF structures and constants of \<^verbatim>\<open>core/include/vpux_elf/types\<close>: every structure as a
  record with the members of its C++ declaration, its memory image and the proof that the image is
  a bijection (an interpretation of \<open>pod\<close>), and the packing of symbol and relocation information
  (\<^verbatim>\<open>symbol_entry.cpp\<close>, \<^verbatim>\<open>relocation_entry.cpp\<close>). Array members (\<^verbatim>\<open>e_ident\<close>, \<^verbatim>\<open>n_name\<close>,
  \<^verbatim>\<open>n_desc\<close>) are lists whose length the \<open>wf_\<close> predicates fix. The signed \<^verbatim>\<open>r_addend\<close> is held as the
  64 bits of its two's complement; \<open>sint\<close> reads its value.
\<close>

named_theorems elf_consts \<open>values of the ELF constants\<close>

section \<open>Constants\<close>

subsection \<open>File header\<close>

definition EI_MAG0 :: u8 where [elf_consts]: "EI_MAG0 = 0"
definition EI_MAG1 :: u8 where [elf_consts]: "EI_MAG1 = 1"
definition EI_MAG2 :: u8 where [elf_consts]: "EI_MAG2 = 2"
definition EI_MAG3 :: u8 where [elf_consts]: "EI_MAG3 = 3"
definition EI_CLASS :: u8 where [elf_consts]: "EI_CLASS = 4"
definition EI_DATA :: u8 where [elf_consts]: "EI_DATA = 5"
definition EI_VERSION :: u8 where [elf_consts]: "EI_VERSION = 6"
definition EI_OSABI :: u8 where [elf_consts]: "EI_OSABI = 7"
definition EI_ABIVERSION :: u8 where [elf_consts]: "EI_ABIVERSION = 8"
definition EI_PAD :: u8 where [elf_consts]: "EI_PAD = 9"
definition EI_NIDENT :: u8 where [elf_consts]: "EI_NIDENT = 16"
definition ELFMAG0 :: u8 where [elf_consts]: "ELFMAG0 = 0x7f"
definition ELFMAG1 :: u8 where [elf_consts]: "ELFMAG1 = 0x45"
definition ELFMAG2 :: u8 where [elf_consts]: "ELFMAG2 = 0x4c"
definition ELFMAG3 :: u8 where [elf_consts]: "ELFMAG3 = 0x46"
definition ELFCLASSNONE :: u8 where [elf_consts]: "ELFCLASSNONE = 0"
definition ELFCLASS32 :: u8 where [elf_consts]: "ELFCLASS32 = 1"
definition ELFCLASS64 :: u8 where [elf_consts]: "ELFCLASS64 = 2"
definition ELFDATANONE :: u8 where [elf_consts]: "ELFDATANONE = 0"
definition ELFDATA2LSB :: u8 where [elf_consts]: "ELFDATA2LSB = 1"
definition ELFDATA2MSB :: u8 where [elf_consts]: "ELFDATA2MSB = 2"
definition ET_NONE :: u16 where [elf_consts]: "ET_NONE = 0"
definition ET_REL :: u16 where [elf_consts]: "ET_REL = 1"
definition ET_EXEC :: u16 where [elf_consts]: "ET_EXEC = 2"
definition ET_DYN :: u16 where [elf_consts]: "ET_DYN = 3"
definition ET_CORE :: u16 where [elf_consts]: "ET_CORE = 4"
definition ET_LOSUNW :: u16 where [elf_consts]: "ET_LOSUNW = 0xfefe"
definition ET_SUNW_ANCILLARY :: u16 where [elf_consts]: "ET_SUNW_ANCILLARY = 0xfefe"
definition ET_HISUNW :: u16 where [elf_consts]: "ET_HISUNW = 0xfefd"
definition ET_LOPROC :: u16 where [elf_consts]: "ET_LOPROC = 0xff00"
definition ET_HIPROC :: u16 where [elf_consts]: "ET_HIPROC = 0xffff"
definition EM_NONE :: u16 where [elf_consts]: "EM_NONE = 0"
definition EM_SPARC :: u16 where [elf_consts]: "EM_SPARC = 2"
definition EM_386 :: u16 where [elf_consts]: "EM_386 = 3"
definition EM_SPARC32PLUS :: u16 where [elf_consts]: "EM_SPARC32PLUS = 18"
definition EM_SPARCV9 :: u16 where [elf_consts]: "EM_SPARCV9 = 43"
definition EM_AMD64 :: u16 where [elf_consts]: "EM_AMD64 = 62"
definition EV_NONE :: u32 where [elf_consts]: "EV_NONE = 0"

subsection \<open>Section header\<close>

definition SHT_NULL :: u32 where [elf_consts]: "SHT_NULL = 0"
definition SHT_PROGBITS :: u32 where [elf_consts]: "SHT_PROGBITS = 1"
definition SHT_SYMTAB :: u32 where [elf_consts]: "SHT_SYMTAB = 2"
definition SHT_STRTAB :: u32 where [elf_consts]: "SHT_STRTAB = 3"
definition SHT_RELA :: u32 where [elf_consts]: "SHT_RELA = 4"
definition SHT_HASH :: u32 where [elf_consts]: "SHT_HASH = 5"
definition SHT_DYNAMIC :: u32 where [elf_consts]: "SHT_DYNAMIC = 6"
definition SHT_NOTE :: u32 where [elf_consts]: "SHT_NOTE = 7"
definition SHT_NOBITS :: u32 where [elf_consts]: "SHT_NOBITS = 8"
definition SHT_REL :: u32 where [elf_consts]: "SHT_REL = 9"
definition SHT_SHLIB :: u32 where [elf_consts]: "SHT_SHLIB = 10"
definition SHT_DYNSYM :: u32 where [elf_consts]: "SHT_DYNSYM = 11"
definition SHT_LOPROC :: u32 where [elf_consts]: "SHT_LOPROC = 0x70000000"
definition SHT_HIPROC :: u32 where [elf_consts]: "SHT_HIPROC = 0x7fffffff"
definition SHT_LOUSER :: u32 where [elf_consts]: "SHT_LOUSER = 0x80000000"
definition SHT_HIUSER :: u32 where [elf_consts]: "SHT_HIUSER = 0xffffffff"
definition SHF_NONE :: u64 where [elf_consts]: "SHF_NONE = 0x0"
definition SHF_WRITE :: u64 where [elf_consts]: "SHF_WRITE = 0x1"
definition SHF_ALLOC :: u64 where [elf_consts]: "SHF_ALLOC = 0x2"
definition SHF_EXECINSTR :: u64 where [elf_consts]: "SHF_EXECINSTR = 0x4"
definition SHF_INFO_LINK :: u64 where [elf_consts]: "SHF_INFO_LINK = 0x40"
definition SHF_MASKOS :: u64 where [elf_consts]: "SHF_MASKOS = 0xff00000"
definition SHF_MASKPROC :: u64 where [elf_consts]: "SHF_MASKPROC = 0xf0000000"
definition SHN_UNDEF :: u32 where [elf_consts]: "SHN_UNDEF = 0"
definition SHN_LORESERVE :: u32 where [elf_consts]: "SHN_LORESERVE = 0xff00"
definition SHN_LOPROC :: u32 where [elf_consts]: "SHN_LOPROC = 0xff00"
definition SHN_HIPROC :: u32 where [elf_consts]: "SHN_HIPROC = 0xff1f"
definition SHN_LOOS :: u32 where [elf_consts]: "SHN_LOOS = 0xff20"
definition SHN_HIOS :: u32 where [elf_consts]: "SHN_HIOS = 0xff3f"
definition SHN_ABS :: u32 where [elf_consts]: "SHN_ABS = 0xfff1"
definition SHN_COMMON :: u32 where [elf_consts]: "SHN_COMMON = 0xfff2"
definition SHN_XINDEX :: u32 where [elf_consts]: "SHN_XINDEX = 0xffff"
definition SHN_HIRESERVE :: u32 where [elf_consts]: "SHN_HIRESERVE = 0xffff"
definition NT_GNU_ABI_TAG :: u32 where [elf_consts]: "NT_GNU_ABI_TAG = 1"
definition NT_GNU_HWCAP :: u32 where [elf_consts]: "NT_GNU_HWCAP = 2"
definition NT_GNU_BUILD_ID :: u32 where [elf_consts]: "NT_GNU_BUILD_ID = 3"
definition NT_GNU_GOLD_VERSION :: u32 where [elf_consts]: "NT_GNU_GOLD_VERSION = 4"
definition NT_GNU_PROPERTY_TYPE_0 :: u32 where [elf_consts]: "NT_GNU_PROPERTY_TYPE_0 = 5"
definition ELF_NOTE_OS_LINUX :: u8 where [elf_consts]: "ELF_NOTE_OS_LINUX = 0"
definition ELF_NOTE_OS_GNU :: u8 where [elf_consts]: "ELF_NOTE_OS_GNU = 1"
definition ELF_NOTE_OS_SOLARIS2 :: u8 where [elf_consts]: "ELF_NOTE_OS_SOLARIS2 = 2"
definition ELF_NOTE_OS_FREEBSD :: u8 where [elf_consts]: "ELF_NOTE_OS_FREEBSD = 3"

subsection \<open>Symbols\<close>

definition STB_LOCAL :: u8 where [elf_consts]: "STB_LOCAL = 0"
definition STB_GLOBAL :: u8 where [elf_consts]: "STB_GLOBAL = 1"
definition STB_WEAK :: u8 where [elf_consts]: "STB_WEAK = 2"
definition STB_LOOS :: u8 where [elf_consts]: "STB_LOOS = 10"
definition STB_HIOS :: u8 where [elf_consts]: "STB_HIOS = 12"
definition STB_LOPROC :: u8 where [elf_consts]: "STB_LOPROC = 13"
definition STB_HIPROC :: u8 where [elf_consts]: "STB_HIPROC = 15"
definition STT_NOTYPE :: u8 where [elf_consts]: "STT_NOTYPE = 0"
definition STT_OBJECT :: u8 where [elf_consts]: "STT_OBJECT = 1"
definition STT_FUNC :: u8 where [elf_consts]: "STT_FUNC = 2"
definition STT_SECTION :: u8 where [elf_consts]: "STT_SECTION = 3"
definition STT_FILE :: u8 where [elf_consts]: "STT_FILE = 4"
definition STT_COMMON :: u8 where [elf_consts]: "STT_COMMON = 5"
definition STT_TLS :: u8 where [elf_consts]: "STT_TLS = 6"
definition STT_LOOS :: u8 where [elf_consts]: "STT_LOOS = 10"
definition STT_HIOS :: u8 where [elf_consts]: "STT_HIOS = 12"
definition STT_LOPROC :: u8 where [elf_consts]: "STT_LOPROC = 13"
definition STT_SPARC_REGISTER :: u8 where [elf_consts]: "STT_SPARC_REGISTER = 13"
definition STT_HIPROC :: u8 where [elf_consts]: "STT_HIPROC = 15"
definition STV_DEFAULT :: u8 where [elf_consts]: "STV_DEFAULT = 0"
definition STV_INTERNAL :: u8 where [elf_consts]: "STV_INTERNAL = 1"
definition STV_HIDDEN :: u8 where [elf_consts]: "STV_HIDDEN = 2"
definition STV_PROTECTED :: u8 where [elf_consts]: "STV_PROTECTED = 3"
definition STV_EXPORTED :: u8 where [elf_consts]: "STV_EXPORTED = 4"
definition STV_SINGLETON :: u8 where [elf_consts]: "STV_SINGLETON = 5"
definition STV_ELIMINATE :: u8 where [elf_consts]: "STV_ELIMINATE = 6"

subsection \<open>NPU extensions\<close>

definition R_VPU_64 :: u32 where [elf_consts]: "R_VPU_64 = 0"
definition R_VPU_64_OR :: u32 where [elf_consts]: "R_VPU_64_OR = 1"
definition R_VPU_DISP40_RTM :: u32 where [elf_consts]: "R_VPU_DISP40_RTM = 2"
definition R_VPU_64_LSHIFT :: u32 where [elf_consts]: "R_VPU_64_LSHIFT = 3"
definition R_VPU_32 :: u32 where [elf_consts]: "R_VPU_32 = 4"
definition R_VPU_32_RTM :: u32 where [elf_consts]: "R_VPU_32_RTM = 5"
definition R_VPU_32_SUM :: u32 where [elf_consts]: "R_VPU_32_SUM = 6"
definition R_VPU_32_MULTICAST_BASE :: u32 where [elf_consts]: "R_VPU_32_MULTICAST_BASE = 7"
definition R_VPU_32_MULTICAST_BASE_SUB :: u32 where [elf_consts]: "R_VPU_32_MULTICAST_BASE_SUB = 8"
definition R_VPU_DISP28_MULTICAST_OFFSET :: u32 where [elf_consts]: "R_VPU_DISP28_MULTICAST_OFFSET = 9"
definition R_VPU_DISP4_MULTICAST_OFFSET_CMP :: u32 where [elf_consts]: "R_VPU_DISP4_MULTICAST_OFFSET_CMP = 10"
definition R_VPU_16_SUM :: u32 where [elf_consts]: "R_VPU_16_SUM = 1011"
definition R_VPU_64_MULT :: u32 where [elf_consts]: "R_VPU_64_MULT = 1012"
definition R_VPU_64_MULT_SUB :: u32 where [elf_consts]: "R_VPU_64_MULT_SUB = 1013"
definition R_VPU_LO_21 :: u32 where [elf_consts]: "R_VPU_LO_21 = 11"
definition R_VPU_LO_21_SUM :: u32 where [elf_consts]: "R_VPU_LO_21_SUM = 12"
definition R_VPU_LO_21_MULTICAST_BASE :: u32 where [elf_consts]: "R_VPU_LO_21_MULTICAST_BASE = 13"
definition R_VPU_16_LSB_21_RSHIFT_5 :: u32 where [elf_consts]: "R_VPU_16_LSB_21_RSHIFT_5 = 14"
definition R_VPU_LO_21_RSHIFT_4 :: u32 where [elf_consts]: "R_VPU_LO_21_RSHIFT_4 = 15"
definition R_VPU_CMX_LOCAL_RSHIFT_5 :: u32 where [elf_consts]: "R_VPU_CMX_LOCAL_RSHIFT_5 = 16"
definition R_VPU_32_BIT_OR_B21_B26_UNSET :: u32 where [elf_consts]: "R_VPU_32_BIT_OR_B21_B26_UNSET = 17"
definition R_VPU_64_BIT_OR_B21_B26_UNSET :: u32 where [elf_consts]: "R_VPU_64_BIT_OR_B21_B26_UNSET = 18"
definition R_VPU_16_LSB_21_RSHIFT_5_LSHIFT_16 :: u32 where [elf_consts]: "R_VPU_16_LSB_21_RSHIFT_5_LSHIFT_16 = 19"
definition R_VPU_16_LSB_21_RSHIFT_5_LSHIFT_CUSTOM :: u32 where [elf_consts]: "R_VPU_16_LSB_21_RSHIFT_5_LSHIFT_CUSTOM = 20"
definition R_VPU_32_BIT_OR_B21_B26_UNSET_HIGH_16 :: u32 where [elf_consts]: "R_VPU_32_BIT_OR_B21_B26_UNSET_HIGH_16 = 21"
definition R_VPU_32_BIT_OR_B21_B26_UNSET_LOW_16 :: u32 where [elf_consts]: "R_VPU_32_BIT_OR_B21_B26_UNSET_LOW_16 = 22"
definition R_VPU_HIGH_27_BIT_OR :: u32 where [elf_consts]: "R_VPU_HIGH_27_BIT_OR = 23"
definition VPU_STT_ENTRY :: u8 where [elf_consts]: "VPU_STT_ENTRY = STT_LOOS"
definition VPU_SHT_NETDESC :: u32 where [elf_consts]: "VPU_SHT_NETDESC = 0x8aaaaaaa"
definition VPU_SHT_PROF :: u32 where [elf_consts]: "VPU_SHT_PROF = 0x8aaaaaab"
definition VPU_SHT_CMX_METADATA :: u32 where [elf_consts]: "VPU_SHT_CMX_METADATA = 0x8aaaaaac"
definition VPU_SHT_CMX_WORKSPACE :: u32 where [elf_consts]: "VPU_SHT_CMX_WORKSPACE = 0x8aaaaaad"
definition VPU_SHT_PERF_METRICS :: u32 where [elf_consts]: "VPU_SHT_PERF_METRICS = 0x8aaaaaae"
definition VPU_SHT_PLATFORM_INFO :: u32 where [elf_consts]: "VPU_SHT_PLATFORM_INFO = 0x8aaaaaaf"
definition VPU_SHF_JIT :: u64 where [elf_consts]: "VPU_SHF_JIT = 0x100000"
definition VPU_SHF_USERINPUT :: u64 where [elf_consts]: "VPU_SHF_USERINPUT = 0x200000"
definition VPU_SHF_USEROUTPUT :: u64 where [elf_consts]: "VPU_SHF_USEROUTPUT = 0x400000"
definition VPU_SHF_PROFOUTPUT :: u64 where [elf_consts]: "VPU_SHF_PROFOUTPUT = 0x800000"
definition VPU_SHF_PROC_DPU :: u64 where [elf_consts]: "VPU_SHF_PROC_DPU = 0x10000000"
definition VPU_SHF_PROC_DMA :: u64 where [elf_consts]: "VPU_SHF_PROC_DMA = 0x20000000"
definition VPU_SHF_PROC_SHAVE :: u64 where [elf_consts]: "VPU_SHF_PROC_SHAVE = 0x40000000"
definition VPU_RT_SYMTAB :: u32 where [elf_consts]: "VPU_RT_SYMTAB = SHN_LOOS"
definition VPU_NNRD_SYM_NNCXM_SLICE_BASE_ADDR :: u32 where [elf_consts]: "VPU_NNRD_SYM_NNCXM_SLICE_BASE_ADDR = 0"
definition VPU_NNRD_SYM_RTM_IVAR :: u32 where [elf_consts]: "VPU_NNRD_SYM_RTM_IVAR = 1"
definition VPU_NNRD_SYM_RTM_ACT :: u32 where [elf_consts]: "VPU_NNRD_SYM_RTM_ACT = 2"
definition VPU_NNRD_SYM_RTM_DMA0 :: u32 where [elf_consts]: "VPU_NNRD_SYM_RTM_DMA0 = 3"
definition VPU_NNRD_SYM_RTM_DMA1 :: u32 where [elf_consts]: "VPU_NNRD_SYM_RTM_DMA1 = 4"
definition VPU_NNRD_SYM_FIFO_BASE :: u32 where [elf_consts]: "VPU_NNRD_SYM_FIFO_BASE = 5"
definition VPU_NNRD_SYM_BARRIERS_START :: u32 where [elf_consts]: "VPU_NNRD_SYM_BARRIERS_START = 6"
definition VPU_NNRD_SYM_HW_REGISTER :: u32 where [elf_consts]: "VPU_NNRD_SYM_HW_REGISTER = 7"
definition VPU_SH_INFO_FOR_VPU :: u32 where [elf_consts]: "VPU_SH_INFO_FOR_VPU = 0"
definition VPU_SH_ADDR_ALIGN_FOR_VPU :: u32 where [elf_consts]: "VPU_SH_ADDR_ALIGN_FOR_VPU = 64"
definition NT_NPU_MPI_VERSION :: u32 where [elf_consts]: "NT_NPU_MPI_VERSION = 0xA000"

section \<open>Structures\<close>

text \<open>
  The rewrite rules that take a structure's image apart and put it together again: reading a
  member from the concatenation of all members, and joining adjacent ranges of one buffer.
\<close>

lemma bslice_Cons_0: "bslice 0 (Suc 0) (x # xs) = [x]"
  by (simp add: bslice_def)

lemma bslice_Cons_later: "0 < off \<Longrightarrow> bslice off n (x # xs) = bslice (off - 1) n xs"
  by (simp add: bslice_def drop_Cons')

lemma bslice_to_end: "length xs \<le> off + n \<Longrightarrow> bslice off n xs = drop off xs"
  by (simp add: bslice_def)

lemma bslice_then_drop: "k = off + n \<Longrightarrow> bslice off n xs @ drop k xs = drop off xs"
  unfolding bslice_def by (metis append_take_drop_id drop_drop add.commute)

lemma le_word_byte: "(le_word [b] :: u8) = b"
  by simp

lemma byte_then_drop:
  assumes "off < length bs" and "k = Suc off"
  shows "(le_word (bslice off (Suc 0) bs) :: u8) # drop k bs = drop off bs"
proof -
  have "bslice off (Suc 0) bs = [bs ! off]"
    using assms by (simp add: bslice_def take_Suc_conv_app_nth)
  then show ?thesis using assms by (simp add: Cons_nth_drop_Suc)
qed

lemmas struct_layout =
  bslice_append_left bslice_append_right bslice_whole bslice_Cons_0 bslice_Cons_later
  bslice_to_end bslice_then_drop le_bytes_inverse le_word_byte byte_then_drop

record Elf64_Ehdr =
  e_ident :: bytes
  e_type :: u16
  e_machine :: u16
  e_version :: u32
  e_entry :: u64
  e_phoff :: u64
  e_shoff :: u64
  e_flags :: u32
  e_ehsize :: u16
  e_phentsize :: u16
  e_phnum :: u16
  e_shentsize :: u16
  e_shnum :: u16
  e_shstrndx :: u16

definition enc_Elf64_Ehdr :: "Elf64_Ehdr \<Rightarrow> bytes" where
  "enc_Elf64_Ehdr h =
     e_ident h @
     le_bytes 2 (e_type h) @
     le_bytes 2 (e_machine h) @
     le_bytes 4 (e_version h) @
     le_bytes 8 (e_entry h) @
     le_bytes 8 (e_phoff h) @
     le_bytes 8 (e_shoff h) @
     le_bytes 4 (e_flags h) @
     le_bytes 2 (e_ehsize h) @
     le_bytes 2 (e_phentsize h) @
     le_bytes 2 (e_phnum h) @
     le_bytes 2 (e_shentsize h) @
     le_bytes 2 (e_shnum h) @
     le_bytes 2 (e_shstrndx h)"

definition dec_Elf64_Ehdr :: "bytes \<Rightarrow> Elf64_Ehdr" where
  "dec_Elf64_Ehdr bs = \<lparr>
     e_ident = bslice 0 16 bs,
     e_type = le_word (bslice 16 2 bs),
     e_machine = le_word (bslice 18 2 bs),
     e_version = le_word (bslice 20 4 bs),
     e_entry = le_word (bslice 24 8 bs),
     e_phoff = le_word (bslice 32 8 bs),
     e_shoff = le_word (bslice 40 8 bs),
     e_flags = le_word (bslice 48 4 bs),
     e_ehsize = le_word (bslice 52 2 bs),
     e_phentsize = le_word (bslice 54 2 bs),
     e_phnum = le_word (bslice 56 2 bs),
     e_shentsize = le_word (bslice 58 2 bs),
     e_shnum = le_word (bslice 60 2 bs),
     e_shstrndx = le_word (bslice 62 2 bs)\<rparr>"

definition wf_Elf64_Ehdr :: "Elf64_Ehdr \<Rightarrow> bool" where
  "wf_Elf64_Ehdr h \<longleftrightarrow> length (e_ident h) = 16"

interpretation pod_elf64_ehdr: pod enc_Elf64_Ehdr dec_Elf64_Ehdr 64 "wf_Elf64_Ehdr"
  by unfold_locales (simp_all add: enc_Elf64_Ehdr_def dec_Elf64_Ehdr_def wf_Elf64_Ehdr_def struct_layout)

record Elf32_Ehdr =
  e32_ident :: bytes
  e32_type :: u16
  e32_machine :: u16
  e32_version :: u32
  e32_entry :: u32
  e32_phoff :: u32
  e32_shoff :: u32
  e32_flags :: u32
  e32_ehsize :: u16
  e32_phentsize :: u16
  e32_phnum :: u16
  e32_shentsize :: u16
  e32_shnum :: u16
  e32_shstrndx :: u16

definition enc_Elf32_Ehdr :: "Elf32_Ehdr \<Rightarrow> bytes" where
  "enc_Elf32_Ehdr h =
     e32_ident h @
     le_bytes 2 (e32_type h) @
     le_bytes 2 (e32_machine h) @
     le_bytes 4 (e32_version h) @
     le_bytes 4 (e32_entry h) @
     le_bytes 4 (e32_phoff h) @
     le_bytes 4 (e32_shoff h) @
     le_bytes 4 (e32_flags h) @
     le_bytes 2 (e32_ehsize h) @
     le_bytes 2 (e32_phentsize h) @
     le_bytes 2 (e32_phnum h) @
     le_bytes 2 (e32_shentsize h) @
     le_bytes 2 (e32_shnum h) @
     le_bytes 2 (e32_shstrndx h)"

definition dec_Elf32_Ehdr :: "bytes \<Rightarrow> Elf32_Ehdr" where
  "dec_Elf32_Ehdr bs = \<lparr>
     e32_ident = bslice 0 16 bs,
     e32_type = le_word (bslice 16 2 bs),
     e32_machine = le_word (bslice 18 2 bs),
     e32_version = le_word (bslice 20 4 bs),
     e32_entry = le_word (bslice 24 4 bs),
     e32_phoff = le_word (bslice 28 4 bs),
     e32_shoff = le_word (bslice 32 4 bs),
     e32_flags = le_word (bslice 36 4 bs),
     e32_ehsize = le_word (bslice 40 2 bs),
     e32_phentsize = le_word (bslice 42 2 bs),
     e32_phnum = le_word (bslice 44 2 bs),
     e32_shentsize = le_word (bslice 46 2 bs),
     e32_shnum = le_word (bslice 48 2 bs),
     e32_shstrndx = le_word (bslice 50 2 bs)\<rparr>"

definition wf_Elf32_Ehdr :: "Elf32_Ehdr \<Rightarrow> bool" where
  "wf_Elf32_Ehdr h \<longleftrightarrow> length (e32_ident h) = 16"

interpretation pod_elf32_ehdr: pod enc_Elf32_Ehdr dec_Elf32_Ehdr 52 "wf_Elf32_Ehdr"
  by unfold_locales (simp_all add: enc_Elf32_Ehdr_def dec_Elf32_Ehdr_def wf_Elf32_Ehdr_def struct_layout)

record Elf64_Shdr =
  sh_name :: u32
  sh_type :: u32
  sh_flags :: u64
  sh_addr :: u64
  sh_offset :: u64
  sh_size :: u64
  sh_link :: u32
  sh_info :: u32
  sh_addralign :: u64
  sh_entsize :: u64

definition enc_Elf64_Shdr :: "Elf64_Shdr \<Rightarrow> bytes" where
  "enc_Elf64_Shdr h =
     le_bytes 4 (sh_name h) @
     le_bytes 4 (sh_type h) @
     le_bytes 8 (sh_flags h) @
     le_bytes 8 (sh_addr h) @
     le_bytes 8 (sh_offset h) @
     le_bytes 8 (sh_size h) @
     le_bytes 4 (sh_link h) @
     le_bytes 4 (sh_info h) @
     le_bytes 8 (sh_addralign h) @
     le_bytes 8 (sh_entsize h)"

definition dec_Elf64_Shdr :: "bytes \<Rightarrow> Elf64_Shdr" where
  "dec_Elf64_Shdr bs = \<lparr>
     sh_name = le_word (bslice 0 4 bs),
     sh_type = le_word (bslice 4 4 bs),
     sh_flags = le_word (bslice 8 8 bs),
     sh_addr = le_word (bslice 16 8 bs),
     sh_offset = le_word (bslice 24 8 bs),
     sh_size = le_word (bslice 32 8 bs),
     sh_link = le_word (bslice 40 4 bs),
     sh_info = le_word (bslice 44 4 bs),
     sh_addralign = le_word (bslice 48 8 bs),
     sh_entsize = le_word (bslice 56 8 bs)\<rparr>"

interpretation pod_elf64_shdr: pod enc_Elf64_Shdr dec_Elf64_Shdr 64 "\<lambda>_. True"
  by unfold_locales (simp_all add: enc_Elf64_Shdr_def dec_Elf64_Shdr_def struct_layout)

record Elf32_Shdr =
  sh32_name :: u32
  sh32_type :: u32
  sh32_flags :: u32
  sh32_addr :: u32
  sh32_offset :: u32
  sh32_size :: u32
  sh32_link :: u32
  sh32_info :: u32
  sh32_addralign :: u32
  sh32_entsize :: u32

definition enc_Elf32_Shdr :: "Elf32_Shdr \<Rightarrow> bytes" where
  "enc_Elf32_Shdr h =
     le_bytes 4 (sh32_name h) @
     le_bytes 4 (sh32_type h) @
     le_bytes 4 (sh32_flags h) @
     le_bytes 4 (sh32_addr h) @
     le_bytes 4 (sh32_offset h) @
     le_bytes 4 (sh32_size h) @
     le_bytes 4 (sh32_link h) @
     le_bytes 4 (sh32_info h) @
     le_bytes 4 (sh32_addralign h) @
     le_bytes 4 (sh32_entsize h)"

definition dec_Elf32_Shdr :: "bytes \<Rightarrow> Elf32_Shdr" where
  "dec_Elf32_Shdr bs = \<lparr>
     sh32_name = le_word (bslice 0 4 bs),
     sh32_type = le_word (bslice 4 4 bs),
     sh32_flags = le_word (bslice 8 4 bs),
     sh32_addr = le_word (bslice 12 4 bs),
     sh32_offset = le_word (bslice 16 4 bs),
     sh32_size = le_word (bslice 20 4 bs),
     sh32_link = le_word (bslice 24 4 bs),
     sh32_info = le_word (bslice 28 4 bs),
     sh32_addralign = le_word (bslice 32 4 bs),
     sh32_entsize = le_word (bslice 36 4 bs)\<rparr>"

interpretation pod_elf32_shdr: pod enc_Elf32_Shdr dec_Elf32_Shdr 40 "\<lambda>_. True"
  by unfold_locales (simp_all add: enc_Elf32_Shdr_def dec_Elf32_Shdr_def struct_layout)

record VersionNote =
  n_namesz :: u32
  n_descz :: u32
  n_type :: u32
  n_name :: bytes
  n_desc :: "u32 list"

definition enc_VersionNote :: "VersionNote \<Rightarrow> bytes" where
  "enc_VersionNote h =
     le_bytes 4 (n_namesz h) @
     le_bytes 4 (n_descz h) @
     le_bytes 4 (n_type h) @
     n_name h @
     pod_u32.enc_table (n_desc h)"

definition dec_VersionNote :: "bytes \<Rightarrow> VersionNote" where
  "dec_VersionNote bs = \<lparr>
     n_namesz = le_word (bslice 0 4 bs),
     n_descz = le_word (bslice 4 4 bs),
     n_type = le_word (bslice 8 4 bs),
     n_name = bslice 12 4 bs,
     n_desc = pod_u32.dec_table 4 (bslice 16 16 bs)\<rparr>"

definition wf_VersionNote :: "VersionNote \<Rightarrow> bool" where
  "wf_VersionNote h \<longleftrightarrow> length (n_name h) = 4 \<and> length (n_desc h) = 4"

interpretation pod_versionnote: pod enc_VersionNote dec_VersionNote 32 "wf_VersionNote"
  by unfold_locales (simp_all add: enc_VersionNote_def dec_VersionNote_def wf_VersionNote_def
      pod_u32.length_enc_table pod_u32.dec_table_enc_table_n
      pod_u32.enc_table_dec_table struct_layout)

record Elf64_Rel =
  rel_offset :: u64
  rel_info :: u64

definition enc_Elf64_Rel :: "Elf64_Rel \<Rightarrow> bytes" where
  "enc_Elf64_Rel h =
     le_bytes 8 (rel_offset h) @
     le_bytes 8 (rel_info h)"

definition dec_Elf64_Rel :: "bytes \<Rightarrow> Elf64_Rel" where
  "dec_Elf64_Rel bs = \<lparr>
     rel_offset = le_word (bslice 0 8 bs),
     rel_info = le_word (bslice 8 8 bs)\<rparr>"

interpretation pod_elf64_rel: pod enc_Elf64_Rel dec_Elf64_Rel 16 "\<lambda>_. True"
  by unfold_locales (simp_all add: enc_Elf64_Rel_def dec_Elf64_Rel_def struct_layout)

record Elf64_Rela =
  r_offset :: u64
  r_info :: u64
  r_addend :: u64

definition enc_Elf64_Rela :: "Elf64_Rela \<Rightarrow> bytes" where
  "enc_Elf64_Rela h =
     le_bytes 8 (r_offset h) @
     le_bytes 8 (r_info h) @
     le_bytes 8 (r_addend h)"

definition dec_Elf64_Rela :: "bytes \<Rightarrow> Elf64_Rela" where
  "dec_Elf64_Rela bs = \<lparr>
     r_offset = le_word (bslice 0 8 bs),
     r_info = le_word (bslice 8 8 bs),
     r_addend = le_word (bslice 16 8 bs)\<rparr>"

interpretation pod_elf64_rela: pod enc_Elf64_Rela dec_Elf64_Rela 24 "\<lambda>_. True"
  by unfold_locales (simp_all add: enc_Elf64_Rela_def dec_Elf64_Rela_def struct_layout)

record Elf32_Rel =
  rel32_offset :: u32
  rel32_info :: u32

definition enc_Elf32_Rel :: "Elf32_Rel \<Rightarrow> bytes" where
  "enc_Elf32_Rel h =
     le_bytes 4 (rel32_offset h) @
     le_bytes 4 (rel32_info h)"

definition dec_Elf32_Rel :: "bytes \<Rightarrow> Elf32_Rel" where
  "dec_Elf32_Rel bs = \<lparr>
     rel32_offset = le_word (bslice 0 4 bs),
     rel32_info = le_word (bslice 4 4 bs)\<rparr>"

interpretation pod_elf32_rel: pod enc_Elf32_Rel dec_Elf32_Rel 8 "\<lambda>_. True"
  by unfold_locales (simp_all add: enc_Elf32_Rel_def dec_Elf32_Rel_def struct_layout)

record Elf32_Rela =
  r32_offset :: u32
  r32_info :: u32
  r32_addend :: u32

definition enc_Elf32_Rela :: "Elf32_Rela \<Rightarrow> bytes" where
  "enc_Elf32_Rela h =
     le_bytes 4 (r32_offset h) @
     le_bytes 4 (r32_info h) @
     le_bytes 4 (r32_addend h)"

definition dec_Elf32_Rela :: "bytes \<Rightarrow> Elf32_Rela" where
  "dec_Elf32_Rela bs = \<lparr>
     r32_offset = le_word (bslice 0 4 bs),
     r32_info = le_word (bslice 4 4 bs),
     r32_addend = le_word (bslice 8 4 bs)\<rparr>"

interpretation pod_elf32_rela: pod enc_Elf32_Rela dec_Elf32_Rela 12 "\<lambda>_. True"
  by unfold_locales (simp_all add: enc_Elf32_Rela_def dec_Elf32_Rela_def struct_layout)

record Elf64_Sym =
  st_name :: u32
  st_info :: u8
  st_other :: u8
  st_shndx :: u16
  st_value :: u64
  st_size :: u64

definition enc_Elf64_Sym :: "Elf64_Sym \<Rightarrow> bytes" where
  "enc_Elf64_Sym h =
     le_bytes 4 (st_name h) @
     [st_info h] @
     [st_other h] @
     le_bytes 2 (st_shndx h) @
     le_bytes 8 (st_value h) @
     le_bytes 8 (st_size h)"

definition dec_Elf64_Sym :: "bytes \<Rightarrow> Elf64_Sym" where
  "dec_Elf64_Sym bs = \<lparr>
     st_name = le_word (bslice 0 4 bs),
     st_info = le_word (bslice 4 1 bs),
     st_other = le_word (bslice 5 1 bs),
     st_shndx = le_word (bslice 6 2 bs),
     st_value = le_word (bslice 8 8 bs),
     st_size = le_word (bslice 16 8 bs)\<rparr>"

interpretation pod_elf64_sym: pod enc_Elf64_Sym dec_Elf64_Sym 24 "\<lambda>_. True"
  by unfold_locales (simp_all add: enc_Elf64_Sym_def dec_Elf64_Sym_def struct_layout)

record Elf32_Sym =
  st32_name :: u32
  st32_value :: u32
  st32_size :: u32
  st32_info :: u8
  st32_other :: u8
  st32_shndx :: u16

definition enc_Elf32_Sym :: "Elf32_Sym \<Rightarrow> bytes" where
  "enc_Elf32_Sym h =
     le_bytes 4 (st32_name h) @
     le_bytes 4 (st32_value h) @
     le_bytes 4 (st32_size h) @
     [st32_info h] @
     [st32_other h] @
     le_bytes 2 (st32_shndx h)"

definition dec_Elf32_Sym :: "bytes \<Rightarrow> Elf32_Sym" where
  "dec_Elf32_Sym bs = \<lparr>
     st32_name = le_word (bslice 0 4 bs),
     st32_value = le_word (bslice 4 4 bs),
     st32_size = le_word (bslice 8 4 bs),
     st32_info = le_word (bslice 12 1 bs),
     st32_other = le_word (bslice 13 1 bs),
     st32_shndx = le_word (bslice 14 2 bs)\<rparr>"

interpretation pod_elf32_sym: pod enc_Elf32_Sym dec_Elf32_Sym 16 "\<lambda>_. True"
  by unfold_locales (simp_all add: enc_Elf32_Sym_def dec_Elf32_Sym_def struct_layout)

section \<open>Symbol information\<close>

definition elf64STBind :: "u64 \<Rightarrow> u64" where
  "elf64STBind info = drop_bit 4 info"

definition elf64STType :: "u64 \<Rightarrow> u64" where
  "elf64STType info = info AND 0xf"

definition elf64STInfo :: "u64 \<Rightarrow> u64 \<Rightarrow> u64" where
  "elf64STInfo bind type = push_bit 4 bind + (type AND 0xf)"

definition elf64STVisibility :: "u8 \<Rightarrow> u8" where
  "elf64STVisibility visibility = visibility AND 0x3"

section \<open>Relocation information\<close>

definition elf64RSym :: "u64 \<Rightarrow> u32" where
  "elf64RSym info = ucast (drop_bit 32 info)"

definition elf64RType :: "u64 \<Rightarrow> u32" where
  "elf64RType info = ucast info"

definition elf64RInfo :: "u32 \<Rightarrow> u32 \<Rightarrow> u64" where
  "elf64RInfo symb type = push_bit 32 (ucast symb) + ucast type"

text \<open>Packing adds a shifted and a masked part that share no bit, so it is their union.\<close>

lemma elf64STInfo_or: "elf64STInfo bind type = push_bit 4 bind OR (type AND 0xf)"
proof -
  have m: "(0xf :: u64) = mask 4" by (simp add: mask_eq_exp_minus_1)
  have "push_bit 4 bind AND (type AND 0xf) = 0"
    unfolding m by (rule bit_word_eqI) (auto simp: bit_simps)
  then show ?thesis by (simp add: elf64STInfo_def disjunctive_add_eq_or)
qed

lemma elf64RInfo_or: "elf64RInfo symb type = push_bit 32 (ucast symb) OR ucast type"
proof -
  have "push_bit 32 (ucast symb) AND (ucast type :: u64) = 0"
    by (rule bit_word_eqI) (auto simp: bit_simps dest: bit_imp_le_length)
  then show ?thesis by (simp add: elf64RInfo_def disjunctive_add_eq_or)
qed

lemma elf64RSym_RInfo [simp]: "elf64RSym (elf64RInfo symb type) = symb"
  unfolding elf64RInfo_or elf64RSym_def
  by (rule bit_word_eqI) (auto simp: bit_simps dest: bit_imp_le_length)

lemma elf64RType_RInfo [simp]: "elf64RType (elf64RInfo symb type) = type"
  unfolding elf64RInfo_or elf64RType_def
  by (rule bit_word_eqI) (auto simp: bit_simps)

lemma elf64RInfo_surj: "elf64RInfo (elf64RSym info) (elf64RType info) = info"
  unfolding elf64RInfo_or elf64RSym_def elf64RType_def
  by (rule bit_word_eqI) (auto simp: bit_simps)

end
