(* ===== verification/Elf_Utils.thy ===== *)
theory Elf_Utils imports Elf_Types begin

text \<open>
  The helpers of \<^verbatim>\<open>core/src/utils\<close>: the magic test, alignment, the power-of-two test and the flag
  predicates of \<^verbatim>\<open>utils.cpp\<close>; the comparison operators and the compatibility rule of
  \<^verbatim>\<open>version.cpp\<close>; the level variables of \<^verbatim>\<open>log.cpp\<close>. \<^verbatim>\<open>size_t\<close> is 64 bits wide (the code asserts
  that it holds a \<^verbatim>\<open>uintptr_t\<close>), so \<open>alignUp\<close> wraps where the C++ wraps.
\<close>

section \<open>utils.cpp\<close>

text \<open>A null pointer is \<open>None\<close>; the caller guarantees four readable bytes otherwise.\<close>

definition checkELFMagic :: "bytes option \<Rightarrow> bool res" where
  "checkELFMagic elfIdent =
     (case elfIdent of
        None \<Rightarrow> Inl ArgsError
      | Some ident \<Rightarrow>
          if length ident < 4 then Inl UndefinedBehaviour
          else if ident ! unat EI_MAG0 \<noteq> ELFMAG0 \<or> ident ! unat EI_MAG1 \<noteq> ELFMAG1 \<or>
             ident ! unat EI_MAG2 \<noteq> ELFMAG2 \<or> ident ! unat EI_MAG3 \<noteq> ELFMAG3
          then Inr False
          else Inr True)"

definition alignUp :: "u64 \<Rightarrow> u64 \<Rightarrow> u64" where
  "alignUp sz alignment =
     (if sz \<noteq> 0 \<and> alignment \<noteq> 0
      then ((sz + alignment - 1) div alignment) * alignment
      else sz)"

definition isPowerOfTwo :: "u64 \<Rightarrow> bool" where
  "isPowerOfTwo value \<longleftrightarrow> value \<noteq> 0 \<and> (value AND (value - 1)) = 0"

definition hasNPUAccess :: "u64 \<Rightarrow> bool" where
  "hasNPUAccess sectionFlags \<longleftrightarrow>
     sectionFlags AND
       (SHF_EXECINSTR OR VPU_SHF_PROC_DPU OR VPU_SHF_PROC_DMA OR VPU_SHF_PROC_SHAVE) \<noteq> 0"

definition isNetworkIO :: "u64 \<Rightarrow> bool" where
  "isNetworkIO sectionFlags \<longleftrightarrow>
     sectionFlags AND (VPU_SHF_USERINPUT OR VPU_SHF_USEROUTPUT OR VPU_SHF_PROFOUTPUT) \<noteq> 0"

definition hasMemoryFootprint :: "u32 \<Rightarrow> bool" where
  "hasMemoryFootprint sectionType \<longleftrightarrow>
     \<not> (sectionType = SHT_NOBITS \<or> sectionType = VPU_SHT_CMX_METADATA \<or>
        sectionType = VPU_SHT_CMX_WORKSPACE)"

subsection \<open>Alignment\<close>

text \<open>The C++ rounds up by a division; over the naturals this is the least multiple above.\<close>

definition round_up :: "nat \<Rightarrow> nat \<Rightarrow> nat" where
  "round_up n a = (if a = 0 then n else ((n + (a - 1)) div a) * a)"

lemma round_up_ge: "n \<le> round_up n a"
proof (cases "a = 0")
  case False
  have "n + (a - 1) < ((n + (a - 1)) div a) * a + a"
    using False dividend_less_div_times by (simp add: ac_simps)
  then show ?thesis using False by (simp add: round_up_def)
qed (simp add: round_up_def)

lemma round_up_less:
  assumes "0 < a"
  shows "round_up n a < n + a"
proof -
  have "((n + (a - 1)) div a) * a \<le> n + (a - 1)" by (rule div_times_less_eq_dividend)
  moreover have "round_up n a = ((n + (a - 1)) div a) * a" using assms by (simp add: round_up_def)
  ultimately show ?thesis using assms by linarith
qed

lemma round_up_dvd: "a dvd round_up n a \<or> a = 0"
  by (simp add: round_up_def)

lemma round_up_least:
  assumes "0 < a" and "n \<le> m" and "a dvd m"
  shows "round_up n a \<le> m"
proof -
  from assms(3) obtain k where m: "m = k * a" by (auto simp: dvd_def ac_simps)
  have "(n + (a - 1)) div a \<le> (m + (a - 1)) div a" using assms(2) by (intro div_le_mono) simp
  also have "(m + (a - 1)) div a = k"
    using assms(1) div_mult_self3 [of a k "a - 1"] by (simp only: m) (simp add: div_less)
  finally show ?thesis using assms(1) by (simp add: round_up_def m)
qed

lemma round_up_fixed: "a dvd n \<Longrightarrow> round_up n a = n"
  by (metis dvd_0_left_iff le_antisym le_refl not_gr_zero round_up_def round_up_ge round_up_least)

lemma unat_alignUp:
  assumes "unat sz + unat alignment \<le> 2 ^ 64"
  shows "unat (alignUp sz alignment) = round_up (unat sz) (unat alignment)"
proof (cases "sz \<noteq> 0 \<and> alignment \<noteq> 0")
  case True
  then have s: "0 < unat sz" and a: "0 < unat alignment"
    by (simp_all add: unat_gt_0)
  have one: "1 \<le> alignment" using True by (simp add: word_le_nat_alt unat_gt_0 Suc_leI)
  have am: "unat (alignment - 1) = unat alignment - 1"
    using unat_sub [OF one] by simp
  have "unat sz + unat (alignment - 1) < 2 ^ 64" using assms a by (simp only: am)
  then have "unat (sz + (alignment - 1)) = unat sz + unat (alignment - 1)"
    by (rule unat_add_no_wrap)
  then have sum: "unat (sz + alignment - 1) = unat sz + (unat alignment - 1)"
    by (simp only: am add_diff_eq)
  let ?q = "(sz + alignment - 1) div alignment"
  have q: "unat ?q = (unat sz + (unat alignment - 1)) div unat alignment"
    by (simp add: unat_div sum)
  have "unat ?q * unat alignment \<le> unat sz + (unat alignment - 1)"
    unfolding q by (rule div_times_less_eq_dividend)
  also have "\<dots> < 2 ^ 64" using assms a by linarith
  finally have "unat (?q * alignment) = unat ?q * unat alignment"
    by (rule unat_mult_no_wrap)
  then show ?thesis using True a by (simp add: alignUp_def round_up_def q)
next
  case False
  then show ?thesis by (auto simp: alignUp_def round_up_def)
qed

lemma alignUp_wraps:
  assumes "unat s + unat a > 2 ^ 64" and "a \<noteq> 0" "s \<noteq> 0"
  shows "alignUp s a < s"
proof -
  have one: "1 \<le> a" using assms(2) by (simp add: word_le_nat_alt unat_gt_0 Suc_leI)
  have a1: "unat (a - 1) = unat a - 1" using unat_sub [OF one] by simp
  have "s + a - 1 = s + (a - 1)" by simp
  then have v: "unat (s + a - 1) = (unat s + (unat a - 1)) mod 2 ^ 64"
    by (simp only: unat_word_ariths a1) simp
  have "unat s + (unat a - 1) - 2 ^ 64 < 2 ^ 64" using unat_u64_less [of s] unat_u64_less [of a] by linarith
  then have v': "unat (s + a - 1) = unat s + (unat a - 1) - 2 ^ 64"
    unfolding v using assms(1) by (subst le_mod_geq) simp_all
  let ?q = "(s + a - 1) div a"
  have q: "unat ?q * unat a \<le> unat (s + a - 1)"
    by (simp only: unat_div) (rule div_times_less_eq_dividend)
  then have "unat (?q * a) = unat ?q * unat a"
    using unat_u64_less [of "s + a - 1"] by (intro unat_mult_no_wrap) linarith
  then have "unat (alignUp s a) \<le> unat (s + a - 1)"
    using q assms(2,3) by (simp add: alignUp_def)
  also have "\<dots> < unat s" unfolding v' using unat_u64_less [of a] assms(1) by linarith
  finally show ?thesis by (simp add: word_less_nat_alt)
qed

lemma alignUp_0 [simp]: "alignUp 0 a = 0" "alignUp s 0 = s"
  by (simp_all add: alignUp_def)

text \<open>
  C33. Aligning gives the least multiple above, unless the sum wraps. For a value and an alignment
  that are not zero, \<^verbatim>\<open>alignUp\<close> computes the least multiple of the alignment that is not below the
  value, as long as the two together do not exceed 2^64; above that, and only there, it returns
  something smaller than the value it was given, without an error.
\<close>

theorem alignUp_least_or_wraps:
  assumes "s \<noteq> 0" and "a \<noteq> 0"
  shows "if unat s + unat a \<le> 2 ^ 64
    then s \<le> alignUp s a \<and> unat a dvd unat (alignUp s a) \<and>
      (\<forall>m. unat s \<le> m \<longrightarrow> unat a dvd m \<longrightarrow> unat (alignUp s a) \<le> m)
    else alignUp s a < s"
proof (cases "unat s + unat a \<le> 2 ^ 64")
  case True
  have a: "0 < unat a" using assms(2) by (simp add: unat_gt_0)
  have u: "unat (alignUp s a) = round_up (unat s) (unat a)" by (rule unat_alignUp [OF True])
  have "s \<le> alignUp s a" by (simp add: word_le_nat_alt u round_up_ge)
  moreover have "unat a dvd unat (alignUp s a)" using round_up_dvd [of "unat a" "unat s"] a by (simp add: u)
  moreover have "unat (alignUp s a) \<le> m" if "unat s \<le> m" "unat a dvd m" for m
    using round_up_least [OF a that] by (simp add: u)
  ultimately show ?thesis using True by simp
next
  case False
  then have "alignUp s a < s" by (intro alignUp_wraps assms) simp
  then show ?thesis using False by simp
qed

theorem alignUp_least_or_wraps_witness:
  "10 \<le> alignUp 10 8 \<and> 8 dvd unat (alignUp 10 8) \<and> alignUp 0xffffffffffffffff 64 < 0xffffffffffffffff"
  using alignUp_least_or_wraps [of 10 8] alignUp_least_or_wraps [of "0xffffffffffffffff" 64]
  by (simp add: alignUp_def)

subsection \<open>Powers of two\<close>

lemma isPowerOfTwo_exp:
  assumes "k < 64"
  shows "isPowerOfTwo (2 ^ k)"
proof -
  have "(2 :: u64) ^ k AND mask k = 0"
    by (rule bit_word_eqI) (auto simp: bit_simps)
  moreover have "(2 :: u64) ^ k \<noteq> 0"
    using assms by (simp add: exp_eq_zero_iff)
  ultimately show ?thesis by (simp add: isPowerOfTwo_def mask_eq_exp_minus_1)
qed

lemma isPowerOfTwo_imp_exp:
  assumes "isPowerOfTwo v"
  shows "\<exists>k<64. v = 2 ^ k"
proof -
  from assms have nz: "v \<noteq> 0" and and0: "v AND (v - 1) = 0" by (auto simp: isPowerOfTwo_def)
  define k where "k = (LEAST i. bit v i)"
  from nz obtain j where "bit v j" by (auto simp: bit_eq_iff)
  then have bk: "bit v k" unfolding k_def by (rule LeastI)
  have low: "\<not> bit v i" if "i < k" for i
    using that not_less_Least unfolding k_def by blast
  have k: "k < 64" using bit_imp_le_length [OF bk] by simp
  let ?u = "v AND NOT (2 ^ k)"
  have "?u AND 2 ^ k = 0" by (rule bit_word_eqI) (auto simp: bit_simps)
  then have "?u + 2 ^ k = ?u OR 2 ^ k" by (rule disjunctive_add_eq_or)
  also have "\<dots> = v" by (rule bit_word_eqI) (use bk in \<open>auto simp: bit_simps\<close>)
  finally have v: "v = ?u + 2 ^ k" by simp
  have "?u AND mask k = 0"
    by (rule bit_word_eqI) (use low in \<open>auto simp: bit_simps\<close>)
  then have "?u + mask k = ?u OR mask k" by (rule disjunctive_add_eq_or)
  moreover have "v - 1 = ?u + mask k"
    using v by (simp add: mask_eq_exp_minus_1 algebra_simps)
  ultimately have "v AND (?u OR mask k) = 0" using and0 by simp
  then have "bit (v AND (?u OR mask k)) i = bit (0 :: u64) i" for i by simp
  then have "\<not> bit ?u i" for i by (auto simp: bit_simps)
  then have "?u = 0" by (simp add: bit_eq_iff)
  then show ?thesis using v k by auto
qed

lemma isPowerOfTwo_iff: "isPowerOfTwo v \<longleftrightarrow> (\<exists>k<64. v = 2 ^ k)"
  using isPowerOfTwo_exp isPowerOfTwo_imp_exp by blast

lemma isPowerOfTwo_dvd: assumes "isPowerOfTwo x" "isPowerOfTwo y" "unat x \<le> unat y" shows "unat x dvd unat y"
proof -
  obtain i j where i: "i < 64" "x = 2 ^ i" and j: "j < 64" "y = 2 ^ j"
    using assms(1,2) isPowerOfTwo_imp_exp by meson
  have u: "unat (2 ^ k :: u64) = 2 ^ k" if "k < 64" for k
    using that power_strict_increasing [of k 64 "2 :: nat"] unat_of_nat_u64 [of "2 ^ k"] by simp
  have "(2 :: nat) ^ i \<le> 2 ^ j" using assms(3) by (simp only: i j u)
  then have "i \<le> j" using power_le_imp_le_exp [of 2 i j] by simp
  then show ?thesis by (simp add: i j u le_imp_power_dvd)
qed

text \<open>Masking with \<open>alignment - 1\<close> tests divisibility for a power of two.\<close>

lemma and_pred_zero_iff_dvd:
  assumes "isPowerOfTwo a"
  shows "addr AND (a - 1) = 0 \<longleftrightarrow> unat a dvd unat addr"
proof -
  from assms obtain k where k: "k < 64" and a: "a = 2 ^ k" using isPowerOfTwo_imp_exp by blast
  have "addr AND (a - 1) = take_bit k addr" by (simp add: a take_bit_eq_mask mask_eq_exp_minus_1)
  moreover have "unat (take_bit k addr) = unat addr mod 2 ^ k"
    by (simp only: unsigned_take_bit_eq) (simp add: take_bit_eq_mod)
  moreover have "unat a = 2 ^ k"
    using k power_strict_increasing [of k 64 "2 :: nat"] unat_of_nat_u64 [of "2 ^ k"]
    by (simp add: a)
  ultimately show ?thesis by (metis dvd_eq_mod_eq_0 unat_eq_zero)
qed

section \<open>version.cpp\<close>

text \<open>
  Two sources of confusion are kept as they are: the comparison operators ignore \<open>isValid\<close>, and
  \<open>checkValidity\<close> asks for a positive major number as well as for the flag. The default
  constructed version is all zero and invalid.
\<close>

datatype version_type = UNKNOWN_VERSION | ELF_ABI_VERSION | MAPPED_INFERENCE_VERSION

definition version_default :: version where
  "version_default = Version 0 0 0 False"

definition version_of_note :: "VersionNote \<Rightarrow> version" where
  "version_of_note note = Version (n_desc note ! 1) (n_desc note ! 2) (n_desc note ! 3) True"

definition checkValidity :: "version \<Rightarrow> bool" where
  "checkValidity v \<longleftrightarrow> isValid v \<and> major v > 0"

definition version_eq :: "version \<Rightarrow> version \<Rightarrow> bool" where
  "version_eq v w \<longleftrightarrow> major v = major w \<and> minor v = minor w \<and> patch v = patch w"

definition version_ne :: "version \<Rightarrow> version \<Rightarrow> bool" where
  "version_ne v w \<longleftrightarrow> \<not> version_eq v w"

text \<open>\<^verbatim>\<open>std::tie\<close> compares lexicographically.\<close>

definition version_lt :: "version \<Rightarrow> version \<Rightarrow> bool" where
  "version_lt v w \<longleftrightarrow>
     major v < major w \<or>
     major v = major w \<and> (minor v < minor w \<or> minor v = minor w \<and> patch v < patch w)"

definition version_gt :: "version \<Rightarrow> version \<Rightarrow> bool" where
  "version_gt v w \<longleftrightarrow> \<not> version_lt v w \<and> version_ne v w"

definition version_le :: "version \<Rightarrow> version \<Rightarrow> bool" where
  "version_le v w \<longleftrightarrow> \<not> version_gt v w"

definition version_ge :: "version \<Rightarrow> version \<Rightarrow> bool" where
  "version_ge v w \<longleftrightarrow> \<not> version_lt v w"

text \<open>
  The outcome of the compatibility test: it throws, or it logs at one of two levels. The level is
  the result, because the log line is all the function leaves behind.
\<close>

datatype log_level = LOG_FATAL | LOG_ERROR | LOG_WARN | LOG_INFO | LOG_TRACE | LOG_DEBUG | LOG_LAST

definition checkVersionCompatibility :: "version \<Rightarrow> version \<Rightarrow> log_level res" where
  "checkVersionCompatibility expectedVersion recievedVersion =
     throw_unless (checkValidity expectedVersion \<and> checkValidity recievedVersion)
       (VersioningError recievedVersion expectedVersion)
     (if major expectedVersion \<noteq> major recievedVersion \<or>
         minor expectedVersion < minor recievedVersion
      then Inl (VersioningError recievedVersion expectedVersion)
      else if minor expectedVersion > minor recievedVersion then Inr LOG_WARN
      else Inr LOG_DEBUG)"

lemmas version_order_defs =
  version_eq_def version_ne_def version_lt_def version_gt_def version_le_def version_ge_def

text \<open>
  The order the operators define, stated once for any type with a strict test and an equality
  test that agree with the reading of a value as a triple.
\<close>

locale triple_order =
  fixes key :: "'a \<Rightarrow> 'k :: linorder"
    and eq lt gt le ge :: "'a \<Rightarrow> 'a \<Rightarrow> bool"
  assumes eq_key: "eq v w \<longleftrightarrow> key v = key w"
    and lt_key: "lt v w \<longleftrightarrow> key v < key w"
    and gt_def: "gt v w \<longleftrightarrow> \<not> lt v w \<and> \<not> eq v w"
    and le_def: "le v w \<longleftrightarrow> \<not> gt v w"
    and ge_def: "ge v w \<longleftrightarrow> \<not> lt v w"
begin

lemma gt_flip: "gt v w \<longleftrightarrow> lt w v"
  by (auto simp: gt_def lt_key eq_key)

lemma le_key: "le v w \<longleftrightarrow> key v \<le> key w"
  by (simp add: le_def gt_flip lt_key not_less)

lemma ge_flip: "ge v w \<longleftrightarrow> le w v"
  by (simp add: ge_def le_key lt_key not_less)

lemma trichotomy: "lt v w \<or> eq v w \<or> gt v w"
  by (auto simp: gt_def)

lemma le_trans: "le u v \<Longrightarrow> le v w \<Longrightarrow> le u w"
  by (simp add: le_key)

lemma le_antisym_eq: "le v w \<Longrightarrow> le w v \<Longrightarrow> eq v w"
  by (simp add: le_key eq_key)

end

text \<open>A version read as one number: no component can carry into the next.\<close>

definition version_key :: "version \<Rightarrow> nat" where
  "version_key v = (unat (major v) * 2 ^ 32 + unat (minor v)) * 2 ^ 32 + unat (patch v)"

lemma pair_key_less:
  fixes a b c d k :: nat
  assumes "b < k" and "d < k"
  shows "a * k + b < c * k + d \<longleftrightarrow> a < c \<or> a = c \<and> b < d"
proof (cases a c rule: linorder_cases)
  case less
  then have "Suc a * k \<le> c * k" by (intro mult_le_mono1) simp
  then show ?thesis using assms less by simp
next
  case greater
  then have "Suc c * k \<le> a * k" by (intro mult_le_mono1) simp
  then show ?thesis using assms greater by simp
qed simp

lemma version_lt_key: "version_lt v w \<longleftrightarrow> version_key v < version_key w"
proof -
  have 1: "unat (x :: u32) < 2 ^ 32" for x using unsigned_less [of x] by simp
  let ?hi = "\<lambda>v. unat (major v) * 2 ^ 32 + unat (minor v)"
  have 3: "?hi v < ?hi w \<longleftrightarrow> major v < major w \<or> major v = major w \<and> minor v < minor w"
    unfolding pair_key_less [OF 1 1] by (simp add: word_less_nat_alt word_unat_eq_iff)
  have 4: "?hi w < ?hi v \<longleftrightarrow> major w < major v \<or> major w = major v \<and> minor w < minor v"
    unfolding pair_key_less [OF 1 1] by (simp add: word_less_nat_alt word_unat_eq_iff)
  have 5: "?hi v = ?hi w \<longleftrightarrow> major v = major w \<and> minor v = minor w"
    using 3 4 by (metis linorder_neq_iff)
  show ?thesis
    unfolding version_key_def pair_key_less [OF 1 1] 3 5 version_lt_def
    by (auto simp: word_less_nat_alt word_unat_eq_iff)
qed

interpretation ver: triple_order version_key version_eq version_lt version_gt version_le version_ge
proof unfold_locales
  fix v w
  show lt: "version_lt v w \<longleftrightarrow> version_key v < version_key w" by (rule version_lt_key)
  have "version_eq v w \<longleftrightarrow> \<not> version_lt v w \<and> \<not> version_lt w v"
    by (auto simp: version_eq_def version_lt_def not_less)
  then show "version_eq v w \<longleftrightarrow> version_key v = version_key w"
    by (auto simp: version_lt_key)
qed (simp_all add: version_gt_def version_ne_def version_le_def version_ge_def)

text \<open>
  C36. The comparison operators of versions define a total order: any two versions are comparable,
  the order is transitive, two versions are below each other exactly if \<^verbatim>\<open>==\<close> holds, and \<^verbatim>\<open>operator<\<close>
  is its strict part, although each operator is written in terms of another.
\<close>

theorem version_operators_total_order:
  "(version_le u v \<or> version_le v u) \<and> (version_le u v \<and> version_le v w \<longrightarrow> version_le u w) \<and>
   (version_le u v \<and> version_le v u \<longleftrightarrow> version_eq u v) \<and>
   (version_lt u v \<longleftrightarrow> version_le u v \<and> version_ne u v) \<and>
   (version_gt u v \<longleftrightarrow> version_lt v u) \<and> (version_ge u v \<longleftrightarrow> version_le v u)"
  by (auto simp: ver.le_key ver.eq_key ver.lt_key ver.gt_flip ver.ge_flip version_ne_def)

theorem version_operators_total_order_witness:
  "version_le (Version 1 2 3 True) (Version 2 0 0 True)"
  using version_operators_total_order
    [of "Version 1 2 3 True" "Version 1 5 0 False" "Version 2 0 0 True"]
  by (simp add: version_order_defs)

section \<open>log.cpp\<close>

text \<open>The enumeration is ordered by its values, which is how \<^verbatim>\<open>VPUX_ELF_LOG\<close> compares levels.\<close>

primrec level_value :: "log_level \<Rightarrow> nat" where
  "level_value LOG_FATAL = 0"
| "level_value LOG_ERROR = 1"
| "level_value LOG_WARN = 2"
| "level_value LOG_INFO = 3"
| "level_value LOG_TRACE = 4"
| "level_value LOG_DEBUG = 5"
| "level_value LOG_LAST = 6"

instantiation log_level :: linorder
begin

definition less_eq_log_level :: "log_level \<Rightarrow> log_level \<Rightarrow> bool" where
  "less_eq_log_level a b \<longleftrightarrow> level_value a \<le> level_value b"

definition less_log_level :: "log_level \<Rightarrow> log_level \<Rightarrow> bool" where
  "less_log_level a b \<longleftrightarrow> level_value a < level_value b"

instance
proof
  fix a b :: log_level
  show "a \<le> b \<Longrightarrow> b \<le> a \<Longrightarrow> a = b"
    by (cases a; cases b) (simp_all add: less_eq_log_level_def)
qed (auto simp: less_eq_log_level_def less_log_level_def)

end

text \<open>
  The logger's state: the static \<^verbatim>\<open>globalLevel\<close> and the unit's own level. \<open>updateLevelVar\<close> ignores
  values from \<^verbatim>\<open>LOG_LAST\<close> up; the test for self-assignment has no effect on the value.
\<close>

record logger =
  globalLevel :: log_level
  unitLevel :: log_level

definition logger_init :: logger where
  "logger_init = \<lparr>globalLevel = LOG_WARN, unitLevel = LOG_ERROR\<rparr>"

definition updateLevelVar :: "log_level \<Rightarrow> log_level \<Rightarrow> log_level" where
  "updateLevelVar levelVar levelVal = (if LOG_LAST > levelVal then levelVal else levelVar)"

definition setGlobalLevel :: "log_level \<Rightarrow> logger \<Rightarrow> logger" where
  "setGlobalLevel level l = l\<lparr>globalLevel := updateLevelVar (globalLevel l) level\<rparr>"

definition setUnitLevel :: "log_level \<Rightarrow> logger \<Rightarrow> logger" where
  "setUnitLevel level l = l\<lparr>unitLevel := updateLevelVar (unitLevel l) level\<rparr>"

definition log_enabled :: "bool \<Rightarrow> log_level \<Rightarrow> logger \<Rightarrow> bool" where
  "log_enabled VPUX_ELF_LOG_ENABLED lvl l \<longleftrightarrow>
     VPUX_ELF_LOG_ENABLED \<and> (lvl \<le> globalLevel l \<or> lvl \<le> unitLevel l)"

text \<open>Whatever levels are requested, the variables index \<^verbatim>\<open>logHeader\<close> within its six entries.\<close>

definition logger_ok :: "logger \<Rightarrow> bool" where
  "logger_ok l \<longleftrightarrow> globalLevel l < LOG_LAST \<and> unitLevel l < LOG_LAST"

lemma logger_ok_init: "logger_ok logger_init"
  by (simp add: logger_ok_def logger_init_def less_log_level_def)

lemma updateLevelVar_less: "v < LOG_LAST \<Longrightarrow> updateLevelVar v x < LOG_LAST"
  by (simp add: updateLevelVar_def)

lemma logger_ok_set:
  "logger_ok l \<Longrightarrow> logger_ok (setGlobalLevel x l)"
  "logger_ok l \<Longrightarrow> logger_ok (setUnitLevel x l)"
  by (simp_all add: logger_ok_def setGlobalLevel_def setUnitLevel_def updateLevelVar_less)

end
