(* ===== verification/Elf_Writer.thy ===== *)
theory Elf_Writer imports Elf_Utils begin

text \<open>
  \<^verbatim>\<open>writer.cpp\<close> and the section, symbol and relocation classes of \<^verbatim>\<open>core/src/writer\<close>. The class
  hierarchy of sections is a record of the common members with a datatype of kinds; a pointer to a
  section is its index in the writer, which \<^verbatim>\<open>setIndex\<close> records and nothing changes, and a pointer
  to a symbol is its section and the index it was created with. The storage the user passes is a
  byte string, and \<^verbatim>\<open>m_startAddr\<close> is an offset in it.
\<close>

section \<open>Symbols\<close>

record Symbol =
  s_name :: bytes
  s_index :: nat
  s_symbol :: Elf64_Sym
  s_relatedSection :: "nat option"

definition Symbol_new :: "bytes \<Rightarrow> Symbol" where
  "Symbol_new name = \<lparr>
     s_name = name,
     s_index = 0,
     s_symbol = \<lparr>st_name = 0,
                 st_info = ucast (elf64STInfo (ucast STB_LOCAL) (ucast STT_NOTYPE)),
                 st_other = elf64STVisibility (ucast STV_DEFAULT),
                 st_shndx = 0, st_value = 0, st_size = 0\<rparr>,
     s_relatedSection = None\<rparr>"

definition symbol_getType :: "Symbol \<Rightarrow> u32" where
  "symbol_getType s = ucast (elf64STType (ucast (st_info (s_symbol s))))"

definition symbol_setType :: "u32 \<Rightarrow> Symbol \<Rightarrow> Symbol" where
  "symbol_setType type s = s\<lparr>s_symbol := (s_symbol s)\<lparr>st_info :=
     ucast (elf64STInfo (elf64STBind (ucast (st_info (s_symbol s)))) (ucast type))\<rparr>\<rparr>"

definition symbol_getBinding :: "Symbol \<Rightarrow> u32" where
  "symbol_getBinding s = ucast (elf64STBind (ucast (st_info (s_symbol s))))"

definition symbol_setBinding :: "u32 \<Rightarrow> Symbol \<Rightarrow> Symbol" where
  "symbol_setBinding bind s = s\<lparr>s_symbol := (s_symbol s)\<lparr>st_info :=
     ucast (elf64STInfo (ucast bind) (elf64STType (ucast (st_info (s_symbol s)))))\<rparr>\<rparr>"

definition symbol_setVisibility :: "u8 \<Rightarrow> Symbol \<Rightarrow> Symbol" where
  "symbol_setVisibility v s = s\<lparr>s_symbol := (s_symbol s)\<lparr>st_other := elf64STVisibility v\<rparr>\<rparr>"

definition symbol_setValue :: "u64 \<Rightarrow> Symbol \<Rightarrow> Symbol" where
  "symbol_setValue v s = s\<lparr>s_symbol := (s_symbol s)\<lparr>st_value := v\<rparr>\<rparr>"

definition symbol_setSize :: "u64 \<Rightarrow> Symbol \<Rightarrow> Symbol" where
  "symbol_setSize n s = s\<lparr>s_symbol := (s_symbol s)\<lparr>st_size := n\<rparr>\<rparr>"

definition symbol_setRelatedSection :: "nat option \<Rightarrow> Symbol \<Rightarrow> Symbol" where
  "symbol_setRelatedSection sec s = s\<lparr>s_relatedSection := sec\<rparr>"

section \<open>Relocations\<close>

text \<open>The symbol is named by its section and its own index.\<close>

record Relocation =
  rl_relocation :: Elf64_Rela
  rl_symbol :: "(nat \<times> nat) option"

definition Relocation_new :: Relocation where
  "Relocation_new = \<lparr>rl_relocation = \<lparr>r_offset = 0, r_info = 0, r_addend = 0\<rparr>, rl_symbol = None\<rparr>"

definition relocation_setOffset :: "u64 \<Rightarrow> Relocation \<Rightarrow> Relocation" where
  "relocation_setOffset off r = r\<lparr>rl_relocation := (rl_relocation r)\<lparr>r_offset := off\<rparr>\<rparr>"

definition relocation_setType :: "u32 \<Rightarrow> Relocation \<Rightarrow> Relocation" where
  "relocation_setType type r = r\<lparr>rl_relocation := (rl_relocation r)
     \<lparr>r_info := elf64RInfo (elf64RSym (r_info (rl_relocation r))) type\<rparr>\<rparr>"

definition relocation_getType :: "Relocation \<Rightarrow> u32" where
  "relocation_getType r = elf64RType (r_info (rl_relocation r))"

definition relocation_setAddend :: "u64 \<Rightarrow> Relocation \<Rightarrow> Relocation" where
  "relocation_setAddend a r = r\<lparr>rl_relocation := (rl_relocation r)\<lparr>r_addend := a\<rparr>\<rparr>"

definition relocation_setSymbol :: "(nat \<times> nat) option \<Rightarrow> Relocation \<Rightarrow> Relocation" where
  "relocation_setSymbol s r = r\<lparr>rl_symbol := s\<rparr>"

definition relocation_setSpecialSymbol :: "u32 \<Rightarrow> Relocation \<Rightarrow> Relocation" where
  "relocation_setSpecialSymbol symb r = r\<lparr>rl_relocation := (rl_relocation r)
     \<lparr>r_info := elf64RInfo symb (elf64RType (r_info (rl_relocation r)))\<rparr>\<rparr>"

definition relocation_getSpecialSymbol :: "Relocation \<Rightarrow> u32" where
  "relocation_getSpecialSymbol r = elf64RSym (r_info (rl_relocation r))"

section \<open>Sections\<close>

text \<open>
  \<open>PlainSection\<close> is the base class itself, of which the null section is an instance. A symbol
  section has its names section, its symbols and its own \<^verbatim>\<open>sh_info\<close>; a relocation section has its
  symbol table, its target and its relocations.
\<close>

datatype section_kind =
    PlainSection
  | BinaryDataSection
  | EmptySection
  | StringSection
  | SymbolSection nat "Symbol list" u32
  | RelocationSection "nat option" "nat option" "Relocation list"

record Section =
  m_kind :: section_kind
  m_name :: bytes
  m_index :: nat
  m_fileAlignRequirement :: nat
  m_header :: Elf64_Shdr
  m_data :: bytes
  m_startAddr :: "u64 option"
  m_currentWriteOffset :: u64

definition Section_new :: "section_kind \<Rightarrow> bytes \<Rightarrow> Section" where
  "Section_new k name = \<lparr>
     m_kind = k, m_name = name, m_index = 0, m_fileAlignRequirement = 1,
     m_header = \<lparr>sh_name = 0, sh_type = SHT_NULL, sh_flags = 0, sh_addr = 0, sh_offset = 0,
                 sh_size = 0, sh_link = ucast SHN_UNDEF, sh_info = 0, sh_addralign = 4,
                 sh_entsize = 0\<rparr>,
     m_data = [], m_startAddr = None, m_currentWriteOffset = 0\<rparr>"

definition on_header :: "(Elf64_Shdr \<Rightarrow> Elf64_Shdr) \<Rightarrow> Section \<Rightarrow> Section" where
  "on_header f s = s\<lparr>m_header := f (m_header s)\<rparr>"

definition setName :: "bytes \<Rightarrow> Section \<Rightarrow> Section" where
  "setName name s = s\<lparr>m_name := name\<rparr>"

definition setAddrAlign :: "u64 \<Rightarrow> Section \<Rightarrow> Section" where
  "setAddrAlign a = on_header (sh_addralign_update (\<lambda>_. a))"

definition setAddr :: "u64 \<Rightarrow> Section \<Rightarrow> Section" where
  "setAddr a = on_header (sh_addr_update (\<lambda>_. a))"

definition setSize :: "u64 \<Rightarrow> Section \<Rightarrow> Section" where
  "setSize n = on_header (sh_size_update (\<lambda>_. n))"

definition setFlags :: "u64 \<Rightarrow> Section \<Rightarrow> Section" where
  "setFlags f = on_header (sh_flags_update (\<lambda>_. f))"

definition maskFlags :: "u64 \<Rightarrow> Section \<Rightarrow> Section" where
  "maskFlags f = on_header (sh_flags_update (\<lambda>old. old OR f))"

definition setType :: "u32 \<Rightarrow> Section \<Rightarrow> Section" where
  "setType t = on_header (sh_type_update (\<lambda>_. t))"

definition setNameOffset :: "nat \<Rightarrow> Section \<Rightarrow> Section" where
  "setNameOffset off = on_header (sh_name_update (\<lambda>_. of_nat off))"

definition setIndex :: "nat \<Rightarrow> Section \<Rightarrow> Section" where
  "setIndex i s = s\<lparr>m_index := i\<rparr>"

definition shiftCurrentWriteAddr :: "u64 \<Rightarrow> Section \<Rightarrow> Section" where
  "shiftCurrentWriteAddr n s = s\<lparr>m_currentWriteOffset := m_currentWriteOffset s + n\<rparr>"

text \<open>
  \<^verbatim>\<open>writeRawBytesToElfStorageVector\<close>: the section writes into the final storage at its own place.
\<close>

definition writeRawBytesToElfStorageVector :: "bytes \<Rightarrow> Section \<Rightarrow> bytes \<Rightarrow> (Section \<times> bytes) res" where
  "writeRawBytesToElfStorageVector source s storage =
     (case m_startAddr s of
        None \<Rightarrow> Inl RuntimeError
      | Some start \<Rightarrow>
          throw_when (m_currentWriteOffset s + of_nat (length source) > sh_size (m_header s)) RuntimeError
          (let pos = unat start + unat (m_currentWriteOffset s)
           in if pos + length source \<le> length storage
              then Inr (shiftCurrentWriteAddr (of_nat (length source)) s, bwrite pos source storage)
              else Inl UndefinedBehaviour))"

subsection \<open>The derived classes\<close>

definition BinaryDataSection_new :: "nat \<Rightarrow> bytes \<Rightarrow> u32 \<Rightarrow> Section" where
  "BinaryDataSection_new sizeof_T name section_type =
     on_header (\<lambda>h. h\<lparr>sh_type := section_type, sh_entsize := of_nat sizeof_T\<rparr>)
       (Section_new BinaryDataSection name)"

text \<open>The objects' bytes are passed: \<open>sizeof_T\<close> of them for each element.\<close>

definition appendData :: "bytes \<Rightarrow> Section \<Rightarrow> bytes \<Rightarrow> (Section \<times> bytes) res" where
  "appendData obj s storage = writeRawBytesToElfStorageVector obj s storage"

definition expandData :: "nat \<Rightarrow> nat \<Rightarrow> Section \<Rightarrow> Section" where
  "expandData sizeof_T sizeInElements s = s\<lparr>m_data := m_data s @ replicate (sizeInElements * sizeof_T) 0\<rparr>"

definition EmptySection_new :: "bytes \<Rightarrow> Section" where
  "EmptySection_new name = on_header (sh_type_update (\<lambda>_. SHT_NOBITS)) (Section_new EmptySection name)"

definition StringSection_new :: "bytes \<Rightarrow> Section" where
  "StringSection_new name =
     (on_header (sh_type_update (\<lambda>_. SHT_STRTAB)) (Section_new StringSection name))\<lparr>m_data := [0]\<rparr>"

definition addString :: "bytes \<Rightarrow> Section \<Rightarrow> nat \<times> Section" where
  "addString name s =
     (if name = [] then (0, s)
      else (let pos = length (m_data s);
                d = m_data s @ name @ [0]
            in (pos, setSize (of_nat (length d)) (s\<lparr>m_data := d\<rparr>))))"

definition push_symbol :: "Symbol \<Rightarrow> Symbol list \<Rightarrow> Symbol list" where
  "push_symbol s xs = xs @ [s\<lparr>s_index := length xs\<rparr>]"

definition SymbolSection_new :: "bytes \<Rightarrow> nat \<Rightarrow> Section" where
  "SymbolSection_new name namesSection =
     (on_header (\<lambda>h. h\<lparr>sh_type := SHT_SYMTAB, sh_entsize := 24\<rparr>)
       (Section_new (SymbolSection namesSection (push_symbol (Symbol_new []) []) 0) name))
       \<lparr>m_fileAlignRequirement := 8\<rparr>"

definition addSymbolEntry :: "bytes \<Rightarrow> Section \<Rightarrow> Section" where
  "addSymbolEntry name s =
     (case m_kind s of
        SymbolSection names symbols info \<Rightarrow>
          s\<lparr>m_kind := SymbolSection names (push_symbol (Symbol_new name) symbols) info\<rparr>
      | _ \<Rightarrow> s)"

definition RelocationSection_new :: "bytes \<Rightarrow> Section" where
  "RelocationSection_new name =
     (on_header (\<lambda>h. h\<lparr>sh_type := SHT_RELA, sh_entsize := 24\<rparr>)
       (Section_new (RelocationSection None None []) name))\<lparr>m_fileAlignRequirement := 8\<rparr>"

definition setSymbolTable :: "nat option \<Rightarrow> Section \<Rightarrow> Section" where
  "setSymbolTable symTab s =
     (case m_kind s of
        RelocationSection _ target relocs \<Rightarrow> s\<lparr>m_kind := RelocationSection symTab target relocs\<rparr>
      | _ \<Rightarrow> s)"

definition setSpecialSymbolTable :: "u32 \<Rightarrow> Section \<Rightarrow> Section" where
  "setSpecialSymbolTable t = on_header (sh_link_update (\<lambda>_. t))"

definition setSectionToPatch :: "nat option \<Rightarrow> Section \<Rightarrow> Section" where
  "setSectionToPatch target s =
     (case m_kind s of
        RelocationSection symTab _ relocs \<Rightarrow> s\<lparr>m_kind := RelocationSection symTab target relocs\<rparr>
      | _ \<Rightarrow> s)"

definition addRelocationEntry :: "Relocation \<Rightarrow> Section \<Rightarrow> Section" where
  "addRelocationEntry r s =
     (case m_kind s of
        RelocationSection symTab target relocs \<Rightarrow>
          s\<lparr>m_kind := RelocationSection symTab target (relocs @ [r])\<rparr>
      | _ \<Rightarrow> s)"

section \<open>The writer\<close>

text \<open>
  \<open>m_elfHeader\<close> is not initialised by the constructor: its first value is whatever the memory
  holds, an argument of \<open>Writer_new\<close>.
\<close>

record Writer =
  m_elfHeader :: Elf64_Ehdr
  m_totalBinarySize :: u64
  m_dataOffset :: u64
  m_sectionHeaderNames :: nat
  m_symbolNames :: nat
  m_sections :: "Section list"
  m_sectionHeaders :: "Elf64_Shdr list"

definition push_section :: "Section \<Rightarrow> Writer \<Rightarrow> Writer" where
  "push_section s w = w\<lparr>m_sections := m_sections w @ [setIndex (length (m_sections w)) s]\<rparr>"

definition Writer_new :: "Elf64_Ehdr \<Rightarrow> Writer" where
  "Writer_new h0 =
     push_section (StringSection_new (map (of_nat \<circ> of_char) ''.symstrtab''))
     (push_section (StringSection_new (map (of_nat \<circ> of_char) ''.strtab''))
     \<lparr>m_elfHeader = h0, m_totalBinarySize = 0, m_dataOffset = 0, m_sectionHeaderNames = 1,
      m_symbolNames = 2, m_sections = [Section_new PlainSection []], m_sectionHeaders = []\<rparr>)"

definition addSection :: "bytes \<Rightarrow> Writer \<Rightarrow> Writer" where
  "addSection name = push_section (Section_new PlainSection name)"

definition addRelocationSection :: "bytes \<Rightarrow> Writer \<Rightarrow> Writer" where
  "addRelocationSection name = push_section (RelocationSection_new name)"

definition addSymbolSection :: "bytes \<Rightarrow> Writer \<Rightarrow> Writer" where
  "addSymbolSection name w = push_section (SymbolSection_new name (m_symbolNames w)) w"

definition addEmptySection :: "bytes \<Rightarrow> Writer \<Rightarrow> Writer" where
  "addEmptySection name = push_section (EmptySection_new name)"

definition addStringSection :: "bytes \<Rightarrow> Writer \<Rightarrow> Writer" where
  "addStringSection name = push_section (StringSection_new name)"

definition addBinaryDataSection :: "nat \<Rightarrow> bytes \<Rightarrow> u32 \<Rightarrow> Writer \<Rightarrow> Writer" where
  "addBinaryDataSection sizeof_T name type = push_section (BinaryDataSection_new sizeof_T name type)"

text \<open>A change that the user makes through the pointer the writer returned.\<close>

definition on_section :: "nat \<Rightarrow> (Section \<Rightarrow> Section) \<Rightarrow> Section list \<Rightarrow> Section list" where
  "on_section i f secs = secs[i := f (secs ! i)]"

definition generateELFHeader :: "Section list \<Rightarrow> Elf64_Ehdr" where
  "generateELFHeader secs = \<lparr>
     e_ident = [ELFMAG0, ELFMAG1, ELFMAG2, ELFMAG3, ELFCLASS64, ELFDATA2LSB, ucast EV_NONE, 0, 0,
                0, 0, 0, 0, 0, 0, 0],
     e_type = ET_REL, e_machine = EM_NONE, e_version = EV_NONE, e_entry = 0, e_phoff = 0,
     e_shoff = 0, e_flags = 0, e_ehsize = 64, e_phentsize = 0, e_phnum = 0, e_shentsize = 64,
     e_shnum = of_nat (length secs), e_shstrndx = 0\<rparr>"

subsection \<open>Finalising sections\<close>

definition symbolEntryOf :: "Section list \<Rightarrow> nat \<Rightarrow> Symbol \<Rightarrow> Elf64_Sym" where
  "symbolEntryOf secs nameOff s = (s_symbol s)
     \<lparr>st_name := of_nat nameOff,
      st_shndx := (case s_relatedSection s of
         Some r \<Rightarrow> of_nat (m_index (secs ! r)) | None \<Rightarrow> 0)\<rparr>"

text \<open>The loop over the symbols: it adds to the names section and to the data of section \<open>i\<close>.\<close>

primrec emit_symbols :: "nat \<Rightarrow> nat \<Rightarrow> Symbol list \<Rightarrow> Section list \<Rightarrow> Section list" where
  "emit_symbols i names [] secs = secs"
| "emit_symbols i names (s # ss) secs =
     (let (off, strtab) = addString (s_name s) (secs ! names);
          secs = secs[names := strtab];
          entry = enc_Elf64_Sym (symbolEntryOf secs off s)
      in emit_symbols i names ss (on_section i (m_data_update (\<lambda>d. d @ entry)) secs))"

definition relocationEntryOf :: "Relocation \<Rightarrow> Elf64_Rela" where
  "relocationEntryOf r =
     (case rl_symbol r of
        Some (sec, symIndex) \<Rightarrow>
          (rl_relocation r)\<lparr>r_info := elf64RInfo (of_nat symIndex) (relocation_getType r)\<rparr>
      | None \<Rightarrow> rl_relocation r)"

definition finish_data :: "Section \<Rightarrow> Section" where
  "finish_data s = setSize (of_nat (length (m_data s))) s"

text \<open>
  \<^verbatim>\<open>finalize\<close>: the stable sort is by binding. A symbol keeps the index it was created with, and
  relocations are emitted with that index. A relocation section without a target dereferences null.
\<close>

definition finalize :: "nat \<Rightarrow> Section list \<Rightarrow> Section list res" where
  "finalize i secs =
     (case m_kind (secs ! i) of
        SymbolSection names symbols info \<Rightarrow>
          (let symbols = sort_key symbol_getBinding symbols;
               secs = on_section i (\<lambda>s. on_header
                 (\<lambda>h. h\<lparr>sh_info := info, sh_link := of_nat (m_index (secs ! names))\<rparr>)
                 (s\<lparr>m_kind := SymbolSection names symbols info\<rparr>)) secs
           in Inr (on_section i finish_data (emit_symbols i names symbols secs)))
      | RelocationSection symTab target relocs \<Rightarrow>
          (case target of
             None \<Rightarrow> Inl UndefinedBehaviour
           | Some p \<Rightarrow>
               Inr (on_section i (\<lambda>s. finish_data
                 (m_data_update (\<lambda>d. d @ concat (map (\<lambda>r. enc_Elf64_Rela (relocationEntryOf r)) relocs))
                 (on_header (\<lambda>h. case symTab of
                      Some t \<Rightarrow> h\<lparr>sh_link := of_nat (m_index (secs ! t))\<rparr> | None \<Rightarrow> h)
                 (maskFlags SHF_INFO_LINK
                 (on_header (sh_info_update (\<lambda>_. of_nat (m_index (secs ! p)))) s))))) secs))
      | _ \<Rightarrow> Inr secs)"

definition finalize_and_name :: "nat \<Rightarrow> nat \<Rightarrow> Section list \<Rightarrow> Section list res" where
  "finalize_and_name names i secs =
     bindE (finalize i secs) (\<lambda>secs.
       let (off, strtab) = addString (m_name (secs ! i)) (secs ! names)
       in Inr (on_section i (setNameOffset off) (secs[names := strtab])))"

subsection \<open>Laying out\<close>

definition isNotEmptySection :: "Section \<Rightarrow> bool" where
  "isNotEmptySection s \<longleftrightarrow> m_kind s \<noteq> EmptySection"

definition occupies :: "Section \<Rightarrow> bool" where
  "occupies s \<longleftrightarrow> isNotEmptySection s \<and> sh_size (m_header s) \<noteq> 0"

text \<open>The sections with their offsets, and the end of the last one.\<close>

primrec layout :: "Section list \<Rightarrow> u64 \<Rightarrow> Section list \<times> u64" where
  "layout [] totalSize = ([], totalSize)"
| "layout (s # ss) totalSize =
     (let totalSize = alignUp totalSize (sh_addralign (m_header s));
          (s, totalSize) = (if occupies s
             then (on_header (sh_offset_update (\<lambda>_. totalSize)) s, totalSize + sh_size (m_header s))
             else (s, totalSize));
          (ss, totalSize) = layout ss totalSize
      in (s # ss, totalSize))"

definition prepareWriter :: "Writer \<Rightarrow> Writer res" where
  "prepareWriter w =
     (let hdr = (generateELFHeader (m_sections w))
            \<lparr>e_shstrndx := of_nat (m_index (m_sections w ! m_sectionHeaderNames w))\<rparr>
      in bindE (foldE (finalize_and_name (m_sectionHeaderNames w)) [0..<length (m_sections w)]
                 (m_sections w)) (\<lambda>secs.
         let curOffset = ucast (e_ehsize hdr) :: u64;
             hdr = (if e_shnum hdr \<noteq> 0
                    then hdr\<lparr>e_shoff := alignUp curOffset (ucast (e_shentsize hdr))\<rparr> else hdr);
             curOffset = (if e_shnum hdr \<noteq> 0 then ucast (ucast (e_shoff hdr) :: u16) else curOffset);
             dataOffset = curOffset + ucast (e_shnum hdr) * ucast (e_shentsize hdr);
             (secs', totalSize) = layout secs dataOffset
         in Inr (w\<lparr>m_elfHeader := hdr, m_dataOffset := dataOffset, m_totalBinarySize := totalSize,
                   m_sections := secs',
                   m_sectionHeaders := m_sectionHeaders w @ map m_header secs'\<rparr>)))"

subsection \<open>Generating the binary\<close>

definition getTotalSize :: "Writer \<Rightarrow> u64" where
  "getTotalSize w = m_totalBinarySize w"

text \<open>
  The bounds are checked against the total size; that the storage really has that many bytes is
  the caller's promise, and writing past its end is undefined.
\<close>

definition writeRawBytesToStorageVector ::
    "u64 \<Rightarrow> u64 \<Rightarrow> bytes \<Rightarrow> bytes \<Rightarrow> (u64 \<times> bytes) res" where
  "writeRawBytesToStorageVector storageSize storageOffset source storage =
     throw_when (unat storageOffset \<ge> unat storageSize) RuntimeError
     (throw_when (unat storageOffset + length source > unat storageSize) RuntimeError
     (if unat storageOffset + length source \<le> length storage
      then Inr (storageOffset + of_nat (length source), bwrite (unat storageOffset) source storage)
      else Inl UndefinedBehaviour))"

text \<open>The source container is passed as its bytes, of which the code always writes all.\<close>

definition writeContainerToStorageVector ::
    "u64 \<Rightarrow> u64 \<Rightarrow> bytes \<Rightarrow> bytes \<Rightarrow> (u64 \<times> bytes) res" where
  "writeContainerToStorageVector storageSize storageOffset source storage =
     (if source = [] then Inr (storageOffset, storage)
      else writeRawBytesToStorageVector storageSize storageOffset source storage)"

definition serializeSection :: "u64 \<Rightarrow> Section \<Rightarrow> bytes \<Rightarrow> bytes res" where
  "serializeSection totalSize s storage =
     (if m_data s \<noteq> []
      then bindE (writeContainerToStorageVector totalSize (sh_offset (m_header s)) (m_data s) storage)
             (\<lambda>(_, storage). Inr storage)
      else Inr storage)"

definition generateELF :: "bytes option \<Rightarrow> Writer \<Rightarrow> (Writer \<times> bytes) res" where
  "generateELF data w =
     (case data of
        None \<Rightarrow> Inl ArgsError
      | Some storage \<Rightarrow>
          bindE (checkELFMagic (Some (e_ident (m_elfHeader w)))) (\<lambda>magic.
          throw_unless magic ImplausibleState
          (throw_unless (m_totalBinarySize w \<noteq> 0) RangeError
          (let totalSize = getTotalSize w
           in bindE (foldE (serializeSection totalSize) (m_sections w) storage) (\<lambda>storage.
              bindE (writeRawBytesToStorageVector totalSize 0 (enc_Elf64_Ehdr (m_elfHeader w)) storage)
                (\<lambda>(off, storage).
              if e_shoff (m_elfHeader w) \<noteq> 0
              then bindE (writeContainerToStorageVector totalSize off
                       (concat (map enc_Elf64_Shdr (m_sectionHeaders w))) storage) (\<lambda>(off, storage).
                   Inr (w\<lparr>m_dataOffset := off\<rparr>, storage))
              else Inr (w\<lparr>m_dataOffset := off\<rparr>, storage)))))))"

definition setSectionsStartAddr :: "bool \<Rightarrow> Writer \<Rightarrow> Writer res" where
  "setSectionsStartAddr hasAddr w =
     throw_unless hasAddr ArgsError
     (Inr (w\<lparr>m_sections := map (\<lambda>s. s\<lparr>m_startAddr := Some (sh_offset (m_header s))\<rparr>) (m_sections w)\<rparr>))"

end
