(* ===== verification/Elf_Monad.thy ===== *)
theory Elf_Monad imports Elf_Prelude begin

text \<open>
  Programs that change state and may throw: a program maps a state to a result and the state it
  leaves behind. The state survives an exception, as the members of a C++ object do. \<open>finallyM\<close> is
  the destructor of a guard object: it runs however the guarded code ends. The locale
  \<open>step_relation\<close> carries the rules by which a relation between the states before and after is
  derived for a whole program from its parts.
\<close>

type_synonym ('s, 'a) prog = "'s \<Rightarrow> 'a res \<times> 's"

definition retM :: "'a \<Rightarrow> ('s, 'a) prog" where
  "retM x s = (Inr x, s)"

definition throwM :: "elf_error \<Rightarrow> ('s, 'a) prog" where
  "throwM e s = (Inl e, s)"

definition bindM :: "('s, 'a) prog \<Rightarrow> ('a \<Rightarrow> ('s, 'b) prog) \<Rightarrow> ('s, 'b) prog" where
  "bindM m f s = (case m s of (Inl e, t) \<Rightarrow> (Inl e, t) | (Inr x, t) \<Rightarrow> f x t)"

definition readM :: "('s \<Rightarrow> 'a) \<Rightarrow> ('s, 'a) prog" where
  "readM f s = (Inr (f s), s)"

definition modifyM :: "('s \<Rightarrow> 's) \<Rightarrow> ('s, unit) prog" where
  "modifyM f s = (Inr (), f s)"

definition liftM :: "'a res \<Rightarrow> ('s, 'a) prog" where
  "liftM r s = (r, s)"

definition throwM_when :: "bool \<Rightarrow> elf_error \<Rightarrow> ('s, 'a) prog \<Rightarrow> ('s, 'a) prog" where
  "throwM_when c e k = (if c then throwM e else k)"

definition throwM_unless :: "bool \<Rightarrow> elf_error \<Rightarrow> ('s, 'a) prog \<Rightarrow> ('s, 'a) prog" where
  "throwM_unless c e k = (if \<not> c then throwM e else k)"

primrec forM :: "('a \<Rightarrow> ('s, unit) prog) \<Rightarrow> 'a list \<Rightarrow> ('s, unit) prog" where
  "forM f [] = retM ()"
| "forM f (x # xs) = bindM (f x) (\<lambda>_. forM f xs)"

primrec mapM :: "('a \<Rightarrow> ('s, 'b) prog) \<Rightarrow> 'a list \<Rightarrow> ('s, 'b list) prog" where
  "mapM f [] = retM []"
| "mapM f (x # xs) = bindM (f x) (\<lambda>y. bindM (mapM f xs) (\<lambda>ys. retM (y # ys)))"

text \<open>The clean-up code itself does not throw: it is a function of the state.\<close>

definition finallyM :: "('s, 'a) prog \<Rightarrow> ('s \<Rightarrow> 's) \<Rightarrow> ('s, 'a) prog" where
  "finallyM m f s = (case m s of (r, t) \<Rightarrow> (r, f t))"

text \<open>Running a program on a component of a larger state.\<close>

definition zoomM :: "('t \<Rightarrow> 's) \<Rightarrow> (('s \<Rightarrow> 's) \<Rightarrow> 't \<Rightarrow> 't) \<Rightarrow> ('s, 'a) prog \<Rightarrow> ('t, 'a) prog" where
  "zoomM get upd m t = (case m (get t) of (r, s) \<Rightarrow> (r, upd (\<lambda>_. s) t))"

named_theorems run \<open>evaluation of programs\<close>

lemmas [run] = retM_def throwM_def readM_def modifyM_def liftM_def

lemma throwM_when_simps [simp]:
  "throwM_when True e k = throwM e" "throwM_when False e k = k"
  by (simp_all add: throwM_when_def)

lemma throwM_unless_simps [simp]:
  "throwM_unless True e k = k" "throwM_unless False e k = throwM e"
  by (simp_all add: throwM_unless_def)

lemma bindM_Inr [run]: "m s = (Inr x, t) \<Longrightarrow> bindM m f s = f x t"
  by (simp add: bindM_def)

lemma bindM_Inl [run]: "m s = (Inl e, t) \<Longrightarrow> bindM m f s = (Inl e, t)"
  by (simp add: bindM_def)

lemma bindM_retM [simp]: "bindM (retM x) f = f x"
  by (rule ext) (simp add: bindM_def retM_def)

lemma bindM_readM: "bindM (readM g) f s = f (g s) s"
  by (simp add: bindM_def readM_def)

lemma bindM_modifyM: "bindM (modifyM g) f s = f () (g s)"
  by (simp add: bindM_def modifyM_def)

lemma bindM_liftM: "bindM (liftM r) f s = (case r of Inl e \<Rightarrow> (Inl e, s) | Inr x \<Rightarrow> f x s)"
  by (simp add: bindM_def liftM_def split: sum.splits)

lemma bindM_throwM [simp]: "bindM (throwM e) f = throwM e"
  by (rule ext) (simp add: bindM_def throwM_def)

lemma bindM_assoc: "bindM (bindM m f) g = bindM m (\<lambda>x. bindM (f x) g)"
  by (rule ext) (auto simp: bindM_def split: prod.splits sum.splits)

lemmas bindM_simps = bindM_readM bindM_modifyM bindM_liftM

lemma bindM_Inr_iff:
  "bindM m f s = (Inr y, u) \<longleftrightarrow> (\<exists>x t. m s = (Inr x, t) \<and> f x t = (Inr y, u))"
  by (auto simp: bindM_def split: prod.splits sum.splits)

lemma bindM_cases:
  assumes "bindM m f s = (r, u)"
  obtains (err) e where "m s = (Inl e, u)" and "r = Inl e"
    | (ok) x t where "m s = (Inr x, t)" and "f x t = (r, u)"
  using assms by (auto simp: bindM_def split: prod.splits sum.splits)

lemma throwM_when_Inr [simp]:
  "throwM_when c e k s = (Inr y, u) \<longleftrightarrow> \<not> c \<and> k s = (Inr y, u)"
  by (simp add: throwM_when_def throwM_def)

lemma throwM_unless_Inr [simp]:
  "throwM_unless c e k s = (Inr y, u) \<longleftrightarrow> c \<and> k s = (Inr y, u)"
  by (simp add: throwM_unless_def throwM_def)

lemma forM_append: "forM f (xs @ ys) = bindM (forM f xs) (\<lambda>_. forM f ys)"
  by (induction xs) (simp_all add: bindM_assoc)

section \<open>Relations between the states before and after\<close>

text \<open>
  \<open>relates R m\<close>: whatever state \<open>m\<close> starts from, \<open>R\<close> holds between that state, how \<open>m\<close> ends
  (\<open>None\<close>, or the exception) and the state it leaves.
\<close>

primrec outcome :: "'a res \<Rightarrow> elf_error option" where
  "outcome (Inl e) = Some e"
| "outcome (Inr x) = None"

definition relates :: "('s \<Rightarrow> elf_error option \<Rightarrow> 's \<Rightarrow> bool) \<Rightarrow> ('s, 'a) prog \<Rightarrow> bool" where
  "relates R m \<longleftrightarrow> (\<forall>s. R s (outcome (fst (m s))) (snd (m s)))"

lemma relatesI: "(\<And>s r t. m s = (r, t) \<Longrightarrow> R s (outcome r) t) \<Longrightarrow> relates R m"
  by (metis relates_def surjective_pairing)

lemma relatesD: "relates R m \<Longrightarrow> m s = (r, t) \<Longrightarrow> R s (outcome r) t"
  by (metis relates_def fst_conv snd_conv)

locale step_relation =
  fixes R :: "'s \<Rightarrow> elf_error option \<Rightarrow> 's \<Rightarrow> bool"
  assumes R_refl: "R s None s"
    and R_trans: "R s None t \<Longrightarrow> R t r u \<Longrightarrow> R s r u"
begin

lemma rel_ret: "relates R (retM x)"
  by (simp add: relates_def retM_def R_refl)

lemma rel_throw: "(\<And>s. R s (Some e) s) \<Longrightarrow> relates R (throwM e)"
  by (simp add: relates_def throwM_def)

lemma rel_read: "relates R (readM f)"
  by (simp add: relates_def readM_def R_refl)

lemma rel_modify: "(\<And>s. R s None (f s)) \<Longrightarrow> relates R (modifyM f)"
  by (simp add: relates_def modifyM_def)

lemma rel_bind:
  assumes "relates R m" and "\<And>x. relates R (f x)"
  shows "relates R (bindM m f)"
proof (rule relatesI)
  fix s r u
  assume "bindM m f s = (r, u)"
  then show "R s (outcome r) u"
  proof (cases rule: bindM_cases)
    case (err e)
    then show ?thesis using relatesD [OF assms(1) err(1)] by simp
  next
    case (ok x t)
    show ?thesis
      using relatesD [OF assms(1) ok(1)] relatesD [OF assms(2) ok(2)] R_trans by simp
  qed
qed

lemma rel_if: "relates R k \<Longrightarrow> relates R l \<Longrightarrow> relates R (if c then k else l)"
  by simp

lemma rel_for: "(\<And>x. x \<in> set xs \<Longrightarrow> relates R (f x)) \<Longrightarrow> relates R (forM f xs)"
  by (induction xs) (simp_all add: rel_ret rel_bind)

lemma rel_map: "(\<And>x. x \<in> set xs \<Longrightarrow> relates R (f x)) \<Longrightarrow> relates R (mapM f xs)"
  by (induction xs) (simp_all add: rel_ret rel_bind)

end

text \<open>Relations that an exception alone does not break.\<close>

locale state_relation = step_relation +
  assumes R_err: "R s (Some e) s"
begin

lemma rel_raise: "relates R (throwM e)"
  by (simp add: rel_throw R_err)

lemma rel_lift: "relates R (liftM r)"
  by (cases r) (simp_all add: relates_def liftM_def R_refl R_err)

lemma rel_when: "relates R k \<Longrightarrow> relates R (throwM_when c e k)"
  by (cases c) (simp_all add: rel_raise)

lemma rel_unless: "relates R k \<Longrightarrow> relates R (throwM_unless c e k)"
  by (cases c) (simp_all add: rel_raise)

lemmas rel_rules = rel_ret rel_raise rel_read rel_lift rel_bind rel_when rel_unless rel_if rel_for
  rel_map

end

text \<open>Every invariant is a state relation.\<close>

definition keeps :: "('s \<Rightarrow> bool) \<Rightarrow> 's \<Rightarrow> elf_error option \<Rightarrow> 's \<Rightarrow> bool" where
  "keeps I s x t \<longleftrightarrow> (I s \<longrightarrow> I t)"

interpretation keeps: state_relation "keeps I"
  by unfold_locales (auto simp: keeps_def)

end
