(* ===== verification/Elf_Buffers.thy ===== *)
theory Elf_Buffers imports Elf_Monad Elf_Utils begin

text \<open>
  \<^verbatim>\<open>buffer_specs.hpp\<close>, \<^verbatim>\<open>device_buffer.hpp\<close>, \<^verbatim>\<open>buffer_manager.hpp\<close>, \<^verbatim>\<open>managed_buffer.cpp\<close> and the
  lock guard. Memory is a list of blocks, each with its base address and its bytes, and a pointer
  is null or a block with an offset, so that two buffers over the same bytes alias as they do in
  the program. \<^verbatim>\<open>ManagedBuffer\<close> objects live in a list of their own and are named by their index,
  which is what a \<^verbatim>\<open>shared_ptr\<close> to one is. The buffer manager and the C++ allocator are the
  environment: records of functions that the caller supplies. Every call into the buffer manager
  is recorded in a trace. \<open>streamGood\<close> is the state of the file stream that a file accessor reads.
\<close>

section \<open>Memory\<close>

datatype ptr = Null | Ptr nat nat

type_synonym mem = "(u64 \<times> bytes) list"

text \<open>The number \<^verbatim>\<open>reinterpret_cast\<close> gives for a pointer.\<close>

primrec ptr_value :: "mem \<Rightarrow> ptr \<Rightarrow> u64" where
  "ptr_value m Null = 0"
| "ptr_value m (Ptr b off) = fst (m ! b) + of_nat off"

primrec ptr_add :: "ptr \<Rightarrow> nat \<Rightarrow> ptr" where
  "ptr_add Null n = Null"
| "ptr_add (Ptr b off) n = Ptr b (off + n)"

text \<open>\<open>valid m p n\<close>: the \<open>n\<close> bytes at \<open>p\<close> are inside one block. No bytes are always accessible.\<close>

primrec valid :: "mem \<Rightarrow> ptr \<Rightarrow> nat \<Rightarrow> bool" where
  "valid m Null n \<longleftrightarrow> n = 0"
| "valid m (Ptr b off) n \<longleftrightarrow> n = 0 \<or> b < length m \<and> off + n \<le> length (snd (m ! b))"

primrec peek :: "mem \<Rightarrow> ptr \<Rightarrow> nat \<Rightarrow> bytes" where
  "peek m Null n = []"
| "peek m (Ptr b off) n = (if n = 0 then [] else bslice off n (snd (m ! b)))"

primrec poke :: "mem \<Rightarrow> ptr \<Rightarrow> bytes \<Rightarrow> mem" where
  "poke m Null bs = m"
| "poke m (Ptr b off) bs =
     (if bs = [] then m else m[b := (fst (m ! b), bwrite off bs (snd (m ! b)))])"

fun apart :: "ptr \<Rightarrow> nat \<Rightarrow> ptr \<Rightarrow> nat \<Rightarrow> bool" where
  "apart (Ptr b i) n (Ptr c j) k \<longleftrightarrow> b \<noteq> c \<or> i + n \<le> j \<or> j + k \<le> i"
| "apart _ n _ k \<longleftrightarrow> True"

text \<open>Reading and copying: outside the blocks, or onto itself, \<^verbatim>\<open>memcpy\<close> is undefined.\<close>

definition read_mem :: "ptr \<Rightarrow> nat \<Rightarrow> mem \<Rightarrow> bytes res" where
  "read_mem p n m = (if valid m p n then Inr (peek m p n) else Inl UndefinedBehaviour)"

definition write_mem :: "ptr \<Rightarrow> bytes \<Rightarrow> mem \<Rightarrow> mem res" where
  "write_mem p bs m =
     (if valid m p (length bs) then Inr (poke m p bs) else Inl UndefinedBehaviour)"

definition memcpy_mem :: "ptr \<Rightarrow> ptr \<Rightarrow> nat \<Rightarrow> mem \<Rightarrow> mem res" where
  "memcpy_mem dst src n m =
     (if valid m dst n \<and> valid m src n \<and> apart dst n src n
      then Inr (poke m dst (peek m src n)) else Inl UndefinedBehaviour)"

lemma nth_list_update_cases: "xs[i := x] ! j = (if i = j \<and> i < length xs then x else xs ! j)"
  by (cases "i < length xs") (simp_all add: nth_list_update list_update_beyond)

lemma length_peek: "valid m p n \<Longrightarrow> length (peek m p n) = n"
  by (cases p) auto

lemma length_poke [simp]: "length (poke m p bs) = length m"
  by (cases p) auto

lemma base_poke [simp]: "fst (poke m p bs ! b) = fst (m ! b)"
  by (cases p) (auto simp: nth_list_update_cases)

lemma block_length_poke:
  "valid m p (length bs) \<Longrightarrow> length (snd (poke m p bs ! b)) = length (snd (m ! b))"
  by (cases p) (auto simp: nth_list_update_cases)

lemma valid_poke [simp]: "valid m p (length bs) \<Longrightarrow> valid (poke m p bs) q n = valid m q n"
  by (cases q) (simp_all add: block_length_poke)

lemma peek_poke_same: "valid m p (length bs) \<Longrightarrow> peek (poke m p bs) p (length bs) = bs"
  by (cases p) (auto simp: bslice_bwrite_same)

lemma peek_poke_other:
  assumes "valid m p (length bs)" and "apart p (length bs) q n"
  shows "peek (poke m p bs) q n = peek m q n"
  using assms by (cases p; cases q) (auto simp: nth_list_update_cases bslice_bwrite_disjoint)

lemma peek_append: "valid m p n \<Longrightarrow> peek (m @ m') p n = peek m p n"
  by (cases p) (auto simp: nth_append)

lemma valid_append: "valid m p n \<Longrightarrow> valid (m @ m') p n"
  by (cases p) (auto simp: nth_append)

section \<open>Specifications and device buffers\<close>

record BufferSpecs =
  alignment :: u64
  sz :: u64
  procFlags :: u64

definition BufferSpecs_make :: "u64 \<Rightarrow> u64 \<Rightarrow> u64 \<Rightarrow> BufferSpecs" where
  "BufferSpecs_make a s f = \<lparr>alignment = a, sz = s, procFlags = f\<rparr>"

definition SHARABLE_BUFFER_ENABLED :: u64 where
  "SHARABLE_BUFFER_ENABLED = push_bit (4 * 8) 1"

definition isSharable :: "BufferSpecs \<Rightarrow> bool" where
  "isSharable s \<longleftrightarrow> procFlags s AND SHARABLE_BUFFER_ENABLED \<noteq> 0"

record DeviceBuffer =
  cpu_addr :: ptr
  vpu_addr :: u64
  buf_size :: u64

definition DeviceBuffer_empty :: DeviceBuffer where
  "DeviceBuffer_empty = \<lparr>cpu_addr = Null, vpu_addr = 0, buf_size = 0\<rparr>"

definition DeviceBuffer_make :: "ptr \<Rightarrow> u64 \<Rightarrow> u64 \<Rightarrow> DeviceBuffer" where
  "DeviceBuffer_make p v s = \<lparr>cpu_addr = p, vpu_addr = v, buf_size = s\<rparr>"

section \<open>The environment\<close>

text \<open>
  \<^verbatim>\<open>BufferManager\<close> is an abstract class that the user implements: its methods are functions on the
  memory, of which allocation, locking and copying may throw (unlocking runs in a destructor).
  \<open>reserveMem\<close> is \<^verbatim>\<open>std::vector::reserve\<close> on an empty vector: the address and the bytes of the
  storage it finds, whose number is the capacity.
\<close>

record buffer_manager =
  bm_allocate :: "BufferSpecs \<Rightarrow> mem \<Rightarrow> DeviceBuffer res \<times> mem"
  bm_deallocate :: "DeviceBuffer \<Rightarrow> mem \<Rightarrow> mem"
  bm_lock :: "DeviceBuffer \<Rightarrow> mem \<Rightarrow> DeviceBuffer res \<times> mem"
  bm_unlock :: "DeviceBuffer \<Rightarrow> mem \<Rightarrow> DeviceBuffer \<times> mem"
  bm_copy :: "DeviceBuffer \<Rightarrow> ptr \<Rightarrow> u64 \<Rightarrow> mem \<Rightarrow> DeviceBuffer res \<times> mem"

record env =
  env_bm :: buffer_manager
  reserveMem :: "u64 \<Rightarrow> mem \<Rightarrow> (u64 \<times> bytes) option"

text \<open>
  What the interface documents of a buffer manager: an allocation leaves the other blocks alone
  and hands out storage of its own or a null address, locking and unlocking do not change the
  memory, the device address or the size, and a copy writes the bytes to the buffer.
\<close>

definition mem_grows :: "mem \<Rightarrow> mem \<Rightarrow> bool" where
  "mem_grows m m' \<longleftrightarrow> (\<exists>ext. m' = m @ ext)"

definition allocate_documented :: "buffer_manager \<Rightarrow> bool" where
  "allocate_documented b \<longleftrightarrow>
     (\<forall>specs m. mem_grows m (snd (bm_allocate b specs m)) \<and>
        (\<forall>db. fst (bm_allocate b specs m) = Inr db \<longrightarrow>
           cpu_addr db = Null \<or>
           (\<exists>blk. cpu_addr db = Ptr blk 0 \<and> length m \<le> blk \<and>
              blk < length (snd (bm_allocate b specs m)) \<and>
              length (snd (snd (bm_allocate b specs m) ! blk)) = unat (buf_size db))))"

definition lock_documented :: "buffer_manager \<Rightarrow> bool" where
  "lock_documented b \<longleftrightarrow>
     (\<forall>db m. snd (bm_lock b db m) = m \<and> bm_unlock b db m = (db, m) \<and>
        (\<forall>db'. fst (bm_lock b db m) = Inr db' \<longrightarrow> db' = db))"

definition copy_documented :: "buffer_manager \<Rightarrow> bool" where
  "copy_documented b \<longleftrightarrow>
     (\<forall>db p n m. bm_copy b db p n m =
        (case memcpy_mem (cpu_addr db) p (unat n) m of
           Inl e \<Rightarrow> (Inl e, m) | Inr m' \<Rightarrow> (Inr db, m')))"

definition reserve_documented :: "env \<Rightarrow> bool" where
  "reserve_documented E \<longleftrightarrow>
     (\<forall>n m base bs. reserveMem E n m = Some (base, bs) \<longrightarrow>
        unat n \<le> length bs \<and> unat base + length bs \<le> 2 ^ 64)"

text \<open>
  A reference environment that keeps to this documentation: a bump allocator, whose blocks start
  at multiples of 4096, for the buffer manager and for the C++ heap.
\<close>

definition bump_base :: "mem \<Rightarrow> nat" where
  "bump_base m = 4096 * (length m + 1)"

definition bump_manager :: buffer_manager where
  "bump_manager = \<lparr>
     bm_allocate = \<lambda>specs m.
       (Inr (DeviceBuffer_make (Ptr (length m) 0) (of_nat (bump_base m)) (sz specs)),
        m @ [(of_nat (bump_base m), replicate (unat (sz specs)) 0)]),
     bm_deallocate = \<lambda>db m. m,
     bm_lock = \<lambda>db m. (Inr db, m),
     bm_unlock = \<lambda>db m. (db, m),
     bm_copy = \<lambda>db p n m. (case memcpy_mem (cpu_addr db) p (unat n) m of
       Inl e \<Rightarrow> (Inl e, m) | Inr m' \<Rightarrow> (Inr db, m'))\<rparr>"

definition bump_env :: env where
  "bump_env = \<lparr>
     env_bm = bump_manager,
     reserveMem = \<lambda>n m. if bump_base m + unat n < 2 ^ 64
       then Some (of_nat (bump_base m), replicate (unat n) 0) else None\<rparr>"

lemma bump_documented:
  "allocate_documented bump_manager" "lock_documented bump_manager"
  "copy_documented bump_manager" "reserve_documented bump_env" "env_bm bump_env = bump_manager"
  by (simp_all add: allocate_documented_def lock_documented_def copy_documented_def
      reserve_documented_def bump_env_def bump_manager_def mem_grows_def DeviceBuffer_make_def
      unat_of_nat_u64)

section \<open>Managed buffers\<close>

datatype buffer_kind = AllocatedDeviceBuffer | DynamicBuffer | StaticBuffer

record ManagedBuffer =
  bufKind :: buffer_kind
  mDevBuffer :: DeviceBuffer
  mBufferSpecs :: BufferSpecs

type_synonym bref = nat

datatype bm_event =
    EvAllocate bref | EvDeallocate bref | EvLock bref | EvUnlock bref | EvCopy bref

record world =
  memory :: mem
  objs :: "ManagedBuffer list"
  trace :: "bm_event list"
  streamGood :: bool

definition newObj :: "ManagedBuffer \<Rightarrow> (world, bref) prog" where
  "newObj b w = (Inr (length (objs w)), w\<lparr>objs := objs w @ [b]\<rparr>)"

definition setDevBuffer :: "bref \<Rightarrow> DeviceBuffer \<Rightarrow> world \<Rightarrow> world" where
  "setDevBuffer r db w = w\<lparr>objs := (objs w)[r := (objs w ! r)\<lparr>mDevBuffer := db\<rparr>]\<rparr>"

definition logEv :: "bm_event \<Rightarrow> world \<Rightarrow> world" where
  "logEv ev w = w\<lparr>trace := trace w @ [ev]\<rparr>"

text \<open>Dereferencing a null \<^verbatim>\<open>shared_ptr\<close> is undefined; \<open>deref\<close> is used wherever the code does it.\<close>

definition deref :: "bref option \<Rightarrow> (world, bref) prog" where
  "deref r w =
     (case r of
        None \<Rightarrow> (Inl UndefinedBehaviour, w)
      | Some i \<Rightarrow> if i < length (objs w) then (Inr i, w) else (Inl UndefinedBehaviour, w))"

definition getBuffer :: "bref \<Rightarrow> world \<Rightarrow> DeviceBuffer" where
  "getBuffer r w = mDevBuffer (objs w ! r)"

definition getBufferSpecs :: "bref \<Rightarrow> world \<Rightarrow> BufferSpecs" where
  "getBufferSpecs r w = mBufferSpecs (objs w ! r)"

definition resetBuffer :: "bref \<Rightarrow> DeviceBuffer \<Rightarrow> (world, unit) prog" where
  "resetBuffer r newBuffer = modifyM (setDevBuffer r newBuffer)"

definition lock :: "env \<Rightarrow> bref \<Rightarrow> (world, unit) prog" where
  "lock E r w =
     (if length (objs w) \<le> r then (Inl UndefinedBehaviour, w) else
      case bufKind (objs w ! r) of
        AllocatedDeviceBuffer \<Rightarrow>
          (case bm_lock (env_bm E) (getBuffer r w) (memory w) of
             (Inl e, m) \<Rightarrow> (Inl e, w\<lparr>memory := m\<rparr>)
           | (Inr db, m) \<Rightarrow> (Inr (), logEv (EvLock r) (setDevBuffer r db (w\<lparr>memory := m\<rparr>))))
      | _ \<Rightarrow> (Inr (), w))"

definition unlock :: "env \<Rightarrow> bref \<Rightarrow> world \<Rightarrow> world" where
  "unlock E r w =
     (case bufKind (objs w ! r) of
        AllocatedDeviceBuffer \<Rightarrow>
          (case bm_unlock (env_bm E) (getBuffer r w) (memory w) of
             (db, m) \<Rightarrow> logEv (EvUnlock r) (setDevBuffer r db (w\<lparr>memory := m\<rparr>)))
      | _ \<Rightarrow> w)"

definition memcpyM :: "ptr \<Rightarrow> ptr \<Rightarrow> nat \<Rightarrow> (world, unit) prog" where
  "memcpyM dst src n w =
     (case memcpy_mem dst src n (memory w) of
        Inl e \<Rightarrow> (Inl e, w) | Inr m \<Rightarrow> (Inr (), w\<lparr>memory := m\<rparr>))"

definition load_buffer :: "env \<Rightarrow> bref \<Rightarrow> ptr \<Rightarrow> u64 \<Rightarrow> (world, unit) prog" where
  "load_buffer E r src count w =
     (case bufKind (objs w ! r) of
        AllocatedDeviceBuffer \<Rightarrow>
          (case bm_copy (env_bm E) (getBuffer r w) src count (memory w) of
             (Inl e, m) \<Rightarrow> (Inl e, w\<lparr>memory := m\<rparr>)
           | (Inr db, m) \<Rightarrow> (Inr (), logEv (EvCopy r) (setDevBuffer r db (w\<lparr>memory := m\<rparr>))))
      | _ \<Rightarrow> memcpyM (cpu_addr (getBuffer r w)) src (unat count) w)"

text \<open>There is no guard here: if the copy throws, the buffer stays locked.\<close>

definition loadWithLock :: "env \<Rightarrow> bref \<Rightarrow> ptr \<Rightarrow> u64 \<Rightarrow> (world, unit) prog" where
  "loadWithLock E r src count =
     bindM (lock E r) (\<lambda>_.
     bindM (load_buffer E r src count) (\<lambda>_.
     modifyM (unlock E r)))"

text \<open>\<^verbatim>\<open>ElfBufferLockGuard\<close> over the rest of a block; a null pointer is not locked.\<close>

definition withLock :: "env \<Rightarrow> bref option \<Rightarrow> (world, 'a) prog \<Rightarrow> (world, 'a) prog" where
  "withLock E devBuff body =
     (case devBuff of
        None \<Rightarrow> body
      | Some r \<Rightarrow> bindM (lock E r) (\<lambda>_. finallyM body (unlock E r)))"

section \<open>Constructors\<close>

text \<open>The constructed buffers. A null manager is \<open>False\<close> in \<open>hasManager\<close>.\<close>

definition newAllocatedDeviceBuffer :: "env \<Rightarrow> bool \<Rightarrow> BufferSpecs \<Rightarrow> (world, bref) prog" where
  "newAllocatedDeviceBuffer E hasManager bSpecs =
     throwM_unless hasManager ArgsError
     (\<lambda>w. case bm_allocate (env_bm E) bSpecs (memory w) of
        (Inl e, m) \<Rightarrow> (Inl e, w\<lparr>memory := m\<rparr>)
      | (Inr db, m) \<Rightarrow>
          (let w' = logEv (EvAllocate (length (objs w))) (w\<lparr>memory := m\<rparr>)
           in throwM_when (cpu_addr db \<noteq> Null \<and> buf_size db < sz bSpecs) AllocError
                (newObj \<lparr>bufKind = AllocatedDeviceBuffer, mDevBuffer = db, mBufferSpecs = bSpecs\<rparr>) w'))"

text \<open>The destructor of an allocated buffer, run when its last owner lets go of it.\<close>

definition destroyAllocatedDeviceBuffer :: "env \<Rightarrow> bref \<Rightarrow> world \<Rightarrow> world" where
  "destroyAllocatedDeviceBuffer E r w =
     logEv (EvDeallocate r)
       (w\<lparr>memory := bm_deallocate (env_bm E) (getBuffer r w) (memory w)\<rparr>)"

definition mDefaultSafeAlignment :: u64 where
  "mDefaultSafeAlignment = 64"

definition newDynamicBuffer :: "env \<Rightarrow> BufferSpecs \<Rightarrow> (world, bref) prog" where
  "newDynamicBuffer E bSpecs w =
     throwM_unless (isPowerOfTwo mDefaultSafeAlignment) RuntimeError
     (throwM_unless (isPowerOfTwo (alignment bSpecs)) RuntimeError
     (\<lambda>w. let bufferAlignment =
             (if alignment bSpecs < mDefaultSafeAlignment then mDefaultSafeAlignment
              else alignment bSpecs);
           bufferSize = alignUp (sz bSpecs) mDefaultSafeAlignment
       in case reserveMem E (bufferSize + bufferAlignment) (memory w) of
            None \<Rightarrow> (Inl BadAlloc, w)
          | Some (bufferBase, storage) \<Rightarrow>
              (let bufferBaseAligned = alignUp bufferBase bufferAlignment;
                   blk = length (memory w);
                   w' = w\<lparr>memory := memory w @ [(bufferBase, storage)]\<rparr>
               in throwM_when (bufferBaseAligned < bufferBase) RuntimeError
                 (throwM_when (bufferBaseAligned - bufferBase + sz bSpecs > of_nat (length storage))
                    RuntimeError
                    (newObj \<lparr>bufKind = DynamicBuffer,
                       mDevBuffer = DeviceBuffer_make
                         (Ptr blk (unat (bufferBaseAligned - bufferBase))) bufferBaseAligned (sz bSpecs),
                       mBufferSpecs = bSpecs\<rparr>)) w'))) w"

definition newStaticBuffer :: "ptr \<Rightarrow> BufferSpecs \<Rightarrow> (world, bref) prog" where
  "newStaticBuffer cpuAddr bSpecs w =
     newObj \<lparr>bufKind = StaticBuffer,
       mDevBuffer = DeviceBuffer_make cpuAddr (ptr_value (memory w) cpuAddr) (sz bSpecs),
       mBufferSpecs = bSpecs\<rparr> w"

text \<open>Move construction and move assignment of static buffers empty the source.\<close>

definition moveStaticBuffer :: "bref \<Rightarrow> (world, bref) prog" where
  "moveStaticBuffer other w =
     newObj \<lparr>bufKind = StaticBuffer, mDevBuffer = getBuffer other w,
       mBufferSpecs = getBufferSpecs other w\<rparr> (setDevBuffer other DeviceBuffer_empty w)"

definition moveAssignStaticBuffer :: "bref \<Rightarrow> bref \<Rightarrow> world \<Rightarrow> world" where
  "moveAssignStaticBuffer this rhs w =
     (if this \<noteq> rhs
      then setDevBuffer rhs DeviceBuffer_empty
             (w\<lparr>objs := (objs w)[this := (objs w ! this)\<lparr>mBufferSpecs := getBufferSpecs rhs w,
                                                   mDevBuffer := getBuffer rhs w\<rparr>]\<rparr>)
      else w)"

text \<open>\<^verbatim>\<open>createNew\<close>: a static buffer is cloned into a dynamic one.\<close>

definition createNew :: "env \<Rightarrow> bref \<Rightarrow> (world, bref) prog" where
  "createNew E r w =
     (case bufKind (objs w ! r) of
        AllocatedDeviceBuffer \<Rightarrow> newAllocatedDeviceBuffer E True (getBufferSpecs r w) w
      | DynamicBuffer \<Rightarrow> newDynamicBuffer E (getBufferSpecs r w) w
      | StaticBuffer \<Rightarrow> newDynamicBuffer E (getBufferSpecs r w) w)"

section \<open>The lock protocol\<close>

text \<open>
  The interface asks for a lock counter per device buffer that never leaves zero and one.
  \<open>held_from H tr\<close> is the set of buffers that are locked after the events \<open>tr\<close>, if those in \<open>H\<close>
  were locked before, and \<open>None\<close> when a buffer is locked twice or unlocked without being locked.
\<close>

primrec lock_step :: "bm_event \<Rightarrow> bref set \<Rightarrow> bref set option" where
  "lock_step (EvAllocate r) H = Some H"
| "lock_step (EvDeallocate r) H = Some H"
| "lock_step (EvCopy r) H = Some H"
| "lock_step (EvLock r) H = (if r \<in> H then None else Some (insert r H))"
| "lock_step (EvUnlock r) H = (if r \<in> H then Some (H - {r}) else None)"

primrec held_from :: "bref set \<Rightarrow> bm_event list \<Rightarrow> bref set option" where
  "held_from H [] = Some H"
| "held_from H (ev # evs) =
     (case lock_step ev H of None \<Rightarrow> None | Some H' \<Rightarrow> held_from H' evs)"

lemma held_from_append:
  "held_from H (xs @ ys) = (case held_from H xs of None \<Rightarrow> None | Some H' \<Rightarrow> held_from H' ys)"
  by (induction xs arbitrary: H) (auto split: option.splits)

text \<open>
  \<open>balanced A\<close>: unless the behaviour is undefined, the program adds objects and events, the events
  keep the protocol when none of the buffers of \<open>A\<close> is held on entry, and the same buffers are
  held on exit, also when it ends in an exception.
\<close>

definition balanced :: "bref set \<Rightarrow> world \<Rightarrow> elf_error option \<Rightarrow> world \<Rightarrow> bool" where
  "balanced A w x w' \<longleftrightarrow> x \<noteq> Some UndefinedBehaviour \<longrightarrow>
     length (objs w) \<le> length (objs w') \<and>
     (\<exists>tr. trace w' = trace w @ tr \<and>
       (\<forall>H. H \<subseteq> {..<length (objs w)} \<and> H \<inter> A = {} \<longrightarrow> held_from H tr = Some H))"

lemma balanced_trans:
  assumes "balanced A s None t" and "balanced A t r u"
  shows "balanced A s r u"
proof (cases "r = Some UndefinedBehaviour")
  case False
  from assms(1) obtain tr where t: "length (objs s) \<le> length (objs t)" "trace t = trace s @ tr"
    "\<And>H. H \<subseteq> {..<length (objs s)} \<Longrightarrow> H \<inter> A = {} \<Longrightarrow> held_from H tr = Some H"
    by (auto simp: balanced_def)
  from assms(2) False obtain tr' where u: "length (objs t) \<le> length (objs u)"
    "trace u = trace t @ tr'"
    "\<And>H. H \<subseteq> {..<length (objs t)} \<Longrightarrow> H \<inter> A = {} \<Longrightarrow> held_from H tr' = Some H"
    by (auto simp: balanced_def)
  have "held_from H (tr @ tr') = Some H" if "H \<subseteq> {..<length (objs s)}" "H \<inter> A = {}" for H
    using that t(1) t(3) u(3) [of H] by (fastforce simp: held_from_append)
  then show ?thesis using t u by (auto simp: balanced_def intro!: exI [of _ "tr @ tr'"])
qed (simp add: balanced_def)

interpretation balanced: state_relation "balanced A"
proof unfold_locales
  fix s e
  show "balanced A s None s" by (auto simp: balanced_def)
  show "balanced A s (Some e) s" by (auto simp: balanced_def)
qed (rule balanced_trans)

text \<open>Programs that add objects at most, and record nothing that concerns locks.\<close>

definition quiet :: "world \<Rightarrow> elf_error option \<Rightarrow> world \<Rightarrow> bool" where
  "quiet w x w' \<longleftrightarrow> length (objs w) \<le> length (objs w') \<and>
     (\<exists>tr. trace w' = trace w @ tr \<and> (\<forall>H. held_from H tr = Some H))"

lemma quiet_trans: "quiet s None t \<Longrightarrow> quiet t r u \<Longrightarrow> quiet s r u"
  by (auto simp: quiet_def held_from_append)

interpretation quiet: state_relation quiet
proof unfold_locales
  fix s e
  show "quiet s None s" by (auto simp: quiet_def)
  show "quiet s (Some e) s" by (auto simp: quiet_def)
qed (rule quiet_trans)

lemma quiet_balanced: "relates quiet m \<Longrightarrow> relates (balanced A) m"
  unfolding relates_def quiet_def balanced_def by blast

lemma quiet_memory [simp]: "quiet w x (w\<lparr>memory := m\<rparr>)"
  by (auto simp: quiet_def)

lemma quiet_newObj: "relates quiet (newObj b)"
  by (auto simp: relates_def newObj_def quiet_def)

lemma quiet_memcpyM: "relates quiet (memcpyM dst src n)"
  by (auto simp: relates_def memcpyM_def quiet_def split: sum.splits)

lemma setDevBuffer_simps [simp]:
  "length (objs (setDevBuffer r db w)) = length (objs w)"
  "trace (setDevBuffer r db w) = trace w" "memory (setDevBuffer r db w) = memory w"
  "r < length (objs w) \<Longrightarrow> bufKind (objs (setDevBuffer r db w) ! i) = bufKind (objs w ! i)"
  by (simp_all add: setDevBuffer_def nth_list_update)

lemma logEv_simps [simp]:
  "objs (logEv ev w) = objs w" "memory (logEv ev w) = memory w"
  "trace (logEv ev w) = trace w @ [ev]"
  by (simp_all add: logEv_def)

lemma quiet_load_buffer: "relates quiet (load_buffer E r src n)"
proof (rule relatesI)
  fix w x w'
  assume "load_buffer E r src n w = (x, w')"
  then show "quiet w (outcome x) w'"
    using relatesD [OF quiet_memcpyM]
    by (auto simp: load_buffer_def quiet_def split: buffer_kind.splits prod.splits sum.splits)
qed

lemma quiet_newStaticBuffer: "relates quiet (newStaticBuffer p s)"
  by (auto simp: relates_def newStaticBuffer_def newObj_def quiet_def)

lemma quiet_newDynamicBuffer: "relates quiet (newDynamicBuffer E s)"
  unfolding newDynamicBuffer_def relates_def
  by (auto simp: quiet_def newObj_def throwM_unless_def throwM_when_def throwM_def Let_def
      split: option.splits)

lemma quiet_newAllocatedDeviceBuffer: "relates quiet (newAllocatedDeviceBuffer E h s)"
  unfolding newAllocatedDeviceBuffer_def relates_def
  by (auto simp: quiet_def newObj_def throwM_unless_def throwM_when_def throwM_def Let_def logEv_def
      split: prod.splits sum.splits)

lemma quiet_createNew: "relates quiet (createNew E r)"
proof (rule relatesI)
  fix w x w'
  assume "createNew E r w = (x, w')"
  then show "quiet w (outcome x) w'"
    by (auto simp: createNew_def split: buffer_kind.splits
        dest: relatesD [OF quiet_newDynamicBuffer] relatesD [OF quiet_newAllocatedDeviceBuffer])
qed

lemmas quiet_rules = quiet.rel_rules quiet_newObj quiet_memcpyM quiet_load_buffer
  quiet_newStaticBuffer quiet_newDynamicBuffer quiet_newAllocatedDeviceBuffer quiet_createNew

section \<open>Locking and unlocking\<close>

lemma lock_cases:
  assumes "lock E r w = (x, w')"
  obtains (err) e where "x = Inl e" and "objs w' = objs w" and "trace w' = trace w"
    | (ok) "x = Inr ()" and "r < length (objs w)" and "length (objs w') = length (objs w)"
      and "bufKind (objs w' ! r) = bufKind (objs w ! r)"
      and "trace w' = trace w @ (if bufKind (objs w ! r) = AllocatedDeviceBuffer then [EvLock r] else [])"
  using assms
  by (auto simp: lock_def split: if_splits buffer_kind.splits prod.splits sum.splits)

lemma unlock_simps [simp]:
  "length (objs (unlock E r w)) = length (objs w)"
  "trace (unlock E r w) = trace w @
     (if bufKind (objs w ! r) = AllocatedDeviceBuffer then [EvUnlock r] else [])"
  by (auto simp: unlock_def split: buffer_kind.splits prod.splits)

text \<open>Objects keep their kind.\<close>

definition kinds_kept :: "world \<Rightarrow> elf_error option \<Rightarrow> world \<Rightarrow> bool" where
  "kinds_kept w x w' \<longleftrightarrow> length (objs w) \<le> length (objs w') \<and>
     (\<forall>i < length (objs w). bufKind (objs w' ! i) = bufKind (objs w ! i))"

interpretation kinds_kept: state_relation kinds_kept
  by unfold_locales (auto simp: kinds_kept_def)

lemma kinds_setDevBuffer [simp]:
  "length (objs w) = length (objs v) \<Longrightarrow>
    bufKind (objs (setDevBuffer r db w) ! i) = bufKind (objs w ! i)"
  by (simp add: setDevBuffer_def nth_list_update_cases)

lemma kinds_newObj: "relates kinds_kept (newObj b)"
  by (auto simp: relates_def newObj_def kinds_kept_def nth_append)

lemma kinds_memcpyM: "relates kinds_kept (memcpyM dst src n)"
  by (auto simp: relates_def memcpyM_def kinds_kept_def split: sum.splits)

lemma kinds_lock: "relates kinds_kept (lock E r)"
  by (auto simp: relates_def lock_def kinds_kept_def setDevBuffer_def nth_list_update_cases
      split: buffer_kind.splits prod.splits sum.splits)

lemma kinds_unlock: "kinds_kept w x (unlock E r w)"
  by (auto simp: unlock_def kinds_kept_def setDevBuffer_def nth_list_update_cases
      split: buffer_kind.splits prod.splits)

lemma kinds_load_buffer: "relates kinds_kept (load_buffer E r src n)"
proof (rule relatesI)
  fix w x w'
  assume "load_buffer E r src n w = (x, w')"
  then show "kinds_kept w (outcome x) w'"
    using relatesD [OF kinds_memcpyM]
    by (auto simp: load_buffer_def kinds_kept_def setDevBuffer_def nth_list_update_cases
        split: buffer_kind.splits prod.splits sum.splits)
qed

lemma kinds_newStaticBuffer: "relates kinds_kept (newStaticBuffer p s)"
  by (auto simp: relates_def newStaticBuffer_def newObj_def kinds_kept_def nth_append)

lemma kinds_newDynamicBuffer: "relates kinds_kept (newDynamicBuffer E s)"
  unfolding newDynamicBuffer_def relates_def
  by (auto simp: kinds_kept_def newObj_def throwM_unless_def throwM_when_def throwM_def Let_def
      nth_append split: option.splits)

lemma kinds_newAllocatedDeviceBuffer: "relates kinds_kept (newAllocatedDeviceBuffer E h s)"
  unfolding newAllocatedDeviceBuffer_def relates_def
  by (auto simp: kinds_kept_def newObj_def throwM_unless_def throwM_when_def throwM_def Let_def
      logEv_def nth_append split: prod.splits sum.splits)

text \<open>
  A guard over a body that leaves the guarded buffer alone is balanced, however the body ends.
\<close>

lemma balanced_withLock:
  assumes body: "relates (balanced B) body" and kinds: "relates kinds_kept body"
    and B: "r \<notin> B" "B \<subseteq> A" and r: "r \<in> A"
  shows "relates (balanced A) (withLock E (Some r) body)"
proof (rule relatesI)
  fix w x w'
  assume run: "withLock E (Some r) body w = (x, w')"
  then have "bindM (lock E r) (\<lambda>_. finallyM body (unlock E r)) w = (x, w')"
    by (simp add: withLock_def)
  then show "balanced A w (outcome x) w'"
  proof (cases rule: bindM_cases)
    case (err e)
    then show ?thesis by (cases rule: lock_cases [OF err(1)]) (auto simp: balanced_def)
  next
    case (ok u t)
    from ok(1) have t: "r < length (objs w)" "length (objs t) = length (objs w)"
      "bufKind (objs t ! r) = bufKind (objs w ! r)"
      "trace t = trace w @ (if bufKind (objs w ! r) = AllocatedDeviceBuffer then [EvLock r] else [])"
      by (auto elim: lock_cases)
    from ok(2) obtain t' where t': "body t = (x, t')" and w': "w' = unlock E r t'"
      by (auto simp: finallyM_def split: prod.splits)
    have k: "bufKind (objs t' ! r) = bufKind (objs t ! r)"
      using relatesD [OF kinds t'] t(1,2) by (simp add: kinds_kept_def)
    show ?thesis
    proof (cases "x = Inl UndefinedBehaviour")
      case False
      then have "outcome x \<noteq> Some UndefinedBehaviour" by (cases x) auto
      with relatesD [OF body t'] obtain tr where tr: "length (objs t) \<le> length (objs t')"
        "trace t' = trace t @ tr"
        "\<And>H. H \<subseteq> {..<length (objs t)} \<Longrightarrow> H \<inter> B = {} \<Longrightarrow> held_from H tr = Some H"
        by (auto simp: balanced_def)
      let ?l = "if bufKind (objs w ! r) = AllocatedDeviceBuffer then [EvLock r] else []"
      let ?u = "if bufKind (objs w ! r) = AllocatedDeviceBuffer then [EvUnlock r] else []"
      have "held_from H (?l @ tr @ ?u) = Some H"
        if "H \<subseteq> {..<length (objs w)}" "H \<inter> A = {}" for H
      proof -
        have "held_from (insert r H) tr = Some (insert r H)"
          by (rule tr(3)) (use that t B in auto)
        moreover have "held_from H tr = Some H"
          by (rule tr(3)) (use that t B in auto)
        moreover have "r \<notin> H" using that r by auto
        ultimately show ?thesis by (simp add: held_from_append)
      qed
      then show ?thesis
        using t tr(1,2) k
        by (auto simp: balanced_def w' intro!: exI [of _ "?l @ tr @ ?u"])
    qed (simp add: balanced_def)
  qed
qed

text \<open>
  \<open>loadWithLock\<close> has no guard: it is balanced only if the copy does not throw.
\<close>

definition copy_never_throws :: "buffer_manager \<Rightarrow> bool" where
  "copy_never_throws b \<longleftrightarrow>
     (\<forall>db p n m e. fst (bm_copy b db p n m) = Inl e \<longrightarrow> e = UndefinedBehaviour)"

lemma copy_documented_never_throws: "copy_documented b \<Longrightarrow> copy_never_throws b"
  by (auto simp: copy_documented_def copy_never_throws_def memcpy_mem_def split: if_splits sum.splits)

lemma balanced_loadWithLock:
  assumes "copy_never_throws (env_bm E)" and "r \<in> A"
  shows "relates (balanced A) (loadWithLock E r src n)"
proof (rule relatesI)
  fix w x w'
  assume "loadWithLock E r src n w = (x, w')"
  then have "bindM (lock E r) (\<lambda>_. bindM (load_buffer E r src n) (\<lambda>_. modifyM (unlock E r))) w = (x, w')"
    by (simp add: loadWithLock_def)
  then show "balanced A w (outcome x) w'"
  proof (cases rule: bindM_cases)
    case (err e)
    then show ?thesis by (cases rule: lock_cases [OF err(1)]) (auto simp: balanced_def)
  next
    case (ok u t)
    from ok(1) have t: "r < length (objs w)" "length (objs t) = length (objs w)"
      "bufKind (objs t ! r) = bufKind (objs w ! r)"
      "trace t = trace w @ (if bufKind (objs w ! r) = AllocatedDeviceBuffer then [EvLock r] else [])"
      by (auto elim: lock_cases)
    from ok(2) show ?thesis
    proof (cases rule: bindM_cases)
      case (err e)
      then have "e = UndefinedBehaviour"
        using assms(1)
        by (auto simp: load_buffer_def memcpyM_def memcpy_mem_def copy_never_throws_def
            split: buffer_kind.splits prod.splits sum.splits if_splits) (metis fst_conv)
      then show ?thesis using err by (simp add: balanced_def)
    next
      case (ok u' t')
      have q: "quiet t None t'" using relatesD [OF quiet_load_buffer ok(1)] by simp
      have k: "bufKind (objs t' ! r) = bufKind (objs t ! r)"
        using relatesD [OF kinds_load_buffer ok(1)] t(1,2) by (simp add: kinds_kept_def)
      from q obtain tr where tr: "length (objs t) \<le> length (objs t')" "trace t' = trace t @ tr"
        "\<And>H. held_from H tr = Some H" by (auto simp: quiet_def)
      let ?l = "if bufKind (objs w ! r) = AllocatedDeviceBuffer then [EvLock r] else []"
      let ?u = "if bufKind (objs w ! r) = AllocatedDeviceBuffer then [EvUnlock r] else []"
      have "held_from H (?l @ tr @ ?u) = Some H" if "H \<inter> A = {}" for H
        using that assms(2) by (auto simp: held_from_append tr(3))
      then show ?thesis
        using t tr(1,2) k ok(2)
        by (auto simp: balanced_def modifyM_def intro!: exI [of _ "?l @ tr @ ?u"])
    qed
  qed
qed

section \<open>Constructors add one object\<close>

definition objs_extend :: "world \<Rightarrow> elf_error option \<Rightarrow> world \<Rightarrow> bool" where
  "objs_extend w x w' \<longleftrightarrow> (\<exists>new. objs w' = objs w @ new)"

interpretation objs_extend: state_relation objs_extend
  by unfold_locales (auto simp: objs_extend_def)

lemma extend_newDynamicBuffer: "relates objs_extend (newDynamicBuffer E s)"
  unfolding newDynamicBuffer_def relates_def
  by (auto simp: objs_extend_def newObj_def throwM_unless_def throwM_when_def throwM_def Let_def
      split: option.splits)

lemma extend_newAllocatedDeviceBuffer: "relates objs_extend (newAllocatedDeviceBuffer E h s)"
  unfolding newAllocatedDeviceBuffer_def relates_def
  by (auto simp: objs_extend_def newObj_def throwM_unless_def throwM_when_def throwM_def Let_def
      logEv_def split: prod.splits sum.splits)

lemma extend_createNew: "relates objs_extend (createNew E r)"
proof (rule relatesI)
  fix w x w'
  assume "createNew E r w = (x, w')"
  then show "objs_extend w (outcome x) w'"
    by (auto simp: createNew_def split: buffer_kind.splits
        dest: relatesD [OF extend_newDynamicBuffer] relatesD [OF extend_newAllocatedDeviceBuffer])
qed

text \<open>Constructors return the index of the object they add.\<close>

definition fresh_result :: "(world, bref) prog \<Rightarrow> bool" where
  "fresh_result m \<longleftrightarrow>
     (\<forall>w r w'. m w = (Inr r, w') \<longrightarrow> r = length (objs w) \<and> length (objs w') = Suc r)"

lemma fresh_newDynamicBuffer: "fresh_result (newDynamicBuffer E s)"
  unfolding newDynamicBuffer_def fresh_result_def
  by (auto simp: newObj_def Let_def throwM_unless_def throwM_when_def throwM_def split: option.splits if_splits)

lemma fresh_newAllocatedDeviceBuffer: "fresh_result (newAllocatedDeviceBuffer E h s)"
  unfolding newAllocatedDeviceBuffer_def fresh_result_def
  by (auto simp: newObj_def Let_def throwM_unless_def throwM_when_def throwM_def logEv_def
      split: prod.splits sum.splits if_splits)

lemma fresh_createNew: "fresh_result (createNew E r)"
  unfolding fresh_result_def createNew_def
  using fresh_newDynamicBuffer fresh_newAllocatedDeviceBuffer
  by (fastforce simp: fresh_result_def split: buffer_kind.splits)

end
