(* ===== verification/Elf_Accessor.thy ===== *)
theory Elf_Accessor imports Elf_Buffers begin

text \<open>
  \<^verbatim>\<open>accessor.hpp\<close>: reading a range of the ELF binary, either into a buffer the accessor makes
  (\<open>readInternal\<close>, which may hand out the binary's own bytes) or into a buffer of the caller
  (\<open>readExternal\<close>). The template parameters are datatypes: three emplacement policies, three
  buffer factories. The contract that the reader and the loader rely on is the locale
  \<open>range_reader\<close>, interpreted for the memory accessor and for the file accessor.
\<close>

section \<open>Policies and factories\<close>

datatype emplace_logic = DDRStandardEmplace | DDRNeverEmplace | DDRAlwaysEmplace

primrec canEmplace :: "emplace_logic \<Rightarrow> u64 \<Rightarrow> BufferSpecs \<Rightarrow> bool" where
  "canEmplace DDRStandardEmplace addrValue specs =
     (if alignment specs \<noteq> 0
      then (if \<not> isPowerOfTwo (alignment specs) then False
            else if addrValue AND (alignment specs - 1) \<noteq> 0 then False else True)
      else True)"
| "canEmplace DDRNeverEmplace addrValue specs = False"
| "canEmplace DDRAlwaysEmplace addrValue specs = True"

datatype buffer_factory = AllocatedDeviceBufferFactory | DynamicBufferFactory | HybridBufferFactory

text \<open>The constructors of two of the factories insist on a buffer manager.\<close>

definition newBufferFactory :: "buffer_factory \<Rightarrow> bool \<Rightarrow> buffer_factory res" where
  "newBufferFactory f hasManager =
     (case f of
        DynamicBufferFactory \<Rightarrow> Inr f
      | _ \<Rightarrow> throw_unless hasManager RuntimeError (Inr f))"

definition getEmplacedBuffer :: "ptr \<Rightarrow> BufferSpecs \<Rightarrow> (world, bref) prog" where
  "getEmplacedBuffer addr specs =
     throwM_unless (addr \<noteq> Null) RuntimeError (newStaticBuffer addr specs)"

definition getAllocatedBuffer :: "env \<Rightarrow> buffer_factory \<Rightarrow> BufferSpecs \<Rightarrow> (world, bref) prog" where
  "getAllocatedBuffer E f specs =
     (case f of
        AllocatedDeviceBufferFactory \<Rightarrow> newAllocatedDeviceBuffer E True specs
      | DynamicBufferFactory \<Rightarrow> newDynamicBuffer E specs
      | HybridBufferFactory \<Rightarrow>
          (if hasNPUAccess (procFlags specs) then newAllocatedDeviceBuffer E True specs
           else newDynamicBuffer E specs))"

section \<open>Access managers\<close>

text \<open>
  \<open>DDR logic factory blob size\<close>; the specialisation for \<^verbatim>\<open>DDRAlwaysEmplace\<close> has no factory. \<open>FS\<close>
  holds the bytes of the opened file.
\<close>

datatype access_manager =
    DDRAccessManager emplace_logic buffer_factory ptr u64
  | DDRAccessManagerAlways ptr u64
  | FSAccessManager buffer_factory bytes

primrec getSize :: "access_manager \<Rightarrow> u64" where
  "getSize (DDRAccessManager l f blob binarySize) = binarySize"
| "getSize (DDRAccessManagerAlways blob binarySize) = binarySize"
| "getSize (FSAccessManager f file) = of_nat (length file)"

definition newDDRAccessManager ::
    "emplace_logic \<Rightarrow> buffer_factory option \<Rightarrow> ptr \<Rightarrow> u64 \<Rightarrow> access_manager res" where
  "newDDRAccessManager l factory blob binarySize =
     throw_unless (blob \<noteq> Null) ArgsError
     (case factory of
        None \<Rightarrow> Inl RuntimeError
      | Some f \<Rightarrow> Inr (DDRAccessManager l f blob binarySize))"

definition newDDRAccessManagerAlways :: "ptr \<Rightarrow> u64 \<Rightarrow> access_manager res" where
  "newDDRAccessManagerAlways blob binarySize =
     throw_unless (blob \<noteq> Null) ArgsError (Inr (DDRAccessManagerAlways blob binarySize))"

text \<open>\<open>None\<close> is a file that cannot be opened.\<close>

definition newFSAccessManager :: "bytes option \<Rightarrow> buffer_factory \<Rightarrow> access_manager res" where
  "newFSAccessManager file f =
     (case file of None \<Rightarrow> Inl AccessError | Some bs \<Rightarrow> Inr (FSAccessManager f bs))"

text \<open>
  \<^verbatim>\<open>seekg\<close> followed by \<^verbatim>\<open>read\<close>: positions and counts are signed, a stream in a failed state reads
  nothing, and a read that comes up short leaves the stream in that state. The code checks none
  of this after the constructor.
\<close>

definition fs_read :: "bytes \<Rightarrow> u64 \<Rightarrow> u64 \<Rightarrow> bool \<Rightarrow> bytes \<times> bool" where
  "fs_read file offset n good =
     (if \<not> good \<or> 2 ^ 63 \<le> unat offset \<or> 2 ^ 63 \<le> unat n then ([], False)
      else (let got = bslice (unat offset) (unat n) file in (got, length got = unat n)))"

definition fs_readM :: "bytes \<Rightarrow> u64 \<Rightarrow> bref \<Rightarrow> (world, unit) prog" where
  "fs_readM file offset r w =
     (let (got, good) = fs_read file offset (buf_size (getBuffer r w)) (streamGood w)
      in case write_mem (cpu_addr (getBuffer r w)) got (memory w) of
           Inl e \<Rightarrow> (Inl e, w)
         | Inr m \<Rightarrow> (Inr (), w\<lparr>memory := m, streamGood := good\<rparr>))"

definition memcpy_to_buffer :: "bref \<Rightarrow> ptr \<Rightarrow> (world, unit) prog" where
  "memcpy_to_buffer r targetAddr w =
     memcpyM (cpu_addr (getBuffer r w)) targetAddr (unat (buf_size (getBuffer r w))) w"

definition read_allocated ::
    "env \<Rightarrow> buffer_factory \<Rightarrow> BufferSpecs \<Rightarrow> (bref \<Rightarrow> (world, unit) prog) \<Rightarrow> (world, bref) prog" where
  "read_allocated E f specs fill =
     bindM (getAllocatedBuffer E f specs) (\<lambda>r.
     bindM (withLock E (Some r) (fill r)) (\<lambda>_. retM r))"

text \<open>The bound is computed in 64 bits, as in the source: the sum may wrap.\<close>

primrec readInternal :: "env \<Rightarrow> access_manager \<Rightarrow> u64 \<Rightarrow> BufferSpecs \<Rightarrow> (world, bref) prog" where
  "readInternal E (DDRAccessManager l f blob mSize) offset specs =
     throwM_when (offset + sz specs > mSize) AccessError
     (let targetAddr = ptr_add blob (unat offset)
      in bindM (readM (\<lambda>w. ptr_value (memory w) targetAddr)) (\<lambda>addrValue.
           if canEmplace l addrValue specs then getEmplacedBuffer targetAddr specs
           else read_allocated E f specs (\<lambda>r. memcpy_to_buffer r targetAddr)))"
| "readInternal E (DDRAccessManagerAlways blob mSize) offset specs =
     throwM_when (offset + sz specs > mSize) AccessError
     (getEmplacedBuffer (ptr_add blob (unat offset)) specs)"
| "readInternal E (FSAccessManager f file) offset specs =
     throwM_when (offset + sz specs > of_nat (length file)) AccessError
     (read_allocated E f specs (fs_readM file offset))"

text \<open>
  \<open>readExternal\<close> into \<open>r\<close>. The memory accessor takes the buffer's address before it locks it and
  checks the size of the specification but copies the size of the device buffer.
\<close>

definition readExternal_DDR :: "env \<Rightarrow> ptr \<Rightarrow> u64 \<Rightarrow> u64 \<Rightarrow> bref \<Rightarrow> (world, unit) prog" where
  "readExternal_DDR E blob mSize offset r =
     bindM (readM (getBufferSpecs r)) (\<lambda>specs.
     throwM_when (offset + sz specs > mSize) AccessError
     (bindM (readM (getBuffer r)) (\<lambda>devBuffer.
        withLock E (Some r)
          (memcpyM (cpu_addr devBuffer) (ptr_add blob (unat offset)) (unat (buf_size devBuffer))))))"

primrec readExternal :: "env \<Rightarrow> access_manager \<Rightarrow> u64 \<Rightarrow> bref \<Rightarrow> (world, unit) prog" where
  "readExternal E (DDRAccessManager l f blob mSize) offset r = readExternal_DDR E blob mSize offset r"
| "readExternal E (DDRAccessManagerAlways blob mSize) offset r =
     readExternal_DDR E blob mSize offset r"
| "readExternal E (FSAccessManager f file) offset r =
     bindM (readM (getBufferSpecs r)) (\<lambda>specs.
     throwM_when (offset + sz specs > of_nat (length file)) AccessError
     (withLock E (Some r) (fs_readM file offset r)))"

section \<open>Emplacement\<close>

lemma canEmplace_aligned:
  "canEmplace DDRStandardEmplace addr specs \<longleftrightarrow>
    alignment specs = 0 \<or> isPowerOfTwo (alignment specs) \<and> unat (alignment specs) dvd unat addr"
  using and_pred_zero_iff_dvd by auto

section \<open>Lock protocol of the accessors\<close>

lemma quiet_getEmplacedBuffer: "relates quiet (getEmplacedBuffer a s)"
  unfolding getEmplacedBuffer_def by (intro quiet_rules)

lemma quiet_getAllocatedBuffer: "relates quiet (getAllocatedBuffer E f s)"
  unfolding getAllocatedBuffer_def
  by (cases f) (auto intro: quiet_newAllocatedDeviceBuffer quiet_newDynamicBuffer)

lemma kinds_getEmplacedBuffer: "relates kinds_kept (getEmplacedBuffer a s)"
  unfolding getEmplacedBuffer_def by (intro kinds_kept.rel_rules kinds_newStaticBuffer)

lemma kinds_getAllocatedBuffer: "relates kinds_kept (getAllocatedBuffer E f s)"
  unfolding getAllocatedBuffer_def
  by (cases f) (auto intro: kinds_newAllocatedDeviceBuffer kinds_newDynamicBuffer)

lemma quiet_memcpy_to_buffer: "relates quiet (memcpy_to_buffer r a)"
  using quiet_memcpyM unfolding memcpy_to_buffer_def relates_def by blast

lemma kinds_memcpy_to_buffer: "relates kinds_kept (memcpy_to_buffer r a)"
  using kinds_memcpyM unfolding memcpy_to_buffer_def relates_def by blast

lemma quiet_fs_readM: "relates quiet (fs_readM file off r)"
  by (auto simp: relates_def fs_readM_def quiet_def Let_def split: sum.splits prod.splits)

lemma kinds_fs_readM: "relates kinds_kept (fs_readM file off r)"
  by (auto simp: relates_def fs_readM_def kinds_kept_def Let_def split: sum.splits prod.splits)

lemma kinds_withLock:
  assumes "relates kinds_kept body"
  shows "relates kinds_kept (withLock E r body)"
proof (cases r)
  case (Some i)
  have "relates kinds_kept (finallyM body (unlock E i))"
  proof (rule relatesI)
    fix s x t
    assume "finallyM body (unlock E i) s = (x, t)"
    then obtain t' where t': "body s = (x, t')" and t: "t = unlock E i t'"
      by (auto simp: finallyM_def split: prod.splits)
    show "kinds_kept s (outcome x) t"
      using relatesD [OF assms t'] kinds_unlock [of t' None E i]
      by (auto simp: kinds_kept_def t)
  qed
  then show ?thesis using Some by (simp add: withLock_def kinds_kept.rel_bind kinds_lock)
qed (simp add: withLock_def assms)

text \<open>Locking a buffer that has just been made is balanced whatever else is held.\<close>

lemma balanced_fresh:
  assumes new: "relates quiet m" "fresh_result m"
    and use: "\<And>r. relates (balanced {r}) (f r)"
  shows "relates (balanced {}) (bindM m f)"
proof (rule relatesI)
  fix w x w'
  assume "bindM m f w = (x, w')"
  then show "balanced {} w (outcome x) w'"
  proof (cases rule: bindM_cases)
    case (err e)
    then show ?thesis using relatesD [OF quiet_balanced [OF new(1)] err(1)] by simp
  next
    case (ok r t)
    have q: "balanced {} w None t" using relatesD [OF quiet_balanced [OF new(1)] ok(1)] by simp
    have r: "r = length (objs w)" using new(2) ok(1) by (auto simp: fresh_result_def)
    from relatesD [OF use ok(2)] have b: "balanced {r} t (outcome x) w'" .
    show ?thesis
    proof (cases "outcome x = Some UndefinedBehaviour")
      case False
      from q obtain tr where t: "length (objs w) \<le> length (objs t)" "trace t = trace w @ tr"
        "\<And>H. H \<subseteq> {..<length (objs w)} \<Longrightarrow> held_from H tr = Some H"
        by (auto simp: balanced_def)
      from b False obtain tr' where u: "length (objs t) \<le> length (objs w')"
        "trace w' = trace t @ tr'"
        "\<And>H. H \<subseteq> {..<length (objs t)} \<Longrightarrow> H \<inter> {r} = {} \<Longrightarrow> held_from H tr' = Some H"
        by (auto simp: balanced_def)
      have "held_from H (tr @ tr') = Some H" if "H \<subseteq> {..<length (objs w)}" for H
      proof -
        have "r \<notin> H" "H \<subseteq> {..<length (objs t)}" using that r t(1) by auto
        then show ?thesis using t(3) [OF that] u(3) [of H] by (simp add: held_from_append)
      qed
      then show ?thesis using t(1,2) u(1,2) by (auto simp: balanced_def intro!: exI [of _ "tr @ tr'"])
    qed (simp add: balanced_def)
  qed
qed

lemma fresh_getAllocatedBuffer: "fresh_result (getAllocatedBuffer E f s)"
  unfolding getAllocatedBuffer_def
  using fresh_newAllocatedDeviceBuffer fresh_newDynamicBuffer
  by (cases f) auto

lemma balanced_read_allocated:
  assumes "\<And>r. relates quiet (fill r)" and "\<And>r. relates kinds_kept (fill r)"
  shows "relates (balanced {}) (read_allocated E f s fill)"
  unfolding read_allocated_def
proof (rule balanced_fresh [OF quiet_getAllocatedBuffer fresh_getAllocatedBuffer])
  fix r
  have "relates (balanced {r}) (withLock E (Some r) (fill r))"
    by (rule balanced_withLock [where B = "{}"]) (simp_all add: assms quiet_balanced)
  then show "relates (balanced {r}) (bindM (withLock E (Some r) (fill r)) (\<lambda>_. retM r))"
    by (intro balanced.rel_rules)
qed

lemma balanced_readInternal: "relates (balanced {}) (readInternal E am off specs)"
proof (cases am)
  case (DDRAccessManager l f blob n)
  show ?thesis
    unfolding DDRAccessManager readInternal.simps Let_def
    by (intro balanced.rel_rules balanced_read_allocated quiet_memcpy_to_buffer
        kinds_memcpy_to_buffer quiet_balanced [OF quiet_getEmplacedBuffer])
next
  case (DDRAccessManagerAlways blob n)
  show ?thesis
    unfolding DDRAccessManagerAlways readInternal.simps
    by (intro balanced.rel_rules quiet_balanced [OF quiet_getEmplacedBuffer])
next
  case (FSAccessManager f bs)
  show ?thesis
    unfolding FSAccessManager readInternal.simps
    by (intro balanced.rel_rules balanced_read_allocated quiet_fs_readM kinds_fs_readM)
qed

lemma balanced_weaken: "relates (balanced A) m \<Longrightarrow> A \<subseteq> B \<Longrightarrow> relates (balanced B) m"
  unfolding relates_def balanced_def by (metis inf.absorb_iff2 inf_assoc inf_bot_right inf_commute)

lemma balanced_readExternal: "relates (balanced {r}) (readExternal E am off r)"
proof -
  have g: "relates (balanced {r}) (withLock E (Some r) body)"
    if "relates quiet body" "relates kinds_kept body" for body :: "(world, unit) prog"
    by (rule balanced_withLock [where B = "{}"]) (simp_all add: that quiet_balanced)
  show ?thesis
    by (cases am)
      (auto simp: readExternal_DDR_def intro!: balanced.rel_rules g quiet_memcpyM kinds_memcpyM
        quiet_fs_readM kinds_fs_readM)
qed

section \<open>The contract of a range read\<close>

text \<open>
  \<open>backing\<close> is the binary that is read. A successful read of a range that does not wrap around is
  inside the binary, the buffer it returns holds the bytes of the range, and reading changes
  neither the binary nor the accessor's readiness.
\<close>

locale range_reader =
  fixes rd :: "u64 \<Rightarrow> BufferSpecs \<Rightarrow> (world, bref) prog"
    and backing :: "world \<Rightarrow> bytes"
    and ready :: "world \<Rightarrow> bool"
  assumes in_range: "rd off specs w = (Inr r, w') \<Longrightarrow> ready w \<Longrightarrow>
      unat off + unat (sz specs) < 2 ^ 64 \<Longrightarrow> unat off + unat (sz specs) \<le> length (backing w)"
    and reads: "rd off specs w = (Inr r, w') \<Longrightarrow> ready w \<Longrightarrow>
      unat off + unat (sz specs) < 2 ^ 64 \<Longrightarrow> cpu_addr (getBuffer r w') \<noteq> Null \<Longrightarrow>
      peek (memory w') (cpu_addr (getBuffer r w')) (unat (sz specs)) =
        bslice (unat off) (unat (sz specs)) (backing w)"
    and stays: "rd off specs w = (Inr r, w') \<Longrightarrow> ready w \<Longrightarrow>
      unat off + unat (sz specs) < 2 ^ 64 \<Longrightarrow> ready w' \<and> backing w' = backing w"
begin

definition contents :: "bref \<Rightarrow> BufferSpecs \<Rightarrow> world \<Rightarrow> bytes" where
  "contents r specs w = peek (memory w) (cpu_addr (getBuffer r w)) (unat (sz specs))"

lemma reads_length:
  assumes "rd off specs w = (Inr r, w')" and "ready w"
    and "unat off + unat (sz specs) < 2 ^ 64" and "cpu_addr (getBuffer r w') \<noteq> Null"
  shows "length (contents r specs w') = unat (sz specs)"
  using reads [OF assms] in_range [OF assms(1-3)] by (simp add: contents_def)

text \<open>Reading the same range again gives the same bytes, whatever the two alignments and flags.\<close>

lemma reads_again:
  assumes 1: "rd off s1 w = (Inr r1, w1)" and 2: "rd off s2 w1 = (Inr r2, w2)"
    and "ready w" and "sz s1 = sz s2" and "unat off + unat (sz s1) < 2 ^ 64"
    and "cpu_addr (getBuffer r1 w1) \<noteq> Null" and "cpu_addr (getBuffer r2 w2) \<noteq> Null"
  shows "contents r2 s2 w2 = contents r1 s1 w1"
  using reads [OF 1] reads [OF 2] stays [OF 1] assms by (simp add: contents_def)

text \<open>A read inside a range already read gives the corresponding part of it.\<close>

lemma reads_part:
  assumes 1: "rd off s1 w = (Inr r1, w1)" and 2: "rd off' s2 w1 = (Inr r2, w2)"
    and "ready w" and "unat off + unat (sz s1) < 2 ^ 64"
    and off': "unat off' = unat off + k" and k: "k + unat (sz s2) \<le> unat (sz s1)"
    and "cpu_addr (getBuffer r1 w1) \<noteq> Null" and "cpu_addr (getBuffer r2 w2) \<noteq> Null"
  shows "contents r2 s2 w2 = bslice k (unat (sz s2)) (contents r1 s1 w1)"
  using reads [OF 1] reads [OF 2] stays [OF 1] assms
  by (simp add: contents_def bslice_bslice)

end

section \<open>Guarded copies\<close>

definition env_documented :: "env \<Rightarrow> bool" where
  "env_documented E \<longleftrightarrow> allocate_documented (env_bm E) \<and> lock_documented (env_bm E) \<and>
     copy_documented (env_bm E) \<and> reserve_documented E"

lemma bump_env_documented: "env_documented bump_env"
  using bump_documented by (simp add: env_documented_def)

text \<open>Equal but for the trace.\<close>

definition same_state :: "world \<Rightarrow> world \<Rightarrow> bool" where
  "same_state w w' \<longleftrightarrow> memory w' = memory w \<and> objs w' = objs w \<and> streamGood w' = streamGood w"

lemma setDevBuffer_same: "setDevBuffer r (getBuffer r w) w = w"
  by (simp add: setDevBuffer_def getBuffer_def)

lemma lock_same:
  assumes "lock_documented (env_bm E)" and "lock E r w = (x, w')"
  shows "same_state w w'"
proof (cases "bm_lock (env_bm E) (getBuffer r w) (memory w)")
  case (Pair y m)
  then have "m = memory w" "\<And>db. y = Inr db \<Longrightarrow> db = getBuffer r w"
    using assms(1) unfolding lock_documented_def by (metis snd_conv, metis fst_conv)
  then show ?thesis
    using assms(2) Pair
    by (auto simp: lock_def same_state_def setDevBuffer_same logEv_def
        split: if_splits buffer_kind.splits sum.splits)
qed

lemma unlock_same: "lock_documented (env_bm E) \<Longrightarrow> same_state w (unlock E r w)"
  by (auto simp: unlock_def lock_documented_def same_state_def setDevBuffer_same logEv_def
      split: buffer_kind.splits)

lemma withLock_Inr:
  assumes "lock_documented (env_bm E)" and "withLock E (Some r) body w = (Inr x, w')"
  obtains w1 w2 where "same_state w w1" and "body w1 = (Inr x, w2)" and "same_state w2 w'"
proof -
  from assms(2) obtain w1 where 1: "lock E r w = (Inr (), w1)"
    and 2: "finallyM body (unlock E r) w1 = (Inr x, w')"
    by (auto simp: withLock_def bindM_Inr_iff)
  from 2 obtain w2 where "body w1 = (Inr x, w2)" "w' = unlock E r w2"
    by (auto simp: finallyM_def split: prod.splits)
  then show thesis using that lock_same [OF assms(1) 1] unlock_same [OF assms(1)] by blast
qed

lemma getBuffer_same: "same_state w w' \<Longrightarrow> getBuffer r w' = getBuffer r w"
  by (simp add: same_state_def getBuffer_def)

text \<open>The storage of a new buffer is new.\<close>

lemma getAllocatedBuffer_Inr:
  assumes "getAllocatedBuffer E f specs w = (Inr r, w')" and "env_documented E"
  shows "mem_grows (memory w) (memory w')" and "streamGood w' = streamGood w"
    and "cpu_addr (getBuffer r w') = Null \<or>
      (\<exists>blk off. cpu_addr (getBuffer r w') = Ptr blk off \<and> length (memory w) \<le> blk) \<and>
      sz specs \<le> buf_size (getBuffer r w')"
proof -
  consider (alloc) "newAllocatedDeviceBuffer E True specs w = (Inr r, w')"
    | (dyn) "newDynamicBuffer E specs w = (Inr r, w')"
    using assms(1) by (auto simp: getAllocatedBuffer_def split: buffer_factory.splits if_splits)
  then have "mem_grows (memory w) (memory w') \<and> streamGood w' = streamGood w \<and>
      (cpu_addr (getBuffer r w') = Null \<or>
       (\<exists>blk off. cpu_addr (getBuffer r w') = Ptr blk off \<and> length (memory w) \<le> blk) \<and>
       sz specs \<le> buf_size (getBuffer r w'))"
  proof cases
    case alloc
    obtain y m where y: "bm_allocate (env_bm E) specs (memory w) = (y, m)" by (cases "bm_allocate (env_bm E) specs (memory w)")
    from alloc y obtain db where db: "y = Inr db"
      and no: "\<not> (cpu_addr db \<noteq> Null \<and> buf_size db < sz specs)"
      and w': "memory w' = m" "getBuffer r w' = db" "streamGood w' = streamGood w"
      by (auto simp: newAllocatedDeviceBuffer_def newObj_def getBuffer_def logEv_def Let_def
          split: sum.splits)
    have "mem_grows (memory w) m" and "cpu_addr db = Null \<or> (\<exists>blk. cpu_addr db = Ptr blk 0 \<and> length (memory w) \<le> blk)"
      using assms(2) y db unfolding env_documented_def allocate_documented_def
      by (metis snd_conv, metis fst_conv)
    then show ?thesis using no w' by auto
  next
    case dyn
    then show ?thesis
      by (auto simp: newDynamicBuffer_def Let_def newObj_def getBuffer_def DeviceBuffer_make_def
          mem_grows_def split: option.splits)
  qed
  then show "mem_grows (memory w) (memory w')" and "streamGood w' = streamGood w"
    and "cpu_addr (getBuffer r w') = Null \<or>
      (\<exists>blk off. cpu_addr (getBuffer r w') = Ptr blk off \<and> length (memory w) \<le> blk) \<and>
      sz specs \<le> buf_size (getBuffer r w')" by blast+
qed

lemma read_allocated_Inr:
  assumes "read_allocated E f specs fill w = (Inr r, w')" and "env_documented E"
  obtains w1 w2 where "mem_grows (memory w) (memory w1)" and "streamGood w1 = streamGood w"
    and "fill r w1 = (Inr (), w2)" and "same_state w2 w'"
    and "cpu_addr (getBuffer r w1) = Null \<or>
      (\<exists>blk off. cpu_addr (getBuffer r w1) = Ptr blk off \<and> length (memory w) \<le> blk) \<and>
      sz specs \<le> buf_size (getBuffer r w1)"
proof -
  from assms(1) obtain w0 where 0: "getAllocatedBuffer E f specs w = (Inr r, w0)"
    and 1: "withLock E (Some r) (fill r) w0 = (Inr (), w')"
    by (auto simp: read_allocated_def bindM_Inr_iff retM_def)
  have l: "lock_documented (env_bm E)" using assms(2) by (simp add: env_documented_def)
  from withLock_Inr [OF l 1] obtain w1 w2 where w1: "same_state w0 w1"
    and w2: "fill r w1 = (Inr (), w2)" "same_state w2 w'" by blast
  have "memory w1 = memory w0" "streamGood w1 = streamGood w0"
    using w1 by (simp_all add: same_state_def)
  then show thesis
    using that [OF _ _ w2] getAllocatedBuffer_Inr [OF 0 assms(2)] getBuffer_same [OF w1] by simp
qed

lemma peek_poke_prefix:
  "valid m p (length bs) \<Longrightarrow> k \<le> length bs \<Longrightarrow> peek (poke m p bs) p k = take k bs"
  by (cases p) (auto simp: bslice_def bwrite_def min_def)

lemma take_peek: "k \<le> n \<Longrightarrow> take k (peek m p n) = peek m p k"
  by (cases p) (auto simp: bslice_def min_def)

lemma peek_part: "k + n \<le> l \<Longrightarrow> peek m (ptr_add p k) n = bslice k n (peek m p l)"
  by (cases p) (auto simp: bslice_def drop_take ac_simps min_def)

lemma peek_grows: "mem_grows m m' \<Longrightarrow> valid m p n \<Longrightarrow> peek m' p n = peek m p n"
  by (auto simp: mem_grows_def peek_append)

lemma valid_grows: "mem_grows m m' \<Longrightarrow> valid m p n \<Longrightarrow> valid m' p n"
  by (auto simp: mem_grows_def valid_append)

lemma valid_part: "valid m p l \<Longrightarrow> k + n \<le> l \<Longrightarrow> valid m (ptr_add p k) n"
  by (cases p) auto

lemma poke_new_block:
  "valid m p (length bs) \<Longrightarrow> p = Ptr blk off \<Longrightarrow> q = Ptr b o' \<Longrightarrow> b \<noteq> blk \<Longrightarrow>
    peek (poke m p bs) q n = peek m q n"
  by (rule peek_poke_other) auto

section \<open>The memory accessor meets the contract\<close>

definition ddr_ready :: "env \<Rightarrow> ptr \<Rightarrow> u64 \<Rightarrow> world \<Rightarrow> bool" where
  "ddr_ready E blob mSize w \<longleftrightarrow> env_documented E \<and> blob \<noteq> Null \<and>
     (\<exists>b off. blob = Ptr b off \<and> b < length (memory w)) \<and> valid (memory w) blob (unat mSize)"

definition ddr_backing :: "ptr \<Rightarrow> u64 \<Rightarrow> world \<Rightarrow> bytes" where
  "ddr_backing blob mSize w = peek (memory w) blob (unat mSize)"

lemma bound_no_wrap:
  "\<not> off + n > (lim :: u64) \<Longrightarrow> unat off + unat n < 2 ^ 64 \<Longrightarrow> unat off + unat n \<le> unat lim"
  by (simp add: word_le_nat_alt not_less unat_add_no_wrap)

lemma emplaced_Inr:
  assumes "getEmplacedBuffer p specs w = (Inr r, w')"
  shows "memory w' = memory w" "cpu_addr (getBuffer r w') = p" "streamGood w' = streamGood w"
  using assms
  by (auto simp: getEmplacedBuffer_def newStaticBuffer_def newObj_def getBuffer_def DeviceBuffer_make_def)

lemma ddr_emplaced:
  assumes "getEmplacedBuffer (ptr_add blob (unat off)) specs w = (Inr r, w')"
    and "ddr_ready E blob n w" and "unat off + unat (sz specs) \<le> unat n"
  shows "peek (memory w') (cpu_addr (getBuffer r w')) (unat (sz specs)) =
      bslice (unat off) (unat (sz specs)) (ddr_backing blob n w)"
    and "ddr_ready E blob n w'" and "ddr_backing blob n w' = ddr_backing blob n w"
  using emplaced_Inr [OF assms(1)] assms(2,3) peek_part [OF assms(3)]
  by (simp_all add: ddr_ready_def ddr_backing_def)

lemma ddr_copied:
  assumes "read_allocated E f specs (\<lambda>r. memcpy_to_buffer r (ptr_add blob (unat off))) w = (Inr r, w')"
    and ready: "ddr_ready E blob n w" and le: "unat off + unat (sz specs) \<le> unat n"
  shows "cpu_addr (getBuffer r w') \<noteq> Null \<Longrightarrow>
      peek (memory w') (cpu_addr (getBuffer r w')) (unat (sz specs)) =
      bslice (unat off) (unat (sz specs)) (ddr_backing blob n w)"
    and "ddr_ready E blob n w'" and "ddr_backing blob n w' = ddr_backing blob n w"
proof -
  have doc: "env_documented E" using ready by (simp add: ddr_ready_def)
  from ready obtain b off0 where blob: "blob = Ptr b off0" "b < length (memory w)"
    "valid (memory w) blob (unat n)" by (auto simp: ddr_ready_def)
  obtain w1 w2 where g: "mem_grows (memory w) (memory w1)"
    and fill: "memcpy_to_buffer r (ptr_add blob (unat off)) w1 = (Inr (), w2)"
    and same: "same_state w2 w'"
    and new: "cpu_addr (getBuffer r w1) = Null \<or>
      (\<exists>blk off. cpu_addr (getBuffer r w1) = Ptr blk off \<and> length (memory w) \<le> blk) \<and>
      sz specs \<le> buf_size (getBuffer r w1)"
    by (rule read_allocated_Inr [OF assms(1) doc])
  let ?db = "getBuffer r w1" and ?src = "ptr_add blob (unat off)"
  let ?bs = "peek (memory w1) ?src (unat (buf_size ?db))"
  from fill have v: "valid (memory w1) (cpu_addr ?db) (unat (buf_size ?db))"
    "valid (memory w1) ?src (unat (buf_size ?db))"
    and w2: "memory w2 = poke (memory w1) (cpu_addr ?db) ?bs" "objs w2 = objs w1"
    by (auto simp: memcpy_to_buffer_def memcpyM_def memcpy_mem_def split: if_splits sum.splits)
  have len: "length ?bs = unat (buf_size ?db)" by (rule length_peek [OF v(2)])
  have w': "memory w' = poke (memory w1) (cpu_addr ?db) ?bs" "getBuffer r w' = ?db"
    using same w2 by (simp_all add: same_state_def getBuffer_def)
  have src: "peek (memory w1) ?src (unat (sz specs)) = bslice (unat off) (unat (sz specs)) (ddr_backing blob n w)"
    using peek_grows [OF g blob(3)] peek_part [OF le] by (simp add: ddr_backing_def)
  show "peek (memory w') (cpu_addr (getBuffer r w')) (unat (sz specs)) =
      bslice (unat off) (unat (sz specs)) (ddr_backing blob n w)" if "cpu_addr (getBuffer r w') \<noteq> Null"
  proof -
    have le': "unat (sz specs) \<le> unat (buf_size ?db)" using new that w'(2) by (simp add: word_le_nat_alt)
    have "peek (memory w') (cpu_addr ?db) (unat (sz specs)) = take (unat (sz specs)) ?bs"
      unfolding w'(1) by (rule peek_poke_prefix) (use v le' len in simp_all)
    also have "\<dots> = peek (memory w1) ?src (unat (sz specs))" by (rule take_peek [OF le'])
    finally show ?thesis using src w'(2) by simp
  qed
  have keep: "peek (memory w') blob (unat n) = peek (memory w1) blob (unat n)"
  proof (cases "cpu_addr ?db")
    case Null
    then show ?thesis by (simp add: w'(1))
  next
    case (Ptr blk o')
    then have "b \<noteq> blk" using new blob(2) by auto
    then show ?thesis unfolding w'(1) Ptr using v(1) len
      by (intro poke_new_block [OF _ refl blob(1)]) (simp_all add: Ptr)
  qed
  have "peek (memory w') blob (unat n) = peek (memory w) blob (unat n)"
    using keep peek_grows [OF g blob(3)] by simp
  then show "ddr_backing blob n w' = ddr_backing blob n w" by (simp add: ddr_backing_def)
  have "length (memory w) \<le> length (memory w')" "valid (memory w') blob (unat n)"
    using valid_grows [OF g blob(3)] g v(1) len by (auto simp: w'(1) mem_grows_def)
  then show "ddr_ready E blob n w'" using ready blob by (auto simp: ddr_ready_def)
qed

interpretation ddr_always: range_reader "readInternal E (DDRAccessManagerAlways blob n)"
    "ddr_backing blob n" "ddr_ready E blob n"
proof unfold_locales
  fix off :: u64 and specs r w w'
  assume run: "readInternal E (DDRAccessManagerAlways blob n) off specs w = (Inr r, w')"
    and ready: "ddr_ready E blob n w" and nw: "unat off + unat (sz specs) < 2 ^ 64"
  from run have e: "getEmplacedBuffer (ptr_add blob (unat off)) specs w = (Inr r, w')"
    and le: "unat off + unat (sz specs) \<le> unat n" using bound_no_wrap [OF _ nw, of n] by auto
  show "unat off + unat (sz specs) \<le> length (ddr_backing blob n w)"
    using le ready by (simp add: ddr_backing_def ddr_ready_def length_peek)
  show "peek (memory w') (cpu_addr (getBuffer r w')) (unat (sz specs)) =
      bslice (unat off) (unat (sz specs)) (ddr_backing blob n w)" by (rule ddr_emplaced [OF e ready le])
  show "ddr_ready E blob n w' \<and> ddr_backing blob n w' = ddr_backing blob n w"
    using ddr_emplaced(2,3) [OF e ready le] by simp
qed

interpretation ddr: range_reader "readInternal E (DDRAccessManager l f blob n)"
    "ddr_backing blob n" "ddr_ready E blob n"
proof unfold_locales
  fix off :: u64 and specs r w w'
  assume run: "readInternal E (DDRAccessManager l f blob n) off specs w = (Inr r, w')"
    and ready: "ddr_ready E blob n w" and nw: "unat off + unat (sz specs) < 2 ^ 64"
  from run have le: "unat off + unat (sz specs) \<le> unat n" using bound_no_wrap [OF _ nw, of n] by simp
  from run consider (e) "getEmplacedBuffer (ptr_add blob (unat off)) specs w = (Inr r, w')"
    | (c) "read_allocated E f specs (\<lambda>r. memcpy_to_buffer r (ptr_add blob (unat off))) w = (Inr r, w')"
    by (auto simp: Let_def bindM_readM simp del: canEmplace.simps split: if_splits)
  note cases = this
  show "unat off + unat (sz specs) \<le> length (ddr_backing blob n w)"
    using le ready by (simp add: ddr_backing_def ddr_ready_def length_peek)
  show "ddr_ready E blob n w' \<and> ddr_backing blob n w' = ddr_backing blob n w"
    using cases ddr_emplaced(2,3) [OF _ ready le] ddr_copied(2,3) [OF _ ready le] by metis
  show "peek (memory w') (cpu_addr (getBuffer r w')) (unat (sz specs)) =
      bslice (unat off) (unat (sz specs)) (ddr_backing blob n w)"
    if "cpu_addr (getBuffer r w') \<noteq> Null"
    using cases that by cases (rule ddr_emplaced [OF _ ready le] ddr_copied [OF _ ready le]; assumption)+
qed

section \<open>The file accessor meets the contract\<close>

text \<open>
  A manager that rounds sizes up would make the last reads of the file come up short and leave the
  stream failed, so this accessor also needs allocations of the exact size.
\<close>

definition allocate_exact :: "buffer_manager \<Rightarrow> bool" where
  "allocate_exact b \<longleftrightarrow>
     (\<forall>specs m db. fst (bm_allocate b specs m) = Inr db \<longrightarrow> buf_size db = sz specs)"

definition fs_ready :: "env \<Rightarrow> bytes \<Rightarrow> world \<Rightarrow> bool" where
  "fs_ready E fl w \<longleftrightarrow> env_documented E \<and> allocate_exact (env_bm E) \<and>
     length fl < 2 ^ 63 \<and> streamGood w"

lemma getAllocatedBuffer_size:
  assumes "getAllocatedBuffer E f specs w = (Inr r, w')" and "allocate_exact (env_bm E)"
  shows "buf_size (getBuffer r w') = sz specs"
proof -
  consider (alloc) "newAllocatedDeviceBuffer E True specs w = (Inr r, w')"
    | (dyn) "newDynamicBuffer E specs w = (Inr r, w')"
    using assms(1) by (auto simp: getAllocatedBuffer_def split: buffer_factory.splits if_splits)
  then show ?thesis
  proof cases
    case alloc
    obtain y m where y: "bm_allocate (env_bm E) specs (memory w) = (y, m)"
      by (cases "bm_allocate (env_bm E) specs (memory w)")
    from alloc y obtain db where db: "y = Inr db" "getBuffer r w' = db"
      by (auto simp: newAllocatedDeviceBuffer_def newObj_def getBuffer_def logEv_def Let_def
          split: sum.splits)
    then show ?thesis using assms(2) y unfolding allocate_exact_def by (metis fst_conv)
  next
    case dyn
    then show ?thesis
      by (auto simp: newDynamicBuffer_def Let_def newObj_def getBuffer_def DeviceBuffer_make_def
          split: option.splits)
  qed
qed

interpretation fs: range_reader "readInternal E (FSAccessManager f fl)" "\<lambda>_. fl" "fs_ready E fl"
proof -
  have main: "unat off + unat (sz specs) \<le> length fl \<and> fs_ready E fl w' \<and>
      (cpu_addr (getBuffer r w') \<noteq> Null \<longrightarrow>
       peek (memory w') (cpu_addr (getBuffer r w')) (unat (sz specs)) =
         bslice (unat off) (unat (sz specs)) fl)"
    if run: "readInternal E (FSAccessManager f fl) off specs w = (Inr r, w')"
      and ready: "fs_ready E fl w" and nw: "unat off + unat (sz specs) < 2 ^ 64"
    for off specs r w w'
  proof -
    have lim: "unat (of_nat (length fl) :: u64) = length fl"
      using ready by (intro unat_of_nat_u64) (simp add: fs_ready_def)
    from run have le: "unat off + unat (sz specs) \<le> length fl"
      using bound_no_wrap [OF _ nw, of "of_nat (length fl)"] by (simp add: lim)
    from run obtain w0 where 0: "getAllocatedBuffer E f specs w = (Inr r, w0)"
      and 1: "withLock E (Some r) (fs_readM fl off r) w0 = (Inr (), w')"
      by (auto simp: read_allocated_def bindM_Inr_iff retM_def)
    have doc: "env_documented E" "lock_documented (env_bm E)"
      using ready by (simp_all add: fs_ready_def env_documented_def)
    from withLock_Inr [OF doc(2) 1] obtain w1 w2 where s1: "same_state w0 w1"
      and fill: "fs_readM fl off r w1 = (Inr (), w2)" and s2: "same_state w2 w'" by blast
    have size: "buf_size (getBuffer r w1) = sz specs"
      using getAllocatedBuffer_size [OF 0] ready getBuffer_same [OF s1] by (simp add: fs_ready_def)
    have good: "streamGood w1"
      using getAllocatedBuffer_Inr(2) [OF 0 doc(1)] s1 ready by (simp add: same_state_def fs_ready_def)
    let ?got = "bslice (unat off) (unat (sz specs)) fl"
    have small: "unat off < 2 ^ 63" "unat (sz specs) < 2 ^ 63"
      using le ready by (simp_all add: fs_ready_def)
    have len: "length ?got = unat (sz specs)" using le by simp
    have "fs_read fl off (sz specs) True = (?got, True)"
      using small len by (simp add: fs_read_def Let_def)
    with fill size good obtain m where m: "write_mem (cpu_addr (getBuffer r w1)) ?got (memory w1) = Inr m"
      and w2: "w2 = w1\<lparr>memory := m, streamGood := True\<rparr>"
      by (auto simp: fs_readM_def split: sum.splits)
    from m have v: "valid (memory w1) (cpu_addr (getBuffer r w1)) (length ?got)"
      and m': "m = poke (memory w1) (cpu_addr (getBuffer r w1)) ?got"
      by (auto simp: write_mem_def split: if_splits)
    have w': "memory w' = m" "getBuffer r w' = getBuffer r w1" "streamGood w'"
      using s2 by (simp_all add: w2 same_state_def getBuffer_def)
    have "peek m (cpu_addr (getBuffer r w1)) (length ?got) = ?got"
      unfolding m' by (rule peek_poke_same [OF v])
    then show ?thesis using le ready w' len by (simp add: fs_ready_def)
  qed
  show "range_reader (readInternal E (FSAccessManager f fl)) (\<lambda>_. fl) (fs_ready E fl)"
    by unfold_locales (use main in blast)+
qed

end
