(* ===== verification/Elf_Reader.thy ===== *)
theory Elf_Reader imports Elf_Accessor begin

text \<open>
  \<^verbatim>\<open>reader.hpp\<close> at \<^verbatim>\<open>ELF_Bitness::Elf64\<close>, the instance the loader uses: the constructor with its
  checks in order, the section table, and sections with their cached data buffers. The reader keeps
  sections in a cache (a \<^verbatim>\<open>mutable\<close> member), so its programs run on the pair of the reader and the
  world. A pointer to a section header or into the names is the header or the offset: both vectors
  are fixed once the constructor has run.
\<close>

section \<open>State\<close>

record RSection =
  rs_header :: Elf64_Shdr
  rs_name :: nat
  rs_dataBuffer :: "bref option"

record Reader =
  mElfHeader :: Elf64_Ehdr
  mSectionHeaders :: "Elf64_Shdr list"
  mSectionNames :: bytes
  mSectionsCache :: "nat \<Rightarrow> RSection option"

type_synonym rstate = "Reader \<times> world"

section \<open>The constructor\<close>

text \<open>
  Reading into a member: the member is a block of its own, wrapped in a static buffer.
\<close>

definition readMember :: "env \<Rightarrow> access_manager \<Rightarrow> u64 \<Rightarrow> nat \<Rightarrow> (world, bytes) prog" where
  "readMember E am offset byteSize =
     bindM (readM (\<lambda>w. Ptr (length (memory w)) 0)) (\<lambda>member.
     bindM (modifyM (\<lambda>w. w\<lparr>memory := memory w @ [(0, replicate byteSize 0)]\<rparr>)) (\<lambda>_.
     bindM (newStaticBuffer member (BufferSpecs_make 0 (of_nat byteSize) 0)) (\<lambda>r.
     bindM (readExternal E am offset r) (\<lambda>_.
     bindM (readM memory) (\<lambda>m. liftM (read_mem member byteSize m))))))"

text \<open>The section names; an index into an empty vector is undefined.\<close>

definition readSectionNames ::
    "env \<Rightarrow> access_manager \<Rightarrow> Elf64_Ehdr \<Rightarrow> Elf64_Shdr list \<Rightarrow> (world, bytes) prog" where
  "readSectionNames E am hdr shdrs =
     (if e_shstrndx hdr \<noteq> 0
      then (let secNamesSection = shdrs ! unat (e_shstrndx hdr)
            in throwM_unless (sh_offset secNamesSection + sh_size secNamesSection \<le> getSize am)
                 HeaderError
               (throwM_when (sh_size secNamesSection = 0) UndefinedBehaviour
               (readMember E am (sh_offset secNamesSection) (unat (sh_size secNamesSection)))))
      else retM [])"

definition Reader_new :: "env \<Rightarrow> access_manager option \<Rightarrow> (world, Reader) prog" where
  "Reader_new E accessor =
     (case accessor of
        None \<Rightarrow> throwM ArgsError
      | Some am \<Rightarrow>
          bindM (readMember E am 0 64) (\<lambda>hdrBytes.
          let hdr = dec_Elf64_Ehdr hdrBytes
          in bindM (liftM (checkELFMagic (Some hdrBytes))) (\<lambda>magic.
             throwM_unless magic HeaderError
             (throwM_unless (64 = e_shentsize hdr) HeaderError
             (throwM_unless (e_shoff hdr \<ge> 64) HeaderError
             (throwM_unless (e_shnum hdr \<noteq> 0) HeaderError
             (throwM_unless (e_shstrndx hdr < e_shnum hdr) HeaderError
             (bindM (readMember E am (e_shoff hdr) (unat (e_shnum hdr) * 64)) (\<lambda>tableBytes.
              let shdrs = pod_elf64_shdr.dec_table (unat (e_shnum hdr)) tableBytes
              in bindM (readSectionNames E am hdr shdrs) (\<lambda>names.
                 retM \<lparr>mElfHeader = hdr, mSectionHeaders = shdrs, mSectionNames = names,
                       mSectionsCache = \<lambda>_. None\<rparr>))))))))))"

section \<open>Sections\<close>

definition getSectionsNum :: "Reader \<Rightarrow> nat res" where
  "getSectionsNum rd =
     (let MAX_SECTIONS_COUNT = 0xffff - 1
      in throw_when (e_shnum (mElfHeader rd) > MAX_SECTIONS_COUNT) ArgsError
           (Inr (unat (e_shnum (mElfHeader rd)))))"

text \<open>The name is an address into the names vector: past its end it is undefined.\<close>

definition getSection :: "nat \<Rightarrow> Reader \<Rightarrow> RSection res \<times> Reader" where
  "getSection index rd =
     (if index \<ge> unat (e_shnum (mElfHeader rd)) then (Inl RangeError, rd)
      else (case mSectionsCache rd index of
        Some s \<Rightarrow> (Inr s, rd)
      | None \<Rightarrow>
          (let secHeader = mSectionHeaders rd ! index
           in if length (mSectionNames rd) \<le> unat (sh_name secHeader)
              then (Inl UndefinedBehaviour, rd)
              else (let s = \<lparr>rs_header = secHeader, rs_name = unat (sh_name secHeader),
                             rs_dataBuffer = None\<rparr>
                    in (Inr s, rd\<lparr>mSectionsCache := (mSectionsCache rd)(index \<mapsto> s)\<rparr>)))))"

definition getEntriesNum :: "RSection \<Rightarrow> nat res" where
  "getEntriesNum s =
     throw_unless (sh_entsize (rs_header s) \<noteq> 0) SectionError
     (Inr (unat (sh_size (rs_header s) div sh_entsize (rs_header s))))"

text \<open>The C string the name points to.\<close>

definition cstring_at :: "nat \<Rightarrow> bytes \<Rightarrow> bytes" where
  "cstring_at off bs = takeWhile (\<lambda>b. b \<noteq> 0) (drop off bs)"

definition getName :: "Reader \<Rightarrow> RSection \<Rightarrow> bytes res" where
  "getName rd s =
     (if 0 \<in> set (drop (rs_name s) (mSectionNames rd))
      then Inr (cstring_at (rs_name s) (mSectionNames rd)) else Inl UndefinedBehaviour)"

definition getDataBuffer ::
    "env \<Rightarrow> access_manager \<Rightarrow> bool \<Rightarrow> RSection \<Rightarrow> (world, bref option) prog" where
  "getDataBuffer E am cpuOnlyAccess s =
     (let h = rs_header s
      in if \<not> (sh_type h = SHT_NOBITS \<or> sh_type h = VPU_SHT_CMX_METADATA \<or>
               sh_type h = VPU_SHT_CMX_WORKSPACE)
         then bindM (readInternal E am (sh_offset h)
                (BufferSpecs_make (sh_addralign h) (sh_size h)
                  (if cpuOnlyAccess then 0 else sh_flags h))) (\<lambda>r. retM (Some r))
         else retM None)"

text \<open>
  \<^verbatim>\<open>getData\<close> fills the section's own cache; a section without file data has a null buffer, which it
  dereferences.
\<close>

definition getData :: "env \<Rightarrow> access_manager \<Rightarrow> RSection \<Rightarrow> (world, ptr \<times> RSection) prog" where
  "getData E am s =
     bindM (case rs_dataBuffer s of None \<Rightarrow> getDataBuffer E am False s | Some r \<Rightarrow> retM (Some r))
     (\<lambda>buf. bindM (deref buf) (\<lambda>r.
        readM (\<lambda>w. (cpu_addr (getBuffer r w), s\<lparr>rs_dataBuffer := Some r\<rparr>))))"

section \<open>Programs on the reader's state\<close>

definition on_world :: "(world, 'a) prog \<Rightarrow> (rstate, 'a) prog" where
  "on_world m = zoomM snd apsnd m"

definition sectionM :: "nat \<Rightarrow> (rstate, RSection) prog" where
  "sectionM index st = (case getSection index (fst st) of (r, rd) \<Rightarrow> (r, (rd, snd st)))"

text \<open>\<^verbatim>\<open>getSection(i).getData()\<close> through a reference, so that the cached section keeps the buffer.\<close>

definition sectionDataM :: "env \<Rightarrow> access_manager \<Rightarrow> nat \<Rightarrow> (rstate, ptr) prog" where
  "sectionDataM E am index =
     bindM (sectionM index) (\<lambda>s.
     bindM (on_world (getData E am s)) (\<lambda>(p, s').
     bindM (modifyM (apfst (\<lambda>rd. rd\<lparr>mSectionsCache := (mSectionsCache rd)(index \<mapsto> s')\<rparr>))) (\<lambda>_.
     retM p)))"

end
