(* ===== verification/Elf_Writer_Props.thy ===== *)
theory Elf_Writer_Props imports Elf_Writer Elf_Reader begin

text \<open>
  The writer's parts: packing of symbol information, string tables (the locale \<open>string_table\<close>,
  interpreted for \<open>addString\<close>), what finalising a symbol or a relocation section emits, and the
  layout of the sections.
\<close>

section \<open>Symbol information\<close>

lemma getType_setType: "symbol_getType (symbol_setType t s) = t AND 0xf"
proof -
  have m: "(0xf :: u64) = mask 4" "(0xf :: u32) = mask 4" by (simp_all add: mask_eq_exp_minus_1)
  show ?thesis
    unfolding symbol_getType_def symbol_setType_def elf64STType_def elf64STInfo_or m
    by (rule bit_word_eqI) (auto simp: bit_simps)
qed

lemma getBinding_setBinding: "symbol_getBinding (symbol_setBinding b s) = b AND 0xf"
proof -
  have m: "(0xf :: u64) = mask 4" "(0xf :: u32) = mask 4" by (simp_all add: mask_eq_exp_minus_1)
  show ?thesis
    unfolding symbol_getBinding_def symbol_setBinding_def elf64STType_def elf64STBind_def
      elf64STInfo_or m
    by (rule bit_word_eqI) (auto simp: bit_simps dest: bit_imp_le_length)
qed

lemma getBinding_setType: "symbol_getBinding (symbol_setType t s) = symbol_getBinding s"
proof -
  have m: "(0xf :: u64) = mask 4" by (simp add: mask_eq_exp_minus_1)
  show ?thesis
    unfolding symbol_getBinding_def symbol_setType_def elf64STBind_def elf64STInfo_or m
    by (rule bit_word_eqI) (auto simp: bit_simps dest: bit_imp_le_length)
qed

lemma getType_setBinding: "symbol_getType (symbol_setBinding b s) = symbol_getType s"
proof -
  have m: "(0xf :: u64) = mask 4" by (simp add: mask_eq_exp_minus_1)
  show ?thesis
    unfolding symbol_getType_def symbol_setBinding_def elf64STType_def elf64STInfo_or m
    by (rule bit_word_eqI) (auto simp: bit_simps dest: bit_imp_le_length)
qed

section \<open>String tables\<close>

text \<open>\<open>str_at off d name\<close>: the C string at \<open>off\<close> in \<open>d\<close> ends inside \<open>d\<close> and is \<open>name\<close>.\<close>

definition str_at :: "nat \<Rightarrow> bytes \<Rightarrow> bytes \<Rightarrow> bool" where
  "str_at off d name \<longleftrightarrow> 0 \<in> set (drop off d) \<and> cstring_at off d = name"

lemma str_at_append: "str_at off d name \<Longrightarrow> str_at off (d @ e) name"
  by (auto simp: str_at_def cstring_at_def takeWhile_append1)

lemma str_at_in: "str_at off d name \<Longrightarrow> off < length d"
  by (rule ccontr) (simp add: str_at_def)

lemma str_at_new: "0 \<notin> set name \<Longrightarrow> str_at (length d) (d @ name @ [0]) name"
proof -
  assume nz: "0 \<notin> set name"
  have "takeWhile (\<lambda>b. b \<noteq> 0) (name @ [0]) = name" by (subst takeWhile_append2) (use nz in auto)
  then show ?thesis by (simp add: str_at_def cstring_at_def)
qed

locale string_table =
  fixes add :: "bytes \<Rightarrow> 't \<Rightarrow> nat \<times> 't"
    and content :: "'t \<Rightarrow> bytes"
    and table_ok :: "'t \<Rightarrow> bool"
  assumes add_ok: "table_ok t \<Longrightarrow> table_ok (snd (add name t))"
    and add_finds: "table_ok t \<Longrightarrow> 0 \<notin> set name \<Longrightarrow> str_at (fst (add name t)) (content (snd (add name t))) name"
    and add_keeps: "str_at off (content t) n \<Longrightarrow> str_at off (content (snd (add name t))) n"
begin

primrec adds :: "bytes list \<Rightarrow> 't \<Rightarrow> nat list \<times> 't" where
  "adds [] t = ([], t)"
| "adds (n # ns) t =
     (let (off, t1) = add n t; (offs, t2) = adds ns t1 in (off # offs, t2))"

lemma adds_ok: "table_ok t \<Longrightarrow> table_ok (snd (adds ns t))"
  by (induction ns arbitrary: t) (simp_all add: Let_def split_beta add_ok)

lemma adds_keeps: "str_at off (content t) n \<Longrightarrow> str_at off (content (snd (adds ns t))) n"
proof (induction ns arbitrary: t)
  case (Cons m ns)
  have "str_at off (content (snd (add m t))) n" by (rule add_keeps [OF Cons.prems])
  then show ?case using Cons.IH [of "snd (add m t)"] by (simp add: Let_def split_beta)
qed simp

lemma length_adds [simp]: "length (fst (adds ns t)) = length ns"
  by (induction ns arbitrary: t) (simp_all add: Let_def split_beta)

lemma adds_find:
  "table_ok t \<Longrightarrow> \<forall>n \<in> set ns. 0 \<notin> set n \<Longrightarrow> i < length ns \<Longrightarrow>
    str_at (fst (adds ns t) ! i) (content (snd (adds ns t))) (ns ! i)"
proof (induction ns arbitrary: t i)
  case (Cons m ns)
  obtain off t1 where a: "add m t = (off, t1)" by (cases "add m t")
  obtain offs t2 where b: "adds ns t1 = (offs, t2)" by (cases "adds ns t1")
  have ok: "table_ok t1" using add_ok [OF Cons.prems(1), of m] a by simp
  show ?case
  proof (cases i)
    case 0
    have "str_at off (content t1) m" using add_finds [OF Cons.prems(1), of m] a Cons.prems(2) by simp
    from adds_keeps [OF this, of ns] show ?thesis using 0 a b by simp
  next
    case (Suc j)
    then show ?thesis using Cons.IH [OF ok, of j] Cons.prems a b by simp
  qed
qed simp

end

definition string_ok :: "Section \<Rightarrow> bool" where
  "string_ok s \<longleftrightarrow> m_kind s = StringSection \<and> (\<exists>d. m_data s = 0 # d) \<and> last (m_data s) = 0 \<and>
     sh_size (m_header s) = (if length (m_data s) = 1 then 0 else of_nat (length (m_data s)))"

lemma addString_data: "m_data (snd (addString name s)) = (if name = [] then m_data s else m_data s @ name @ [0])"
  by (simp add: addString_def Let_def setSize_def on_header_def)

lemma addString_offset: "fst (addString name s) = (if name = [] then 0 else length (m_data s))"
  by (simp add: addString_def Let_def)

lemma addString_frame [simp]:
  "m_kind (snd (addString name s)) = m_kind s" "m_index (snd (addString name s)) = m_index s"
  "m_name (snd (addString name s)) = m_name s"
  "m_header (snd (addString name s)) = (m_header s)\<lparr>sh_size := sh_size (m_header (snd (addString name s)))\<rparr>"
  by (simp_all add: addString_def Let_def setSize_def on_header_def)

interpretation strings: string_table addString m_data string_ok
proof unfold_locales
  fix t :: Section and name n :: bytes and off
  show "string_ok t \<Longrightarrow> string_ok (snd (addString name t))"
    by (auto simp: string_ok_def addString_def Let_def setSize_def on_header_def)
  show "str_at off (m_data t) n \<Longrightarrow> str_at off (m_data (snd (addString name t))) n"
    by (simp add: addString_data str_at_append)
  assume "string_ok t" and nz: "0 \<notin> set name"
  then obtain d where "m_data t = 0 # d" by (auto simp: string_ok_def)
  then have "str_at 0 (m_data t) []" by (simp add: str_at_def cstring_at_def)
  then show "str_at (fst (addString name t)) (m_data (snd (addString name t))) name"
    using str_at_new [OF nz, of "m_data t"] by (simp add: addString_data addString_offset)
qed

lemma adds_frame [simp]:
  "m_kind (snd (strings.adds ns s)) = m_kind s" "m_index (snd (strings.adds ns s)) = m_index s"
  "m_name (snd (strings.adds ns s)) = m_name s"
  by (induction ns arbitrary: s) (simp_all add: Let_def split_beta)

text \<open>String tables only grow at their end.\<close>

lemma addString_prefix: "\<exists>e. m_data (snd (addString name s)) = m_data s @ e"
  by (simp add: addString_data)

lemma adds_prefix: "\<exists>e. m_data (snd (strings.adds ns s)) = m_data s @ e"
proof (induction ns arbitrary: s)
  case (Cons n ns)
  obtain e where "m_data (snd (addString n s)) = m_data s @ e" using addString_prefix by blast
  moreover obtain e' where "m_data (snd (strings.adds ns (snd (addString n s)))) =
      m_data (snd (addString n s)) @ e'" using Cons.IH by blast
  ultimately show ?case by (simp add: Let_def split_beta)
qed simp

section \<open>What finalising emits\<close>

text \<open>The symbol entries for symbols and their name offsets.\<close>

definition symbol_entries :: "Section list \<Rightarrow> nat list \<Rightarrow> Symbol list \<Rightarrow> Elf64_Sym list" where
  "symbol_entries secs offs ss = map2 (symbolEntryOf secs) offs ss"

lemma symbolEntryOf_cong:
  "(\<And>r. m_index (secs' ! r) = m_index (secs ! r)) \<Longrightarrow> symbolEntryOf secs' off s = symbolEntryOf secs off s"
  by (simp add: symbolEntryOf_def cong: option.case_cong)

lemma index_update:
  "m_index x = m_index (secs ! k) \<Longrightarrow> m_index (secs[k := x] ! r) = m_index (secs ! r)"
  by (simp add: nth_list_update_cases)

lemma m_data_update_id [simp]: "m_data_update (\<lambda>d. d) s = s"
  by (cases s) simp

lemma emit_symbols_eq:
  assumes "i \<noteq> names" and "i < length secs" and "names < length secs"
  shows "emit_symbols i names ss secs =
    (let (offs, strtab) = strings.adds (map s_name ss) (secs ! names)
     in on_section i (m_data_update (\<lambda>d. d @ concat (map enc_Elf64_Sym (symbol_entries secs offs ss))))
          (secs[names := strtab]))"
  using assms
proof (induction ss arbitrary: secs)
  case Nil
  then show ?case by (simp add: on_section_def symbol_entries_def)
next
  case (Cons s ss)
  obtain off t where a: "addString (s_name s) (secs ! names) = (off, t)" by (cases "addString (s_name s) (secs ! names)")
  obtain offs t2 where b: "strings.adds (map s_name ss) t = (offs, t2)"
    by (cases "strings.adds (map s_name ss) t")
  let ?secs1 = "secs[names := t]"
  let ?entry = "enc_Elf64_Sym (symbolEntryOf ?secs1 off s)"
  let ?secs2 = "on_section i (m_data_update (\<lambda>d. d @ ?entry)) ?secs1"
  have t: "m_index t = m_index (secs ! names)" using addString_frame(2) [of "s_name s" "secs ! names"] a by simp
  have i1: "m_index (?secs1 ! r) = m_index (secs ! r)" for r by (rule index_update [OF t])
  have i2: "m_index (?secs2 ! r) = m_index (secs ! r)" for r
    unfolding on_section_def using i1 by (subst index_update) simp_all
  have e1: "symbolEntryOf ?secs1 off s = symbolEntryOf secs off s" by (rule symbolEntryOf_cong) (rule i1)
  have e2: "symbol_entries ?secs2 offs ss = symbol_entries secs offs ss"
  proof -
    have "symbolEntryOf ?secs2 = symbolEntryOf secs" by (intro ext symbolEntryOf_cong) (rule i2)
    then show ?thesis by (simp only: symbol_entries_def)
  qed
  have n2: "?secs2 ! names = t" using Cons.prems by (simp add: on_section_def)
  have IH: "emit_symbols i names ss ?secs2 =
      (let (offs, strtab) = strings.adds (map s_name ss) (?secs2 ! names)
       in on_section i (m_data_update (\<lambda>d. d @ concat (map enc_Elf64_Sym (symbol_entries ?secs2 offs ss))))
            (?secs2[names := strtab]))"
    by (rule Cons.IH) (use Cons.prems in \<open>simp_all add: on_section_def\<close>)
  have "emit_symbols i names (s # ss) secs = emit_symbols i names ss ?secs2"
    by (simp add: a Let_def)
  also have "\<dots> = on_section i (m_data_update (\<lambda>d. d @ concat (map enc_Elf64_Sym (symbol_entries secs offs ss))))
      (?secs2[names := t2])"
    unfolding IH n2 b Let_def prod.case e2 by (rule refl)
  also have "\<dots> = on_section i (m_data_update (\<lambda>d. d @ concat (map enc_Elf64_Sym (symbol_entries secs (off # offs) (s # ss)))))
      (secs[names := t2])"
    using Cons.prems
    by (simp add: on_section_def e1 symbol_entries_def list_update_swap [of i names] list_update_overwrite
        Section.update_convs comp_def)
  finally show ?case by (simp add: a b Let_def)
qed

section \<open>Layout\<close>

text \<open>
  \<open>layout_room\<close> bounds what the sections can take, padding included. While it fits the address
  space, the 64-bit layout is the one over the natural numbers.
\<close>

definition layout_room :: "Section list \<Rightarrow> nat" where
  "layout_room secs = sum_list (map (\<lambda>s. unat (sh_addralign (m_header s)) + unat (sh_size (m_header s))) secs)"

definition sec_offset :: "Section \<Rightarrow> nat" where
  "sec_offset s = unat (sh_offset (m_header s))"

definition sec_size :: "Section \<Rightarrow> nat" where
  "sec_size s = unat (sh_size (m_header s))"

text \<open>
  \<open>placed secs secs' t u\<close>: \<open>secs'\<close> are the sections \<open>secs\<close> with offsets given to those that occupy
  space, aligned, in order, disjoint and between \<open>t\<close> and \<open>u\<close>.
\<close>

definition placed :: "Section list \<Rightarrow> Section list \<Rightarrow> nat \<Rightarrow> nat \<Rightarrow> bool" where
  "placed secs secs' t u \<longleftrightarrow> length secs' = length secs \<and> t \<le> u \<and>
     (\<forall>i < length secs. \<exists>off. secs' ! i =
        (if occupies (secs ! i) then on_header (sh_offset_update (\<lambda>_. off)) (secs ! i) else secs ! i)) \<and>
     (\<forall>i < length secs. occupies (secs ! i) \<longrightarrow>
        t \<le> sec_offset (secs' ! i) \<and> sec_offset (secs' ! i) + sec_size (secs ! i) \<le> u \<and>
        (unat (sh_addralign (m_header (secs ! i))) = 0 \<or>
         unat (sh_addralign (m_header (secs ! i))) dvd sec_offset (secs' ! i))) \<and>
     (\<forall>j < length secs. \<forall>i < j. occupies (secs ! i) \<longrightarrow> occupies (secs ! j) \<longrightarrow>
        sec_offset (secs' ! i) + sec_size (secs ! i) \<le> sec_offset (secs' ! j))"

lemma placed_Cons:
  assumes rest: "placed ss ss' u v" and u: "occupies s \<Longrightarrow> t \<le> sec_offset s'"
    and s': "if occupies s then (\<exists>off. s' = on_header (sh_offset_update (\<lambda>_. off)) s) \<and>
        sec_offset s' + sec_size s = u \<and> (unat (sh_addralign (m_header s)) = 0 \<or>
         unat (sh_addralign (m_header s)) dvd sec_offset s') else s' = s"
    and tu: "t \<le> u"
  shows "placed (s # ss) (s' # ss') t v"
  unfolding placed_def
proof (intro conjI allI impI)
  have r: "length ss' = length ss" "u \<le> v" using rest by (simp_all add: placed_def)
  show "length (s' # ss') = length (s # ss)" "t \<le> v" using r tu by simp_all
  fix i
  assume i: "i < length (s # ss)"
  show "\<exists>off. (s' # ss') ! i = (if occupies ((s # ss) ! i)
      then on_header (sh_offset_update (\<lambda>_. off)) ((s # ss) ! i) else (s # ss) ! i)"
    using i s' rest by (cases i) (auto simp: placed_def split: if_splits)
  assume occ: "occupies ((s # ss) ! i)"
  show "t \<le> sec_offset ((s' # ss') ! i)"
    using i occ u tu rest by (cases i) (auto simp: placed_def intro: order_trans)
  show "sec_offset ((s' # ss') ! i) + sec_size ((s # ss) ! i) \<le> v"
    using i occ s' r rest by (cases i) (auto simp: placed_def)
  show "unat (sh_addralign (m_header ((s # ss) ! i))) = 0 \<or>
      unat (sh_addralign (m_header ((s # ss) ! i))) dvd sec_offset ((s' # ss') ! i)"
    using i occ s' rest by (cases i) (auto simp: placed_def)
next
  fix j i
  assume ji: "j < length (s # ss)" "i < j" and oi: "occupies ((s # ss) ! i)"
    and oj: "occupies ((s # ss) ! j)"
  from ji obtain j' where j: "j = Suc j'" "j' < length ss" by (cases j) auto
  show "sec_offset ((s' # ss') ! i) + sec_size ((s # ss) ! i) \<le> sec_offset ((s' # ss') ! j)"
  proof (cases i)
    case 0
    then show ?thesis using s' oi oj j rest by (auto simp: placed_def)
  next
    case (Suc i')
    then show ?thesis using ji oi oj j rest by (auto simp: placed_def)
  qed
qed

lemma layout_placed:
  assumes "layout secs t = (secs', u)" and "unat t + layout_room secs < 2 ^ 64"
  shows "placed secs secs' (unat t) (unat u) \<and> unat u \<le> unat t + layout_room secs"
  using assms
proof (induction secs arbitrary: t secs')
  case Nil
  then show ?case by (simp add: placed_def layout_room_def)
next
  case (Cons s ss)
  let ?a = "sh_addralign (m_header s)" and ?n = "sh_size (m_header s)"
  have room: "layout_room (s # ss) = unat ?a + unat ?n + layout_room ss" by (simp add: layout_room_def)
  let ?t = "alignUp t ?a"
  have al: "unat ?t = round_up (unat t) (unat ?a)"
    by (rule unat_alignUp) (use Cons.prems(2) room in linarith)
  have b: "unat t \<le> unat ?t" "unat ?t \<le> unat t + unat ?a"
    using round_up_ge [of "unat t" "unat ?a"] round_up_less [of "unat ?a" "unat t"]
    by (cases "unat ?a = 0"; simp add: al round_up_def)+
  have dv: "unat ?a = 0 \<or> unat ?a dvd unat ?t" using round_up_dvd [of "unat ?a" "unat t"] by (auto simp: al)
  show ?case
  proof (cases "occupies s")
    case True
    let ?s' = "on_header (sh_offset_update (\<lambda>_. ?t)) s"
    from Cons.prems(1) True obtain ss' where l: "layout ss (?t + ?n) = (ss', u)" and secs': "secs' = ?s' # ss'"
      by (auto simp: Let_def split: prod.splits)
    have sum: "unat (?t + ?n) = unat ?t + unat ?n"
      by (rule unat_add_no_wrap) (use Cons.prems(2) room b in linarith)
    have so: "sec_offset ?s' = unat ?t" by (simp add: sec_offset_def on_header_def)
    have IH: "placed ss ss' (unat (?t + ?n)) (unat u) \<and> unat u \<le> unat (?t + ?n) + layout_room ss"
      by (rule Cons.IH [OF l]) (use Cons.prems(2) room b sum in linarith)
    have "placed (s # ss) (?s' # ss') (unat t) (unat u)"
      by (rule placed_Cons [OF IH [THEN conjunct1]])
        (use True b sum so dv in \<open>auto simp: sec_size_def\<close>)
    then show ?thesis using IH sum room b by (simp add: secs')
  next
    case False
    from Cons.prems(1) False obtain ss' where l: "layout ss ?t = (ss', u)" and secs': "secs' = s # ss'"
      by (auto simp: Let_def split: prod.splits)
    have IH: "placed ss ss' (unat ?t) (unat u) \<and> unat u \<le> unat ?t + layout_room ss"
      by (rule Cons.IH [OF l]) (use Cons.prems(2) room b in linarith)
    have "placed (s # ss) (s # ss') (unat t) (unat u)"
      by (rule placed_Cons [OF IH [THEN conjunct1]]) (use False b in simp_all)
    then show ?thesis using IH room b by (simp add: secs')
  qed
qed

end
