(* ===== verification/Elf_Finalize.thy ===== *)
theory Elf_Finalize imports Elf_Writer_Props begin

text \<open>
  The first loop of \<^verbatim>\<open>prepareWriter\<close>: \<open>writer_ok\<close> is the invariant that the constructor sets up and
  the public operations keep, \<open>emitted\<close> says what a finalised section holds, and \<open>finalised\<close> is the
  loop's invariant.
\<close>

section \<open>Well-formed writers\<close>

definition symbol_ok :: "nat \<Rightarrow> Symbol \<Rightarrow> bool" where
  "symbol_ok n s \<longleftrightarrow> 0 \<notin> set (s_name s) \<and> (\<forall>r. s_relatedSection s = Some r \<longrightarrow> r < n)"

definition section_ok :: "nat \<Rightarrow> Section \<Rightarrow> bool" where
  "section_ok n s \<longleftrightarrow> 0 \<notin> set (m_name s) \<and> sh_offset (m_header s) = 0 \<and>
     (case m_kind s of
        StringSection \<Rightarrow> string_ok s
      | SymbolSection names symbols info \<Rightarrow>
          names = 2 \<and> m_data s = [] \<and> (\<forall>y \<in> set symbols. symbol_ok n y)
      | RelocationSection symTab target relocs \<Rightarrow>
          m_data s = [] \<and> (\<exists>p < n. target = Some p) \<and> (\<forall>t. symTab = Some t \<longrightarrow> t < n)
      | _ \<Rightarrow> m_data s = [])"

text \<open>Relocation sections may still lack their target while the user builds the file.\<close>

definition section_building :: "nat \<Rightarrow> Section \<Rightarrow> bool" where
  "section_building n s \<longleftrightarrow> section_ok n s \<or>
     (\<exists>symTab relocs. m_kind s = RelocationSection symTab None relocs \<and> m_data s = [] \<and>
        0 \<notin> set (m_name s) \<and> sh_offset (m_header s) = 0 \<and> (\<forall>t. symTab = Some t \<longrightarrow> t < n))"

definition sections_shape :: "Section list \<Rightarrow> bool" where
  "sections_shape secs \<longleftrightarrow> 3 \<le> length secs \<and> m_kind (secs ! 1) = StringSection \<and>
     m_kind (secs ! 2) = StringSection \<and> (\<forall>i < length secs. m_index (secs ! i) = i)"

definition writer_building :: "Writer \<Rightarrow> bool" where
  "writer_building w \<longleftrightarrow> m_sectionHeaderNames w = 1 \<and> m_symbolNames w = 2 \<and>
     sections_shape (m_sections w) \<and> m_name (m_sections w ! 1) \<noteq> [] \<and> m_sectionHeaders w = [] \<and> m_totalBinarySize w = 0 \<and>
     (\<forall>s \<in> set (m_sections w). section_building (length (m_sections w)) s)"

definition writer_ok :: "Writer \<Rightarrow> bool" where
  "writer_ok w \<longleftrightarrow> writer_building w \<and>
     (\<forall>s \<in> set (m_sections w). section_ok (length (m_sections w)) s)"

lemma section_ok_mono: "section_ok n s \<Longrightarrow> n \<le> m \<Longrightarrow> section_ok m s"
  by (cases "m_kind s") (auto simp: section_ok_def symbol_ok_def intro: order_less_le_trans)

lemma section_building_mono: "section_building n s \<Longrightarrow> n \<le> m \<Longrightarrow> section_building m s"
  using section_ok_mono [of n s m] by (auto simp: section_building_def intro: order_less_le_trans)

lemma string_section_ok: "0 \<notin> set name \<Longrightarrow> section_ok n (setIndex i (StringSection_new name))"
  by (simp add: section_ok_def StringSection_new_def Section_new_def on_header_def string_ok_def
      setIndex_def)

lemma writer_building_new: "writer_building (Writer_new h0)"
proof -
  have z: "0 \<notin> set (map (of_nat \<circ> of_char) ''.strtab'' :: bytes)"
    "0 \<notin> set (map (of_nat \<circ> of_char) ''.symstrtab'' :: bytes)" by simp_all
  have k: "m_kind (setIndex i (StringSection_new n)) = StringSection"
    "m_index (setIndex i (StringSection_new n)) = i" "m_name (setIndex i (StringSection_new n)) = n" for i n
    by (simp_all add: setIndex_def StringSection_new_def Section_new_def on_header_def)
  have "section_ok 3 (Section_new PlainSection [])" "m_index (Section_new PlainSection []) = 0"
    by (simp_all add: section_ok_def Section_new_def)
  then show ?thesis
    using string_section_ok [OF z(1), of 3 1] string_section_ok [OF z(2), of 3 "Suc (Suc 0)"]
    by (auto simp: writer_building_def Writer_new_def push_section_def sections_shape_def
        section_building_def k less_Suc_eq numeral_3_eq_3 nth_Cons' simp del: list.map)
qed

lemma writer_building_push:
  assumes "writer_building w" and "\<And>n i. section_building n (setIndex i s)"
  shows "writer_building (push_section s w)"
  using assms
  by (fastforce simp: writer_building_def push_section_def sections_shape_def nth_append
      less_Suc_eq setIndex_def intro: section_building_mono)

lemma new_sections_building:
  assumes "0 \<notin> set name"
  shows "section_building n (setIndex i (Section_new PlainSection name))"
    and "section_building n (setIndex i (RelocationSection_new name))"
    and "section_building n (setIndex i (SymbolSection_new name 2))"
    and "section_building n (setIndex i (EmptySection_new name))"
    and "section_building n (setIndex i (StringSection_new name))"
    and "section_building n (setIndex i (BinaryDataSection_new k name t))"
  using assms string_section_ok [OF assms]
  by (auto simp: section_building_def section_ok_def Section_new_def RelocationSection_new_def
      SymbolSection_new_def EmptySection_new_def BinaryDataSection_new_def on_header_def setIndex_def
      push_symbol_def Symbol_new_def symbol_ok_def)

lemma writer_building_add:
  assumes "writer_building w" and "0 \<notin> set name"
  shows "writer_building (addSection name w)" "writer_building (addRelocationSection name w)"
    "writer_building (addSymbolSection name w)" "writer_building (addEmptySection name w)"
    "writer_building (addStringSection name w)" "writer_building (addBinaryDataSection k name t w)"
proof -
  have "m_symbolNames w = 2" using assms(1) by (simp add: writer_building_def)
  then show "writer_building (addSection name w)" "writer_building (addRelocationSection name w)"
    "writer_building (addSymbolSection name w)" "writer_building (addEmptySection name w)"
    "writer_building (addStringSection name w)" "writer_building (addBinaryDataSection k name t w)"
    unfolding addSection_def addRelocationSection_def addSymbolSection_def addEmptySection_def
      addStringSection_def addBinaryDataSection_def
    by (simp_all add: writer_building_push [OF assms(1)] new_sections_building [OF assms(2)])
qed

section \<open>What a finalised section holds\<close>

definition emitted :: "Section list \<Rightarrow> Section \<Rightarrow> Section \<Rightarrow> bool" where
  "emitted secs s0 s \<longleftrightarrow>
     (case m_kind s0 of
        StringSection \<Rightarrow> string_ok s
      | SymbolSection names symbols info \<Rightarrow>
          (let ss = sort_key symbol_getBinding symbols
           in sh_info (m_header s) = info \<and> sh_link (m_header s) = 2 \<and>
              (\<exists>offs. length offs = length ss \<and>
                 m_data s = concat (map enc_Elf64_Sym (symbol_entries secs offs ss)) \<and>
                 (\<forall>j < length ss. str_at (offs ! j) (m_data (secs ! 2)) (s_name (ss ! j)))) \<and>
              sh_size (m_header s) = of_nat (length (m_data s)))
      | RelocationSection symTab target relocs \<Rightarrow>
          (\<exists>p. target = Some p \<and> sh_info (m_header s) = of_nat p) \<and>
          (\<forall>t. symTab = Some t \<longrightarrow> sh_link (m_header s) = of_nat t) \<and>
          sh_flags (m_header s) = sh_flags (m_header s0) OR SHF_INFO_LINK \<and>
          m_data s = concat (map (\<lambda>r. enc_Elf64_Rela (relocationEntryOf r)) relocs) \<and>
          sh_size (m_header s) = of_nat (length (m_data s))
      | _ \<Rightarrow> m_data s = [] \<and> sh_size (m_header s) = sh_size (m_header s0))"

text \<open>What no loop of the writer changes.\<close>

definition same_identity :: "Section \<Rightarrow> Section \<Rightarrow> bool" where
  "same_identity s0 s \<longleftrightarrow> m_name s = m_name s0 \<and> m_index s = m_index s0 \<and>
     sh_offset (m_header s) = sh_offset (m_header s0) \<and>
     sh_addralign (m_header s) = sh_addralign (m_header s0) \<and>
     sh_type (m_header s) = sh_type (m_header s0) \<and>
     sh_entsize (m_header s) = sh_entsize (m_header s0) \<and>
     (m_kind s = EmptySection \<longleftrightarrow> m_kind s0 = EmptySection) \<and>
     (m_kind s = StringSection \<longleftrightarrow> m_kind s0 = StringSection)"

definition finalised :: "Section list \<Rightarrow> nat \<Rightarrow> Section list \<Rightarrow> bool" where
  "finalised secs0 k secs \<longleftrightarrow> length secs = length secs0 \<and>
     (\<forall>i < length secs0. same_identity (secs0 ! i) (secs ! i)) \<and>
     (\<forall>i < length secs0. m_kind (secs0 ! i) = StringSection \<longrightarrow> string_ok (secs ! i)) \<and>
     (\<forall>i < length secs0. k \<le> i \<longrightarrow> m_kind (secs0 ! i) \<noteq> StringSection \<longrightarrow> secs ! i = secs0 ! i) \<and>
     (\<forall>i < k. emitted secs (secs0 ! i) (secs ! i) \<and>
        (\<exists>off. sh_name (m_header (secs ! i)) = of_nat off \<and>
           str_at off (m_data (secs ! 1)) (m_name (secs0 ! i))))"

lemma symbol_entries_index:
  "(\<And>r. r < length secs0 \<Longrightarrow> m_index (secs' ! r) = m_index (secs ! r)) \<Longrightarrow>
    (\<And>y r. y \<in> set ss \<Longrightarrow> s_relatedSection y = Some r \<Longrightarrow> r < length secs0) \<Longrightarrow>
    symbol_entries secs' offs ss = symbol_entries secs offs ss"
  unfolding symbol_entries_def
  by (rule map_cong [OF refl])
    (auto simp: symbolEntryOf_def split: option.splits dest: set_zip_rightD)

lemma emitted_mono:
  assumes "emitted secs s0 s"
    and "\<And>off n. str_at off (m_data (secs ! 2)) n \<Longrightarrow> str_at off (m_data (secs' ! 2)) n"
    and "\<And>r. r < n \<Longrightarrow> m_index (secs' ! r) = m_index (secs ! r)" and "section_ok n s0"
  shows "emitted secs' s0 s"
proof (cases "m_kind s0")
  case (SymbolSection names symbols info)
  let ?ss = "sort_key symbol_getBinding symbols"
  have rel: "r < n" if "y \<in> set ?ss" "s_relatedSection y = Some r" for y r
    using assms(4) that by (auto simp: section_ok_def SymbolSection symbol_ok_def)
  have "symbol_entries secs' offs ?ss = symbol_entries secs offs ?ss" for offs
    by (rule symbol_entries_index [of "replicate n s0"]) (use assms(3) rel in auto)
  then show ?thesis using assms(1,2) by (auto simp: emitted_def SymbolSection Let_def)
qed (use assms(1) in \<open>auto simp: emitted_def\<close>)

section \<open>One step of the loop\<close>

lemma finalize_symbol:
  assumes k: "m_kind (secs ! k) = SymbolSection 2 symbols info" "k < length secs" "k \<noteq> 2"
    and n: "2 < length secs" "m_index (secs ! 2) = 2"
  defines "ss \<equiv> sort_key symbol_getBinding symbols"
  defines "offs \<equiv> fst (strings.adds (map s_name ss) (secs ! 2))"
    and "t \<equiv> snd (strings.adds (map s_name ss) (secs ! 2))"
  defines "d \<equiv> m_data (secs ! k) @ concat (map enc_Elf64_Sym (symbol_entries secs offs ss))"
  shows "finalize k secs = Inr (secs[2 := t, k := (secs ! k)\<lparr>m_kind := SymbolSection 2 ss info,
    m_header := (m_header (secs ! k))\<lparr>sh_info := info, sh_link := 2, sh_size := of_nat (length d)\<rparr>,
    m_data := d\<rparr>])"
proof -
  let ?f = "\<lambda>s. on_header (\<lambda>h. h\<lparr>sh_info := info, sh_link := of_nat (m_index (secs ! 2))\<rparr>)
    (s\<lparr>m_kind := SymbolSection 2 ss info\<rparr>)"
  let ?secs1 = "on_section k ?f secs"
  have i1: "m_index (?secs1 ! r) = m_index (secs ! r)" for r
    unfolding on_section_def by (rule index_update) (simp add: on_header_def)
  have "symbolEntryOf ?secs1 = symbolEntryOf secs"
    by (intro ext symbolEntryOf_cong) (rule i1)
  then have e: "symbol_entries ?secs1 o' s' = symbol_entries secs o' s'" for o' s'
    by (simp only: symbol_entries_def)
  have n2: "?secs1 ! 2 = secs ! 2" using k by (simp add: on_section_def)
  have emit: "emit_symbols k 2 ss ?secs1 =
      on_section k (m_data_update (\<lambda>d. d @ concat (map enc_Elf64_Sym (symbol_entries secs offs ss))))
        (?secs1[2 := t])"
  proof -
    have "k < length ?secs1" "2 < length ?secs1" using k n(1) by (simp_all add: on_section_def)
    from emit_symbols_eq [OF k(3) this, of ss] show ?thesis
      unfolding n2 e Let_def split_beta offs_def t_def .
  qed
  have "finalize k secs = Inr (on_section k finish_data (emit_symbols k 2 ss ?secs1))"
    by (simp add: finalize_def k(1) Let_def ss_def)
  also have "\<dots> = Inr (secs[2 := t, k := (secs ! k)\<lparr>m_kind := SymbolSection 2 ss info,
    m_header := (m_header (secs ! k))\<lparr>sh_info := info, sh_link := 2, sh_size := of_nat (length d)\<rparr>,
    m_data := d\<rparr>])"
    unfolding emit d_def using k n
    by (cases "secs ! k")
      (simp add: on_section_def on_header_def finish_data_def setSize_def list_update_swap [of k 2])
  finally show ?thesis .
qed

lemma finalize_relocation:
  assumes "m_kind (secs ! k) = RelocationSection symTab (Some p) relocs" and "k < length secs"
  defines "d \<equiv> m_data (secs ! k) @ concat (map (\<lambda>r. enc_Elf64_Rela (relocationEntryOf r)) relocs)"
  shows "finalize k secs = Inr (secs[k := (secs ! k)\<lparr>
    m_header := (m_header (secs ! k))\<lparr>
      sh_flags := sh_flags (m_header (secs ! k)) OR SHF_INFO_LINK,
      sh_link := (case symTab of Some t \<Rightarrow> of_nat (m_index (secs ! t)) | None \<Rightarrow> sh_link (m_header (secs ! k))),
      sh_info := of_nat (m_index (secs ! p)), sh_size := of_nat (length d)\<rparr>,
    m_data := d\<rparr>])"
  using assms(1,2) unfolding d_def
  by (cases "secs ! k"; cases "m_header (secs ! k)")
    (simp add: finalize_def on_section_def on_header_def finish_data_def setSize_def maskFlags_def
      split: option.split)

lemma finalize_other:
  assumes "\<And>a b c. m_kind (secs ! k) \<noteq> SymbolSection a b c"
    and "\<And>a b c. m_kind (secs ! k) \<noteq> RelocationSection a b c"
  shows "finalize k secs = Inr secs"
  using assms by (cases "m_kind (secs ! k)") (auto simp: finalize_def)

text \<open>
  \<open>tables_grow\<close>: string tables keep their strings, everything but section \<open>k\<close> keeps its identity.
\<close>

definition tables_grow :: "nat \<Rightarrow> Section list \<Rightarrow> Section list \<Rightarrow> bool" where
  "tables_grow k secs secs' \<longleftrightarrow> length secs' = length secs \<and>
     (\<forall>i < length secs. same_identity (secs ! i) (secs' ! i)) \<and>
     (\<forall>i < length secs. m_kind (secs ! i) = StringSection \<longrightarrow> string_ok (secs ! i) \<longrightarrow>
        string_ok (secs' ! i) \<and>
        (\<forall>off n. str_at off (m_data (secs ! i)) n \<longrightarrow> str_at off (m_data (secs' ! i)) n)) \<and>
     (\<forall>i < length secs. i \<noteq> k \<longrightarrow> m_kind (secs ! i) \<noteq> StringSection \<longrightarrow> secs' ! i = secs ! i) \<and>
     (\<forall>i < length secs. i \<noteq> k \<longrightarrow> sh_name (m_header (secs' ! i)) = sh_name (m_header (secs ! i)))"

lemma same_identity_refl [simp]: "same_identity s s"
  by (simp add: same_identity_def)

lemma same_identity_trans: "same_identity a b \<Longrightarrow> same_identity b c \<Longrightarrow> same_identity a c"
  by (simp add: same_identity_def)

lemma tables_grow_refl: "tables_grow k secs secs"
  by (simp add: tables_grow_def)

lemma tables_grow_trans:
  assumes "tables_grow k a b" and "tables_grow k b c"
  shows "tables_grow k a c"
proof -
  have l: "length b = length a" "length c = length a" using assms by (simp_all add: tables_grow_def)
  have id: "same_identity (a ! i) (b ! i)" "same_identity (b ! i) (c ! i)" if "i < length a" for i
    using assms that l by (simp_all add: tables_grow_def)
  have kind: "m_kind (b ! i) = StringSection \<longleftrightarrow> m_kind (a ! i) = StringSection" if "i < length a" for i
    using id(1) [OF that] by (simp add: same_identity_def)
  show ?thesis
    unfolding tables_grow_def
  proof (intro conjI allI impI)
    show "length c = length a" by (rule l)
    fix i
    assume i: "i < length a"
    show "same_identity (a ! i) (c ! i)" using id [OF i] by (rule same_identity_trans)
    { assume "m_kind (a ! i) = StringSection" and "string_ok (a ! i)"
      then show "string_ok (c ! i)" using assms i l kind [OF i] by (auto simp: tables_grow_def)
      fix off n
      assume "str_at off (m_data (a ! i)) n"
      then show "str_at off (m_data (c ! i)) n"
        using \<open>m_kind (a ! i) = StringSection\<close> \<open>string_ok (a ! i)\<close> assms i l kind [OF i]
        by (auto simp: tables_grow_def) }
    { assume "i \<noteq> k" and "m_kind (a ! i) \<noteq> StringSection"
      then show "c ! i = a ! i" using assms i l kind [OF i] by (auto simp: tables_grow_def) }
    assume "i \<noteq> k"
    then show "sh_name (m_header (c ! i)) = sh_name (m_header (a ! i))"
      using assms i l by (auto simp: tables_grow_def)
  qed
qed

lemma adds_header: "\<exists>n. m_header (snd (strings.adds ns s)) = (m_header s)\<lparr>sh_size := n\<rparr>"
proof (induction ns arbitrary: s)
  case Nil
  have "m_header s = (m_header s)\<lparr>sh_size := sh_size (m_header s)\<rparr>" by simp
  then show ?case by (simp only: strings.adds.simps snd_conv) blast
next
  case (Cons n ns)
  obtain a b where h: "m_header (snd (strings.adds ns (snd (addString n s)))) =
      (m_header (snd (addString n s)))\<lparr>sh_size := a\<rparr>"
    "m_header (snd (addString n s)) = (m_header s)\<lparr>sh_size := b\<rparr>"
    using Cons.IH addString_frame(4) by metis
  have "m_header (snd (strings.adds ns (snd (addString n s)))) = (m_header s)\<lparr>sh_size := a\<rparr>"
    unfolding h by simp
  then show ?case by (auto simp: Let_def split_beta)
qed

lemma adds_header_fields:
  "sh_name (m_header (snd (strings.adds ns s))) = sh_name (m_header s)"
  "sh_offset (m_header (snd (strings.adds ns s))) = sh_offset (m_header s)"
  "sh_addralign (m_header (snd (strings.adds ns s))) = sh_addralign (m_header s)"
  "sh_type (m_header (snd (strings.adds ns s))) = sh_type (m_header s)"
  "sh_entsize (m_header (snd (strings.adds ns s))) = sh_entsize (m_header s)"
  using adds_header [of ns s] by auto

lemma adds_one: "strings.adds [n] s = ([fst (addString n s)], snd (addString n s))"
  by (simp add: Let_def split_beta)

lemma same_identity_adds: "same_identity s (snd (strings.adds ns s))"
  by (simp add: same_identity_def adds_header_fields)

lemma tables_grow_adds:
  assumes "j < length secs" and "m_kind (secs ! j) = StringSection"
  shows "tables_grow k secs (secs[j := snd (strings.adds ns (secs ! j))])"
  using assms same_identity_adds strings.adds_ok strings.adds_keeps
  by (auto simp: tables_grow_def nth_list_update adds_header_fields)

lemma tables_grow_set:
  assumes "k < length secs" and "same_identity (secs ! k) x" and "m_kind (secs ! k) \<noteq> StringSection"
  shows "tables_grow k secs (secs[k := x])"
  using assms by (auto simp: tables_grow_def nth_list_update)

lemma setNameOffset_fields:
  "m_kind (setNameOffset off s) = m_kind s" "m_data (setNameOffset off s) = m_data s"
  "m_header (setNameOffset off s) = (m_header s)\<lparr>sh_name := of_nat off\<rparr>"
  "string_ok (setNameOffset off s) = string_ok s" "same_identity s (setNameOffset off s)"
  by (simp_all add: setNameOffset_def on_header_def string_ok_def same_identity_def)

lemma tables_grow_name: "tables_grow k secs (on_section k (setNameOffset off) secs)"
  by (auto simp: tables_grow_def on_section_def nth_list_update_cases setNameOffset_fields)

lemma emitted_setName: "emitted secs s0 s \<Longrightarrow> emitted secs s0 (setNameOffset off s)"
  by (cases "m_kind s0") (auto simp: emitted_def setNameOffset_fields Let_def)

lemma finalize_emits:
  assumes shape: "sections_shape secs" and k: "k < length secs"
    and ok: "section_ok (length secs) (secs ! k)" and tab: "string_ok (secs ! 2)"
    and run: "finalize k secs = Inr secs1"
  shows "tables_grow k secs secs1 \<and> emitted secs1 (secs ! k) (secs1 ! k)"
proof -
  have two: "2 < length secs" "m_index (secs ! 2) = 2" "m_kind (secs ! 2) = StringSection"
    using shape by (auto simp: sections_shape_def)
  have idx: "\<And>r. r < length secs \<Longrightarrow> m_index (secs ! r) = r" using shape by (simp add: sections_shape_def)
  show ?thesis
  proof (cases "m_kind (secs ! k)")
    case (SymbolSection names symbols info)
    then have names: "names = 2" and k2: "k \<noteq> 2" and data: "m_data (secs ! k) = []"
      and syms: "\<And>y r. y \<in> set symbols \<Longrightarrow> s_relatedSection y = Some r \<Longrightarrow> r < length secs"
        "\<And>y. y \<in> set symbols \<Longrightarrow> 0 \<notin> set (s_name y)"
      using ok two(3) by (auto simp: section_ok_def symbol_ok_def)
    let ?ss = "sort_key symbol_getBinding symbols"
    let ?offs = "fst (strings.adds (map s_name ?ss) (secs ! 2))"
    let ?t = "snd (strings.adds (map s_name ?ss) (secs ! 2))"
    let ?d = "m_data (secs ! k) @ concat (map enc_Elf64_Sym (symbol_entries secs ?offs ?ss))"
    let ?S = "(secs ! k)\<lparr>m_kind := SymbolSection 2 ?ss info,
      m_header := (m_header (secs ! k))\<lparr>sh_info := info, sh_link := 2, sh_size := of_nat (length ?d)\<rparr>,
      m_data := ?d\<rparr>"
    have secs1: "secs1 = secs[2 := ?t, k := ?S]"
      using finalize_symbol [OF SymbolSection [unfolded names] k k2 two(1,2)] run by simp
    have "tables_grow k secs (secs[2 := ?t])" by (rule tables_grow_adds [OF two(1,3)])
    moreover have "tables_grow k (secs[2 := ?t]) (secs[2 := ?t, k := ?S])"
      by (rule tables_grow_set) (use k k2 SymbolSection in \<open>auto simp: same_identity_def\<close>)
    ultimately have grow: "tables_grow k secs secs1" unfolding secs1 by (rule tables_grow_trans)
    have "m_index (secs1 ! r) = m_index (secs ! r)" if "r < length secs" for r
      using grow that by (simp add: tables_grow_def same_identity_def)
    then have ent: "symbol_entries secs1 ?offs ?ss = symbol_entries secs ?offs ?ss"
      by (intro symbol_entries_index [of secs]) (use syms(1) in auto)
    have "str_at (?offs ! j) (m_data ?t) (s_name (?ss ! j))" if "j < length ?ss" for j
      using strings.adds_find [OF tab, of "map s_name ?ss" j] syms(2) that by auto
    moreover have "secs1 ! 2 = ?t" "secs1 ! k = ?S" using k k2 two(1) by (simp_all add: secs1)
    ultimately have "emitted secs1 (secs ! k) (secs1 ! k)"
      unfolding emitted_def SymbolSection section_kind.case Let_def
      using ent data by (auto intro!: exI [of _ ?offs])
    with grow show ?thesis ..
  next
    case (RelocationSection symTab target relocs)
    then obtain p where p: "target = Some p" "p < length secs" and data: "m_data (secs ! k) = []"
      and t: "\<And>t. symTab = Some t \<Longrightarrow> t < length secs"
      using ok by (auto simp: section_ok_def)
    note fin = finalize_relocation [OF RelocationSection [unfolded p(1)] k]
    have "tables_grow k secs secs1"
      using run unfolding fin by (auto intro!: tables_grow_set simp: k same_identity_def RelocationSection)
    moreover have "emitted secs1 (secs ! k) (secs1 ! k)"
      using run k p t data idx unfolding fin
      by (auto simp: emitted_def RelocationSection split: option.splits)
    ultimately show ?thesis ..
  next
    case StringSection
    then have "secs1 = secs" using run finalize_other [of secs k] by simp
    then show ?thesis using ok StringSection by (simp add: tables_grow_refl emitted_def section_ok_def)
  next
    case PlainSection
    then have "secs1 = secs" using run finalize_other [of secs k] by simp
    then show ?thesis using ok PlainSection by (simp add: tables_grow_refl emitted_def section_ok_def)
  next
    case BinaryDataSection
    then have "secs1 = secs" using run finalize_other [of secs k] by simp
    then show ?thesis using ok BinaryDataSection by (simp add: tables_grow_refl emitted_def section_ok_def)
  next
    case EmptySection
    then have "secs1 = secs" using run finalize_other [of secs k] by simp
    then show ?thesis using ok EmptySection by (simp add: tables_grow_refl emitted_def section_ok_def)
  qed
qed

text \<open>Finalising a well-formed section never fails.\<close>

lemma finalize_total:
  assumes "section_ok n (secs ! k)"
  shows "\<exists>secs1. finalize k secs = Inr secs1"
  using assms by (cases "m_kind (secs ! k)") (auto simp: finalize_def section_ok_def Let_def)

lemma finalised_step:
  assumes fin: "finalised secs0 k secs" and shape: "sections_shape secs0" and k: "k < length secs0"
    and ok: "\<And>i. i < length secs0 \<Longrightarrow> section_ok (length secs0) (secs0 ! i)"
  obtains secs' where "finalize_and_name 1 k secs = Inr secs'" and "finalised secs0 (Suc k) secs'"
proof -
  have len: "length secs = length secs0"
    and id: "\<And>i. i < length secs0 \<Longrightarrow> same_identity (secs0 ! i) (secs ! i)"
    and str: "\<And>i. i < length secs0 \<Longrightarrow> m_kind (secs0 ! i) = StringSection \<Longrightarrow> string_ok (secs ! i)"
    and todo: "\<And>i. i < length secs0 \<Longrightarrow> k \<le> i \<Longrightarrow> m_kind (secs0 ! i) \<noteq> StringSection \<Longrightarrow> secs ! i = secs0 ! i"
    and past: "\<And>i. i < k \<Longrightarrow> emitted secs (secs0 ! i) (secs ! i) \<and>
      (\<exists>off. sh_name (m_header (secs ! i)) = of_nat off \<and> str_at off (m_data (secs ! 1)) (m_name (secs0 ! i)))"
    using fin by (simp_all add: finalised_def)
  have kind: "m_kind (secs ! i) = StringSection \<longleftrightarrow> m_kind (secs0 ! i) = StringSection" if "i < length secs0" for i
    using id [OF that] by (simp add: same_identity_def)
  have three: "2 < length secs0" "m_kind (secs0 ! 1) = StringSection" "m_kind (secs0 ! 2) = StringSection"
    using shape by (auto simp: sections_shape_def)
  have shape': "sections_shape secs"
    using shape id kind len three by (auto simp: sections_shape_def same_identity_def)
  have okk: "section_ok (length secs) (secs ! k)"
  proof (cases "m_kind (secs0 ! k) = StringSection")
    case True
    then show ?thesis
      using ok [OF k] id [OF k] str [OF k] kind [OF k]
      by (simp add: section_ok_def same_identity_def)
  next
    case False
    then show ?thesis using todo [OF k] ok [OF k] len by simp
  qed
  obtain secs1 where f: "finalize k secs = Inr secs1" using finalize_total [OF okk] by blast
  have k': "k < length secs" and tab2: "string_ok (secs ! 2)" using k len str [of 2] three by simp_all
  have g1: "tables_grow k secs secs1" and e1: "emitted secs1 (secs ! k) (secs1 ! k)"
    using finalize_emits [OF shape' k' okk tab2 f] by simp_all
  let ?name = "m_name (secs1 ! k)"
  let ?off = "fst (addString ?name (secs1 ! 1))" and ?t = "snd (addString ?name (secs1 ! 1))"
  let ?secs2 = "secs1[1 := ?t]"
  let ?secs3 = "on_section k (setNameOffset ?off) ?secs2"
  have len1: "length secs1 = length secs" and k1: "m_kind (secs1 ! 1) = StringSection"
    using g1 shape' len three by (auto simp: tables_grow_def same_identity_def sections_shape_def)
  have g2: "tables_grow k secs1 ?secs2"
    by (rule tables_grow_adds [of 1 secs1 k "[?name]", unfolded adds_one snd_conv])
      (use len1 len three k1 in auto)
  have g3: "tables_grow k ?secs2 ?secs3" by (rule tables_grow_name)
  have g: "tables_grow k secs ?secs3"
    using g1 g2 g3 tables_grow_trans by blast
  have glen: "length ?secs3 = length secs0" using g len by (simp add: tables_grow_def)
  have gid: "same_identity (secs ! i) (?secs3 ! i)" if "i < length secs0" for i
    using g that len by (simp add: tables_grow_def)
  have gstr: "string_ok (?secs3 ! i)" "str_at off (m_data (secs ! i)) n \<Longrightarrow> str_at off (m_data (?secs3 ! i)) n"
    if "i < length secs0" "m_kind (secs0 ! i) = StringSection" for i off n
    using g that len kind str by (auto simp: tables_grow_def)
  have idx: "m_index (?secs3 ! r) = m_index (secs ! r)" if "r < length secs0" for r
    using gid [OF that] by (simp add: same_identity_def)
  have "finalised secs0 (Suc k) ?secs3"
    unfolding finalised_def
  proof (intro conjI allI impI)
    show "length ?secs3 = length secs0" by (rule glen)
    fix i
    { assume "i < length secs0"
      then show "same_identity (secs0 ! i) (?secs3 ! i)" using id gid same_identity_trans by blast }
    { assume "i < length secs0" "m_kind (secs0 ! i) = StringSection"
      then show "string_ok (?secs3 ! i)" by (rule gstr(1)) }
    { assume "i < length secs0" "Suc k \<le> i" "m_kind (secs0 ! i) \<noteq> StringSection"
      then show "?secs3 ! i = secs0 ! i" using g todo kind len by (simp add: tables_grow_def) }
    assume i: "i < Suc k"
    then have il: "i < length secs0" using k by simp
    show "emitted ?secs3 (secs0 ! i) (?secs3 ! i)"
    proof (cases "m_kind (secs0 ! i) = StringSection")
      case True
      then show ?thesis using gstr(1) [OF il True] by (simp add: emitted_def)
    next
      case False
      show ?thesis
      proof (cases "i = k")
        case True
        have s0: "secs ! k = secs0 ! k" using todo [OF k] False True by simp
        have "?secs2 ! k = secs1 ! k"
          using k1 kind [OF k] g1 False True k len by (auto simp: nth_list_update_cases tables_grow_def same_identity_def)
        then have s3: "?secs3 ! k = setNameOffset ?off (secs1 ! k)"
          using k len len1 by (simp add: on_section_def)
        have "emitted ?secs3 (secs0 ! k) (secs1 ! k)"
        proof (rule emitted_mono [OF e1 [unfolded s0], of _ "length secs0"])
          show "str_at off (m_data (?secs3 ! 2)) n" if "str_at off (m_data (secs1 ! 2)) n" for off n
          proof -
            have "string_ok (secs1 ! 2)" "m_kind (secs1 ! 2) = StringSection"
              using g1 len three kind [of 2] str [of 2] by (auto simp: tables_grow_def same_identity_def)
            moreover have "tables_grow k secs1 ?secs3" by (rule tables_grow_trans [OF g2 g3])
            ultimately show ?thesis using that three len len1 by (auto simp: tables_grow_def)
          qed
          show "m_index (?secs3 ! r) = m_index (secs1 ! r)" if "r < length secs0" for r
            using tables_grow_trans [OF g2 g3] that len len1 by (simp add: tables_grow_def same_identity_def)
          show "section_ok (length secs0) (secs0 ! k)" by (rule ok [OF k])
        qed
        then show ?thesis using emitted_setName True s3 by simp
      next
        case ik: False
        then have "?secs3 ! i = secs ! i" using g il False kind len by (simp add: tables_grow_def)
        moreover have "emitted ?secs3 (secs0 ! i) (secs ! i)"
          by (rule emitted_mono [OF _ gstr(2) [of 2] idx ok [OF il]]) (use past i ik three in auto)
        ultimately show ?thesis by simp
      qed
    qed
    show "\<exists>off. sh_name (m_header (?secs3 ! i)) = of_nat off \<and>
        str_at off (m_data (?secs3 ! 1)) (m_name (secs0 ! i))"
    proof (cases "i = k")
      case True
      have nm: "?name = m_name (secs0 ! k)"
        using g1 id [OF k] k len by (simp add: tables_grow_def same_identity_def)
      have nz: "0 \<notin> set ?name" using ok [OF k] nm by (simp add: section_ok_def)
      have t1: "string_ok (secs1 ! 1)"
        using g1 len three kind [of 1] str [of 1] by (auto simp: tables_grow_def)
      have "str_at ?off (m_data ?t) ?name" by (rule strings.add_finds [OF t1 nz])
      moreover have "m_data (?secs3 ! 1) = m_data ?t"
        using len len1 three by (simp add: on_section_def nth_list_update_cases setNameOffset_fields)
      moreover have "sh_name (m_header (?secs3 ! k)) = of_nat ?off"
        using k len len1 by (simp add: on_section_def setNameOffset_fields)
      ultimately show ?thesis using True nm by auto
    next
      case False
      then have "sh_name (m_header (?secs3 ! i)) = sh_name (m_header (secs ! i))"
        using g il len by (simp add: tables_grow_def)
      moreover obtain off where "sh_name (m_header (secs ! i)) = of_nat off"
        "str_at off (m_data (secs ! 1)) (m_name (secs0 ! i))" using past [of i] i False by auto
      ultimately show ?thesis using gstr(2) [of 1] three by auto
    qed
  qed
  moreover have "finalize_and_name 1 k secs = Inr ?secs3"
    using f by (simp add: finalize_and_name_def Let_def split_beta)
  ultimately show thesis by (rule that [rotated])
qed

lemma finalise_loop:
  assumes shape: "sections_shape secs0"
    and ok: "\<And>i. i < length secs0 \<Longrightarrow> section_ok (length secs0) (secs0 ! i)"
    and "k \<le> length secs0"
  obtains secs where "foldE (finalize_and_name 1) [0..<k] secs0 = Inr secs" and "finalised secs0 k secs"
  using assms(3)
proof (induction k arbitrary: thesis)
  case 0
  have "string_ok (secs0 ! i)" if "i < length secs0" "m_kind (secs0 ! i) = StringSection" for i
    using ok [OF that(1)] that(2) by (simp add: section_ok_def)
  then have "finalised secs0 0 secs0" by (simp add: finalised_def)
  then show ?case using 0(1) [of secs0] by simp
next
  case (Suc k)
  obtain secs where s: "foldE (finalize_and_name 1) [0..<k] secs0 = Inr secs" "finalised secs0 k secs"
    using Suc.IH Suc.prems(2) by auto
  obtain secs' where "finalize_and_name 1 k secs = Inr secs'" "finalised secs0 (Suc k) secs'"
    by (rule finalised_step [OF s(2) shape _ ok]) (use Suc.prems(2) in auto)
  then show ?case using Suc.prems(1) [of secs'] s(1) by (simp add: foldE_append)
qed

end
