(* ===== verification/Elf_Reader_Props.thy ===== *)
theory Elf_Reader_Props imports Elf_Reader begin

text \<open>
  The reader against a specification. \<open>parse_image\<close> says what the constructor should accept and
  what it should read from a binary given as a byte string, with every bound as a comparison of
  numbers; the reader computes it whenever no bound it adds up wraps around. Then the section
  table: the cache changes nothing that a caller sees, and data pointers are stable.
\<close>

section \<open>Specification\<close>

definition range_of :: "bytes \<Rightarrow> nat \<Rightarrow> nat \<Rightarrow> bytes res" where
  "range_of img off n = throw_unless (off + n \<le> length img) AccessError (Inr (bslice off n img))"

definition parse_names :: "bytes \<Rightarrow> Elf64_Ehdr \<Rightarrow> Elf64_Shdr list \<Rightarrow> bytes res" where
  "parse_names img hdr shdrs =
     (if e_shstrndx hdr = 0 then Inr []
      else (let sec = shdrs ! unat (e_shstrndx hdr)
            in throw_unless (unat (sh_offset sec) + unat (sh_size sec) \<le> length img) HeaderError
               (throw_when (sh_size sec = 0) UndefinedBehaviour
               (range_of img (unat (sh_offset sec)) (unat (sh_size sec))))))"

definition header_ok :: "Elf64_Ehdr \<Rightarrow> bool" where
  "header_ok hdr \<longleftrightarrow>
     take 4 (e_ident hdr) = [ELFMAG0, ELFMAG1, ELFMAG2, ELFMAG3] \<and> e_shentsize hdr = 64 \<and>
     64 \<le> unat (e_shoff hdr) \<and> e_shnum hdr \<noteq> 0 \<and> unat (e_shstrndx hdr) < unat (e_shnum hdr)"

definition parse_image :: "bytes \<Rightarrow> Reader res" where
  "parse_image img =
     bindE (range_of img 0 64) (\<lambda>hdrBytes.
     let hdr = dec_Elf64_Ehdr hdrBytes
     in throw_unless (header_ok hdr) HeaderError
        (bindE (range_of img (unat (e_shoff hdr)) (unat (e_shnum hdr) * 64)) (\<lambda>tableBytes.
         let shdrs = pod_elf64_shdr.dec_table (unat (e_shnum hdr)) tableBytes
         in bindE (parse_names img hdr shdrs) (\<lambda>names.
            Inr \<lparr>mElfHeader = hdr, mSectionHeaders = shdrs, mSectionNames = names,
                 mSectionsCache = \<lambda>_. None\<rparr>))))"

text \<open>The sums that the reader forms in 64 bits do not wrap around.\<close>

definition image_no_wrap :: "bytes \<Rightarrow> bool" where
  "image_no_wrap img \<longleftrightarrow>
     (let hdr = dec_Elf64_Ehdr (bslice 0 64 img);
          shdrs = pod_elf64_shdr.dec_table (unat (e_shnum hdr))
                    (bslice (unat (e_shoff hdr)) (unat (e_shnum hdr) * 64) img);
          sec = shdrs ! unat (e_shstrndx hdr)
      in unat (e_shoff hdr) + unat (e_shnum hdr) * 64 < 2 ^ 64 \<and>
         (unat (e_shstrndx hdr) < unat (e_shnum hdr) \<longrightarrow>
            unat (sh_offset sec) + unat (sh_size sec) < 2 ^ 64))"

section \<open>Reading into members\<close>

fun is_ddr :: "ptr \<Rightarrow> u64 \<Rightarrow> access_manager \<Rightarrow> bool" where
  "is_ddr p n (DDRAccessManager l f blob sz0) \<longleftrightarrow> blob = p \<and> sz0 = n"
| "is_ddr p n (DDRAccessManagerAlways blob sz0) \<longleftrightarrow> blob = p \<and> sz0 = n"
| "is_ddr p n (FSAccessManager f bs) \<longleftrightarrow> False"

lemma readExternal_ddr: "is_ddr p n am \<Longrightarrow> readExternal E am off r = readExternal_DDR E p n off r"
  by (cases am) auto

lemma getSize_ddr: "is_ddr p n am \<Longrightarrow> getSize am = n"
  by (cases am) auto

definition holds_image :: "ptr \<Rightarrow> bytes \<Rightarrow> world \<Rightarrow> bool" where
  "holds_image p img w \<longleftrightarrow> (\<exists>b off. p = Ptr b off \<and> b < length (memory w)) \<and>
     valid (memory w) p (length img) \<and> peek (memory w) p (length img) = img"

lemma holds_image_append:
  assumes "holds_image p img w" and "memory w' = memory w @ ext"
  shows "holds_image p img w'"
  using assms by (auto simp: holds_image_def valid_append peek_append)

lemma holds_image_poke:
  assumes "holds_image p img w" and "memory w' = poke (memory w @ [blk]) (Ptr (length (memory w)) 0) bs"
    and "length bs \<le> length (snd blk)"
  shows "holds_image p img w'"
proof -
  from assms(1) obtain b off where p: "p = Ptr b off" "b < length (memory w)"
    by (auto simp: holds_image_def)
  let ?m = "memory w @ [blk]"
  have v: "valid ?m (Ptr (length (memory w)) 0) (length bs)" using assms(3) by simp
  have "peek (poke ?m (Ptr (length (memory w)) 0) bs) p (length img) = peek ?m p (length img)"
    by (rule peek_poke_other [OF v]) (use p in auto)
  then show ?thesis
    using assms(1) p v
    by (simp add: holds_image_def assms(2) peek_append valid_append del: peek.simps poke.simps valid.simps)
qed

lemma readMember_ddr:
  assumes am: "is_ddr p (of_nat (length img)) am" and len: "length img < 2 ^ 64"
    and img: "holds_image p img w" and nw: "unat off + k < 2 ^ 64"
  obtains w' where "readMember E am off k w = (range_of img (unat off) k, w')" and "holds_image p img w'"
proof -
  let ?m = "memory w @ [(0, replicate k 0)]" and ?q = "Ptr (length (memory w)) 0"
  let ?r = "length (objs w)"
  let ?o = "\<lparr>bufKind = StaticBuffer, mDevBuffer = DeviceBuffer_make ?q (ptr_value ?m ?q) (of_nat k),
     mBufferSpecs = BufferSpecs_make 0 (of_nat k) 0\<rparr>"
  let ?w = "w\<lparr>memory := ?m, objs := objs w @ [?o]\<rparr>"
  have k: "unat (of_nat k :: u64) = k" using nw by (intro unat_of_nat_u64) simp
  have n: "unat (of_nat (length img) :: u64) = length img" by (rule unat_of_nat_u64 [OF len])
  have bound: "off + of_nat k > (of_nat (length img) :: u64) \<longleftrightarrow> \<not> unat off + k \<le> length img"
    using unat_add_no_wrap [of off "of_nat k"] nw by (simp add: word_less_nat_alt n k not_le)
  have step: "readMember E am off k w =
      bindM (readExternal_DDR E p (of_nat (length img)) off ?r) (\<lambda>_.
        bindM (readM memory) (\<lambda>m. liftM (read_mem ?q k m))) ?w"
    by (simp add: readMember_def bindM_simps readExternal_ddr [OF am])
      (simp add: bindM_def newStaticBuffer_def newObj_def BufferSpecs_make_def)
  have img': "holds_image p img ?w" by (rule holds_image_append [OF img]) simp
  show thesis
  proof (cases "unat off + k \<le> length img")
    case False
    then have "readExternal_DDR E p (of_nat (length img)) off ?r ?w = (Inl AccessError, ?w)"
      using bound
      by (simp add: readExternal_DDR_def getBufferSpecs_def BufferSpecs_make_def bindM_def readM_def
          throwM_when_def throwM_def)
    then have "readMember E am off k w = (range_of img (unat off) k, ?w)"
      unfolding step using False by (simp add: bindM_def range_of_def)
    then show thesis using that img' by blast
  next
    case True
    from img obtain b o0 where p: "p = Ptr b o0" "b < length (memory w)" by (auto simp: holds_image_def)
    have v: "valid ?m p (length img)" "peek ?m p (length img) = img"
      using img' by (simp_all add: holds_image_def)
    have vs: "valid ?m (ptr_add p (unat off)) k" by (rule valid_part [OF v(1) True])
    have ps: "peek ?m (ptr_add p (unat off)) k = bslice (unat off) k img"
      using peek_part [OF True, of ?m p] v(2) by simp
    have vd: "valid ?m ?q k" by simp
    have lb: "length (bslice (unat off) k img) = k" using True by simp
    have ap: "apart ?q k (ptr_add p (unat off)) k" using p by simp
    let ?m' = "poke ?m ?q (bslice (unat off) k img)"
    have copy: "memcpy_mem ?q (ptr_add p (unat off)) k ?m = Inr ?m'"
      unfolding memcpy_mem_def ps using vs vd ap by simp
    have ext: "readExternal_DDR E p (of_nat (length img)) off ?r ?w = (Inr (), ?w\<lparr>memory := ?m'\<rparr>)"
      using True copy
      by (simp add: readExternal_DDR_def getBufferSpecs_def BufferSpecs_make_def bindM_def readM_def
          throwM_when_def bound getBuffer_def withLock_def lock_def unlock_def memcpyM_def
          finallyM_def k DeviceBuffer_make_def del: ptr_value.simps)
    have vl: "valid ?m ?q (length (bslice (unat off) k img))" using vd by (simp only: lb)
    have "valid ?m' ?q k" unfolding valid_poke [OF vl] by (rule vd)
    moreover have "peek ?m' ?q k = bslice (unat off) k img"
      using peek_poke_same [OF vl] by (simp only: lb)
    ultimately have "read_mem ?q k ?m' = Inr (bslice (unat off) k img)" by (simp only: read_mem_def if_True)
    moreover have mem: "memory (?w\<lparr>memory := ?m'\<rparr>) = ?m'" by simp
    ultimately have "readMember E am off k w = (range_of img (unat off) k, ?w\<lparr>memory := ?m'\<rparr>)"
      using True
      by (simp only: step bindM_def readM_def liftM_def ext prod.case sum.case mem range_of_def
          throw_unless_simps)
    moreover have "holds_image p img (?w\<lparr>memory := ?m'\<rparr>)"
      by (rule holds_image_poke [OF img, of _ "(0, replicate k 0)" "bslice (unat off) k img"]) (use lb in simp_all)
    ultimately show thesis by (rule that)
  qed
qed

section \<open>The constructor\<close>

lemma header_check_steps:
  assumes "length bs = 64"
  shows "checkELFMagic (Some bs) =
    Inr (take 4 (e_ident (dec_Elf64_Ehdr bs)) = [ELFMAG0, ELFMAG1, ELFMAG2, ELFMAG3])"
proof -
  have t: "take 4 bs = [bs ! 0, bs ! 1, bs ! 2, bs ! 3]"
    using assms by (simp add: numeral_eq_Suc take_Suc_conv_app_nth)
  have "take 4 (e_ident (dec_Elf64_Ehdr bs)) = take 4 bs"
    by (simp add: dec_Elf64_Ehdr_def bslice_def min_def)
  then show ?thesis
    using assms
    by (simp add: t checkELFMagic_def EI_MAG0_def EI_MAG1_def EI_MAG2_def EI_MAG3_def)
qed

lemma header_checks:
  assumes "length bs = 64"
  defines "hdr \<equiv> dec_Elf64_Ehdr bs"
  shows "bindM (liftM (checkELFMagic (Some bs))) (\<lambda>magic.
      throwM_unless magic HeaderError
      (throwM_unless (64 = e_shentsize hdr) HeaderError
      (throwM_unless (e_shoff hdr \<ge> 64) HeaderError
      (throwM_unless (e_shnum hdr \<noteq> 0) HeaderError
      (throwM_unless (e_shstrndx hdr < e_shnum hdr) HeaderError k))))) w =
    throwM_unless (header_ok hdr) HeaderError k w"
proof -
  have o: "e_shoff hdr \<ge> 64 \<longleftrightarrow> 64 \<le> unat (e_shoff hdr)"
    "e_shstrndx hdr < e_shnum hdr \<longleftrightarrow> unat (e_shstrndx hdr) < unat (e_shnum hdr)"
    by (simp_all add: word_le_nat_alt word_less_nat_alt)
  show ?thesis
    unfolding bindM_liftM header_check_steps [OF assms(1)] sum.case o
    unfolding hdr_def [symmetric]
    by (simp add: header_ok_def throwM_unless_def eq_commute [of 64])
qed

lemma readSectionNames_ddr:
  assumes am: "is_ddr p (of_nat (length img)) am" and len: "length img < 2 ^ 64"
    and img: "holds_image p img w"
    and nw: "unat (sh_offset (shdrs ! unat (e_shstrndx hdr))) +
      unat (sh_size (shdrs ! unat (e_shstrndx hdr))) < 2 ^ 64"
  obtains w' where "readSectionNames E am hdr shdrs w = (parse_names img hdr shdrs, w')"
    and "holds_image p img w'"
proof (cases "e_shstrndx hdr = 0")
  case True
  then show thesis using that [of w] img by (simp add: readSectionNames_def parse_names_def retM_def)
next
  case False
  let ?sec = "shdrs ! unat (e_shstrndx hdr)"
  have n: "unat (of_nat (length img) :: u64) = length img" by (rule unat_of_nat_u64 [OF len])
  have bound: "sh_offset ?sec + sh_size ?sec \<le> of_nat (length img) \<longleftrightarrow>
      unat (sh_offset ?sec) + unat (sh_size ?sec) \<le> length img"
    using unat_add_no_wrap [OF nw] by (simp add: word_le_nat_alt n)
  obtain w' where w': "readMember E am (sh_offset ?sec) (unat (sh_size ?sec)) w =
      (range_of img (unat (sh_offset ?sec)) (unat (sh_size ?sec)), w')" and "holds_image p img w'"
    by (rule readMember_ddr [OF am len img nw])
  have "readSectionNames E am hdr shdrs w = (parse_names img hdr shdrs, w') \<or>
      readSectionNames E am hdr shdrs w = (parse_names img hdr shdrs, w)"
    using False w'
    by (simp add: readSectionNames_def parse_names_def getSize_ddr [OF am] bound Let_def
        throwM_unless_def throwM_when_def throwM_def throw_unless_def throw_when_def)
  then show thesis using that img \<open>holds_image p img w'\<close> by blast
qed

lemma Reader_new_ddr:
  assumes am: "is_ddr p (of_nat (length img)) am" and len: "length img < 2 ^ 64"
    and img: "holds_image p img w" and nw: "image_no_wrap img"
  obtains w' where "Reader_new E (Some am) w = (parse_image img, w')" and "holds_image p img w'"
proof -
  let ?hdr = "dec_Elf64_Ehdr (bslice 0 64 img)"
  let ?off = "e_shoff ?hdr" and ?n = "unat (e_shnum ?hdr)"
  let ?shdrs = "pod_elf64_shdr.dec_table ?n (bslice (unat ?off) (?n * 64) img)"
  from nw have nw1: "unat ?off + ?n * 64 < 2 ^ 64"
    and nw2': "unat (e_shstrndx ?hdr) < ?n \<Longrightarrow> unat (sh_offset (?shdrs ! unat (e_shstrndx ?hdr))) +
      unat (sh_size (?shdrs ! unat (e_shstrndx ?hdr))) < 2 ^ 64"
    by (simp_all add: image_no_wrap_def Let_def)
  obtain w1 where w1: "readMember E am 0 64 w = (range_of img 0 64, w1)" "holds_image p img w1"
    by (rule readMember_ddr [OF am len img, of 0 64]) auto
  show thesis
  proof (cases "64 \<le> length img")
    case False
    then have "Reader_new E (Some am) w = (parse_image img, w1)"
      using w1(1) by (simp add: Reader_new_def parse_image_def bindM_def range_of_def)
    then show thesis using that w1(2) by blast
  next
    case True
    then have r0: "range_of img 0 64 = Inr (bslice 0 64 img)" "length (bslice 0 64 img) = 64"
      by (simp_all add: range_of_def)
    let ?k = "bindM (readMember E am ?off (?n * 64)) (\<lambda>tableBytes.
        bindM (readSectionNames E am ?hdr (pod_elf64_shdr.dec_table ?n tableBytes)) (\<lambda>names.
          retM \<lparr>mElfHeader = ?hdr, mSectionHeaders = pod_elf64_shdr.dec_table ?n tableBytes,
                mSectionNames = names, mSectionsCache = \<lambda>_. None\<rparr>))"
    have run: "Reader_new E (Some am) w = throwM_unless (header_ok ?hdr) HeaderError ?k w1"
      using w1(1) r0
      by (simp only: Reader_new_def option.case bindM_def [of "readMember E am 0 64"] prod.case
          sum.case Let_def header_checks)
    show thesis
    proof (cases "header_ok ?hdr")
      case False
      then have "Reader_new E (Some am) w = (parse_image img, w1)"
        unfolding run by (simp add: parse_image_def r0 Let_def throwM_def)
      then show thesis using that w1(2) by blast
    next
      case ok: True
      then have nw2: "unat (sh_offset (?shdrs ! unat (e_shstrndx ?hdr))) +
          unat (sh_size (?shdrs ! unat (e_shstrndx ?hdr))) < 2 ^ 64"
        using nw2' by (simp add: header_ok_def)
      obtain w2 where w2: "readMember E am ?off (?n * 64) w1 = (range_of img (unat ?off) (?n * 64), w2)"
        "holds_image p img w2"
        by (rule readMember_ddr [OF am len w1(2) nw1])
      show thesis
      proof (cases "unat ?off + ?n * 64 \<le> length img")
        case False
        then have r1: "range_of img (unat ?off) (?n * 64) = Inl AccessError"
          by (simp add: range_of_def)
        have "Reader_new E (Some am) w = (parse_image img, w2)"
          unfolding run using ok w2(1)
          by (simp add: parse_image_def r0 r1 Let_def bindM_def)
        then show thesis using that w2(2) by blast
      next
        case True
        then have r1: "range_of img (unat ?off) (?n * 64) = Inr (bslice (unat ?off) (?n * 64) img)"
          by (simp add: range_of_def)
        obtain w3 where w3: "readSectionNames E am ?hdr ?shdrs w2 = (parse_names img ?hdr ?shdrs, w3)"
          "holds_image p img w3"
          by (rule readSectionNames_ddr [OF am len w2(2) nw2])
        have "Reader_new E (Some am) w = (parse_image img, w3)"
          unfolding run using ok w2(1) w3(1)
          by (cases "parse_names img ?hdr ?shdrs")
            (simp_all add: parse_image_def r0 r1 Let_def bindM_def retM_def)
        then show thesis using that w3(2) by blast
      qed
    qed
  qed
qed

section \<open>Images built from their parts\<close>

text \<open>An image with the given header, section table and names parses to these.\<close>

lemma parse_image_built:
  assumes h: "bslice 0 64 img = enc_Elf64_Ehdr hdr" "wf_Elf64_Ehdr hdr" "header_ok hdr"
    and t: "bslice (unat (e_shoff hdr)) (length shdrs * 64) img = pod_elf64_shdr.enc_table shdrs"
      "length shdrs = unat (e_shnum hdr)" "unat (e_shoff hdr) + length shdrs * 64 \<le> length img"
    and n: "e_shstrndx hdr \<noteq> 0" "sec = shdrs ! unat (e_shstrndx hdr)" "sh_size sec \<noteq> 0"
      "unat (sh_offset sec) + unat (sh_size sec) \<le> length img"
  shows "parse_image img = Inr \<lparr>mElfHeader = hdr, mSectionHeaders = shdrs,
      mSectionNames = bslice (unat (sh_offset sec)) (unat (sh_size sec)) img,
      mSectionsCache = \<lambda>_. None\<rparr>"
    and "dec_Elf64_Ehdr (bslice 0 64 img) = hdr"
    and "pod_elf64_shdr.dec_table (unat (e_shnum hdr))
      (bslice (unat (e_shoff hdr)) (unat (e_shnum hdr) * 64) img) = shdrs"
proof -
  have l: "64 \<le> length img" using t(3) h(3) by (simp add: header_ok_def)
  show d: "dec_Elf64_Ehdr (bslice 0 64 img) = hdr"
    unfolding h(1) by (rule pod_elf64_ehdr.dec_enc [OF h(2)])
  show tab: "pod_elf64_shdr.dec_table (unat (e_shnum hdr))
      (bslice (unat (e_shoff hdr)) (unat (e_shnum hdr) * 64) img) = shdrs"
    using t(1) pod_elf64_shdr.dec_table_enc_table_n [OF t(2)] by (simp add: t(2))
  have r0: "range_of img 0 64 = Inr (bslice 0 64 img)" using l by (simp add: range_of_def)
  have r1: "range_of img (unat (e_shoff hdr)) (unat (e_shnum hdr) * 64) =
      Inr (bslice (unat (e_shoff hdr)) (unat (e_shnum hdr) * 64) img)"
    using t(2,3) by (simp add: range_of_def)
  have r2: "parse_names img hdr shdrs = Inr (bslice (unat (sh_offset sec)) (unat (sh_size sec)) img)"
    using n by (simp add: parse_names_def range_of_def Let_def)
  show "parse_image img = Inr \<lparr>mElfHeader = hdr, mSectionHeaders = shdrs,
      mSectionNames = bslice (unat (sh_offset sec)) (unat (sh_size sec)) img,
      mSectionsCache = \<lambda>_. None\<rparr>"
    unfolding parse_image_def r0 bindE_simps Let_def d r1 tab r2 using h(3) by simp
qed

text \<open>A small image: a null section and a table of names, for the names range given.\<close>

definition example_header :: Elf64_Ehdr where
  "example_header = \<lparr>
     e_ident = [ELFMAG0, ELFMAG1, ELFMAG2, ELFMAG3, ELFCLASS64, ELFDATA2LSB, 0, 0, 0, 0, 0, 0, 0, 0, 0, 0],
     e_type = ET_REL, e_machine = EM_NONE, e_version = 0, e_entry = 0, e_phoff = 0, e_shoff = 64,
     e_flags = 0, e_ehsize = 64, e_phentsize = 0, e_phnum = 0, e_shentsize = 64, e_shnum = 2,
     e_shstrndx = 1\<rparr>"

definition example_shdr :: "u32 \<Rightarrow> u64 \<Rightarrow> u64 \<Rightarrow> Elf64_Shdr" where
  "example_shdr type off n = \<lparr>sh_name = 1, sh_type = type, sh_flags = 0, sh_addr = 0, sh_offset = off,
     sh_size = n, sh_link = 0, sh_info = 0, sh_addralign = 1, sh_entsize = 0\<rparr>"

definition example_image :: "u64 \<Rightarrow> u64 \<Rightarrow> bytes" where
  "example_image off n = enc_Elf64_Ehdr example_header @
     pod_elf64_shdr.enc_table [example_shdr SHT_NULL 0 0, example_shdr SHT_STRTAB off n] @ [0, 97, 0]"

lemma example_header_ok: "wf_Elf64_Ehdr example_header" "header_ok example_header"
  by (simp_all add: wf_Elf64_Ehdr_def header_ok_def example_header_def)

lemma length_example_image: "length (example_image off n) = 195"
  by (simp add: example_image_def pod_elf64_ehdr.length_enc example_header_ok
      pod_elf64_shdr.length_enc_table)

lemma example_image_parts:
  "bslice 0 64 (example_image off n) = enc_Elf64_Ehdr example_header"
  "bslice 64 128 (example_image off n) =
     pod_elf64_shdr.enc_table [example_shdr SHT_NULL 0 0, example_shdr SHT_STRTAB off n]"
  "bslice 192 3 (example_image off n) = [0, 97, 0]"
  by (simp_all add: example_image_def bslice_def pod_elf64_ehdr.length_enc example_header_ok
      pod_elf64_shdr.length_enc_table)

lemma example_image_parses:
  "parse_image (example_image 192 3) = Inr \<lparr>mElfHeader = example_header,
     mSectionHeaders = [example_shdr SHT_NULL 0 0, example_shdr SHT_STRTAB 192 3],
     mSectionNames = [0, 97, 0], mSectionsCache = \<lambda>_. None\<rparr>"
  using parse_image_built [of "example_image 192 3" example_header
      "[example_shdr SHT_NULL 0 0, example_shdr SHT_STRTAB 192 3]" "example_shdr SHT_STRTAB 192 3"]
  by (simp add: example_header_ok example_image_parts length_example_image)
    (simp add: example_header_def example_shdr_def example_image_parts length_example_image)

text \<open>
  C8. The reader computes the specification: over a memory accessor of an image whose bounds do not
  wrap around, the constructor ends in exactly the result of \<open>parse_image\<close>, the exception
  included, and leaves the image as it was.
\<close>

theorem reader_computes_parse_image:
  assumes "is_ddr p (of_nat (length img)) am" and "length img < 2 ^ 64"
    and "holds_image p img w" and "image_no_wrap img"
  shows "\<exists>w'. Reader_new E (Some am) w = (parse_image img, w') \<and> holds_image p img w'"
  by (rule Reader_new_ddr [OF assms]) blast

definition image_world :: "bytes \<Rightarrow> world" where
  "image_world img = \<lparr>memory = [(0x1000, img)], objs = [], trace = [], streamGood = True\<rparr>"

lemma image_world_holds: "img \<noteq> [] \<Longrightarrow> holds_image (Ptr 0 0) img (image_world img)"
  by (simp add: holds_image_def image_world_def bslice_def)

lemma example_image_table:
  "dec_Elf64_Ehdr (bslice 0 64 (example_image off n)) = example_header"
  "pod_elf64_shdr.dec_table 2 (bslice 64 128 (example_image off n)) =
     [example_shdr SHT_NULL 0 0, example_shdr SHT_STRTAB off n]"
proof -
  show "dec_Elf64_Ehdr (bslice 0 64 (example_image off n)) = example_header"
    unfolding example_image_parts by (rule pod_elf64_ehdr.dec_enc [OF example_header_ok(1)])
  show "pod_elf64_shdr.dec_table 2 (bslice 64 128 (example_image off n)) =
     [example_shdr SHT_NULL 0 0, example_shdr SHT_STRTAB off n]"
    unfolding example_image_parts by (rule pod_elf64_shdr.dec_table_enc_table_n) simp_all
qed

lemma example_header_fields:
  "e_shoff example_header = 64" "e_shnum example_header = 2" "e_shstrndx example_header = 1"
  by (simp_all add: example_header_def)

theorem reader_computes_parse_image_witness:
  "\<exists>rd w'. Reader_new bump_env (Some (DDRAccessManagerAlways (Ptr 0 0) 195))
       (image_world (example_image 192 3)) = (Inr rd, w') \<and> mSectionNames rd = [0, 97, 0]"
proof -
  let ?img = "example_image 192 3"
  have ne: "?img \<noteq> []" using length_example_image [of 192 3] by auto
  have nw: "image_no_wrap ?img"
    by (simp add: image_no_wrap_def Let_def example_image_table example_header_fields example_shdr_def
        del: pod_elf64_shdr.nth_dec_table)
  obtain w' where "Reader_new bump_env (Some (DDRAccessManagerAlways (Ptr 0 0) 195)) (image_world ?img) =
      (parse_image ?img, w')"
    using reader_computes_parse_image [OF _ _ image_world_holds [OF ne] nw,
        of "DDRAccessManagerAlways (Ptr 0 0) 195" bump_env]
    by (auto simp: length_example_image)
  then show ?thesis unfolding example_image_parses by simp
qed

lemma readExternal_static:
  assumes "readExternal_DDR E p n off r w = (x, w')" and "bufKind (objs w ! r) = StaticBuffer"
    and "r < length (objs w)"
  shows "b < length (memory w) \<Longrightarrow> length (snd (memory w' ! b)) = length (snd (memory w ! b))"
    and "length (memory w') = length (memory w)"
  using assms
  by (auto simp: readExternal_DDR_def bindM_def readM_def throwM_when_def throwM_def withLock_def
      lock_def unlock_def finallyM_def memcpyM_def memcpy_mem_def length_peek block_length_poke
      split: if_splits sum.splits prod.splits)

lemma readMember_lengths:
  assumes "is_ddr p n am" and "readMember E am off k w = (x, w')" and b: "b < length (memory w)"
  shows "length (snd (memory w' ! b)) = length (snd (memory w ! b))"
    and "length (memory w) \<le> length (memory w')"
proof -
  define w0 where "w0 = w\<lparr>memory := memory w @ [(0, replicate k 0)], objs := objs w @
    [\<lparr>bufKind = StaticBuffer, mDevBuffer = DeviceBuffer_make (Ptr (length (memory w)) 0)
        (ptr_value (memory w @ [(0, replicate k 0)]) (Ptr (length (memory w)) 0)) (of_nat k),
       mBufferSpecs = BufferSpecs_make 0 (of_nat k) 0\<rparr>]\<rparr>"
  from assms(2) obtain y where y: "readExternal_DDR E p n off (length (objs w)) w0 = (y, w')"
    by (auto simp: readMember_def modifyM_def readExternal_ddr [OF assms(1)] newStaticBuffer_def
        newObj_def bindM_def w0_def BufferSpecs_make_def liftM_def readM_def split: prod.splits sum.splits)
  have s: "bufKind (objs w0 ! length (objs w)) = StaticBuffer" "length (objs w) < length (objs w0)"
    by (simp_all add: w0_def)
  have m: "length (memory w0) = Suc (length (memory w))" "memory w0 ! b = memory w ! b"
    using b by (simp_all add: w0_def nth_append)
  show "length (snd (memory w' ! b)) = length (snd (memory w ! b))"
    using readExternal_static(1) [OF y s, of b] m b by simp
  show "length (memory w) \<le> length (memory w')"
    using readExternal_static(2) [OF y s] m by simp
qed

lemma readMember_outside:
  assumes "is_ddr (Ptr b o1) n am" and "\<not> off + of_nat k > n" and "b < length (memory w)"
    and "length (snd (memory w ! b)) < o1 + unat off" and "0 < k" and "k < 2 ^ 64"
  obtains w' where "readMember E am off k w = (Inl UndefinedBehaviour, w')"
proof -
  have k: "unat (of_nat k :: u64) = k" by (rule unat_of_nat_u64 [OF assms(6)])
  have "\<not> valid (memory w @ [(0, replicate k 0)]) (Ptr b (o1 + unat off)) k"
    using assms(3-5) by (simp add: nth_append)
  then show thesis
    using assms(2) that
    by (simp add: readMember_def modifyM_def readExternal_ddr [OF assms(1)] newStaticBuffer_def
        newObj_def bindM_def BufferSpecs_make_def readExternal_DDR_def getBufferSpecs_def readM_def
        throwM_when_def getBuffer_def DeviceBuffer_make_def withLock_def lock_def unlock_def
        finallyM_def memcpyM_def memcpy_mem_def k del: valid.simps)
qed

text \<open>
  C39. The bound on the section names adds two 64-bit numbers from the file and wraps: an image of
  195 bytes whose names section has offset 2^64 - 16 and size 32 passes both checks, and the reader
  copies from outside the image, where the specification reports a \<open>HeaderError\<close>.
\<close>

theorem names_bound_wraps:
  "(\<exists>w'. Reader_new bump_env (Some (DDRAccessManagerAlways (Ptr 0 0) 195))
       (image_world (example_image (- 16) 32)) = (Inl UndefinedBehaviour, w')) \<and>
   parse_image (example_image (- 16) 32) = Inl HeaderError"
proof
  let ?img = "example_image (- 16) 32"
  let ?am = "DDRAccessManagerAlways (Ptr 0 0) 195"
  let ?shdrs = "[example_shdr SHT_NULL 0 0, example_shdr SHT_STRTAB (- 16) 32]"
  have am: "is_ddr (Ptr 0 0) (of_nat (length ?img)) ?am" by (simp add: length_example_image)
  have len: "length ?img < 2 ^ 64" by (simp add: length_example_image)
  have ne: "?img \<noteq> []" using length_example_image [of "- 16" 32] by auto
  have r0: "range_of ?img 0 64 = Inr (bslice 0 64 ?img)" "length (bslice 0 64 ?img) = 64"
    "range_of ?img 64 128 = Inr (bslice 64 128 ?img)"
    by (simp_all add: range_of_def length_example_image)
  obtain w1 where w1: "readMember bump_env ?am 0 64 (image_world ?img) = (Inr (bslice 0 64 ?img), w1)"
    "holds_image (Ptr 0 0) ?img w1"
    using readMember_ddr [OF am len image_world_holds [OF ne], of 0 64 bump_env] r0 by auto
  obtain w2 where w2: "readMember bump_env ?am 64 128 w1 = (Inr (bslice 64 128 ?img), w2)"
    "holds_image (Ptr 0 0) ?img w2"
    using readMember_ddr [OF am len w1(2), of 64 128 bump_env] r0 by auto
  have len1: "0 < length (memory w1)" "length (snd (memory w1 ! 0)) = 195"
    using readMember_lengths [OF am w1(1), of 0] by (auto simp: image_world_def length_example_image)
  then have len2: "0 < length (memory w2)" "length (snd (memory w2 ! 0)) = 195"
    using readMember_lengths [OF am w2(1), of 0] by auto
  obtain w3 where w3: "readMember bump_env ?am (- 16) 32 w2 = (Inl UndefinedBehaviour, w3)"
    by (rule readMember_outside [OF am, of "- 16" 32 w2 bump_env])
      (use len2 in \<open>simp_all add: length_example_image\<close>)
  have names: "readSectionNames bump_env ?am example_header ?shdrs w2 = (Inl UndefinedBehaviour, w3)"
    using w3 by (simp add: readSectionNames_def example_header_fields example_shdr_def)
  have "Reader_new bump_env (Some ?am) (image_world ?img) =
      throwM_unless (header_ok example_header) HeaderError
        (bindM (readMember bump_env ?am 64 128) (\<lambda>tableBytes.
        bindM (readSectionNames bump_env ?am example_header (pod_elf64_shdr.dec_table 2 tableBytes))
          (\<lambda>names. retM \<lparr>mElfHeader = example_header,
             mSectionHeaders = pod_elf64_shdr.dec_table 2 tableBytes,
             mSectionNames = names, mSectionsCache = \<lambda>_. None\<rparr>))) w1"
    using w1(1) header_checks [OF r0(2)]
    by (simp only: Reader_new_def option.case bindM_def [of "readMember bump_env ?am 0 64"] prod.case
        sum.case Let_def example_image_table example_header_fields) simp
  also have "\<dots> = (Inl UndefinedBehaviour, w3)"
    using w2(1) names by (simp add: example_header_ok bindM_def example_image_table)
  finally show "\<exists>w'. Reader_new bump_env (Some ?am) (image_world ?img) = (Inl UndefinedBehaviour, w')"
    by blast
next
  let ?img = "example_image (- 16) 32"
  have r0: "range_of ?img 0 64 = Inr (bslice 0 64 ?img)"
    "range_of ?img 64 128 = Inr (bslice 64 128 ?img)"
    by (simp_all add: range_of_def length_example_image)
  show "parse_image ?img = Inl HeaderError"
    by (simp add: parse_image_def r0 Let_def example_image_table example_header_fields
        example_header_ok parse_names_def example_shdr_def length_example_image
        del: pod_elf64_shdr.nth_dec_table)
qed

section \<open>The section table\<close>

text \<open>
  The cache agrees with the table, and the constructor starts it empty; sections are only ever
  read from the table, so what a caller sees does not depend on the calls made before.
\<close>

definition reader_ok :: "Reader \<Rightarrow> bool" where
  "reader_ok rd \<longleftrightarrow> length (mSectionHeaders rd) = unat (e_shnum (mElfHeader rd)) \<and>
     (\<forall>i s. mSectionsCache rd i = Some s \<longrightarrow>
        i < unat (e_shnum (mElfHeader rd)) \<and> rs_header s = mSectionHeaders rd ! i \<and>
        rs_name s = unat (sh_name (mSectionHeaders rd ! i)) \<and>
        unat (sh_name (mSectionHeaders rd ! i)) < length (mSectionNames rd))"

lemma reader_ok_new: "parse_image img = Inr rd \<Longrightarrow> reader_ok rd"
  by (auto simp: parse_image_def Let_def bindE_Inr_iff range_of_def reader_ok_def)

lemma getSection_spec:
  assumes "reader_ok rd" and "getSection i rd = (r, rd')"
  shows "reader_ok rd'" and "mSectionHeaders rd' = mSectionHeaders rd"
    and "mSectionNames rd' = mSectionNames rd" and "mElfHeader rd' = mElfHeader rd"
    and "r = Inr s \<Longrightarrow> i < length (mSectionHeaders rd) \<and> rs_header s = mSectionHeaders rd ! i \<and>
           rs_name s = unat (sh_name (mSectionHeaders rd ! i)) \<and> mSectionsCache rd' i = Some s"
    and "length (mSectionHeaders rd) \<le> i \<Longrightarrow> r = Inl RangeError"
    and "i < length (mSectionHeaders rd) \<Longrightarrow> unat (sh_name (mSectionHeaders rd ! i)) < length (mSectionNames rd) \<Longrightarrow>
           \<exists>s. r = Inr s"
  using assms
  by (auto simp: getSection_def reader_ok_def Let_def split: if_splits option.splits)

lemma sectionM_ok:
  assumes "sectionM i st = (r, st')" and "reader_ok (fst st)"
  shows "reader_ok (fst st')" "snd st' = snd st"
  using assms getSection_spec(1) [OF assms(2)]
  by (auto simp: sectionM_def split: prod.splits)

text \<open>
  C28. Sections are the entries of the section table. On a well-formed reader, which the constructor
  makes and every access keeps, the section at an index below the count carries the header at that
  index and the name it points to, an index from the count on is a \<open>RangeError\<close>, and the answer is
  the same whatever has been cached.
\<close>

theorem sections_are_table_entries:
  assumes "parse_image img = Inr rd0"
    and "reader_ok rd" and "mSectionHeaders rd = mSectionHeaders rd0"
    and "mSectionNames rd = mSectionNames rd0" and "mElfHeader rd = mElfHeader rd0"
  shows "reader_ok (snd (getSection i rd)) \<and>
    (case fst (getSection i rd) of
       Inr s \<Rightarrow> i < length (mSectionHeaders rd0) \<and> rs_header s = mSectionHeaders rd0 ! i \<and>
               getName (snd (getSection i rd)) s =
                 (if 0 \<in> set (drop (unat (sh_name (mSectionHeaders rd0 ! i))) (mSectionNames rd0))
                  then Inr (cstring_at (unat (sh_name (mSectionHeaders rd0 ! i))) (mSectionNames rd0))
                  else Inl UndefinedBehaviour)
     | Inl e \<Rightarrow> e = (if i < length (mSectionHeaders rd0) then UndefinedBehaviour else RangeError))"
proof -
  obtain r rd' where g: "getSection i rd = (r, rd')" by (cases "getSection i rd")
  note sp = getSection_spec [OF assms(2) g]
  have e: "e = (if i < length (mSectionHeaders rd0) then UndefinedBehaviour else RangeError)"
    if "r = Inl e" for e
    using g that assms by (auto simp: getSection_def reader_ok_def Let_def split: if_splits option.splits)
  show ?thesis
    using sp(1) e sp(5) assms(3,4) sp(3)
    by (cases r) (auto simp: g getName_def)
qed

theorem sections_are_table_entries_witness:
  "\<exists>rd s. parse_image (example_image 192 3) = Inr rd \<and> fst (getSection 1 rd) = Inr s \<and>
     rs_header s = example_shdr SHT_STRTAB 192 3 \<and> getName (snd (getSection 1 rd)) s = Inr [97]"
proof -
  obtain rd where rd: "parse_image (example_image 192 3) = Inr rd"
    and t: "mSectionHeaders rd = [example_shdr SHT_NULL 0 0, example_shdr SHT_STRTAB 192 3]"
      "mSectionNames rd = [0, 97, 0]" "mElfHeader rd = example_header" "mSectionsCache rd = (\<lambda>_. None)"
    by (metis example_image_parses Reader.select_convs)
  obtain s where s: "fst (getSection 1 rd) = Inr s"
    by (simp add: getSection_def t example_header_fields Let_def example_shdr_def)
  have "sh_name (example_shdr SHT_STRTAB 192 3) = 1" by (simp add: example_shdr_def)
  then show ?thesis
    using sections_are_table_entries [OF rd reader_ok_new [OF rd] refl refl refl, of 1] s rd
    by (auto simp: t cstring_at_def)
qed

text \<open>
  C27. The data pointer of a section is stable: once \<^verbatim>\<open>getData\<close> through the section table has
  returned, calling it again returns the same pointer and changes nothing.
\<close>

theorem section_data_is_stable:
  assumes "sectionDataM E am i st = (Inr p, st')"
  shows "sectionDataM E am i st' = (Inr p, st')"
proof -
  obtain x rd1 where g: "getSection i (fst st) = (x, rd1)" by (cases "getSection i (fst st)")
  with assms obtain s where x: "x = Inr s"
    by (cases x) (simp_all add: sectionDataM_def bindM_def sectionM_def)
  obtain y w' where d0: "getData E am s (snd st) = (y, w')" by (cases "getData E am s (snd st)")
  with assms g x obtain s' where y: "y = Inr (p, s')"
    and st': "st' = (rd1\<lparr>mSectionsCache := (mSectionsCache rd1)(i \<mapsto> s')\<rparr>, w')"
    by (cases y) (auto simp: sectionDataM_def bindM_def sectionM_def on_world_def zoomM_def
        modifyM_def retM_def)
  have d: "getData E am s (snd st) = (Inr (p, s'), w')" using d0 y by simp
  from d obtain r where r: "rs_dataBuffer s' = Some r" "r < length (objs w')"
    "p = cpu_addr (getBuffer r w')" and s': "s' = s\<lparr>rs_dataBuffer := Some r\<rparr>"
    by (auto simp: getData_def bindM_Inr_iff deref_def readM_def split: option.splits if_splits)
  have i: "i < unat (e_shnum (mElfHeader rd1))"
    using g x by (auto simp: getSection_def Let_def split: if_splits option.splits)
  then have "getSection i (fst st') = (Inr s', fst st')"
    by (simp add: getSection_def st')
  moreover have "getData E am s' w' = (Inr (p, s'), w')"
    using r by (simp add: getData_def bindM_def retM_def deref_def readM_def s')
  ultimately show ?thesis
    by (simp add: sectionDataM_def bindM_def sectionM_def on_world_def zoomM_def modifyM_def retM_def
        st')
qed

definition example_reader :: Reader where
  "example_reader = \<lparr>mElfHeader = example_header,
     mSectionHeaders = [example_shdr SHT_NULL 0 0, example_shdr SHT_STRTAB 192 3],
     mSectionNames = [0, 97, 0], mSectionsCache = \<lambda>_. None\<rparr>"

theorem section_data_is_stable_witness:
  "\<exists>st'. sectionDataM bump_env (DDRAccessManagerAlways (Ptr 0 0) 195) 1
       (example_reader, image_world (example_image 192 3)) = (Inr (Ptr 0 192), st') \<and>
     sectionDataM bump_env (DDRAccessManagerAlways (Ptr 0 0) 195) 1 st' = (Inr (Ptr 0 192), st')"
proof -
  obtain st' where st': "sectionDataM bump_env (DDRAccessManagerAlways (Ptr 0 0) 195) 1
       (example_reader, image_world (example_image 192 3)) = (Inr (Ptr 0 192), st')"
    by (simp add: sectionDataM_def sectionM_def getSection_def example_reader_def
        example_header_fields example_shdr_def Let_def bindM_def on_world_def zoomM_def getData_def
        getDataBuffer_def SHT_STRTAB_def SHT_NOBITS_def VPU_SHT_CMX_METADATA_def
        VPU_SHT_CMX_WORKSPACE_def BufferSpecs_make_def getEmplacedBuffer_def newStaticBuffer_def
        newObj_def deref_def readM_def retM_def modifyM_def getBuffer_def DeviceBuffer_make_def
        image_world_def)
  then show ?thesis using section_data_is_stable [OF st'] by blast
qed

end
