(* ===== verification/Elf_Roundtrip.thy ===== *)
theory Elf_Roundtrip imports Elf_Finalize Elf_Reader_Props "HOL-Library.Multiset" begin

text \<open>
  From the writer to the reader: \<open>prepareWriter\<close> on a well-formed writer succeeds, \<open>generateELF\<close>
  then succeeds on storage of the announced size, and the reader finds in the result the sections,
  names and data that were written.
\<close>

section \<open>Serialising the sections\<close>

text \<open>
  \<open>data_range s\<close> is where the data that the writer itself holds for \<open>s\<close> goes. A string table that
  only has its initial zero has size and offset zero: its byte lands under the file header, which
  is written last.
\<close>

definition data_fits :: "nat \<Rightarrow> nat \<Rightarrow> Section \<Rightarrow> bool" where
  "data_fits lo hi s \<longleftrightarrow> m_data s = [] \<or>
     occupies s \<and> length (m_data s) = sec_size s \<and> lo \<le> sec_offset s \<and> sec_offset s + sec_size s \<le> hi \<or>
     sec_offset s = 0 \<and> length (m_data s) = 1"

lemma serialize_one:
  assumes "data_fits lo (unat tot) s" and "length storage = unat tot" and "0 < lo" and "lo \<le> unat tot"
  obtains storage' where "serializeSection tot s storage = Inr storage'"
    and "length storage' = length storage"
    and "m_data s \<noteq> [] \<Longrightarrow> storage' = bwrite (sec_offset s) (m_data s) storage"
    and "m_data s = [] \<Longrightarrow> storage' = storage"
proof (cases "m_data s = []")
  case True
  then show thesis using that [of storage] by (simp add: serializeSection_def)
next
  case False
  then have pos: "0 < length (m_data s)" by simp
  have b: "sec_offset s + length (m_data s) \<le> unat tot"
    using assms(1,3,4) False by (auto simp: data_fits_def)
  moreover have "\<not> unat tot \<le> sec_offset s" using b pos by linarith
  ultimately have "serializeSection tot s storage = Inr (bwrite (sec_offset s) (m_data s) storage)"
    using False assms(2)
    by (simp add: serializeSection_def writeContainerToStorageVector_def
        writeRawBytesToStorageVector_def sec_offset_def not_le)
  then show thesis using that [of "bwrite (sec_offset s) (m_data s) storage"] False b assms(2) by simp
qed

lemma serialize_frame:
  assumes "foldE (serializeSection tot) secs storage = Inr storage'"
    and "\<And>s. s \<in> set secs \<Longrightarrow> data_fits lo (unat tot) s"
    and "length storage = unat tot" and "0 < lo" and "lo \<le> unat tot"
    and "\<And>s. s \<in> set secs \<Longrightarrow> m_data s \<noteq> [] \<Longrightarrow>
      a + m \<le> sec_offset s \<or> sec_offset s + length (m_data s) \<le> a"
  shows "bslice a m storage' = bslice a m storage \<and> length storage' = length storage"
  using assms
proof (induction secs arbitrary: storage)
  case Nil
  then show ?case by simp
next
  case (Cons s ss)
  obtain st where st: "serializeSection tot s storage = Inr st" "length st = length storage"
    "m_data s \<noteq> [] \<Longrightarrow> st = bwrite (sec_offset s) (m_data s) storage" "m_data s = [] \<Longrightarrow> st = storage"
    by (rule serialize_one [OF Cons.prems(2) Cons.prems(3,4,5)]) auto
  have "bslice a m st = bslice a m storage"
  proof (cases "m_data s = []")
    case False
    have "sec_offset s + length (m_data s) \<le> length storage"
      using Cons.prems(2) [of s] Cons.prems(3,4,5) False by (auto simp: data_fits_def)
    then show ?thesis using st(3) [OF False] Cons.prems(6) [of s] False
      by (simp add: bslice_bwrite_disjoint)
  qed (use st in simp)
  moreover have "bslice a m storage' = bslice a m st \<and> length storage' = length st"
    by (rule Cons.IH) (use Cons.prems st in auto)
  ultimately show ?case using st(2) by simp
qed

lemma serialize_total:
  assumes "\<And>s. s \<in> set secs \<Longrightarrow> data_fits lo (unat tot) s"
    and "length storage = unat tot" and "0 < lo" and "lo \<le> unat tot"
  shows "\<exists>storage'. foldE (serializeSection tot) secs storage = Inr storage'"
  using assms
proof (induction secs arbitrary: storage)
  case (Cons s ss)
  obtain st where "serializeSection tot s storage = Inr st" "length st = length storage"
    by (rule serialize_one [OF Cons.prems(1) Cons.prems(2,3,4)]) auto
  then show ?case using Cons.IH [of st] Cons.prems by simp
qed simp

lemma serialize_data:
  assumes run: "foldE (serializeSection tot) secs storage = Inr storage'"
    and fits: "\<And>s. s \<in> set secs \<Longrightarrow> data_fits lo (unat tot) s"
    and len: "length storage = unat tot" and lo: "0 < lo" "lo \<le> unat tot"
    and order: "\<And>i j. i < j \<Longrightarrow> j < length secs \<Longrightarrow> occupies (secs ! i) \<Longrightarrow> occupies (secs ! j) \<Longrightarrow>
      sec_offset (secs ! i) + sec_size (secs ! i) \<le> sec_offset (secs ! j)"
    and i: "i < length secs" "m_data (secs ! i) \<noteq> []" "occupies (secs ! i)"
      "length (m_data (secs ! i)) = sec_size (secs ! i)" "lo \<le> sec_offset (secs ! i)"
  shows "bslice (sec_offset (secs ! i)) (sec_size (secs ! i)) storage' = m_data (secs ! i)"
proof -
  let ?s = "secs ! i" and ?xs = "take i secs" and ?ys = "drop (Suc i) secs"
  have split: "secs = ?xs @ ?s # ?ys" using i(1) by (simp add: id_take_nth_drop)
  obtain st where st: "foldE (serializeSection tot) ?xs storage = Inr st"
    and rest: "foldE (serializeSection tot) (?s # ?ys) st = Inr storage'"
    using run by (subst (asm) split) (auto simp: foldE_append bindE_Inr_iff)
  have "bslice 0 0 st = bslice 0 0 storage \<and> length st = length storage"
    by (rule serialize_frame [OF st _ len lo]) (use fits in \<open>auto dest: in_set_takeD\<close>)
  then have lst: "length st = unat tot" using len by simp
  obtain st2 where st2: "serializeSection tot ?s st = Inr st2" "length st2 = length st"
    "st2 = bwrite (sec_offset ?s) (m_data ?s) st"
    by (rule serialize_one [OF fits lst lo, of ?s]) (use i in auto)
  have b: "sec_offset ?s + length (m_data ?s) \<le> length st"
    using fits [of ?s] i lst lo by (auto simp: data_fits_def)
  have here: "bslice (sec_offset ?s) (sec_size ?s) st2 = m_data ?s"
    using bslice_bwrite_same [OF b] by (simp add: st2(3) i(4))
  have rest2: "foldE (serializeSection tot) ?ys st2 = Inr storage'" using rest st2(1) by simp
  have "bslice (sec_offset ?s) (sec_size ?s) storage' = bslice (sec_offset ?s) (sec_size ?s) st2 \<and>
      length storage' = length st2"
  proof (rule serialize_frame [OF rest2 _ _ lo])
    show "length st2 = unat tot" using st2 lst by simp
    fix s
    assume s: "s \<in> set ?ys"
    then show "data_fits lo (unat tot) s" using fits by (meson in_set_dropD)
    assume d: "m_data s \<noteq> []"
    from s obtain k where k: "s = secs ! (Suc i + k)" "Suc i + k < length secs"
      by (auto simp: in_set_conv_nth)
    have f: "data_fits lo (unat tot) s" using fits k by simp
    show "sec_offset ?s + sec_size ?s \<le> sec_offset s \<or> sec_offset s + length (m_data s) \<le> sec_offset ?s"
    proof (cases "occupies s")
      case True
      then show ?thesis using order [of i "Suc i + k"] k i(3) by simp
    next
      case False
      then show ?thesis using f d i(5) lo(1) by (auto simp: data_fits_def)
    qed
  qed
  then show ?thesis using here by simp
qed

section \<open>Preparing\<close>

definition prepared_header :: "nat \<Rightarrow> Elf64_Ehdr" where
  "prepared_header n = (generateELFHeader [])\<lparr>e_shnum := of_nat n, e_shstrndx := 1, e_shoff := 64\<rparr>"

definition prepared :: "Writer \<Rightarrow> Writer \<Rightarrow> bool" where
  "prepared w w1 \<longleftrightarrow>
     (let n = length (m_sections w)
      in m_elfHeader w1 = prepared_header n \<and> m_sectionHeaders w1 = map m_header (m_sections w1) \<and>
         (\<exists>secs. finalised (m_sections w) n secs \<and>
            layout secs (64 + of_nat n * 64) = (m_sections w1, m_totalBinarySize w1)))"

lemma writer_okD:
  assumes "writer_ok w"
  shows "sections_shape (m_sections w)" "m_sectionHeaderNames w = 1" "m_sectionHeaders w = []"
    "m_name (m_sections w ! 1) \<noteq> []"
    "\<And>i. i < length (m_sections w) \<Longrightarrow> section_ok (length (m_sections w)) (m_sections w ! i)"
  using assms by (auto simp: writer_ok_def writer_building_def)

lemma prepareWriter_ok:
  assumes ok: "writer_ok w" and n: "length (m_sections w) < 2 ^ 16"
  obtains w1 where "prepareWriter w = Inr w1" and "prepared w w1"
proof -
  let ?n = "length (m_sections w)"
  note wk = writer_okD [OF ok]
  obtain secs where loop: "foldE (finalize_and_name 1) [0..<?n] (m_sections w) = Inr secs"
    and fin: "finalised (m_sections w) ?n secs"
    by (rule finalise_loop [OF wk(1) wk(5), of ?n]) auto
  have three: "3 \<le> ?n" "m_index (m_sections w ! 1) = 1" using wk(1) by (auto simp: sections_shape_def)
  have un: "unat (of_nat ?n :: u16) = ?n" using n by (simp add: unat_of_nat take_bit_nat_eq_self)
  then have nz: "(of_nat ?n :: u16) \<noteq> 0" using three by (metis not_numeral_le_zero unat_0)
  have uc: "ucast (of_nat ?n :: u16) = (of_nat ?n :: u64)"
    by (metis un of_nat_unat)
  have al: "alignUp 64 64 = 64" by (simp add: alignUp_def)
  let ?off = "64 + of_nat ?n * 64 :: u64"
  obtain secs' tot where lay: "layout secs ?off = (secs', tot)" by (cases "layout secs ?off")
  have "prepareWriter w = Inr (w\<lparr>m_elfHeader := prepared_header ?n, m_dataOffset := ?off,
      m_totalBinarySize := tot, m_sections := secs', m_sectionHeaders := map m_header secs'\<rparr>)"
    using loop lay nz three(2)
    by (simp add: prepareWriter_def wk(2,3) Let_def generateELFHeader_def prepared_header_def al uc)
  then show thesis using that fin lay by (auto simp: prepared_def Let_def)
qed

text \<open>
  The sizes stay below what their types hold: the section count fits the reader's limit, the
  sections and their padding fit the address space, and the names table fits 32-bit offsets.
\<close>

definition writer_fits :: "Writer \<Rightarrow> bool" where
  "writer_fits w1 \<longleftrightarrow> length (m_sections w1) < 2 ^ 16 - 1 \<and>
     64 + 64 * length (m_sections w1) + layout_room (m_sections w1) < 2 ^ 64 \<and>
     (\<forall>s \<in> set (m_sections w1). length (m_data s) < 2 ^ 64) \<and>
     length (m_data (m_sections w1 ! 1)) < 2 ^ 32"

lemma placed_nth:
  assumes "placed secs secs' t u" and "i < length secs"
  shows "m_data (secs' ! i) = m_data (secs ! i)" "m_kind (secs' ! i) = m_kind (secs ! i)"
    "m_name (secs' ! i) = m_name (secs ! i)" "sec_size (secs' ! i) = sec_size (secs ! i)"
    "sh_name (m_header (secs' ! i)) = sh_name (m_header (secs ! i))"
    "sh_addralign (m_header (secs' ! i)) = sh_addralign (m_header (secs ! i))"
    "occupies (secs' ! i) = occupies (secs ! i)"
    "\<not> occupies (secs ! i) \<Longrightarrow> secs' ! i = secs ! i"
proof -
  obtain off where e: "secs' ! i = (if occupies (secs ! i)
      then on_header (sh_offset_update (\<lambda>_. off)) (secs ! i) else secs ! i)"
    using assms by (auto simp: placed_def)
  have h: "m_data (on_header (sh_offset_update (\<lambda>_. off)) s) = m_data s \<and>
      m_kind (on_header (sh_offset_update (\<lambda>_. off)) s) = m_kind s \<and>
      m_name (on_header (sh_offset_update (\<lambda>_. off)) s) = m_name s \<and>
      sec_size (on_header (sh_offset_update (\<lambda>_. off)) s) = sec_size s \<and>
      sh_name (m_header (on_header (sh_offset_update (\<lambda>_. off)) s)) = sh_name (m_header s) \<and>
      sh_addralign (m_header (on_header (sh_offset_update (\<lambda>_. off)) s)) = sh_addralign (m_header s) \<and>
      occupies (on_header (sh_offset_update (\<lambda>_. off)) s) = occupies s" for s
    by (simp add: on_header_def sec_size_def occupies_def isNotEmptySection_def)
  show "m_data (secs' ! i) = m_data (secs ! i)" "m_kind (secs' ! i) = m_kind (secs ! i)"
    "m_name (secs' ! i) = m_name (secs ! i)" "sec_size (secs' ! i) = sec_size (secs ! i)"
    "sh_name (m_header (secs' ! i)) = sh_name (m_header (secs ! i))"
    "sh_addralign (m_header (secs' ! i)) = sh_addralign (m_header (secs ! i))"
    "occupies (secs' ! i) = occupies (secs ! i)" "\<not> occupies (secs ! i) \<Longrightarrow> secs' ! i = secs ! i"
    unfolding e using h by simp_all
qed

lemma layout_sizes:
  "layout secs t = (secs', u) \<Longrightarrow> layout_room secs' = layout_room secs \<and> length secs' = length secs"
  by (induction secs arbitrary: t secs')
    (auto simp: layout_room_def Let_def on_header_def split: prod.splits if_splits)

text \<open>Everything known of a prepared writer, by section.\<close>

lemma prepared_sections:
  assumes ok: "writer_ok w" and prep: "prepared w w1" and fits: "writer_fits w1"
  defines "n \<equiv> length (m_sections w)" and "tot \<equiv> m_totalBinarySize w1"
  obtains secs where "finalised (m_sections w) n secs"
    and "placed secs (m_sections w1) (64 + 64 * n) (unat tot)" and "n < 2 ^ 16 - 1"
proof -
  from prep obtain secs where fin: "finalised (m_sections w) n secs"
    and lay: "layout secs (64 + of_nat n * 64) = (m_sections w1, tot)"
    by (auto simp: prepared_def Let_def n_def tot_def)
  have len: "length secs = n" using fin by (simp add: finalised_def n_def)
  have l1: "layout_room (m_sections w1) = layout_room secs" "length (m_sections w1) = n"
    using layout_sizes [OF lay] len by auto
  have un: "unat (64 + of_nat n * 64 :: u64) = 64 + 64 * n"
  proof -
    have b: "64 + 64 * n < 2 ^ 64" using fits l1 by (simp add: writer_fits_def)
    have e: "(64 + of_nat n * 64 :: u64) = of_nat (64 + 64 * n)" by (simp add: mult.commute)
    show ?thesis unfolding e by (rule unat_of_nat_u64 [OF b])
  qed
  have "placed secs (m_sections w1) (64 + 64 * n) (unat tot)"
    using layout_placed [OF lay] fits l1 by (simp add: un writer_fits_def)
  then show thesis using that fin fits l1 by (simp add: writer_fits_def)
qed

lemma prepared_data_fits:
  assumes ok: "writer_ok w" and fits: "writer_fits w1"
    and fin: "finalised (m_sections w) n secs" and n: "n = length (m_sections w)"
    and pl: "placed secs (m_sections w1) lo hi" and i: "i < n"
  shows "data_fits lo hi (m_sections w1 ! i)"
proof -
  let ?s = "m_sections w1 ! i" and ?f = "secs ! i" and ?orig = "m_sections w ! i"
  have len: "length secs = n" "length (m_sections w1) = n" using fin pl n by (simp_all add: finalised_def placed_def)
  have i': "i < length secs" using i len by simp
  note pn = placed_nth [OF pl i']
  have id: "same_identity ?orig ?f" and em: "emitted secs ?orig ?f" using fin i n by (simp_all add: finalised_def)
  have ok0: "section_ok n ?orig" using writer_okD(5) [OF ok] i n by simp
  have off0: "sec_offset ?f = 0" using ok0 id by (simp add: section_ok_def same_identity_def sec_offset_def)
  have "?s \<in> set (m_sections w1)" using i len by simp
  then have small: "length (m_data ?f) < 2 ^ 64" using fits pn(1) by (metis writer_fits_def)
  have place: "occupies ?f \<Longrightarrow> lo \<le> sec_offset ?s \<and> sec_offset ?s + sec_size ?f \<le> hi"
    using pl i' by (simp add: placed_def)
  have full: "data_fits lo hi ?s"
    if "sh_size (m_header ?f) = of_nat (length (m_data ?f))" "m_kind ?f \<noteq> EmptySection"
  proof (cases "m_data ?f = []")
    case False
    have size: "sec_size ?f = length (m_data ?f)"
      using that(1) small by (simp add: sec_size_def unat_of_nat_u64)
    then have "sh_size (m_header ?f) \<noteq> 0" using False by (auto simp: sec_size_def)
    then have "occupies ?f" using that(2) by (simp add: occupies_def isNotEmptySection_def)
    then show ?thesis using place size pn by (simp add: data_fits_def)
  qed (simp add: data_fits_def pn)
  show ?thesis
  proof (cases "m_kind ?orig")
    case StringSection
    then have sk: "string_ok ?f" and k: "m_kind ?f = StringSection"
      using em id by (simp_all add: emitted_def same_identity_def)
    show ?thesis
    proof (cases "length (m_data ?f) = 1")
      case True
      then have "\<not> occupies ?f" using sk by (simp add: string_ok_def occupies_def)
      then have "?s = ?f" by (rule pn(8))
      then show ?thesis using True off0 by (simp add: data_fits_def)
    next
      case False
      then show ?thesis using sk k full by (simp add: string_ok_def)
    qed
  next
    case (SymbolSection names symbols info)
    then show ?thesis using em id full by (simp add: emitted_def same_identity_def Let_def)
  next
    case (RelocationSection symTab target relocs)
    then show ?thesis using em id full by (simp add: emitted_def same_identity_def)
  qed (use em pn in \<open>simp_all add: emitted_def data_fits_def\<close>)
qed

lemma checkELFMagic_prepared: "checkELFMagic (Some (e_ident (prepared_header n))) = Inr True"
  by (simp add: checkELFMagic_def prepared_header_def generateELFHeader_def EI_MAG0_def EI_MAG1_def
      EI_MAG2_def EI_MAG3_def)

lemma generateELF_prepared:
  assumes ok: "writer_ok w" and prep: "prepared w w1" and fits: "writer_fits w1"
    and len: "length storage = unat (getTotalSize w1)"
  defines "n \<equiv> length (m_sections w)"
  obtains w2 blob mid where "generateELF (Some storage) w1 = Inr (w2, blob)"
    and "foldE (serializeSection (m_totalBinarySize w1)) (m_sections w1) storage = Inr mid"
    and "length blob = length storage" and "64 + 64 * n \<le> length blob"
    and "bslice 0 64 blob = enc_Elf64_Ehdr (prepared_header n)"
    and "bslice 64 (n * 64) blob = pod_elf64_shdr.enc_table (map m_header (m_sections w1))"
    and "\<And>a m. 64 + 64 * n \<le> a \<Longrightarrow> bslice a m blob = bslice a m mid"
proof -
  let ?tot = "m_totalBinarySize w1" and ?h = "prepared_header n"
  let ?tab = "pod_elf64_shdr.enc_table (map m_header (m_sections w1))"
  obtain secs where fin: "finalised (m_sections w) n secs"
    and pl: "placed secs (m_sections w1) (64 + 64 * n) (unat ?tot)" and n: "n < 2 ^ 16 - 1"
    using prepared_sections [OF ok prep fits] by (auto simp: n_def)
  have ln: "length (m_sections w1) = n" using fin pl by (simp add: finalised_def placed_def n_def)
  have tot: "64 + 64 * n \<le> unat ?tot" using pl by (simp add: placed_def)
  have three: "3 \<le> n" using writer_okD(1) [OF ok] by (simp add: sections_shape_def n_def)
  have stl: "length storage = unat ?tot" using len by (simp add: getTotalSize_def)
  have df: "data_fits (64 + 64 * n) (unat ?tot) s" if "s \<in> set (m_sections w1)" for s
    using that prepared_data_fits [OF ok fits fin _ pl] ln by (auto simp: in_set_conv_nth n_def)
  obtain mid where mid: "foldE (serializeSection ?tot) (m_sections w1) storage = Inr mid"
    using serialize_total [OF df stl] tot by auto
  have "bslice 0 0 mid = bslice 0 0 storage \<and> length mid = length storage"
    by (rule serialize_frame [OF mid df stl _ tot]) auto
  then have lmid: "length mid = unat ?tot" using stl by simp
  have hdr: "m_elfHeader w1 = ?h" "m_sectionHeaders w1 = map m_header (m_sections w1)"
    using prep by (simp_all add: prepared_def Let_def n_def)
  have wfh: "wf_Elf64_Ehdr ?h" by (simp add: wf_Elf64_Ehdr_def prepared_header_def generateELFHeader_def)
  have lh: "length (enc_Elf64_Ehdr ?h) = 64" by (rule pod_elf64_ehdr.length_enc [OF wfh])
  have lt: "length ?tab = n * 64" by (simp add: pod_elf64_shdr.length_enc_table ln)
  let ?b1 = "bwrite 0 (enc_Elf64_Ehdr ?h) mid"
  let ?b2 = "bwrite 64 ?tab ?b1"
  have l1: "length ?b1 = unat ?tot" using lmid lh tot by (subst length_bwrite) auto
  have w1: "writeRawBytesToStorageVector ?tot 0 (enc_Elf64_Ehdr ?h) mid = Inr (64, ?b1)"
    using lmid tot by (simp add: writeRawBytesToStorageVector_def lh throw_when_def)
  have ne: "?tab \<noteq> []" using lt three by auto
  have w2: "writeContainerToStorageVector ?tot 64 ?tab ?b1 = Inr (64 + of_nat (n * 64), ?b2)"
    using l1 tot three ne
    by (simp add: writeContainerToStorageVector_def writeRawBytesToStorageVector_def lt throw_when_def)
  have tz: "?tot \<noteq> 0" using tot by auto
  have shoff: "e_shoff ?h \<noteq> 0" by (simp add: prepared_header_def)
  have tab: "?tab = concat (map enc_Elf64_Shdr (map m_header (m_sections w1)))"
    by (simp add: pod_elf64_shdr.enc_table_def)
  have gen: "generateELF (Some storage) w1 = Inr (w1\<lparr>m_dataOffset := 64 + of_nat (n * 64)\<rparr>, ?b2)"
    unfolding generateELF_def hdr getTotalSize_def Let_def tab [symmetric]
    by (simp only: option.case checkELFMagic_prepared bindE_simps throw_unless_def mid w1 w2
        prod.case if_True shoff tz simp_thms HOL.if_False not_False_eq_True)
  have fit2: "64 + length ?tab \<le> length ?b1" using lt l1 tot by simp
  have l2: "length ?b2 = unat ?tot" using length_bwrite [OF fit2] l1 by simp
  have fit1: "0 + length (enc_Elf64_Ehdr ?h) \<le> length mid" using lh lmid tot by simp
  show thesis
  proof (rule that [OF gen mid])
    show "length ?b2 = length storage" "64 + 64 * n \<le> length ?b2" using l2 stl tot by simp_all
    have "bslice 0 64 ?b2 = bslice 0 64 ?b1" by (rule bslice_bwrite_before) (use l1 tot in auto)
    also have "\<dots> = enc_Elf64_Ehdr ?h" using bslice_bwrite_same [OF fit1] by (simp only: lh)
    finally show "bslice 0 64 ?b2 = enc_Elf64_Ehdr ?h" .
    show "bslice 64 (n * 64) ?b2 = ?tab" using bslice_bwrite_same [OF fit2] by (simp only: lt)
    fix a m
    assume a: "64 + 64 * n \<le> a"
    have "bslice a m ?b2 = bslice a m ?b1" by (rule bslice_bwrite_after [OF _ fit2]) (use a lt in simp)
    also have "\<dots> = bslice a m mid" by (rule bslice_bwrite_after [OF _ fit1]) (use a lh in simp)
    finally show "bslice a m ?b2 = bslice a m mid" .
  qed
qed


section \<open>Reading back\<close>

text \<open>The names table of a prepared writer occupies its place in the file.\<close>

lemma names_table:
  assumes ok: "writer_ok w" and fin: "finalised (m_sections w) n secs" and n: "n = length (m_sections w)"
    and small: "length (m_data (secs ! 1)) < 2 ^ 32"
  shows "occupies (secs ! 1)" "sec_size (secs ! 1) = length (m_data (secs ! 1))"
    and "\<And>i. i < n \<Longrightarrow> str_at (unat (sh_name (m_header (secs ! i)))) (m_data (secs ! 1)) (m_name (m_sections w ! i))"
proof -
  have shape: "3 \<le> n" "m_kind (m_sections w ! 1) = StringSection"
    using writer_okD(1) [OF ok] n by (simp_all add: sections_shape_def)
  have one: "1 < length (m_sections w)" "1 < n" using shape n by simp_all
  have sk: "string_ok (secs ! 1)" using fin one shape(2) by (simp add: finalised_def)
  have names: "str_at (unat (sh_name (m_header (secs ! i)))) (m_data (secs ! 1)) (m_name (m_sections w ! i))"
    if i: "i < n" for i
  proof -
    obtain off where off: "sh_name (m_header (secs ! i)) = of_nat off"
      "str_at off (m_data (secs ! 1)) (m_name (m_sections w ! i))"
      using fin i by (auto simp: finalised_def)
    have "off < 2 ^ 32" using str_at_in [OF off(2)] small by linarith
    then have "unat (of_nat off :: u32) = off" by (simp add: unat_of_nat take_bit_nat_eq_self)
    then show ?thesis using off by simp
  qed
  then show "\<And>i. i < n \<Longrightarrow> str_at (unat (sh_name (m_header (secs ! i)))) (m_data (secs ! 1)) (m_name (m_sections w ! i))" .
  have "length (m_data (secs ! 1)) \<noteq> 1"
  proof
    assume "length (m_data (secs ! 1)) = 1"
    then have d: "m_data (secs ! 1) = [0]" using sk by (auto simp: string_ok_def)
    from names [OF one(2)] have "m_name (m_sections w ! 1) = []"
      unfolding d str_at_def by (cases "unat (sh_name (m_header (secs ! 1)))") (auto simp: cstring_at_def)
    then show False using writer_okD(4) [OF ok] by simp
  qed
  then have h: "sh_size (m_header (secs ! 1)) = of_nat (length (m_data (secs ! 1)))"
    using sk by (simp add: string_ok_def)
  then show sz: "sec_size (secs ! 1) = length (m_data (secs ! 1))"
    using small by (simp add: sec_size_def unat_of_nat_u64)
  have "m_data (secs ! 1) \<noteq> []" "m_kind (secs ! 1) = StringSection" using sk by (auto simp: string_ok_def)
  then show "occupies (secs ! 1)"
    using sz by (auto simp: occupies_def isNotEmptySection_def sec_size_def)
qed

text \<open>
  \<open>reads_back blob rd storage s\<close>: in the file \<open>blob\<close> whose reader is \<open>rd\<close>, section \<open>s\<close> is the table's
  entry at its index, has its name, and its bytes are the data the writer holds, or, for the data
  that the user serialises into the storage, what the storage held.
\<close>

definition reads_back :: "bytes \<Rightarrow> Reader \<Rightarrow> bytes \<Rightarrow> bytes \<Rightarrow> nat \<Rightarrow> Section \<Rightarrow> bool" where
  "reads_back blob rd storage name i s \<longleftrightarrow>
     (\<exists>rs. fst (getSection i rd) = Inr rs \<and> rs_header rs = m_header s \<and> getName rd rs = Inr name) \<and>
     (occupies s \<longrightarrow>
        sec_offset s + sec_size s \<le> length blob \<and>
        (unat (sh_addralign (m_header s)) = 0 \<or> unat (sh_addralign (m_header s)) dvd sec_offset s) \<and>
        bslice (sec_offset s) (sec_size s) blob =
          (if m_data s = [] then bslice (sec_offset s) (sec_size s) storage else m_data s))"

lemma prepared_reads_back:
  assumes ok: "writer_ok w" and prep: "prepared w w1" and fits: "writer_fits w1"
    and len: "length storage = unat (getTotalSize w1)"
  defines "n \<equiv> length (m_sections w)"
  obtains w2 blob rd where "generateELF (Some storage) w1 = Inr (w2, blob)"
    and "length blob = length storage"
    and "parse_image blob = Inr rd" and "image_no_wrap blob" and "getSectionsNum rd = Inr n"
    and "\<And>i. i < n \<Longrightarrow> reads_back blob rd storage (m_name (m_sections w ! i)) i (m_sections w1 ! i)"
proof -
  let ?tot = "m_totalBinarySize w1" and ?secs1 = "m_sections w1" and ?h = "prepared_header n"
  obtain secs where fin: "finalised (m_sections w) n secs"
    and pl: "placed secs ?secs1 (64 + 64 * n) (unat ?tot)" and n16: "n < 2 ^ 16 - 1"
    using prepared_sections [OF ok prep fits] by (auto simp: n_def)
  have ln: "length secs = n" "length ?secs1 = n" using fin pl by (simp_all add: finalised_def placed_def n_def)
  have three: "3 \<le> n" using writer_okD(1) [OF ok] by (simp add: sections_shape_def n_def)
  have stl: "length storage = unat ?tot" using len by (simp add: getTotalSize_def)
  have tot: "64 + 64 * n \<le> unat ?tot" using pl by (simp add: placed_def)
  obtain w2 blob mid where gen: "generateELF (Some storage) w1 = Inr (w2, blob)"
    and mid: "foldE (serializeSection ?tot) ?secs1 storage = Inr mid"
    and lb: "length blob = length storage"
    and hb: "bslice 0 64 blob = enc_Elf64_Ehdr ?h"
    and tb: "bslice 64 (n * 64) blob = pod_elf64_shdr.enc_table (map m_header ?secs1)"
    and rest: "\<And>a m. 64 + 64 * n \<le> a \<Longrightarrow> bslice a m blob = bslice a m mid"
    using generateELF_prepared [OF ok prep fits len] unfolding n_def by metis
  have pn: "i < n \<Longrightarrow> i < length secs" for i using ln by simp
  have one: "1 < n" using three by simp
  have df: "data_fits (64 + 64 * n) (unat ?tot) s" if "s \<in> set ?secs1" for s
    using that prepared_data_fits [OF ok fits fin _ pl] ln by (auto simp: in_set_conv_nth n_def)
  have order: "sec_offset (?secs1 ! i) + sec_size (?secs1 ! i) \<le> sec_offset (?secs1 ! j)"
    if "i < j" "j < length ?secs1" "occupies (?secs1 ! i)" "occupies (?secs1 ! j)" for i j
    using that pl placed_nth(4,7) [OF pl, of i] placed_nth(7) [OF pl, of j] ln by (simp add: placed_def)
  have place: "64 + 64 * n \<le> sec_offset (?secs1 ! i) \<and>
      sec_offset (?secs1 ! i) + sec_size (?secs1 ! i) \<le> unat ?tot \<and>
      (unat (sh_addralign (m_header (?secs1 ! i))) = 0 \<or>
       unat (sh_addralign (m_header (?secs1 ! i))) dvd sec_offset (?secs1 ! i))"
    if "i < n" "occupies (?secs1 ! i)" for i
    using that pl placed_nth(4,6,7) [OF pl pn, of i] ln by (simp add: placed_def)
  have data: "bslice (sec_offset (?secs1 ! i)) (sec_size (?secs1 ! i)) blob =
      (if m_data (?secs1 ! i) = [] then bslice (sec_offset (?secs1 ! i)) (sec_size (?secs1 ! i)) storage
       else m_data (?secs1 ! i))"
    if i: "i < n" and occ: "occupies (?secs1 ! i)" for i
  proof -
    let ?s = "?secs1 ! i"
    have b: "bslice (sec_offset ?s) (sec_size ?s) blob = bslice (sec_offset ?s) (sec_size ?s) mid"
      by (rule rest) (use place [OF i occ] in simp)
    have mem: "?s \<in> set ?secs1" using i ln by simp
    show ?thesis
    proof (cases "m_data ?s = []")
      case True
      have "bslice (sec_offset ?s) (sec_size ?s) mid = bslice (sec_offset ?s) (sec_size ?s) storage \<and>
          length mid = length storage"
      proof (rule serialize_frame [OF mid df stl _ tot])
        fix s
        assume s: "s \<in> set ?secs1" and d: "m_data s \<noteq> []"
        from s obtain j where j: "j < n" "s = ?secs1 ! j" using ln by (auto simp: in_set_conv_nth)
        show "sec_offset ?s + sec_size ?s \<le> sec_offset s \<or> sec_offset s + length (m_data s) \<le> sec_offset ?s"
        proof (cases "occupies s")
          case occ2: True
          have ne: "j \<noteq> i" using True d j by auto
          have "length (m_data s) = sec_size s \<or> sec_offset s = 0"
            using df [OF s] d by (auto simp: data_fits_def)
          then show ?thesis
            using order [of i j] order [of j i] ne occ occ2 i j ln place [OF j(1)]
            by (cases i j rule: linorder_cases) auto
        next
          case False
          then show ?thesis using df [OF s] d place [OF i occ] by (auto simp: data_fits_def)
        qed
      qed simp_all
      then show ?thesis using b True by simp
    next
      case False
      have "length (m_data ?s) = sec_size ?s"
        using df [OF mem] False place [OF i occ] by (auto simp: data_fits_def)
      then have "bslice (sec_offset ?s) (sec_size ?s) mid = m_data ?s"
        using serialize_data [OF mid df stl _ tot order _ False occ] i ln place [OF i occ] by simp
      then show ?thesis using b False by simp
    qed
  qed
  have small: "length (m_data (secs ! 1)) < 2 ^ 32"
    using fits placed_nth(1) [OF pl pn [OF one]] by (simp add: writer_fits_def)
  note nt = names_table [OF ok fin n_def [THEN meta_eq_to_obj_eq] small]
  let ?sec = "m_header (?secs1 ! 1)" and ?names = "m_data (?secs1 ! 1)"
  have occ1: "occupies (?secs1 ! 1)" and sz1: "sec_size (?secs1 ! 1) = length ?names"
    using nt(1,2) placed_nth(1,4,7) [OF pl pn [OF one]] by simp_all
  have ne1: "?names \<noteq> []" using occ1 sz1 by (auto simp: occupies_def sec_size_def unat_eq_zero)
  have nb: "bslice (unat (sh_offset ?sec)) (unat (sh_size ?sec)) blob = ?names"
    using data [OF one occ1] ne1 by (simp add: sec_offset_def sec_size_def)
  have wfh: "wf_Elf64_Ehdr ?h" by (simp add: wf_Elf64_Ehdr_def prepared_header_def generateELFHeader_def)
  have un: "unat (of_nat n :: u16) = n" using n16 by (simp add: unat_of_nat take_bit_nat_eq_self)
  have hf: "unat (e_shoff ?h) = 64" "unat (e_shnum ?h) = n" "unat (e_shstrndx ?h) = 1"
    using un by (simp_all add: prepared_header_def)
  have nz: "e_shnum ?h \<noteq> 0" using hf(2) three by auto
  have hok: "header_ok ?h"
    using hf nz one by (simp add: header_ok_def) (simp add: prepared_header_def generateELFHeader_def)
  let ?rd = "\<lparr>mElfHeader = ?h, mSectionHeaders = map m_header ?secs1, mSectionNames = ?names,
    mSectionsCache = \<lambda>_. None\<rparr>"
  have built: "parse_image blob = Inr ?rd"
    "dec_Elf64_Ehdr (bslice 0 64 blob) = ?h"
    "pod_elf64_shdr.dec_table (unat (e_shnum ?h))
      (bslice (unat (e_shoff ?h)) (unat (e_shnum ?h) * 64) blob) = map m_header ?secs1"
  proof -
    have t: "bslice (unat (e_shoff ?h)) (length (map m_header ?secs1) * 64) blob =
        pod_elf64_shdr.enc_table (map m_header ?secs1)"
      "length (map m_header ?secs1) = unat (e_shnum ?h)"
      "unat (e_shoff ?h) + length (map m_header ?secs1) * 64 \<le> length blob"
      "e_shstrndx ?h \<noteq> 0" "?sec = map m_header ?secs1 ! unat (e_shstrndx ?h)" "sh_size ?sec \<noteq> 0"
      "unat (sh_offset ?sec) + unat (sh_size ?sec) \<le> length blob"
      using tb hf ln tot lb stl one occ1 place [OF one occ1]
      by (auto simp: sec_offset_def sec_size_def occupies_def)
    note pb = parse_image_built [OF hb wfh hok t]
    show "parse_image blob = Inr ?rd" using pb(1) nb by simp
    show "dec_Elf64_Ehdr (bslice 0 64 blob) = ?h" by (rule pb(2))
    show "pod_elf64_shdr.dec_table (unat (e_shnum ?h))
      (bslice (unat (e_shoff ?h)) (unat (e_shnum ?h) * 64) blob) = map m_header ?secs1" by (rule pb(3))
  qed
  have nw: "image_no_wrap blob"
  proof -
    have "unat ?tot < 2 ^ 64" using unsigned_less [of ?tot] by simp
    then show ?thesis
      unfolding image_no_wrap_def Let_def built(2,3) using hf one ln place [OF one occ1] n16
      by (simp add: sec_offset_def sec_size_def)
  qed
  have num: "getSectionsNum ?rd = Inr n"
    using hf(2) n16 by (simp add: getSectionsNum_def word_less_nat_alt)
  show thesis
  proof (rule that [OF gen lb built(1) nw num])
    fix i
    assume i: "i < n"
    have nm: "str_at (unat (sh_name (m_header (?secs1 ! i)))) ?names (m_name (m_sections w ! i))"
      using nt(3) [OF i] placed_nth(5) [OF pl pn [OF i]] placed_nth(1) [OF pl pn [OF one]] by simp
    have "\<not> length ?names \<le> unat (sh_name (m_header (?secs1 ! i)))" using str_at_in [OF nm] by simp
    then have "\<exists>rs. fst (getSection i ?rd) = Inr rs \<and> rs_header rs = m_header (?secs1 ! i) \<and>
        getName ?rd rs = Inr (m_name (m_sections w ! i))"
      using i hf(2) nm ln by (simp add: getSection_def getName_def Let_def str_at_def)
    then show "reads_back blob ?rd storage (m_name (m_sections w ! i)) i (?secs1 ! i)"
      using data [OF i] place [OF i] lb stl by (simp add: reads_back_def)
  qed
qed


text \<open>
  C1. What the writer writes, the reader reads. Whenever preparing a well-formed writer has
  succeeded and its sizes fit, writing it into storage of the announced size succeeds; the result
  parses, none of the reader's sums wraps, and the reader finds as many sections as were added, each
  with the header and the name it was given; the bytes of every section that has a size lie inside
  the file at an aligned offset and are the writer's data, or untouched storage for the sections
  whose data the user serialises in place.
\<close>

theorem written_files_read_back:
  assumes "writer_ok w" and "prepareWriter w = Inr w1" and "writer_fits w1"
    and "length (m_sections w) < 2 ^ 16" and "length storage = unat (getTotalSize w1)"
  shows "\<exists>w2 blob rd. generateELF (Some storage) w1 = Inr (w2, blob) \<and>
    length blob = length storage \<and> parse_image blob = Inr rd \<and> image_no_wrap blob \<and>
    getSectionsNum rd = Inr (length (m_sections w)) \<and>
    (\<forall>i < length (m_sections w).
       reads_back blob rd storage (m_name (m_sections w ! i)) i (m_sections w1 ! i))"
proof -
  obtain w1' where "prepareWriter w = Inr w1'" "prepared w w1'"
    by (rule prepareWriter_ok [OF assms(1,4)])
  then have prep: "prepared w w1" using assms(2) by simp
  show ?thesis by (rule prepared_reads_back [OF assms(1) prep assms(3,5)]) blast
qed

text \<open>A file with one text section of three bytes, named after its type.\<close>

definition example_writer :: Writer where
  "example_writer = (let w = addBinaryDataSection 1 [116] SHT_PROGBITS (Writer_new (generateELFHeader []))
     in w\<lparr>m_sections := on_section 3 (setSize 3 \<circ> setAddrAlign 64) (m_sections w)\<rparr>)"


definition example_names :: bytes where
  "example_names = [0, 46, 115, 116, 114, 116, 97, 98, 0, 46, 115, 121, 109, 115, 116, 114, 116, 97, 98,
     0, 116, 0]"

definition example_sections :: "Section list \<Rightarrow> bool" where
  "example_sections secs \<longleftrightarrow> map m_data secs = [[], example_names, [0], []] \<and>
     map (sh_size \<circ> m_header) secs = [0, 22, 0, 3] \<and>
     map (sh_addralign \<circ> m_header) secs = [4, 4, 4, 64] \<and>
     map (sh_offset \<circ> m_header) secs = [0, 320, 0, 384] \<and> map occupies secs = [False, True, False, True]"

lemma example_prepares:
  "case prepareWriter example_writer of
     Inr w1 \<Rightarrow> m_totalBinarySize w1 = 387 \<and> example_sections (m_sections w1) | Inl e \<Rightarrow> False"
  by code_simp

lemma example_writer_ok: "writer_ok example_writer"
proof -
  let ?w = "addBinaryDataSection 1 [116] SHT_PROGBITS (Writer_new (generateELFHeader []))"
  let ?s = "m_sections ?w ! 3" and ?f = "setSize 3 \<circ> setAddrAlign 64"
  have b: "writer_building ?w" by (rule writer_building_add(6) [OF writer_building_new]) simp
  have l: "length (m_sections ?w) = 4"
    by (simp add: addBinaryDataSection_def Writer_new_def push_section_def)
  have k: "\<And>i. i < 4 \<Longrightarrow> section_ok 4 (m_sections ?w ! i)"
    by (auto simp: addBinaryDataSection_def Writer_new_def push_section_def section_ok_def nth_append
        Section_new_def StringSection_new_def BinaryDataSection_new_def on_header_def setIndex_def
        string_ok_def nth_Cons')
  have ks: "section_ok 4 (?f ?s)" "m_index (?f ?s) = m_index ?s"
    using k [of 3] by (auto simp: section_ok_def setSize_def setAddrAlign_def on_header_def
        addBinaryDataSection_def Writer_new_def push_section_def BinaryDataSection_new_def
        Section_new_def setIndex_def)
  have secs: "m_sections example_writer = (m_sections ?w)[3 := ?f ?s]"
    by (simp add: example_writer_def on_section_def Let_def)
  have ok: "section_ok 4 s" if "s \<in> set (m_sections example_writer)" for s
    using that ks(1) k l by (auto simp: secs in_set_conv_nth nth_list_update)
  have "sections_shape (m_sections example_writer)"
    using b ks(2) l by (auto simp: secs sections_shape_def writer_building_def nth_list_update)
  then show ?thesis
    using b ok l
    by (simp add: writer_ok_def writer_building_def section_building_def secs)
      (simp add: example_writer_def Let_def)
qed

theorem written_files_read_back_witness:
  "\<exists>w1 w2 blob rd rs. prepareWriter example_writer = Inr w1 \<and>
     generateELF (Some (replicate 387 7)) w1 = Inr (w2, blob) \<and> length blob = 387 \<and>
     parse_image blob = Inr rd \<and> getSectionsNum rd = Inr 4 \<and> fst (getSection 3 rd) = Inr rs \<and>
     getName rd rs = Inr [116] \<and> unat (sh_offset (rs_header rs)) = 384 \<and> bslice 384 3 blob = [7, 7, 7]"
proof -
  obtain w1 where w1: "prepareWriter example_writer = Inr w1" and tot: "m_totalBinarySize w1 = 387"
    and secs: "example_sections (m_sections w1)"
    using example_prepares by (auto split: sum.splits)
  obtain s0 s1 s2 s3 where l: "m_sections w1 = [s0, s1, s2, s3]"
    using secs by (auto simp: example_sections_def map_eq_Cons_conv)
  have fits: "writer_fits w1"
    using secs by (simp add: writer_fits_def l example_sections_def layout_room_def example_names_def)
  have n: "length (m_sections example_writer) = 4" "m_name (m_sections example_writer ! 3) = [116]"
    by (simp_all add: example_writer_def addBinaryDataSection_def Writer_new_def push_section_def
        Let_def on_section_def setSize_def setAddrAlign_def on_header_def BinaryDataSection_new_def
        Section_new_def setIndex_def)
  obtain w2 blob rd where g: "generateELF (Some (replicate 387 7)) w1 = Inr (w2, blob)"
    "length blob = 387" "parse_image blob = Inr rd" "getSectionsNum rd = Inr 4"
    "\<And>i. i < 4 \<Longrightarrow> reads_back blob rd (replicate 387 7) (m_name (m_sections example_writer ! i)) i (m_sections w1 ! i)"
    using written_files_read_back [OF example_writer_ok w1 fits, of "replicate 387 7"]
    by (auto simp: n getTotalSize_def tot)
  have "occupies s3" "sec_offset s3 = 384" "sec_size s3 = 3" "m_data s3 = []"
    using secs by (simp_all add: l example_sections_def sec_offset_def sec_size_def)
  moreover have r3: "replicate 3 (7 :: u8) = [7, 7, 7]" by (simp add: numeral_3_eq_3)
  moreover from calculation obtain rs where "fst (getSection 3 rd) = Inr rs" "rs_header rs = m_header s3"
    "getName rd rs = Inr [116]" "bslice 384 3 blob = [7, 7, 7]"
    using g(5) [of 3] by (auto simp: reads_back_def l n bslice_def r3)
  ultimately show ?thesis using w1 g(1,2,3,4) by (auto simp: sec_offset_def)
qed


section \<open>The tables inside the file\<close>

text \<open>
  \<open>prepared\<close> also fixes the contents: what \<open>finalize\<close> emitted is what the layout carries.
\<close>

lemma prepared_emitted:
  assumes ok: "writer_ok w" and prep: "prepared w w1" and fits: "writer_fits w1"
    and i: "i < length (m_sections w)"
  obtains secs where "emitted secs (m_sections w ! i) (secs ! i)"
    and "\<And>j. j < length (m_sections w) \<Longrightarrow> m_data (m_sections w1 ! j) = m_data (secs ! j)"
    and "\<And>j. j < length (m_sections w) \<Longrightarrow> m_index (secs ! j) = j"
    and "sec_size (m_sections w1 ! i) = sec_size (secs ! i)"
    and "\<not> occupies (m_sections w1 ! i) \<longleftrightarrow> \<not> occupies (secs ! i)"
    and "m_kind (secs ! i) = EmptySection \<longleftrightarrow> m_kind (m_sections w ! i) = EmptySection"
    and "length (m_data (secs ! i)) < 2 ^ 64"
proof -
  let ?n = "length (m_sections w)"
  obtain secs where fin: "finalised (m_sections w) ?n secs"
    and pl: "placed secs (m_sections w1) (64 + 64 * ?n) (unat (m_totalBinarySize w1))"
    using prepared_sections [OF ok prep fits] by auto
  have l: "length secs = ?n" "length (m_sections w1) = ?n" using fin pl by (simp_all add: finalised_def placed_def)
  have d: "m_data (m_sections w1 ! j) = m_data (secs ! j)" if "j < ?n" for j
    using placed_nth(1) [OF pl] that l by simp
  have "m_sections w1 ! i \<in> set (m_sections w1)" using i l by simp
  then have "length (m_data (secs ! i)) < 2 ^ 64" using fits d [OF i] by (metis writer_fits_def)
  moreover have "m_index (secs ! j) = j" if "j < ?n" for j
    using fin that writer_okD(1) [OF ok] by (simp add: finalised_def same_identity_def sections_shape_def)
  ultimately show thesis
    using that [of secs] fin i d l placed_nth(4,7) [OF pl, of i]
    by (simp add: finalised_def same_identity_def)
qed

text \<open>
  \<open>symbol_at names y e\<close>: the table entry \<open>e\<close> is the symbol \<open>y\<close>, its name is in the names table, and its
  section is the one it was related to.
\<close>

definition symbol_at :: "bytes \<Rightarrow> Symbol \<Rightarrow> Elf64_Sym \<Rightarrow> bool" where
  "symbol_at names y e \<longleftrightarrow>
     (\<exists>off. st_name e = of_nat off \<and> str_at off names (s_name y)) \<and>
     st_info e = st_info (s_symbol y) \<and> st_other e = st_other (s_symbol y) \<and>
     st_value e = st_value (s_symbol y) \<and> st_size e = st_size (s_symbol y) \<and>
     st_shndx e = (case s_relatedSection y of Some r \<Rightarrow> of_nat r | None \<Rightarrow> 0)"

text \<open>
  C11. Symbol tables decode to their symbols. In a written file the data of a symbol section is a table
  of 24-byte entries, one for each symbol, local symbols first and in the order they were added within
  a binding; every entry has the symbol's value, size and info, refers to the section the symbol is
  related to, and its name is found in \<^verbatim>\<open>.symstrtab\<close>.
\<close>

theorem symbol_tables_decode:
  assumes "writer_ok w" and "prepareWriter w = Inr w1" and "writer_fits w1"
    and "length (m_sections w) < 2 ^ 16" and "length storage = unat (getTotalSize w1)"
    and "i < length (m_sections w)" and "m_kind (m_sections w ! i) = SymbolSection names symbols info"
    and "symbols \<noteq> []"
  shows "\<exists>w2 blob. generateELF (Some storage) w1 = Inr (w2, blob) \<and>
    (let ss = sort_key symbol_getBinding symbols; s = m_sections w1 ! i;
         entries = pod_elf64_sym.dec_table (sec_size s div 24) (bslice (sec_offset s) (sec_size s) blob)
     in length entries = length symbols \<and> mset ss = mset symbols \<and>
        (\<forall>j < length symbols. symbol_at (m_data (m_sections w1 ! 2)) (ss ! j) (entries ! j)))"
proof -
  obtain w1' where "prepareWriter w = Inr w1'" "prepared w w1'"
    by (rule prepareWriter_ok [OF assms(1,4)])
  then have prep: "prepared w w1" using assms(2) by simp
  let ?ss = "sort_key symbol_getBinding symbols" and ?s = "m_sections w1 ! i" and ?n = "length (m_sections w)"
  obtain w2 blob rd where gen: "generateELF (Some storage) w1 = Inr (w2, blob)"
    and rb: "\<And>j. j < ?n \<Longrightarrow> reads_back blob rd storage (m_name (m_sections w ! j)) j (m_sections w1 ! j)"
    by (rule prepared_reads_back [OF assms(1) prep assms(3,5)]) blast
  obtain secs where em: "emitted secs (m_sections w ! i) (secs ! i)"
    and d: "\<And>j. j < ?n \<Longrightarrow> m_data (m_sections w1 ! j) = m_data (secs ! j)"
    and ix: "\<And>j. j < ?n \<Longrightarrow> m_index (secs ! j) = j" and sz: "sec_size ?s = sec_size (secs ! i)"
    and occ: "\<not> occupies ?s \<longleftrightarrow> \<not> occupies (secs ! i)"
    and k: "m_kind (secs ! i) = EmptySection \<longleftrightarrow> m_kind (m_sections w ! i) = EmptySection"
    and small: "length (m_data (secs ! i)) < 2 ^ 64"
    by (rule prepared_emitted [OF assms(1) prep assms(3,6)]) (rule that)
  obtain offs where offs: "length offs = length ?ss"
    "m_data (secs ! i) = concat (map enc_Elf64_Sym (symbol_entries secs offs ?ss))"
    "\<forall>j < length ?ss. str_at (offs ! j) (m_data (secs ! 2)) (s_name (?ss ! j))"
    and size: "sh_size (m_header (secs ! i)) = of_nat (length (m_data (secs ! i)))"
    using em by (auto simp: emitted_def assms(7) Let_def)
  let ?es = "symbol_entries secs offs ?ss"
  have tab: "m_data (secs ! i) = pod_elf64_sym.enc_table ?es"
    using offs(2) by (simp add: pod_elf64_sym.enc_table_def)
  have le: "length ?es = length symbols" using offs(1) by (simp add: symbol_entries_def)
  then have ld: "length (m_data (secs ! i)) = length symbols * 24"
    by (simp add: tab pod_elf64_sym.length_enc_table)
  then have ne: "m_data (secs ! i) \<noteq> []" using assms(8) by auto
  have "sec_size (secs ! i) = length (m_data (secs ! i))"
    using size small by (simp add: sec_size_def unat_of_nat_u64)
  then have ss: "sec_size ?s = length symbols * 24" using sz ld by simp
  then have "occupies ?s"
    using occ k sz assms(8) by (auto simp: occupies_def isNotEmptySection_def sec_size_def assms(7))
  then have "bslice (sec_offset ?s) (sec_size ?s) blob = m_data (secs ! i)"
    using rb [OF assms(6)] ne d [OF assms(6)] by (simp add: reads_back_def)
  then have dec: "pod_elf64_sym.dec_table (sec_size ?s div 24)
      (bslice (sec_offset ?s) (sec_size ?s) blob) = ?es"
    using pod_elf64_sym.dec_table_enc_table_n [OF le] ss by (simp add: tab)
  have "symbol_at (m_data (m_sections w1 ! 2)) (?ss ! j) (?es ! j)" if j: "j < length symbols" for j
  proof -
    have e: "?es ! j = symbolEntryOf secs (offs ! j) (?ss ! j)"
      using j offs(1) by (simp add: symbol_entries_def)
    have "symbol_ok ?n (?ss ! j)"
      using writer_okD(5) [OF assms(1,6)] j nth_mem [of j ?ss]
      by (auto simp: section_ok_def assms(7))
    then show ?thesis
      using offs(3) j ix d [of 2] writer_okD(1) [OF assms(1)]
      by (auto simp: e symbol_at_def symbolEntryOf_def symbol_ok_def sections_shape_def split: option.split)
  qed
  then have "let ss = ?ss; s = ?s;
       entries = pod_elf64_sym.dec_table (sec_size s div 24) (bslice (sec_offset s) (sec_size s) blob)
     in length entries = length symbols \<and> mset ss = mset symbols \<and>
        (\<forall>j < length symbols. symbol_at (m_data (m_sections w1 ! 2)) (ss ! j) (entries ! j))"
    using le unfolding Let_def dec by simp
  then show ?thesis using gen by blast
qed


definition example_symbols :: Writer where
  "example_symbols = (let w = addSymbolSection [115] (Writer_new (generateELFHeader []))
     in w\<lparr>m_sections := on_section 3 (addSymbolEntry [97]) (m_sections w)\<rparr>)"

definition example_symbol_sections :: "Section list \<Rightarrow> bool" where
  "example_symbol_sections secs \<longleftrightarrow> map (length \<circ> m_data) secs = [0, 22, 3, 48] \<and>
     map (sh_size \<circ> m_header) secs = [0, 22, 3, 48] \<and>
     map (sh_addralign \<circ> m_header) secs = [4, 4, 4, 4] \<and>
     map (sh_offset \<circ> m_header) secs = [0, 320, 344, 348] \<and>
     m_data (secs ! 2) = [0, 97, 0]"

lemma example_symbols_prepare:
  "case prepareWriter example_symbols of
     Inr w1 \<Rightarrow> m_totalBinarySize w1 = 396 \<and> example_symbol_sections (m_sections w1) | Inl e \<Rightarrow> False"
  by code_simp


lemma example_symbols_ok: "writer_ok example_symbols"
proof -
  let ?w = "addSymbolSection [115] (Writer_new (generateELFHeader []))"
  let ?s = "m_sections ?w ! 3" and ?f = "addSymbolEntry [97]"
  have b: "writer_building ?w" by (rule writer_building_add(3) [OF writer_building_new]) simp
  have l: "length (m_sections ?w) = 4"
    by (simp add: addSymbolSection_def Writer_new_def push_section_def)
  have k: "\<And>i. i < 4 \<Longrightarrow> section_ok 4 (m_sections ?w ! i)"
    by (auto simp: addSymbolSection_def Writer_new_def push_section_def section_ok_def nth_append
        Section_new_def StringSection_new_def SymbolSection_new_def on_header_def setIndex_def
        string_ok_def nth_Cons' symbol_ok_def push_symbol_def Symbol_new_def)
  have ks: "section_ok 4 (?f ?s)" "m_index (?f ?s) = m_index ?s"
    using k [of 3] by (auto simp: section_ok_def addSymbolEntry_def on_header_def symbol_ok_def
        addSymbolSection_def Writer_new_def push_section_def SymbolSection_new_def push_symbol_def
        Section_new_def setIndex_def Symbol_new_def)
  have secs: "m_sections example_symbols = (m_sections ?w)[3 := ?f ?s]"
    by (simp add: example_symbols_def on_section_def Let_def)
  have ok: "section_ok 4 s" if "s \<in> set (m_sections example_symbols)" for s
    using that ks(1) k l by (auto simp: secs in_set_conv_nth nth_list_update)
  have "sections_shape (m_sections example_symbols)"
    using b ks(2) l by (auto simp: secs sections_shape_def writer_building_def nth_list_update)
  then show ?thesis
    using b ok l
    by (simp add: writer_ok_def writer_building_def section_building_def secs)
      (simp add: example_symbols_def Let_def)
qed

theorem symbol_tables_decode_witness:
  "\<exists>w1 w2 blob e. prepareWriter example_symbols = Inr w1 \<and>
     generateELF (Some (replicate 396 0)) w1 = Inr (w2, blob) \<and>
     pod_elf64_sym.dec_table 2 (bslice 348 48 blob) ! 1 = e \<and>
     (\<exists>off. st_name e = of_nat off \<and> str_at off [0, 97, 0] [97])"
proof -
  obtain w1 where w1: "prepareWriter example_symbols = Inr w1" and tot: "m_totalBinarySize w1 = 396"
    and secs: "example_symbol_sections (m_sections w1)"
    using example_symbols_prepare by (auto split: sum.splits)
  obtain s0 s1 s2 s3 where l: "m_sections w1 = [s0, s1, s2, s3]"
    using secs by (auto simp: example_symbol_sections_def map_eq_Cons_conv)
  have fits: "writer_fits w1"
    using secs by (simp add: writer_fits_def l example_symbol_sections_def layout_room_def)
  let ?n0 = "Symbol_new []" and ?n1 = "(Symbol_new [97])\<lparr>s_index := 1\<rparr>"
  have n: "length (m_sections example_symbols) = 4"
    "m_kind (m_sections example_symbols ! 3) = SymbolSection 2 [?n0, ?n1] 0"
    by (simp_all add: example_symbols_def addSymbolSection_def Writer_new_def push_section_def
        Let_def on_section_def addSymbolEntry_def on_header_def SymbolSection_new_def
        Section_new_def setIndex_def push_symbol_def Symbol_new_def)
  have srt: "sort_key symbol_getBinding [?n0, ?n1] = [?n0, ?n1]" "s_name ?n1 = [97]"
    by (simp_all add: symbol_getBinding_def Symbol_new_def)
  have s: "sec_size (m_sections w1 ! 3) = 48" "sec_offset (m_sections w1 ! 3) = 348"
    "m_data (m_sections w1 ! 2) = [0, 97, 0]"
    using secs by (simp_all add: l example_symbol_sections_def sec_size_def sec_offset_def)
  have fit: "length (m_sections example_symbols) < 2 ^ 16" "3 < length (m_sections example_symbols)"
    "length (replicate 396 (0 :: u8)) = unat (getTotalSize w1)" "[?n0, ?n1] \<noteq> []"
    by (simp_all add: n(1) getTotalSize_def tot)
  obtain w2 blob where g: "generateELF (Some (replicate 396 0)) w1 = Inr (w2, blob)"
    "\<forall>j < length [?n0, ?n1]. symbol_at [0, 97, 0] ([?n0, ?n1] ! j) (pod_elf64_sym.dec_table (48 div 24) (bslice 348 48 blob) ! j)"
    using symbol_tables_decode [OF example_symbols_ok w1 fits fit(1,3,2) n(2) fit(4)]
    unfolding Let_def s srt(1) by auto
  have "symbol_at [0, 97, 0] ?n1 (pod_elf64_sym.dec_table 2 (bslice 348 48 blob) ! 1)"
    using g(2) [rule_format, of 1] by (simp del: pod_elf64_sym.nth_dec_table)
  then have "\<exists>off. st_name (pod_elf64_sym.dec_table 2 (bslice 348 48 blob) ! 1) = of_nat off \<and>
      str_at off [0, 97, 0] [97]"
    unfolding symbol_at_def srt(2) by (rule conjunct1)
  then show ?thesis using w1 g(1) by blast
qed


section \<open>When preparing and generating fail\<close>



text \<open>
  Generating needs preparing: a writer that has only been built never produces a binary, whatever
  storage it is given; the announced size of zero is caught at the latest.
\<close>

lemma generating_needs_preparing:
  assumes "writer_building w"
  shows "\<exists>e. generateELF data w = Inl e"
proof -
  have "m_totalBinarySize w = 0" using assms by (simp add: writer_building_def)
  then show ?thesis
    by (auto simp: generateELF_def checkELFMagic_def throw_unless_def throw_when_def
        split: option.split)
qed

text \<open>
  A symbol section with a global symbol \<^verbatim>\<open>g\<close> and then a local symbol \<^verbatim>\<open>l\<close>, and a relocation to \<^verbatim>\<open>l\<close>.
\<close>

definition stale_symbols :: Section where
  "stale_symbols = (let s = addSymbolEntry [108] (addSymbolEntry [103] (SymbolSection_new [115] 2))
     in case m_kind s of
          SymbolSection names symbols info \<Rightarrow> s\<lparr>m_kind := SymbolSection names
            (symbols[1 := symbol_setBinding (ucast STB_GLOBAL) (symbols ! 1)]) info\<rparr>
        | _ \<Rightarrow> s)"

definition symbol_index_named :: "bytes \<Rightarrow> Section \<Rightarrow> nat option" where
  "symbol_index_named name s =
     (case m_kind s of
        SymbolSection names symbols info \<Rightarrow> map_option s_index (find (\<lambda>y. s_name y = name) symbols)
      | _ \<Rightarrow> None)"

definition stale_writer :: Writer where
  "stale_writer =
     (let relocation = relocation_setSymbol (map_option (Pair 3) (symbol_index_named [108] stale_symbols))
            Relocation_new
      in push_section (addRelocationEntry relocation (setSectionToPatch (Some 0)
           (setSymbolTable (Some 3) (RelocationSection_new [114]))))
         (push_section stale_symbols (Writer_new (generateELFHeader []))))"

text \<open>The name of the symbol that the first relocation of section \<open>r\<close> refers to in the prepared file.\<close>

definition relocated_name :: "nat \<Rightarrow> nat \<Rightarrow> Writer \<Rightarrow> bytes" where
  "relocated_name r t w =
     (let rel = dec_Elf64_Rela (bslice 0 24 (m_data (m_sections w ! r)));
          entry = dec_Elf64_Sym (bslice (unat (elf64RSym (r_info rel)) * 24) 24 (m_data (m_sections w ! t)))
      in cstring_at (unat (st_name entry)) (m_data (m_sections w ! 2)))"


end
