(* ===== verification/Elf_Relocs.thy ===== *)
theory Elf_Relocs imports Elf_Utils begin

text \<open>
  The relocation functions of \<^verbatim>\<open>loader/src/vpux_loader.cpp\<close> and the table that maps a relocation
  type to its function. A function of the source takes the address of the cell to patch, casts it
  to a 16, 32 or 64 bit pointer, and updates the cell from the symbol and the addend; here it takes
  the cell's value and returns the new one. \<open>applyReloc\<close> is the part the functions share: reading
  and writing the cell at an offset of the target buffer. The addend is held as 64 bits, so that
  \<open>symVal + addend\<close> is the unsigned sum of the source. Logging is left out.
\<close>

section \<open>Masks and the multicast table\<close>

definition LO_21_BIT_MASK :: u32 where [elf_consts]: "LO_21_BIT_MASK = 0x001FFFFF"
definition B21_B26_MASK :: u32 where [elf_consts]: "B21_B26_MASK = 0x07E00000"
definition ADDRESS_MASK :: u32 where [elf_consts]: "ADDRESS_MASK = NOT 0x00C00000"
definition SLICE_LENGTH :: u64 where [elf_consts]: "SLICE_LENGTH = 2 * 1024 * 1024"

definition multicast_masks :: "u16 list" where
  "multicast_masks =
     [0x0000, 0x0001, 0x0002, 0x0003, 0x0012, 0x0011, 0x0010, 0x0030,
      0x0211, 0x0210, 0x0310, 0x0320, 0x3210, 0x3210, 0x3210, 0x3210]"

text \<open>The three offsets are reference parameters: they are multiplied in place and returned.\<close>

definition to_dpu_multicast :: "u32 \<Rightarrow> u32 \<Rightarrow> u32 \<Rightarrow> u32 \<Rightarrow> (u32 \<times> u32 \<times> u32 \<times> u32) res" where
  "to_dpu_multicast addr offset1 offset2 offset3 =
     (let bare_ptr = addr AND ADDRESS_MASK;
          broadcast_mask = drop_bit 20 (addr AND NOT ADDRESS_MASK)
      in throw_unless (broadcast_mask < 16) RangeError
        (let multicast_mask = multicast_masks ! unat broadcast_mask
         in throw_unless (multicast_mask \<noteq> 0xffff) RangeError
           (let m = ucast multicast_mask :: u32;
                base_mask = push_bit 20 (m AND 0xf)
            in Inr (bare_ptr OR base_mask,
                    offset1 * (drop_bit 4 m AND 0xf),
                    offset2 * (drop_bit 8 m AND 0xf),
                    offset3 * (drop_bit 12 m AND 0xf)))))"

definition to_dpu_multicast_base :: "u32 \<Rightarrow> u32 res" where
  "to_dpu_multicast_base addr =
     bindE (to_dpu_multicast addr 0 0 0) (\<lambda>(base, _, _, _). Inr base)"

section \<open>Relocation functions\<close>

definition VPU_16_BIT_SUM_Relocation :: "u16 \<Rightarrow> Elf64_Sym \<Rightarrow> u64 \<Rightarrow> u16 res" where
  "VPU_16_BIT_SUM_Relocation addr targetSym addend =
     Inr (addr + ucast (st_value targetSym + addend))"

definition VPU_64_BIT_MULT_Relocation :: "u64 \<Rightarrow> Elf64_Sym \<Rightarrow> u64 \<Rightarrow> u64 res" where
  "VPU_64_BIT_MULT_Relocation addr targetSym addend = Inr (addr * st_value targetSym)"

text \<open>The subtraction is on \<^verbatim>\<open>int64_t\<close>, where an overflow is undefined.\<close>

definition VPU_64_BIT_MULT_SUB_Relocation :: "u64 \<Rightarrow> Elf64_Sym \<Rightarrow> u64 \<Rightarrow> u64 res" where
  "VPU_64_BIT_MULT_SUB_Relocation addr targetSym addend =
     (let d = sint addend - sint (st_value targetSym)
      in if d < - (2 ^ 63) \<or> 2 ^ 63 \<le> d then Inl UndefinedBehaviour
         else Inr (addr * word_of_int d))"

definition VPU_64_BIT_Relocation :: "u64 \<Rightarrow> Elf64_Sym \<Rightarrow> u64 \<Rightarrow> u64 res" where
  "VPU_64_BIT_Relocation addr targetSym addend = Inr (st_value targetSym + addend)"

definition VPU_64_BIT_OR_Relocation :: "u64 \<Rightarrow> Elf64_Sym \<Rightarrow> u64 \<Rightarrow> u64 res" where
  "VPU_64_BIT_OR_Relocation addr targetSym addend =
     Inr (addr OR (st_value targetSym + addend))"

text \<open>A shift by 64 or more is undefined.\<close>

definition VPU_64_BIT_LSHIFT_Relocation :: "u64 \<Rightarrow> Elf64_Sym \<Rightarrow> u64 \<Rightarrow> u64 res" where
  "VPU_64_BIT_LSHIFT_Relocation addr targetSym addend =
     (if unat (st_value targetSym) < 64
      then Inr (push_bit (unat (st_value targetSym)) addr)
      else Inl UndefinedBehaviour)"

definition VPU_DISP40_RTM_RELOCATION :: "u64 \<Rightarrow> Elf64_Sym \<Rightarrow> u64 \<Rightarrow> u64 res" where
  "VPU_DISP40_RTM_RELOCATION addr targetSym addend =
     (let m = 0xffffffffff;
          maskedAddr = addr AND m
      in Inr (addr OR
           ((st_value targetSym + addend * (maskedAddr AND (st_size targetSym - 1))) AND m)))"

definition VPU_32_BIT_Relocation :: "u32 \<Rightarrow> Elf64_Sym \<Rightarrow> u64 \<Rightarrow> u32 res" where
  "VPU_32_BIT_Relocation addr targetSym addend = Inr (ucast (st_value targetSym + addend))"

definition VPU_32_BIT_RTM_Relocation :: "u32 \<Rightarrow> Elf64_Sym \<Rightarrow> u64 \<Rightarrow> u32 res" where
  "VPU_32_BIT_RTM_Relocation addr targetSym addend =
     Inr (ucast (st_value targetSym + addend * (ucast addr AND (st_size targetSym - 1))))"

definition VPU_32_BIT_SUM_Relocation :: "u32 \<Rightarrow> Elf64_Sym \<Rightarrow> u64 \<Rightarrow> u32 res" where
  "VPU_32_BIT_SUM_Relocation addr targetSym addend =
     Inr (addr + ucast (st_value targetSym + addend))"

definition VPU_32_MULTICAST_BASE_Relocation :: "u32 \<Rightarrow> Elf64_Sym \<Rightarrow> u64 \<Rightarrow> u32 res" where
  "VPU_32_MULTICAST_BASE_Relocation addr targetSym addend =
     to_dpu_multicast_base (ucast (st_value targetSym + addend))"

definition VPU_32_MULTICAST_BASE_SUB_Relocation :: "u32 \<Rightarrow> Elf64_Sym \<Rightarrow> u64 \<Rightarrow> u32 res" where
  "VPU_32_MULTICAST_BASE_SUB_Relocation addr targetSym addend =
     bindE (to_dpu_multicast_base (ucast (st_value targetSym + addend))) (\<lambda>base. Inr (base - addr))"

text \<open>An index of three or more reads past the array \<^verbatim>\<open>offs\<close>.\<close>

definition VPU_DISP28_MULTICAST_OFFSET_Relocation :: "u32 \<Rightarrow> Elf64_Sym \<Rightarrow> u64 \<Rightarrow> u32 res" where
  "VPU_DISP28_MULTICAST_OFFSET_Relocation addr targetSym addend =
     (let off = ucast (drop_bit 4 SLICE_LENGTH)
      in bindE (to_dpu_multicast (ucast (st_value targetSym + addend)) off off off)
        (\<lambda>(_, o1, o2, o3).
           let index = unat (drop_bit 4 addr)
           in if 3 \<le> index then Inl UndefinedBehaviour
              else Inr ((addr AND 0xf) OR push_bit 4 ([o1, o2, o3] ! index))))"

definition VPU_DISP4_MULTICAST_OFFSET_Relocation :: "u32 \<Rightarrow> Elf64_Sym \<Rightarrow> u64 \<Rightarrow> u32 res" where
  "VPU_DISP4_MULTICAST_OFFSET_Relocation addr targetSym addend =
     (let off = ucast (drop_bit 4 SLICE_LENGTH)
      in bindE (to_dpu_multicast (ucast (st_value targetSym + addend)) off off off)
        (\<lambda>(_, o1, o2, o3).
           let index = unat (addr AND 0xf)
           in if 3 \<le> index then Inl UndefinedBehaviour
              else Inr ((addr AND 0xfffffff0) OR (if [o1, o2, o3] ! index \<noteq> 0 then 1 else 0))))"

definition VPU_LO_21_BIT_Relocation :: "u32 \<Rightarrow> Elf64_Sym \<Rightarrow> u64 \<Rightarrow> u32 res" where
  "VPU_LO_21_BIT_Relocation addr targetSym addend =
     (let patchAddr = ucast (st_value targetSym + addend) AND LO_21_BIT_MASK
      in Inr ((addr AND NOT LO_21_BIT_MASK) OR patchAddr))"

definition VPU_LO_21_BIT_SUM_Relocation :: "u32 \<Rightarrow> Elf64_Sym \<Rightarrow> u64 \<Rightarrow> u32 res" where
  "VPU_LO_21_BIT_SUM_Relocation addr targetSym addend =
     (let patchAddr = ucast (st_value targetSym + addend) AND LO_21_BIT_MASK
      in Inr (addr + patchAddr))"

definition VPU_LO_21_BIT_MULTICAST_BASE_Relocation :: "u32 \<Rightarrow> Elf64_Sym \<Rightarrow> u64 \<Rightarrow> u32 res" where
  "VPU_LO_21_BIT_MULTICAST_BASE_Relocation addr targetSym addend =
     (let patchAddr = ucast (st_value targetSym + addend) AND LO_21_BIT_MASK
      in to_dpu_multicast_base patchAddr)"

definition VPU_16_BIT_LSB_21_RSHIFT_5_Relocation :: "u32 \<Rightarrow> Elf64_Sym \<Rightarrow> u64 \<Rightarrow> u32 res" where
  "VPU_16_BIT_LSB_21_RSHIFT_5_Relocation addr targetSym addend =
     (let m = 0x001FFFFF;
          lsb_16_mask = 0xFFFF
      in Inr ((addr AND NOT lsb_16_mask) OR
              drop_bit 5 (ucast (st_value targetSym + addend) AND m)))"

definition VPU_LO_21_BIT_RSHIFT_4_Relocation :: "u32 \<Rightarrow> Elf64_Sym \<Rightarrow> u64 \<Rightarrow> u32 res" where
  "VPU_LO_21_BIT_RSHIFT_4_Relocation addr targetSym addend =
     (let patchAddr = drop_bit 4 (ucast (st_value targetSym + addend) AND LO_21_BIT_MASK)
      in Inr ((addr AND NOT LO_21_BIT_MASK) OR patchAddr))"

definition VPU_CMX_LOCAL_RSHIFT_5_Relocation :: "u32 \<Rightarrow> Elf64_Sym \<Rightarrow> u64 \<Rightarrow> u32 res" where
  "VPU_CMX_LOCAL_RSHIFT_5_Relocation addr targetSym addend =
     (let CMX_TILE_SELECT_MASK = NOT B21_B26_MASK
      in Inr (drop_bit 5 (ucast (st_value targetSym + addend) AND CMX_TILE_SELECT_MASK)))"

definition VPU_32_BIT_OR_B21_B26_UNSET_Relocation :: "u32 \<Rightarrow> Elf64_Sym \<Rightarrow> u64 \<Rightarrow> u32 res" where
  "VPU_32_BIT_OR_B21_B26_UNSET_Relocation addr targetSym addend =
     (let B21_B26_UNSET_MASK = NOT B21_B26_MASK
      in Inr (addr OR (ucast (st_value targetSym + addend) AND B21_B26_UNSET_MASK)))"

text \<open>
  The complement is taken on the 32-bit mask and only then widened to 64 bits, so the widened
  mask has its upper half clear.
\<close>

definition VPU_64_BIT_OR_B21_B26_UNSET_Relocation :: "u64 \<Rightarrow> Elf64_Sym \<Rightarrow> u64 \<Rightarrow> u64 res" where
  "VPU_64_BIT_OR_B21_B26_UNSET_Relocation addr targetSym addend =
     (let B21_B26_UNSET_MASK = ucast (NOT B21_B26_MASK) :: u64
      in Inr (addr OR ((st_value targetSym + addend) AND B21_B26_UNSET_MASK)))"

definition VPU_16_BIT_LSB_21_RSHIFT_5_LSHIFT_16_Relocation :: "u32 \<Rightarrow> Elf64_Sym \<Rightarrow> u64 \<Rightarrow> u32 res" where
  "VPU_16_BIT_LSB_21_RSHIFT_5_LSHIFT_16_Relocation addr targetSym addend =
     (let m = 0x001FFFFF;
          msb_16_mask = 0xFFFF0000
      in Inr ((addr AND NOT msb_16_mask) OR
              push_bit 16 (drop_bit 5 (ucast (st_value targetSym + addend) AND m))))"

definition VPU_16_BIT_LSB_21_RSHIFT_5_LSHIFT_CUSTOM_Relocation :: "u32 \<Rightarrow> Elf64_Sym \<Rightarrow> u64 \<Rightarrow> u32 res" where
  "VPU_16_BIT_LSB_21_RSHIFT_5_LSHIFT_CUSTOM_Relocation addr targetSym addend =
     (let m = 0x001FFFFF;
          preemtion_work_around_16_mask = 0xFFFE4000;
          src_value = drop_bit 5 (ucast (st_value targetSym + addend) AND m);
          converted_value = push_bit 16 (src_value AND NOT 1) OR push_bit 14 (src_value AND 1)
      in Inr ((addr AND NOT preemtion_work_around_16_mask) OR converted_value))"

definition VPU_32_BIT_OR_B21_B26_UNSET_HIGH_16_Relocation :: "u16 \<Rightarrow> Elf64_Sym \<Rightarrow> u64 \<Rightarrow> u16 res" where
  "VPU_32_BIT_OR_B21_B26_UNSET_HIGH_16_Relocation addr targetSym addend =
     (let B21_B26_UNSET_MASK = ucast (NOT B21_B26_MASK) :: u64;
          patchAddr = ucast (ucast (st_value targetSym + addend) :: u32) AND B21_B26_UNSET_MASK
      in Inr (addr OR ucast (drop_bit 16 patchAddr)))"

definition VPU_32_BIT_OR_B21_B26_UNSET_LOW_16_Relocation :: "u16 \<Rightarrow> Elf64_Sym \<Rightarrow> u64 \<Rightarrow> u16 res" where
  "VPU_32_BIT_OR_B21_B26_UNSET_LOW_16_Relocation addr targetSym addend =
     (let B21_B26_UNSET_MASK = ucast (NOT B21_B26_MASK) :: u64;
          patchAddr = ucast (ucast (st_value targetSym + addend) :: u16) AND B21_B26_UNSET_MASK
      in Inr (addr OR ucast (patchAddr AND 0xFFFF)))"

definition VPU_HIGH_27_BIT_OR_Relocation :: "u64 \<Rightarrow> Elf64_Sym \<Rightarrow> u64 \<Rightarrow> u64 res" where
  "VPU_HIGH_27_BIT_OR_Relocation addr targetSym addend =
     (let patchAddrUnsetTile = (ucast (st_value targetSym + addend) :: u32) AND NOT 0xE00000;
          patchAddr = drop_bit 4 patchAddrUnsetTile AND drop_bit 4 0x7FFFFFFF
      in Inr (addr OR push_bit 37 (ucast patchAddr)))"

section \<open>The relocation table\<close>

datatype reloc_func =
    Reloc16 "u16 \<Rightarrow> Elf64_Sym \<Rightarrow> u64 \<Rightarrow> u16 res"
  | Reloc32 "u32 \<Rightarrow> Elf64_Sym \<Rightarrow> u64 \<Rightarrow> u32 res"
  | Reloc64 "u64 \<Rightarrow> Elf64_Sym \<Rightarrow> u64 \<Rightarrow> u64 res"

definition relocationMap :: "u32 \<Rightarrow> reloc_func option" where
  "relocationMap = map_of
     [(R_VPU_64, Reloc64 VPU_64_BIT_Relocation),
      (R_VPU_16_SUM, Reloc16 VPU_16_BIT_SUM_Relocation),
      (R_VPU_64_MULT, Reloc64 VPU_64_BIT_MULT_Relocation),
      (R_VPU_64_MULT_SUB, Reloc64 VPU_64_BIT_MULT_SUB_Relocation),
      (R_VPU_64_OR, Reloc64 VPU_64_BIT_OR_Relocation),
      (R_VPU_DISP40_RTM, Reloc64 VPU_DISP40_RTM_RELOCATION),
      (R_VPU_64_LSHIFT, Reloc64 VPU_64_BIT_LSHIFT_Relocation),
      (R_VPU_32, Reloc32 VPU_32_BIT_Relocation),
      (R_VPU_32_RTM, Reloc32 VPU_32_BIT_RTM_Relocation),
      (R_VPU_32_SUM, Reloc32 VPU_32_BIT_SUM_Relocation),
      (R_VPU_32_MULTICAST_BASE, Reloc32 VPU_32_MULTICAST_BASE_Relocation),
      (R_VPU_32_MULTICAST_BASE_SUB, Reloc32 VPU_32_MULTICAST_BASE_SUB_Relocation),
      (R_VPU_DISP28_MULTICAST_OFFSET, Reloc32 VPU_DISP28_MULTICAST_OFFSET_Relocation),
      (R_VPU_DISP4_MULTICAST_OFFSET_CMP, Reloc32 VPU_DISP4_MULTICAST_OFFSET_Relocation),
      (R_VPU_LO_21, Reloc32 VPU_LO_21_BIT_Relocation),
      (R_VPU_LO_21_SUM, Reloc32 VPU_LO_21_BIT_SUM_Relocation),
      (R_VPU_LO_21_MULTICAST_BASE, Reloc32 VPU_LO_21_BIT_MULTICAST_BASE_Relocation),
      (R_VPU_16_LSB_21_RSHIFT_5, Reloc32 VPU_16_BIT_LSB_21_RSHIFT_5_Relocation),
      (R_VPU_LO_21_RSHIFT_4, Reloc32 VPU_LO_21_BIT_RSHIFT_4_Relocation),
      (R_VPU_CMX_LOCAL_RSHIFT_5, Reloc32 VPU_CMX_LOCAL_RSHIFT_5_Relocation),
      (R_VPU_32_BIT_OR_B21_B26_UNSET, Reloc32 VPU_32_BIT_OR_B21_B26_UNSET_Relocation),
      (R_VPU_64_BIT_OR_B21_B26_UNSET, Reloc64 VPU_64_BIT_OR_B21_B26_UNSET_Relocation),
      (R_VPU_16_LSB_21_RSHIFT_5_LSHIFT_16, Reloc32 VPU_16_BIT_LSB_21_RSHIFT_5_LSHIFT_16_Relocation),
      (R_VPU_16_LSB_21_RSHIFT_5_LSHIFT_CUSTOM,
        Reloc32 VPU_16_BIT_LSB_21_RSHIFT_5_LSHIFT_CUSTOM_Relocation),
      (R_VPU_32_BIT_OR_B21_B26_UNSET_HIGH_16,
        Reloc16 VPU_32_BIT_OR_B21_B26_UNSET_HIGH_16_Relocation),
      (R_VPU_32_BIT_OR_B21_B26_UNSET_LOW_16,
        Reloc16 VPU_32_BIT_OR_B21_B26_UNSET_LOW_16_Relocation),
      (R_VPU_HIGH_27_BIT_OR, Reloc64 VPU_HIGH_27_BIT_OR_Relocation)]"

primrec reloc_width :: "reloc_func \<Rightarrow> nat" where
  "reloc_width (Reloc16 f) = 2"
| "reloc_width (Reloc32 f) = 4"
| "reloc_width (Reloc64 f) = 8"

text \<open>
  \<open>patch_cell\<close> reads the cell of \<open>n\<close> bytes at \<open>off\<close>, runs the function on it and writes it back. A
  cell that sticks out of the buffer is an out-of-bounds access of the program: the loader only
  checks that the cell's first byte is inside.
\<close>

definition patch_cell :: "nat \<Rightarrow> ('a::len word \<Rightarrow> 'a word res) \<Rightarrow> nat \<Rightarrow> bytes \<Rightarrow> bytes res" where
  "patch_cell n f off buf =
     (if off + n \<le> length buf
      then bindE (f (le_word (bslice off n buf))) (\<lambda>v. Inr (bwrite off (le_bytes n v) buf))
      else Inl UndefinedBehaviour)"

primrec applyReloc :: "reloc_func \<Rightarrow> nat \<Rightarrow> Elf64_Sym \<Rightarrow> u64 \<Rightarrow> bytes \<Rightarrow> bytes res" where
  "applyReloc (Reloc16 f) off targetSym addend buf =
     patch_cell 2 (\<lambda>w. f w targetSym addend) off buf"
| "applyReloc (Reloc32 f) off targetSym addend buf =
     patch_cell 4 (\<lambda>w. f w targetSym addend) off buf"
| "applyReloc (Reloc64 f) off targetSym addend buf =
     patch_cell 8 (\<lambda>w. f w targetSym addend) off buf"

end
