(* ===== verification/Elf_Reloc_Props.thy ===== *)
theory Elf_Reloc_Props imports Elf_Relocs begin

text \<open>
  What the relocation functions do to a cell: the documented formulas of
  \<^verbatim>\<open>types/vpu_extensions.hpp\<close> restated as field insertions, the frame of a patch, the totality of
  the multicast translation, and which types overwrite their cell, so that patching it again for
  the next inference forgets the previous address.
\<close>

section \<open>Bit fields\<close>

definition insert_field :: "nat \<Rightarrow> nat \<Rightarrow> 'a::len word \<Rightarrow> 'a word \<Rightarrow> 'a word" where
  "insert_field lo n v old =
     (old AND NOT (push_bit lo (mask n))) OR push_bit lo (take_bit n v)"

lemma bit_insert_field:
  "bit (insert_field lo n v old) i \<longleftrightarrow>
     i < LENGTH('a) \<and> (if lo \<le> i \<and> i < lo + n then bit v (i - lo) else bit old i)"
  for v old :: "'a::len word"
  by (auto simp: insert_field_def bit_simps dest: bit_imp_le_length)

lemma insert_field_overwrite:
  "insert_field lo n v (insert_field lo n v' old) = insert_field lo n v old"
  by (rule bit_word_eqI) (simp add: bit_insert_field)

lemma insert_field_commute:
  "lo + n \<le> lo' \<or> lo' + n' \<le> lo \<Longrightarrow>
    insert_field lo n v (insert_field lo' n' v' old) = insert_field lo' n' v' (insert_field lo n v old)"
  by (rule bit_word_eqI) (auto simp: bit_insert_field)

lemma mask_numerals:
  "(0x001FFFFF :: u32) = mask 21" "(0xFFFF :: u32) = mask 16" "(0xf :: u32) = mask 4"
  "(0xFFFF0000 :: u32) = push_bit 16 (mask 16)"
  "(0xFFFE4000 :: u32) = push_bit 17 (mask 15) OR push_bit 14 (mask 1)"
  "(0x07E00000 :: u32) = push_bit 21 (mask 6)"
  by (simp_all add: mask_eq_exp_minus_1 push_bit_eq_mult)

text \<open>The bits of a word numeral are those of the integer.\<close>

lemma bit_numerals:
  "bit (4 :: int) i \<longleftrightarrow> i = 2" "bit (8 :: int) i \<longleftrightarrow> i = 3"
  "bit (16384 :: int) i \<longleftrightarrow> i = 14" "bit (131071 :: int) i \<longleftrightarrow> i < 17"
proof -
  have "(4 :: int) = 2 ^ 2" "(8 :: int) = 2 ^ 3" "(16384 :: int) = 2 ^ 14" "(131071 :: int) = mask 17"
    by (simp_all add: mask_eq_exp_minus_1)
  then show "bit (4 :: int) i \<longleftrightarrow> i = 2" "bit (8 :: int) i \<longleftrightarrow> i = 3"
    "bit (16384 :: int) i \<longleftrightarrow> i = 14" "bit (131071 :: int) i \<longleftrightarrow> i < 17"
    by (simp_all only: bit_exp_iff bit_mask_iff) auto
qed

text \<open>The address a relocation computes, as the 32-bit value most functions start from.\<close>

definition reloc_addr32 :: "Elf64_Sym \<Rightarrow> u64 \<Rightarrow> u32" where
  "reloc_addr32 s a = ucast (st_value s + a)"

lemma LO_21_field:
  "VPU_LO_21_BIT_Relocation w s a = Inr (insert_field 0 21 (reloc_addr32 s a) w)"
  unfolding VPU_LO_21_BIT_Relocation_def LO_21_BIT_MASK_def mask_numerals Let_def reloc_addr32_def
  by (simp add: insert_field_def take_bit_eq_mask)

lemma LSB_16_field:
  "VPU_16_BIT_LSB_21_RSHIFT_5_Relocation w s a =
     Inr (insert_field 0 16 (drop_bit 5 (reloc_addr32 s a)) w)"
  unfolding VPU_16_BIT_LSB_21_RSHIFT_5_Relocation_def mask_numerals Let_def reloc_addr32_def
  by (simp, rule bit_word_eqI) (auto simp: insert_field_def bit_simps)

lemma MSB_16_field:
  "VPU_16_BIT_LSB_21_RSHIFT_5_LSHIFT_16_Relocation w s a =
     Inr (insert_field 16 16 (drop_bit 5 (reloc_addr32 s a)) w)"
  unfolding VPU_16_BIT_LSB_21_RSHIFT_5_LSHIFT_16_Relocation_def mask_numerals Let_def
    reloc_addr32_def
  by (simp, rule bit_word_eqI) (auto simp: insert_field_def bit_simps)

lemma RSHIFT_4_field:
  "VPU_LO_21_BIT_RSHIFT_4_Relocation w s a =
     Inr (insert_field 0 21 (drop_bit 4 (take_bit 21 (reloc_addr32 s a))) w)"
  unfolding VPU_LO_21_BIT_RSHIFT_4_Relocation_def LO_21_BIT_MASK_def mask_numerals Let_def
    reloc_addr32_def
  by (simp, rule bit_word_eqI) (auto simp: insert_field_def bit_simps)

lemma CUSTOM_field:
  "VPU_16_BIT_LSB_21_RSHIFT_5_LSHIFT_CUSTOM_Relocation w s a =
     Inr (insert_field 17 15 (drop_bit 6 (reloc_addr32 s a))
           (insert_field 14 1 (drop_bit 5 (reloc_addr32 s a)) w))"
proof -
  let ?v = "reloc_addr32 s a"
  let ?src = "drop_bit 5 (?v AND mask 21)"
  have n1: "NOT (1 :: u32) = NOT (mask 1)" and m1: "(1 :: u32) = mask 1"
    by (simp_all add: mask_eq_exp_minus_1)
  have "(w AND NOT (push_bit 17 (mask 15) OR push_bit 14 (mask 1))) OR
      (push_bit 16 (?src AND NOT (mask 1)) OR push_bit 14 (?src AND mask 1)) =
      insert_field 17 15 (drop_bit 6 ?v) (insert_field 14 1 (drop_bit 5 ?v) w)"
  proof (rule bit_word_eqI)
    fix i
    assume i: "i < LENGTH(32)"
    consider "i = 14" | "17 \<le> i" | "i < 14" | "i = 15" | "i = 16" by linarith
    then show "bit ((w AND NOT (push_bit 17 (mask 15) OR push_bit 14 (mask 1))) OR
        (push_bit 16 (?src AND NOT (mask 1)) OR push_bit 14 (?src AND mask 1))) i =
      bit (insert_field 17 15 (drop_bit 6 ?v) (insert_field 14 1 (drop_bit 5 ?v) w)) i"
    proof cases
      case 2
      then have "5 + (i - 16) = 6 + (i - 17)" by linarith
      with 2 i show ?thesis by (auto simp: bit_insert_field bit_simps bit_numerals)
    qed (use i in \<open>auto simp: bit_insert_field bit_simps bit_numerals\<close>)
  qed
  then show ?thesis
    unfolding VPU_16_BIT_LSB_21_RSHIFT_5_LSHIFT_CUSTOM_Relocation_def mask_numerals Let_def
      reloc_addr32_def n1
    by (simp only: m1 [symmetric])
qed

section \<open>Overwriting relocations\<close>

text \<open>
  A user relocation is applied again for every inference, to the buffer that still holds the
  previous value. A relocation is safe for that when a second application forgets the first.
\<close>

locale overwriting =
  fixes f :: "'w::len word \<Rightarrow> Elf64_Sym \<Rightarrow> u64 \<Rightarrow> 'w word res"
    and n :: nat
  assumes cell_size: "LENGTH('w) = 8 * n"
    and forgets: "f w s a = Inr w' \<Longrightarrow> f w' s' a' = f w s' a'"
begin

lemma patch_cell_forgets:
  assumes "patch_cell n (\<lambda>w. f w s a) off buf = Inr buf'"
  shows "patch_cell n (\<lambda>w. f w s' a') off buf' = patch_cell n (\<lambda>w. f w s' a') off buf"
proof -
  let ?w = "le_word (bslice off n buf) :: 'w word"
  from assms obtain v where len: "off + n \<le> length buf" and v: "f ?w s a = Inr v"
    and buf': "buf' = bwrite off (le_bytes n v) buf"
    by (auto simp: patch_cell_def bindE_Inr_iff split: if_splits)
  have "bslice off (length (le_bytes n v)) buf' = le_bytes n v"
    unfolding buf' by (rule bslice_bwrite_same) (use len in simp)
  then have "le_word (bslice off n buf') = v"
    using cell_size by (simp add: le_word_le_bytes)
  moreover have "f v s' a' = f ?w s' a'" by (rule forgets [OF v])
  moreover have "bwrite off (le_bytes n u) buf' = bwrite off (le_bytes n u) buf" for u :: "'w word"
    unfolding buf' bwrite_def using len by (simp add: min_def)
  ultimately show ?thesis using len by (simp add: patch_cell_def buf')
qed

end

lemmas overwriting_fields =
  LO_21_field LSB_16_field MSB_16_field RSHIFT_4_field CUSTOM_field insert_field_overwrite

interpretation ow_64: overwriting VPU_64_BIT_Relocation 8
  by unfold_locales (auto simp: VPU_64_BIT_Relocation_def)

interpretation ow_32: overwriting VPU_32_BIT_Relocation 4
  by unfold_locales (auto simp: VPU_32_BIT_Relocation_def)

interpretation ow_multicast: overwriting VPU_32_MULTICAST_BASE_Relocation 4
  by unfold_locales (auto simp: VPU_32_MULTICAST_BASE_Relocation_def)

interpretation ow_lo21_multicast: overwriting VPU_LO_21_BIT_MULTICAST_BASE_Relocation 4
  by unfold_locales (auto simp: VPU_LO_21_BIT_MULTICAST_BASE_Relocation_def)

interpretation ow_lo21: overwriting VPU_LO_21_BIT_Relocation 4
  by unfold_locales (auto simp: overwriting_fields)

interpretation ow_lsb16: overwriting VPU_16_BIT_LSB_21_RSHIFT_5_Relocation 4
  by unfold_locales (auto simp: overwriting_fields)

interpretation ow_msb16: overwriting VPU_16_BIT_LSB_21_RSHIFT_5_LSHIFT_16_Relocation 4
  by unfold_locales (auto simp: overwriting_fields)

interpretation ow_rshift4: overwriting VPU_LO_21_BIT_RSHIFT_4_Relocation 4
  by unfold_locales (auto simp: overwriting_fields)

interpretation ow_cmx: overwriting VPU_CMX_LOCAL_RSHIFT_5_Relocation 4
  by unfold_locales (auto simp: VPU_CMX_LOCAL_RSHIFT_5_Relocation_def)

interpretation ow_custom: overwriting VPU_16_BIT_LSB_21_RSHIFT_5_LSHIFT_CUSTOM_Relocation 4
proof unfold_locales
  fix w w' :: u32 and s s' a a'
  assume "VPU_16_BIT_LSB_21_RSHIFT_5_LSHIFT_CUSTOM_Relocation w s a = Inr w'"
  then show "VPU_16_BIT_LSB_21_RSHIFT_5_LSHIFT_CUSTOM_Relocation w' s' a' =
      VPU_16_BIT_LSB_21_RSHIFT_5_LSHIFT_CUSTOM_Relocation w s' a'"
    unfolding CUSTOM_field by (auto intro!: bit_word_eqI simp: bit_insert_field)
qed simp

definition overwritingTypes :: "u32 list" where
  "overwritingTypes =
     [R_VPU_64, R_VPU_32, R_VPU_32_MULTICAST_BASE, R_VPU_LO_21, R_VPU_LO_21_MULTICAST_BASE,
      R_VPU_16_LSB_21_RSHIFT_5, R_VPU_LO_21_RSHIFT_4, R_VPU_CMX_LOCAL_RSHIFT_5,
      R_VPU_16_LSB_21_RSHIFT_5_LSHIFT_16, R_VPU_16_LSB_21_RSHIFT_5_LSHIFT_CUSTOM]"

lemmas relocation_types =
  R_VPU_64_def R_VPU_64_OR_def R_VPU_DISP40_RTM_def R_VPU_64_LSHIFT_def R_VPU_32_def
  R_VPU_32_RTM_def R_VPU_32_SUM_def R_VPU_32_MULTICAST_BASE_def R_VPU_32_MULTICAST_BASE_SUB_def
  R_VPU_DISP28_MULTICAST_OFFSET_def R_VPU_DISP4_MULTICAST_OFFSET_CMP_def R_VPU_16_SUM_def
  R_VPU_64_MULT_def R_VPU_64_MULT_SUB_def R_VPU_LO_21_def R_VPU_LO_21_SUM_def
  R_VPU_LO_21_MULTICAST_BASE_def R_VPU_16_LSB_21_RSHIFT_5_def R_VPU_LO_21_RSHIFT_4_def
  R_VPU_CMX_LOCAL_RSHIFT_5_def R_VPU_32_BIT_OR_B21_B26_UNSET_def
  R_VPU_64_BIT_OR_B21_B26_UNSET_def R_VPU_16_LSB_21_RSHIFT_5_LSHIFT_16_def
  R_VPU_16_LSB_21_RSHIFT_5_LSHIFT_CUSTOM_def R_VPU_32_BIT_OR_B21_B26_UNSET_HIGH_16_def
  R_VPU_32_BIT_OR_B21_B26_UNSET_LOW_16_def R_VPU_HIGH_27_BIT_OR_def

lemma overwriting_cases:
  assumes "t \<in> set overwritingTypes"
  shows "(\<exists>f. relocationMap t = Some (Reloc64 f) \<and> overwriting f 8) \<or>
         (\<exists>f. relocationMap t = Some (Reloc32 f) \<and> overwriting f 4)"
  using assms
    ow_64.overwriting_axioms ow_32.overwriting_axioms ow_multicast.overwriting_axioms
    ow_lo21_multicast.overwriting_axioms ow_lo21.overwriting_axioms ow_lsb16.overwriting_axioms
    ow_msb16.overwriting_axioms ow_rshift4.overwriting_axioms ow_cmx.overwriting_axioms
    ow_custom.overwriting_axioms
  by (simp add: overwritingTypes_def relocationMap_def relocation_types)
    (elim disjE; simp)

section \<open>The frame of a patch\<close>

lemma patch_cell_frame:
  assumes "patch_cell n f off buf = Inr buf'"
  shows "length buf' = length buf"
    and "i < length buf \<Longrightarrow> i < off \<or> off + n \<le> i \<Longrightarrow> buf' ! i = buf ! i"
    and "off + n \<le> length buf"
  using assms
  by (auto simp: patch_cell_def bindE_Inr_iff nth_bwrite split: if_splits)

lemma applyReloc_frame:
  assumes "applyReloc f off s a buf = Inr buf'"
  shows "length buf' = length buf"
    and "i < length buf \<Longrightarrow> i < off \<or> off + reloc_width f \<le> i \<Longrightarrow> buf' ! i = buf ! i"
    and "off + reloc_width f \<le> length buf"
  using assms by (cases f; auto dest: patch_cell_frame)+

lemma applyReloc_out_of_bounds:
  "length buf < off + reloc_width f \<Longrightarrow> applyReloc f off s a buf = Inl UndefinedBehaviour"
  by (cases f) (auto simp: patch_cell_def)

section \<open>The multicast translation\<close>

text \<open>
  Bits 22 and 23 of the address select one of four rows of the table. Neither range check can
  fail, and \<open>multicast_mask_of\<close> is the row that is used.
\<close>

definition multicast_mask_of :: "u32 \<Rightarrow> u32" where
  "multicast_mask_of addr =
     (if bit addr 23 then (if bit addr 22 then 0x3210 else 0x0211)
      else (if bit addr 22 then 0x0012 else 0x0000))"

lemma broadcast_mask_cases:
  "drop_bit 20 (addr AND NOT ADDRESS_MASK) =
     (if bit addr 23 then 8 else 0) OR (if bit addr 22 then 4 else 0)"
proof -
  have c: "NOT ADDRESS_MASK = push_bit 22 (mask 2)"
    by (simp add: ADDRESS_MASK_def mask_eq_exp_minus_1 push_bit_eq_mult)
  have e: "(8 :: u32) = push_bit 3 (mask 1)" "(4 :: u32) = push_bit 2 (mask 1)"
    by (simp_all add: mask_eq_exp_minus_1 push_bit_eq_mult)
  show ?thesis
    unfolding c e
  proof (rule bit_word_eqI)
    fix i
    assume "i < LENGTH(32)"
    have "i = 2 \<or> i = 3 \<or> i < 2 \<or> 3 < i" by linarith
    then show "bit (drop_bit 20 (addr AND push_bit 22 (mask 2))) i =
        bit ((if bit addr 23 then push_bit 3 (mask 1) else 0) OR
             (if bit addr 22 then push_bit 2 (mask 1) else 0) :: u32) i"
      by (elim disjE) (auto simp: bit_simps bit_numerals)
  qed
qed

lemma to_dpu_multicast_total:
  "to_dpu_multicast addr o1 o2 o3 =
     (let m = multicast_mask_of addr
      in Inr ((addr AND ADDRESS_MASK) OR push_bit 20 (m AND 0xf),
              o1 * (drop_bit 4 m AND 0xf), o2 * (drop_bit 8 m AND 0xf), o3 * (drop_bit 12 m AND 0xf)))"
proof -
  have rows: "multicast_masks ! 0 = 0x0000" "multicast_masks ! 4 = 0x0012"
    "multicast_masks ! 8 = 0x0211" "multicast_masks ! 12 = 0x3210"
    by (simp_all add: multicast_masks_def)
  show ?thesis
    unfolding to_dpu_multicast_def broadcast_mask_cases multicast_mask_of_def Let_def
    by (cases "bit addr 23"; cases "bit addr 22") (simp_all add: rows)
qed

section \<open>Documented formulas\<close>

text \<open>
  The formulas that \<^verbatim>\<open>vpu_extensions.hpp\<close> gives for the relocations that set a field: the field
  of the cell, as a function of the address \<open>v\<close> and the old cell.
\<close>

definition documentedFields :: "(u32 \<times> (u32 \<Rightarrow> u32 \<Rightarrow> u32)) list" where
  "documentedFields =
     [(R_VPU_LO_21, \<lambda>v. insert_field 0 21 v),
      (R_VPU_16_LSB_21_RSHIFT_5, \<lambda>v. insert_field 0 16 (drop_bit 5 (take_bit 21 v))),
      (R_VPU_LO_21_RSHIFT_4, \<lambda>v. insert_field 0 21 (drop_bit 4 (take_bit 21 v))),
      (R_VPU_16_LSB_21_RSHIFT_5_LSHIFT_16, \<lambda>v. insert_field 16 16 (drop_bit 5 (take_bit 21 v))),
      (R_VPU_16_LSB_21_RSHIFT_5_LSHIFT_CUSTOM,
        \<lambda>v old. insert_field 17 15 (drop_bit 6 (take_bit 21 v))
                 (insert_field 14 1 (drop_bit 5 (take_bit 21 v)) old))]"

lemma insert_field_take:
  "m \<le> k + n \<Longrightarrow> m \<le> LENGTH('a) \<Longrightarrow> k + n \<le> m \<Longrightarrow>
    insert_field lo n (drop_bit k (take_bit m v)) old = insert_field lo n (drop_bit k v) old"
  for v old :: "'a::len word"
  by (rule bit_word_eqI) (auto simp: bit_insert_field bit_simps)

lemma insert_bit_take:
  "insert_field lo 1 (drop_bit 5 (take_bit 21 v)) old = insert_field lo 1 (drop_bit 5 v) old"
  for v old :: u32
  by (rule bit_word_eqI) (auto simp: bit_insert_field bit_simps)

lemma patch_cell_Inr:
  "off + n \<le> length buf \<Longrightarrow> f (le_word (bslice off n buf)) = Inr v \<Longrightarrow>
    patch_cell n f off buf = Inr (bwrite off (le_bytes n v) buf)"
  by (simp add: patch_cell_def)

lemma documentedFields_cases:
  assumes "(t, g) \<in> set documentedFields"
  shows "\<exists>f. relocationMap t = Some (Reloc32 f) \<and> (\<forall>w s a. f w s a = Inr (g (reloc_addr32 s a) w))"
  using assms
  unfolding documentedFields_def
  by (simp add: relocationMap_def relocation_types)
    (elim disjE; simp add: LO_21_field LSB_16_field MSB_16_field RSHIFT_4_field CUSTOM_field
       insert_field_take insert_bit_take [simplified])


definition example_sym :: "u64 \<Rightarrow> u64 \<Rightarrow> Elf64_Sym" where
  "example_sym v sz = \<lparr>st_name = 0, st_info = 0, st_other = 0, st_shndx = 0, st_value = v, st_size = sz\<rparr>"


text \<open>
  C31. A relocation of an overwriting type can be applied to a buffer again: patching the cell for
  the next inference gives the same buffer as patching the original one, whatever symbol and
  addend the first application used.
\<close>

theorem overwriting_relocation_reapplies:
  assumes "t \<in> set overwritingTypes" and "relocationMap t = Some f"
    and "applyReloc f off s1 a1 buf = Inr buf1"
  shows "applyReloc f off s2 a2 buf1 = applyReloc f off s2 a2 buf"
  using overwriting_cases [OF assms(1)] assms(2,3)
  by (auto intro: overwriting.patch_cell_forgets)

theorem overwriting_relocation_reapplies_witness:
  "applyReloc (Reloc32 VPU_32_BIT_Relocation) 0 (example_sym 16 0) 1 [5, 0, 0, 0] = Inr [17, 0, 0, 0] \<and>
   applyReloc (Reloc32 VPU_32_BIT_Relocation) 0 (example_sym 32 0) 2 [17, 0, 0, 0] =
   applyReloc (Reloc32 VPU_32_BIT_Relocation) 0 (example_sym 32 0) 2 [5, 0, 0, 0]"
proof -
  have t: "R_VPU_32 \<in> set overwritingTypes" by (simp add: overwritingTypes_def)
  have f: "relocationMap R_VPU_32 = Some (Reloc32 VPU_32_BIT_Relocation)"
    by (simp add: relocationMap_def relocation_types)
  have a: "applyReloc (Reloc32 VPU_32_BIT_Relocation) 0 (example_sym 16 0) 1 [5, 0, 0, 0] =
      Inr [17, 0, 0, 0]"
    by (simp add: patch_cell_def VPU_32_BIT_Relocation_def example_sym_def bslice_def bwrite_def
        le_bytes_eval)
  show ?thesis using a overwriting_relocation_reapplies [OF t f a] by simp
qed



text \<open>
  The translation of an address to multicast form never throws: its two range checks hold for
  every address, the base is the bare address with the row's lowest nibble in bits 20 to 23, and
  the offsets are scaled by the row's other nibbles.
\<close>

lemma multicast_never_throws:
  "\<exists>base. to_dpu_multicast addr o1 o2 o3 =
      Inr (base, o1 * (drop_bit 4 (multicast_mask_of addr) AND 0xf),
                 o2 * (drop_bit 8 (multicast_mask_of addr) AND 0xf),
                 o3 * (drop_bit 12 (multicast_mask_of addr) AND 0xf)) \<and>
    to_dpu_multicast_base addr = Inr base \<and>
    base = (addr AND NOT 0x00C00000) OR push_bit 20 (multicast_mask_of addr AND 0xf)"
  unfolding to_dpu_multicast_base_def to_dpu_multicast_total Let_def
  by (simp add: ADDRESS_MASK_def)

text \<open>
  C37. \<^verbatim>\<open>R_VPU_DISP40_RTM\<close> is documented to clear the low 40 bits of the cell before it ORs the new
  displacement in. The code does not clear them: it computes the documented value with the old
  index bits still set in it, so the two differ as soon as the index has a bit the displacement
  lacks.
\<close>

definition disp40_documented :: "u64 \<Rightarrow> Elf64_Sym \<Rightarrow> u64 \<Rightarrow> u64" where
  "disp40_documented dst s a =
     (let oldDst = dst AND 0xffffffffff
      in (dst AND 0xffffff0000000000) OR
         ((st_value s + a * (oldDst AND (st_size s - 1))) AND 0xffffffffff))"

theorem disp40_keeps_index_bits:
  "(\<forall>dst s a. VPU_DISP40_RTM_RELOCATION dst s a =
      Inr (disp40_documented dst s a OR (dst AND 0xffffffffff))) \<and>
   VPU_DISP40_RTM_RELOCATION 1 (example_sym 0x100 2) 0x20 = Inr 0x121 \<and>
   disp40_documented 1 (example_sym 0x100 2) 0x20 = 0x120"
proof -
  have split: "dst = (dst AND 0xffffff0000000000) OR (dst AND 0xffffffffff)" for dst :: u64
  proof -
    have "(0xffffff0000000000 :: u64) OR 0xffffffffff = - 1" by simp
    then show ?thesis by (metis bit.conj_disj_distrib and.right_neutral)
  qed
  have "VPU_DISP40_RTM_RELOCATION dst s a =
      Inr (disp40_documented dst s a OR (dst AND 0xffffffffff))" for dst s a
    unfolding VPU_DISP40_RTM_RELOCATION_def disp40_documented_def Let_def
    by (subst split [of dst]) (simp add: ac_simps)
  then show ?thesis
    by (simp add: VPU_DISP40_RTM_RELOCATION_def disp40_documented_def example_sym_def)
qed

text \<open>
  C38. The 64-bit tile-select relocation only ever sets bits of the lower half of its cell: the
  widened mask is clear above bit 31, so an address beyond 4 GiB is patched without its upper half.
\<close>

theorem tile_select_64_drops_upper_half:
  assumes "VPU_64_BIT_OR_B21_B26_UNSET_Relocation w s a = Inr r"
  shows "bit r i \<longleftrightarrow> bit w i \<or> i < 32 \<and> \<not> (21 \<le> i \<and> i \<le> 26) \<and> bit (st_value s + a) i"
proof -
  have m: "B21_B26_MASK = push_bit 21 (mask 6)"
    by (simp add: B21_B26_MASK_def mask_eq_exp_minus_1 push_bit_eq_mult)
  have "r = w OR ((st_value s + a) AND ucast (NOT B21_B26_MASK))"
    using assms by (simp add: VPU_64_BIT_OR_B21_B26_UNSET_Relocation_def)
  moreover have "bit (ucast (NOT B21_B26_MASK) :: u64) i \<longleftrightarrow> i < 32 \<and> \<not> (21 \<le> i \<and> i \<le> 26)"
    unfolding m unsigned_not_eq by (auto simp: bit_simps)
  ultimately show ?thesis by (auto simp: bit_or_iff bit_and_iff)
qed

theorem tile_select_64_drops_upper_half_witness:
  "VPU_64_BIT_OR_B21_B26_UNSET_Relocation 0 (example_sym 0x100000000 0) 0 = Inr 0 \<and>
   \<not> bit (0 :: u64) 32 \<and> bit (st_value (example_sym 0x100000000 0)) 32"
proof -
  have r: "VPU_64_BIT_OR_B21_B26_UNSET_Relocation 0 (example_sym 0x100000000 0) 0 = Inr 0"
    by (simp add: VPU_64_BIT_OR_B21_B26_UNSET_Relocation_def example_sym_def B21_B26_MASK_def)
  show ?thesis using r tile_select_64_drops_upper_half [OF r, of 32]
    by (simp add: example_sym_def)
qed

end
