(* ===== verification/Elf_Container.thy ===== *)
theory Elf_Container imports Elf_Buffers "HOL-Library.AList" "HOL-Library.Multiset" begin

text \<open>
  \<^verbatim>\<open>device_buffer_container.cpp\<close>: the map from section index to buffer that the loader keeps for
  its inference buffers and for their backups. The \<^verbatim>\<open>unordered_map\<close> is an association list without
  duplicate keys; the order in which it is iterated is up to the implementation, so every loop
  over it takes an order function \<open>ord\<close>, of which only \<open>order_ok\<close> is assumed: it permutes the
  keys. Copying a container is a program on the pair of the container and the world, because an
  exception in the middle leaves a partly copied map.
\<close>

section \<open>State and operations\<close>

record BufferDetails =
  mHasData :: bool
  mIsShared :: bool
  mIsProcessed :: bool

definition BufferDetails_default :: BufferDetails where
  "BufferDetails_default = \<lparr>mHasData = False, mIsShared = False, mIsProcessed = False\<rparr>"

record BufferInfo =
  mBuffer :: "bref option"
  mBufferDetails :: BufferDetails

definition BufferInfo_default :: BufferInfo where
  "BufferInfo_default = \<lparr>mBuffer = None, mBufferDetails = BufferDetails_default\<rparr>"

record DeviceBufferContainer =
  mBufferMap :: "(nat \<times> BufferInfo) list"
  mBufferManager :: bool

type_synonym key_order = "nat list \<Rightarrow> nat list"

definition order_ok :: "key_order \<Rightarrow> bool" where
  "order_ok ord \<longleftrightarrow> (\<forall>ks. mset (ord ks) = mset ks)"

definition DeviceBufferContainer_new :: "bool \<Rightarrow> DeviceBufferContainer" where
  "DeviceBufferContainer_new bManager = \<lparr>mBufferMap = [], mBufferManager = bManager\<rparr>"

definition buildAllocatedDeviceBuffer ::
    "env \<Rightarrow> DeviceBufferContainer \<Rightarrow> BufferSpecs \<Rightarrow> (world, bref) prog" where
  "buildAllocatedDeviceBuffer E c bSpecs = newAllocatedDeviceBuffer E (mBufferManager c) bSpecs"

definition hasBufferInfoAtIndex :: "nat \<Rightarrow> DeviceBufferContainer \<Rightarrow> bool" where
  "hasBufferInfoAtIndex index c \<longleftrightarrow> map_of (mBufferMap c) index \<noteq> None"

definition setBufferInfo :: "nat \<Rightarrow> BufferInfo \<Rightarrow> DeviceBufferContainer \<Rightarrow> DeviceBufferContainer" where
  "setBufferInfo index info c = c\<lparr>mBufferMap := AList.update index info (mBufferMap c)\<rparr>"

definition safeInitBufferInfoAtIndex ::
    "nat \<Rightarrow> DeviceBufferContainer \<Rightarrow> DeviceBufferContainer res" where
  "safeInitBufferInfoAtIndex index c =
     throw_when (hasBufferInfoAtIndex index c) RuntimeError
     (Inr (setBufferInfo index BufferInfo_default c))"

definition getBufferInfoFromIndex :: "nat \<Rightarrow> DeviceBufferContainer \<Rightarrow> BufferInfo res" where
  "getBufferInfoFromIndex index c =
     (case map_of (mBufferMap c) index of None \<Rightarrow> Inl OutOfRange | Some info \<Rightarrow> Inr info)"

definition getBufferInfoCount :: "DeviceBufferContainer \<Rightarrow> nat" where
  "getBufferInfoCount c = length (mBufferMap c)"

definition container_keys :: "key_order \<Rightarrow> DeviceBufferContainer \<Rightarrow> nat list" where
  "container_keys ord c = ord (map fst (mBufferMap c))"

definition getBuffersAsVector ::
    "key_order \<Rightarrow> DeviceBufferContainer \<Rightarrow> (world, DeviceBuffer list) prog" where
  "getBuffersAsVector ord c =
     mapM (\<lambda>index. bindM (liftM (getBufferInfoFromIndex index c)) (\<lambda>info.
             bindM (deref (mBuffer info)) (\<lambda>r. readM (getBuffer r))))
       (container_keys ord c)"

type_synonym copy_state = "DeviceBufferContainer \<times> world"

definition inWorld :: "(world, 'a) prog \<Rightarrow> (copy_state, 'a) prog" where
  "inWorld m = zoomM snd apsnd m"

definition copyBufferInfo ::
    "env \<Rightarrow> DeviceBufferContainer \<Rightarrow> nat \<Rightarrow> (copy_state, unit) prog" where
  "copyBufferInfo E other index =
     bindM (liftM (getBufferInfoFromIndex index other)) (\<lambda>bufferInfo.
       if mIsShared (mBufferDetails bufferInfo)
       then modifyM (apfst (setBufferInfo index bufferInfo))
       else bindM (inWorld (bindM (deref (mBuffer bufferInfo)) (createNew E))) (\<lambda>r.
              modifyM (apfst (setBufferInfo index
                \<lparr>mBuffer = Some r, mBufferDetails = mBufferDetails bufferInfo\<rparr>))))"

text \<open>\<open>same\<close> says that both maps are the same object.\<close>

definition copyBufferMap ::
    "env \<Rightarrow> key_order \<Rightarrow> bool \<Rightarrow> DeviceBufferContainer \<Rightarrow> (copy_state, unit) prog" where
  "copyBufferMap E ord same other =
     throwM_when same RuntimeError (forM (copyBufferInfo E other) (container_keys ord other))"

definition DeviceBufferContainer_copy ::
    "env \<Rightarrow> key_order \<Rightarrow> DeviceBufferContainer \<Rightarrow> (world, DeviceBufferContainer) prog" where
  "DeviceBufferContainer_copy E ord other w =
     (case copyBufferMap E ord False other (DeviceBufferContainer_new (mBufferManager other), w) of
        (Inl e, (_, w')) \<Rightarrow> (Inl e, w')
      | (Inr _, (c, w')) \<Rightarrow> (Inr c, w'))"

text \<open>The assignment keeps the entries of the target that the source does not have.\<close>

definition DeviceBufferContainer_assign ::
    "env \<Rightarrow> key_order \<Rightarrow> bool \<Rightarrow> DeviceBufferContainer \<Rightarrow> (copy_state, unit) prog" where
  "DeviceBufferContainer_assign E ord same rhs =
     (if same then retM ()
      else bindM (modifyM (apfst (\<lambda>c. c\<lparr>mBufferManager := mBufferManager rhs\<rparr>))) (\<lambda>_.
           copyBufferMap E ord False rhs))"

section \<open>The map laws\<close>

text \<open>
  What a client of the container relies on, for any implementation of the three operations: an
  entry is found where it was put, the others stay, and \<^verbatim>\<open>safeInit\<close> never replaces one.
\<close>

locale buffer_map =
  fixes lookup :: "nat \<Rightarrow> 'c \<Rightarrow> 'i res"
    and has :: "nat \<Rightarrow> 'c \<Rightarrow> bool"
    and put :: "nat \<Rightarrow> 'i \<Rightarrow> 'c \<Rightarrow> 'c"
    and init :: "nat \<Rightarrow> 'c \<Rightarrow> 'c res"
    and default :: 'i
  assumes lookup_put: "lookup i (put j x c) = (if i = j then Inr x else lookup i c)"
    and has_lookup: "has i c \<longleftrightarrow> (\<exists>x. lookup i c = Inr x)"
    and lookup_missing: "\<not> has i c \<Longrightarrow> lookup i c = Inl OutOfRange"
    and init_put: "init i c = (if has i c then Inl RuntimeError else Inr (put i default c))"
begin

lemma has_put: "has i (put j x c) \<longleftrightarrow> i = j \<or> has i c"
  by (auto simp: has_lookup lookup_put)

lemma init_fresh: "init i c = Inr c' \<Longrightarrow> \<not> has i c \<and> lookup i c' = Inr default"
  by (auto simp: init_put lookup_put split: if_splits)

lemma init_other: "init i c = Inr c' \<Longrightarrow> j \<noteq> i \<Longrightarrow> lookup j c' = lookup j c"
  by (auto simp: init_put lookup_put split: if_splits)

lemma init_twice: "init i c = Inr c' \<Longrightarrow> init i c' = Inl RuntimeError"
  by (auto simp: init_put has_put split: if_splits)

end

lemma map_of_AList_update: "map_of (AList.update k v xs) i = (if i = k then Some v else map_of xs i)"
  by (simp add: update_conv')

interpretation container: buffer_map getBufferInfoFromIndex hasBufferInfoAtIndex setBufferInfo
    safeInitBufferInfoAtIndex BufferInfo_default
  by unfold_locales
    (auto simp: getBufferInfoFromIndex_def setBufferInfo_def map_of_AList_update
      hasBufferInfoAtIndex_def safeInitBufferInfoAtIndex_def split: option.splits)

text \<open>No key occurs twice, so the count is the number of indexes with an entry.\<close>

definition container_ok :: "DeviceBufferContainer \<Rightarrow> bool" where
  "container_ok c \<longleftrightarrow> distinct (map fst (mBufferMap c))"

lemma container_ok_new: "container_ok (DeviceBufferContainer_new b)"
  by (simp add: container_ok_def DeviceBufferContainer_new_def)

lemma container_ok_set: "container_ok c \<Longrightarrow> container_ok (setBufferInfo i x c)"
  by (simp add: container_ok_def setBufferInfo_def distinct_update)

lemma container_ok_init: "container_ok c \<Longrightarrow> safeInitBufferInfoAtIndex i c = Inr c' \<Longrightarrow> container_ok c'"
  by (auto simp: safeInitBufferInfoAtIndex_def intro: container_ok_set)

lemma has_iff_key: "hasBufferInfoAtIndex i c \<longleftrightarrow> i \<in> set (map fst (mBufferMap c))"
  by (simp add: hasBufferInfoAtIndex_def map_of_eq_None_iff)

lemma container_keys_set: "order_ok ord \<Longrightarrow> set (container_keys ord c) = {i. hasBufferInfoAtIndex i c}"
  unfolding order_ok_def container_keys_def has_iff_key by (metis Collect_mem_eq set_mset_mset)

lemma container_keys_distinct: "order_ok ord \<Longrightarrow> container_ok c \<Longrightarrow> distinct (container_keys ord c)"
  unfolding order_ok_def container_keys_def container_ok_def by (metis mset_eq_imp_distinct_iff)

lemma getBufferInfoCount_card:
  "container_ok c \<Longrightarrow> getBufferInfoCount c = card {i. hasBufferInfoAtIndex i c}"
  unfolding container_ok_def getBufferInfoCount_def
  by (simp only: has_iff_key Collect_mem_eq) (metis distinct_card length_map)

section \<open>Copying\<close>

text \<open>
  \<open>copied w w' old new\<close>: the entry of the copy for an entry of the source. A shared buffer is the
  same object; any other is an object that did not exist before.
\<close>

definition copied :: "world \<Rightarrow> world \<Rightarrow> BufferInfo \<Rightarrow> BufferInfo \<Rightarrow> bool" where
  "copied w w' old new \<longleftrightarrow> mBufferDetails new = mBufferDetails old \<and>
     (if mIsShared (mBufferDetails old) then mBuffer new = mBuffer old
      else \<exists>r. mBuffer new = Some r \<and> length (objs w) \<le> r \<and> r < length (objs w'))"

lemma copyBufferInfo_Inr:
  assumes "copyBufferInfo E other i (c, w) = (Inr (), (c', w'))"
  obtains old new where "getBufferInfoFromIndex i other = Inr old" and "copied w w' old new"
    and "c' = setBufferInfo i new c" and "objs_extend w None w'"
proof -
  from assms obtain old where old: "getBufferInfoFromIndex i other = Inr old"
    by (auto simp: copyBufferInfo_def bindM_Inr_iff liftM_def)
  show thesis
  proof (cases "mIsShared (mBufferDetails old)")
    case True
    then have "c' = setBufferInfo i old c" "w' = w"
      using assms old by (simp_all add: copyBufferInfo_def bindM_liftM modifyM_def)
    then show thesis using that [OF old] True by (simp add: copied_def objs_extend_def)
  next
    case False
    then obtain b r w'' where b: "mBuffer old = Some b" and r: "createNew E b w = (Inr r, w'')"
      and c': "c' = setBufferInfo i \<lparr>mBuffer = Some r, mBufferDetails = mBufferDetails old\<rparr> c"
      and w'': "w'' = w'"
      using assms old
      by (auto simp: copyBufferInfo_def bindM_liftM bindM_Inr_iff inWorld_def zoomM_def modifyM_def
          deref_def split: prod.splits option.splits if_splits)
    have "r = length (objs w)" "length (objs w') = Suc r"
      using fresh_createNew [of E b] r w'' unfolding fresh_result_def by blast+
    moreover have "objs_extend w None w'"
      using relatesD [OF extend_createNew r] w'' by simp
    ultimately show thesis using that [OF old _ c'] False by (simp add: copied_def)
  qed
qed

lemma copied_mono: "copied w w' old new \<Longrightarrow> objs_extend w' x w'' \<Longrightarrow> copied w w'' old new"
  by (auto simp: copied_def objs_extend_def)

lemma copied_before: "copied w' w'' old new \<Longrightarrow> objs_extend w x w' \<Longrightarrow> copied w w'' old new"
  by (auto simp: copied_def objs_extend_def)

lemma copy_step:
  assumes "forM (copyBufferInfo E other) (k # ks) (c, w) = (Inr (), (c', w'))"
  shows "\<exists>c1 w1 old new. forM (copyBufferInfo E other) ks (c1, w1) = (Inr (), (c', w')) \<and>
    getBufferInfoFromIndex k other = Inr old \<and> copied w w1 old new \<and>
    c1 = setBufferInfo k new c \<and> objs_extend w None w1"
proof -
  from assms obtain c1 w1 where 1: "copyBufferInfo E other k (c, w) = (Inr (), (c1, w1))"
    and 2: "forM (copyBufferInfo E other) ks (c1, w1) = (Inr (), (c', w'))"
    by (auto simp: bindM_Inr_iff)
  from 1 show ?thesis by (rule copyBufferInfo_Inr) (use 2 in blast)
qed

lemma copy_loop:
  assumes "forM (copyBufferInfo E other) ks (c, w) = (Inr (), (c', w'))" and "distinct ks"
  shows "objs_extend w None w'"
    and "\<And>i. i \<in> set ks \<Longrightarrow> \<exists>old new. getBufferInfoFromIndex i other = Inr old \<and>
          getBufferInfoFromIndex i c' = Inr new \<and> copied w w' old new"
    and "\<And>i. i \<notin> set ks \<Longrightarrow> getBufferInfoFromIndex i c' = getBufferInfoFromIndex i c"
  using assms
proof (induction ks arbitrary: c w)
  case Nil
  { case 1 then show ?case by (simp add: retM_def objs_extend_def)
  next case 2 then show ?case by simp
  next case 3 then show ?case by (simp add: retM_def) }
next
  case (Cons k ks)
  { case 1
    from copy_step [OF 1(1)] obtain c1 w1 where "forM (copyBufferInfo E other) ks (c1, w1) = (Inr (), (c', w'))"
      "objs_extend w None w1" by metis
    with Cons.IH(1) [of c1 w1] 1 show ?case by (auto intro: objs_extend.R_trans)
  next
    case (2 i)
    from copy_step [OF 2(2)] obtain c1 w1 old new where loop: "forM (copyBufferInfo E other) ks (c1, w1) = (Inr (), (c', w'))"
      and k: "getBufferInfoFromIndex k other = Inr old" "copied w w1 old new" "c1 = setBufferInfo k new c"
      and ext: "objs_extend w None w1" by metis
    have d: "distinct ks" "k \<notin> set ks" using 2 by simp_all
    show ?case
    proof (cases "i = k")
      case True
      then have "getBufferInfoFromIndex i c' = Inr new"
        using Cons.IH(3) [OF d(2) loop d(1)] k(3) by (simp add: container.lookup_put)
      then show ?thesis using True k Cons.IH(1) [OF loop d(1)] by (blast intro: copied_mono)
    next
      case False
      then show ?thesis using Cons.IH(2) [OF _ loop d(1), of i] 2 ext by (auto intro: copied_before)
    qed
  next
    case (3 i)
    from copy_step [OF 3(2)] obtain c1 w1 old new where loop: "forM (copyBufferInfo E other) ks (c1, w1) = (Inr (), (c', w'))"
      and c1: "c1 = setBufferInfo k new c" by metis
    show ?case using Cons.IH(3) [OF _ loop, of i] 3 c1 by (simp add: container.lookup_put)
  }
qed

text \<open>
  C24. A copy of a container has an entry for exactly the indexes of the source, with the same
  details; a buffer marked as shared is the same object in both, every other buffer of the copy is
  an object that did not exist before, and no existing object is changed.
\<close>

theorem container_copy_shares_only_shared:
  assumes "order_ok ord" and "container_ok other"
    and "DeviceBufferContainer_copy E ord other w = (Inr c, w')"
  shows "(hasBufferInfoAtIndex i c \<longleftrightarrow> hasBufferInfoAtIndex i other) \<and>
    (\<forall>old. getBufferInfoFromIndex i other = Inr old \<longrightarrow>
      (\<exists>new. getBufferInfoFromIndex i c = Inr new \<and> copied w w' old new)) \<and>
    (\<exists>added. objs w' = objs w @ added)"
proof -
  let ?n = "DeviceBufferContainer_new (mBufferManager other)"
  have loop: "forM (copyBufferInfo E other) (container_keys ord other) (?n, w) = (Inr (), (c, w'))"
    using assms(3) by (auto simp: DeviceBufferContainer_copy_def copyBufferMap_def
        split: prod.splits sum.splits)
  note copy = copy_loop [OF loop container_keys_distinct [OF assms(1,2)]]
  have keys: "i \<in> set (container_keys ord other) \<longleftrightarrow> hasBufferInfoAtIndex i other"
    using container_keys_set [OF assms(1)] by simp
  have none: "\<not> hasBufferInfoAtIndex i ?n"
    by (simp add: hasBufferInfoAtIndex_def DeviceBufferContainer_new_def)
  show ?thesis
  proof (cases "hasBufferInfoAtIndex i other")
    case True
    with copy(1) copy(2) [of i] keys show ?thesis
      by (auto simp: container.has_lookup objs_extend_def)
  next
    case False
    with copy(1) copy(3) [of i] keys none show ?thesis
      by (auto simp: container.has_lookup objs_extend_def)
  qed
qed

definition example_world :: world where
  "example_world = \<lparr>memory = [(0x1000, [1, 2, 3, 4])],
     objs = [\<lparr>bufKind = StaticBuffer, mDevBuffer = DeviceBuffer_make (Ptr 0 0) 0x1000 4,
              mBufferSpecs = BufferSpecs_make 64 4 0\<rparr>],
     trace = [], streamGood = True\<rparr>"

definition example_container :: DeviceBufferContainer where
  "example_container = \<lparr>mBufferMap =
     [(3, \<lparr>mBuffer = Some 0, mBufferDetails = \<lparr>mHasData = True, mIsShared = True, mIsProcessed = True\<rparr>\<rparr>),
      (5, \<lparr>mBuffer = Some 0, mBufferDetails = \<lparr>mHasData = True, mIsShared = False, mIsProcessed = True\<rparr>\<rparr>)],
     mBufferManager = True\<rparr>"

lemma powers_of_two [simp]: "isPowerOfTwo 64" "isPowerOfTwo 1" "isPowerOfTwo 8" "isPowerOfTwo 16"
  by (simp_all add: isPowerOfTwo_def)

lemma example_copy:
  "\<exists>c w'. DeviceBufferContainer_copy bump_env rev example_container example_world = (Inr c, w')"
  by (simp add: DeviceBufferContainer_copy_def copyBufferMap_def container_keys_def
      example_container_def example_world_def copyBufferInfo_def getBufferInfoFromIndex_def
      bindM_def liftM_def inWorld_def zoomM_def deref_def createNew_def newDynamicBuffer_def
      throwM_unless_def throwM_when_def mDefaultSafeAlignment_def getBufferSpecs_def
      BufferSpecs_make_def alignUp_def bump_env_def bump_base_def newObj_def modifyM_def retM_def)

theorem container_copy_shares_only_shared_witness:
  "\<exists>c w' old new. DeviceBufferContainer_copy bump_env rev example_container example_world = (Inr c, w') \<and>
     getBufferInfoFromIndex 5 example_container = Inr old \<and> mBuffer old = Some 0 \<and>
     getBufferInfoFromIndex 5 c = Inr new \<and> mBuffer new \<noteq> Some 0"
proof -
  obtain c w' where c: "DeviceBufferContainer_copy bump_env rev example_container example_world = (Inr c, w')"
    using example_copy by blast
  have o: "order_ok rev" by (simp add: order_ok_def)
  have k: "container_ok example_container" by (simp add: container_ok_def example_container_def)
  have l: "length (objs example_world) = 1" by (simp add: example_world_def)
  obtain old where old: "getBufferInfoFromIndex 5 example_container = Inr old" "mBuffer old = Some 0"
    "\<not> mIsShared (mBufferDetails old)"
    by (simp add: getBufferInfoFromIndex_def example_container_def)
  with container_copy_shares_only_shared [OF o k c, of 5] l show ?thesis
    using c by (fastforce simp: copied_def)
qed

end
