(* ===== verification/Elf_Buffer_Props.thy ===== *)
theory Elf_Buffer_Props imports Elf_Accessor Elf_Container begin

text \<open>
  The properties of buffers and accessors: where dynamic buffers lie, what a range read returns,
  how the alignment that the caller asks for is met, and that accessors keep the lock protocol of
  the buffer manager.
\<close>

section \<open>Dynamic buffers\<close>

lemma newDynamicBuffer_Inr:
  assumes "newDynamicBuffer E specs w = (Inr r, w')"
  defines "a \<equiv> (if alignment specs < 64 then 64 else alignment specs)"
  obtains base storage where "reserveMem E (alignUp (sz specs) 64 + a) (memory w) = Some (base, storage)"
    and "isPowerOfTwo (alignment specs)"
    and "\<not> alignUp base a < base" and "\<not> alignUp base a - base + sz specs > of_nat (length storage)"
    and "memory w' = memory w @ [(base, storage)]"
    and "r = length (objs w)"
    and "getBuffer r w' = DeviceBuffer_make
           (Ptr (length (memory w)) (unat (alignUp base a - base))) (alignUp base a) (sz specs)"
  using assms
  by (auto simp: newDynamicBuffer_def Let_def mDefaultSafeAlignment_def newObj_def getBuffer_def
      split: option.splits if_splits)


lemma newDynamicBuffer_placed:
  assumes "newDynamicBuffer E specs w = (Inr r, w')" and "reserve_documented E"
    and "unat (sz specs) + unat (alignment specs) + 128 \<le> 2 ^ 64"
  shows "valid (memory w') (cpu_addr (getBuffer r w')) (unat (sz specs)) \<and>
    buf_size (getBuffer r w') = sz specs \<and>
    vpu_addr (getBuffer r w') = ptr_value (memory w') (cpu_addr (getBuffer r w')) \<and>
    unat (alignment specs) dvd unat (vpu_addr (getBuffer r w')) \<and>
    64 dvd unat (vpu_addr (getBuffer r w'))"
proof -
  define a where "a = (if alignment specs < 64 then 64 else alignment specs)"
  from assms(1) obtain base storage
    where res: "reserveMem E (alignUp (sz specs) 64 + a) (memory w) = Some (base, storage)"
      and pow: "isPowerOfTwo (alignment specs)"
      and up: "\<not> alignUp base a < base"
      and fits: "\<not> alignUp base a - base + sz specs > of_nat (length storage)"
      and m: "memory w' = memory w @ [(base, storage)]"
      and db: "getBuffer r w' = DeviceBuffer_make
           (Ptr (length (memory w)) (unat (alignUp base a - base))) (alignUp base a) (sz specs)"
    by (rule newDynamicBuffer_Inr) (auto simp: a_def)
  have st: "unat base + length storage \<le> 2 ^ 64" "unat (alignUp (sz specs) 64 + a) \<le> length storage"
    using assms(2) res unfolding reserve_documented_def by blast+
  have a: "unat a \<le> unat (alignment specs) + 64" "64 \<le> unat a"
    by (auto simp: a_def word_less_nat_alt)
  have nw: "unat base + unat a \<le> 2 ^ 64 \<or> base = 0"
  proof (cases "base = 0")
    case False
    have "a \<noteq> 0" using a(2) by auto
    then show ?thesis using alignUp_wraps [of base a] up False by linarith
  qed simp
  then have al: "unat (alignUp base a) = round_up (unat base) (unat a)"
    using unat_u64_less [of a] by (intro unat_alignUp) auto
  have ge: "base \<le> alignUp base a" using up by simp
  let ?d = "unat (alignUp base a - base)"
  have d: "?d = unat (alignUp base a) - unat base" by (rule unat_sub [OF ge])
  have "round_up (unat base) (unat a) < unat base + unat a" using a(2) by (intro round_up_less) simp
  then have dlt: "?d < unat a" unfolding d al using round_up_ge [of "unat base" "unat a"] by linarith
  have sum: "?d + unat (sz specs) < 2 ^ 64" using dlt a(1) assms(3) by linarith
  then have "unat (alignUp base a - base + sz specs) = ?d + unat (sz specs)"
    by (rule unat_add_no_wrap)
  moreover have "length storage < 2 ^ 64 \<or> length storage = 2 ^ 64" using st(1) by linarith
  ultimately have "?d + unat (sz specs) \<le> length storage"
    using fits sum by (auto simp: not_less word_le_nat_alt unat_of_nat_u64)
  then have v: "valid (memory w') (cpu_addr (getBuffer r w')) (unat (sz specs))"
    by (simp add: db m DeviceBuffer_make_def)
  have pv: "vpu_addr (getBuffer r w') = ptr_value (memory w') (cpu_addr (getBuffer r w'))"
    by (simp add: db m DeviceBuffer_make_def)
  have dv: "unat a dvd unat (alignUp base a)" unfolding al using round_up_dvd [of "unat a"] a(2) by auto
  have pa: "isPowerOfTwo a" using pow by (simp add: a_def isPowerOfTwo_def)
  have "isPowerOfTwo 64" by (simp add: isPowerOfTwo_def)
  then have "64 dvd unat a" using isPowerOfTwo_dvd [of 64 a] pa a(2) by simp
  moreover have "unat (alignment specs) dvd unat a"
    by (rule isPowerOfTwo_dvd [OF pow pa]) (simp add: a_def word_less_nat_alt)
  ultimately show ?thesis using v pv dv by (auto simp: db DeviceBuffer_make_def intro: dvd_trans)
qed

text \<open>
  C26. A dynamic buffer lies inside its storage, starts at a multiple of 64 and of the requested
  alignment, and has the requested size, and its device address is the number of
  its CPU address, provided size plus alignment stays 128 bytes below the end of the address space.
\<close>

theorem dynamic_buffer_in_storage:
  assumes "newDynamicBuffer E specs w = (Inr r, w')" and "reserve_documented E"
    and "unat (sz specs) + unat (alignment specs) + 128 \<le> 2 ^ 64"
  shows "valid (memory w') (cpu_addr (getBuffer r w')) (unat (sz specs)) \<and>
    buf_size (getBuffer r w') = sz specs \<and>
    vpu_addr (getBuffer r w') = ptr_value (memory w') (cpu_addr (getBuffer r w')) \<and>
    unat (alignment specs) dvd unat (vpu_addr (getBuffer r w')) \<and>
    64 dvd unat (vpu_addr (getBuffer r w'))"
  using assms by (rule newDynamicBuffer_placed)

definition empty_world :: world where
  "empty_world = \<lparr>memory = [], objs = [], trace = [], streamGood = True\<rparr>"

lemmas run_dynamic =
  newDynamicBuffer_def throwM_unless_def throwM_when_def mDefaultSafeAlignment_def
  BufferSpecs_make_def alignUp_def bump_env_def bump_base_def newObj_def getBuffer_def
  DeviceBuffer_make_def

theorem dynamic_buffer_in_storage_witness:
  "\<exists>w'. newDynamicBuffer bump_env (BufferSpecs_make 64 8 0) empty_world = (Inr 0, w') \<and>
     valid (memory w') (cpu_addr (getBuffer 0 w')) 8 \<and> 64 dvd unat (vpu_addr (getBuffer 0 w'))"
proof -
  obtain w' where w': "newDynamicBuffer bump_env (BufferSpecs_make 64 8 0) empty_world = (Inr 0, w')"
    by (simp add: run_dynamic empty_world_def)
  from dynamic_buffer_in_storage [OF this bump_documented(4)] show ?thesis
    using w' by (simp add: BufferSpecs_make_def) metis
qed

text \<open>
  The two overflow-prone sums of the constructor are not guarded. A request of 2^64 - 4096
  bytes at alignment 8192 reserves 4096 bytes, passes the range check because offset plus size
  wraps to zero, and yields a buffer that claims almost the whole address space.
\<close>

lemma dynamic_buffer_size_wraps:
  "\<exists>w'. newDynamicBuffer bump_env (BufferSpecs_make 8192 (- 4096) 0) empty_world = (Inr 0, w') \<and>
     unat (buf_size (getBuffer 0 w')) = 2 ^ 64 - 4096 \<and>
     length (snd (memory w' ! 0)) = 4096 \<and>
     \<not> valid (memory w') (cpu_addr (getBuffer 0 w')) (unat (buf_size (getBuffer 0 w')))"
  by (simp add: run_dynamic empty_world_def isPowerOfTwo_def)

section \<open>Range reads\<close>


definition blob_world :: world where
  "blob_world = \<lparr>memory = [(0x1001, [10, 11, 12, 13, 14, 15, 16, 17])], objs = [], trace = [],
     streamGood = True\<rparr>"

lemmas run_read =
  Let_def readInternal.simps read_allocated_def getAllocatedBuffer_def getEmplacedBuffer_def
  newStaticBuffer_def newAllocatedDeviceBuffer_def run_dynamic bindM_def readM_def retM_def
  withLock_def lock_def finallyM_def unlock_def memcpy_to_buffer_def memcpyM_def memcpy_mem_def
  bslice_def bwrite_def logEv_def setDevBuffer_def blob_world_def




text \<open>
  C22. Reading keeps the lock protocol of the buffer manager. If the events so far keep it and leave
  the buffers \<open>H\<close> locked, then so do the events after a read, whether the read succeeds or throws;
  an external read needs its destination to be unlocked on entry.
\<close>

theorem accessors_keep_lock_protocol:
  assumes "held_from {} (trace w) = Some H" and "H \<subseteq> {..<length (objs w)}"
    and "(\<exists>x. readInternal E am off specs w = (x, w') \<and> outcome x \<noteq> Some UndefinedBehaviour) \<or>
      (\<exists>r x. r \<notin> H \<and> readExternal E am off r w = (x, w') \<and> outcome x \<noteq> Some UndefinedBehaviour)"
  shows "held_from {} (trace w') = Some H"
proof -
  obtain A x where b: "balanced A w x w'" and A: "H \<inter> A = {}" and x: "x \<noteq> Some UndefinedBehaviour"
    using assms(3) relatesD [OF balanced_readInternal] relatesD [OF balanced_readExternal] by fast
  from b x obtain tr where "trace w' = trace w @ tr"
    and "\<And>H. H \<subseteq> {..<length (objs w)} \<Longrightarrow> H \<inter> A = {} \<Longrightarrow> held_from H tr = Some H"
    by (auto simp: balanced_def)
  then show ?thesis using assms(1,2) A by (simp add: held_from_append)
qed

theorem accessors_keep_lock_protocol_witness:
  "\<exists>w'. readInternal bump_env (DDRAccessManager DDRNeverEmplace AllocatedDeviceBufferFactory (Ptr 0 0) 8) 2
       (BufferSpecs_make 8 3 0) blob_world = (Inr 0, w') \<and>
     trace w' = [EvAllocate 0, EvLock 0, EvUnlock 0] \<and> held_from {} (trace w') = Some {}"
proof -
  let ?run = "readInternal bump_env (DDRAccessManager DDRNeverEmplace AllocatedDeviceBufferFactory (Ptr 0 0) 8) 2
       (BufferSpecs_make 8 3 0) blob_world"
  obtain w' where w': "?run = (Inr 0, w')" and t: "trace w' = [EvAllocate 0, EvLock 0, EvUnlock 0]"
    by (simp add: run_read bump_manager_def)
  have h: "held_from {} (trace blob_world) = Some {}" by (simp add: blob_world_def)
  have "(\<exists>x. ?run = (x, w') \<and> outcome x \<noteq> Some UndefinedBehaviour)" using w' by simp
  then have "held_from {} (trace w') = Some {}"
    using accessors_keep_lock_protocol [OF h] by blast
  then show ?thesis using w' t by blast
qed

end
