(* ===== verification/Elf_Loader.thy ===== *)
theory Elf_Loader imports Elf_Reader Elf_Container Elf_Relocs begin

text \<open>
  \<^verbatim>\<open>vpux_loader.cpp\<close>: the loader. What the copies of a loader share through \<^verbatim>\<open>shared_ptr\<close> (the
  reader and the vectors that the constructor makes) is the record \<open>LoaderShared\<close>, what each copy has
  for itself is \<open>VPUXLoader\<close>; its programs run on the loader, the shared part and the world. The
  access manager is the one the sections were made with. Log statements are compiled out, which is
  the default of \<^verbatim>\<open>log.hpp\<close>. The lifetime of buffers is not modelled: a buffer whose last owner has
  gone stays in the world.
\<close>

section \<open>State\<close>

datatype Action =
    ActionNone | AllocateAndLoad | Allocate | Relocate | RegisterUserIO | RegisterNetworkMetadata
  | RegisterVersionInfo | ActionError

definition actionMap :: "u32 \<Rightarrow> Action option" where
  "actionMap = map_of
     [(SHT_NULL, ActionNone), (SHT_PROGBITS, AllocateAndLoad), (SHT_SYMTAB, RegisterUserIO),
      (SHT_STRTAB, ActionNone), (SHT_RELA, Relocate), (SHT_HASH, ActionError),
      (SHT_DYNAMIC, ActionError), (SHT_NOTE, ActionNone), (SHT_NOBITS, Allocate),
      (SHT_REL, ActionError), (SHT_SHLIB, ActionError), (SHT_DYNSYM, ActionError),
      (VPU_SHT_NETDESC, ActionNone), (VPU_SHT_PROF, ActionNone), (VPU_SHT_CMX_METADATA, ActionNone),
      (VPU_SHT_CMX_WORKSPACE, ActionNone), (VPU_SHT_PLATFORM_INFO, ActionNone),
      (VPU_SHT_PERF_METRICS, ActionNone)]"

record LoaderShared =
  m_reader :: Reader
  m_relocationSectionIndexes :: "nat list"
  m_jitRelocations :: "nat list"
  m_userInputsDescriptors :: "DeviceBuffer list"
  m_userOutputsDescriptors :: "DeviceBuffer list"
  m_profOutputsDescriptors :: "DeviceBuffer list"
  m_sectionMap :: "u32 \<Rightarrow> nat list option"

record VPUXLoader =
  m_inferBufferContainer :: DeviceBufferContainer
  m_backupBufferContainer :: DeviceBufferContainer
  m_runtimeSymTabs :: "Elf64_Sym list"
  m_symTabOverrideMode :: bool
  m_explicitAllocations :: bool
  m_loaded :: bool
  m_symbolSectionTypes :: "u32 list"
  m_inferencesMayBeRunInParallel :: bool
  m_sharedScratchBuffers :: "nat list"

record lstate =
  ldr :: VPUXLoader
  shd :: LoaderShared
  wld :: world

text \<open>The surroundings: the environment, the access manager, the order of the buffer maps.\<close>

record lenv =
  le_env :: env
  le_am :: access_manager
  le_ord :: key_order

definition in_world :: "(world, 'a) prog \<Rightarrow> (lstate, 'a) prog" where
  "in_world m = zoomM wld (\<lambda>f s. s\<lparr>wld := f (wld s)\<rparr>) m"

definition in_reader :: "(rstate, 'a) prog \<Rightarrow> (lstate, 'a) prog" where
  "in_reader m = zoomM (\<lambda>s. (m_reader (shd s), wld s))
     (\<lambda>f s. case f (m_reader (shd s), wld s) of
        (rd, w) \<Rightarrow> s\<lparr>shd := (shd s)\<lparr>m_reader := rd\<rparr>, wld := w\<rparr>) m"

definition sectionAt :: "nat \<Rightarrow> (lstate, RSection) prog" where
  "sectionAt index = in_reader (sectionM index)"

definition sectionData :: "lenv \<Rightarrow> nat \<Rightarrow> (lstate, ptr) prog" where
  "sectionData L index = in_reader (sectionDataM (le_env L) (le_am L) index)"

definition sectionsNum :: "(lstate, nat) prog" where
  "sectionsNum = bindM (readM (\<lambda>s. m_reader (shd s))) (\<lambda>rd. liftM (getSectionsNum rd))"

definition on_ldr :: "(VPUXLoader \<Rightarrow> VPUXLoader) \<Rightarrow> (lstate, unit) prog" where
  "on_ldr f = modifyM (\<lambda>s. s\<lparr>ldr := f (ldr s)\<rparr>)"

definition on_shd :: "(LoaderShared \<Rightarrow> LoaderShared) \<Rightarrow> (lstate, unit) prog" where
  "on_shd f = modifyM (\<lambda>s. s\<lparr>shd := f (shd s)\<rparr>)"

definition inferInfo :: "nat \<Rightarrow> (lstate, BufferInfo) prog" where
  "inferInfo index =
     bindM (readM (\<lambda>s. m_inferBufferContainer (ldr s))) (\<lambda>c. liftM (getBufferInfoFromIndex index c))"

definition backupInfo :: "nat \<Rightarrow> (lstate, BufferInfo) prog" where
  "backupInfo index =
     bindM (readM (\<lambda>s. m_backupBufferContainer (ldr s))) (\<lambda>c. liftM (getBufferInfoFromIndex index c))"

text \<open>Assigning through the reference that \<^verbatim>\<open>getBufferInfoFromIndex\<close> or \<^verbatim>\<open>safeInit\<close> returned.\<close>

definition setInfer :: "nat \<Rightarrow> BufferInfo \<Rightarrow> (lstate, unit) prog" where
  "setInfer index info = on_ldr (m_inferBufferContainer_update (setBufferInfo index info))"

definition setBackup :: "nat \<Rightarrow> BufferInfo \<Rightarrow> (lstate, unit) prog" where
  "setBackup index info = on_ldr (m_backupBufferContainer_update (setBufferInfo index info))"

definition safeInitInfer :: "nat \<Rightarrow> (lstate, unit) prog" where
  "safeInitInfer index =
     bindM (readM (\<lambda>s. m_inferBufferContainer (ldr s))) (\<lambda>c.
     bindM (liftM (safeInitBufferInfoAtIndex index c)) (\<lambda>c'.
     on_ldr (m_inferBufferContainer_update (\<lambda>_. c'))))"

definition safeInitBackup :: "nat \<Rightarrow> (lstate, unit) prog" where
  "safeInitBackup index =
     bindM (readM (\<lambda>s. m_backupBufferContainer (ldr s))) (\<lambda>c.
     bindM (liftM (safeInitBufferInfoAtIndex index c)) (\<lambda>c'.
     on_ldr (m_backupBufferContainer_update (\<lambda>_. c'))))"

definition buildInfer :: "lenv \<Rightarrow> BufferSpecs \<Rightarrow> (lstate, bref) prog" where
  "buildInfer L bSpecs =
     bindM (readM (\<lambda>s. m_inferBufferContainer (ldr s))) (\<lambda>c.
     in_world (buildAllocatedDeviceBuffer (le_env L) c bSpecs))"

text \<open>\<^verbatim>\<open>ElfBufferLockGuard\<close> over code that also changes the loader.\<close>

definition guarded :: "lenv \<Rightarrow> bref option \<Rightarrow> (lstate, 'a) prog \<Rightarrow> (lstate, 'a) prog" where
  "guarded L devBuff body =
     (case devBuff of
        None \<Rightarrow> body
      | Some r \<Rightarrow> bindM (in_world (lock (le_env L) r)) (\<lambda>_.
          finallyM body (\<lambda>s. s\<lparr>wld := unlock (le_env L) r (wld s)\<rparr>)))"

text \<open>An element of an array that the code reaches through a pointer.\<close>

definition read_at :: "ptr \<Rightarrow> nat \<Rightarrow> (lstate, bytes) prog" where
  "read_at p n = in_world (bindM (readM memory) (\<lambda>m. liftM (read_mem p n m)))"

definition symbol_of :: "ptr \<Rightarrow> nat \<Rightarrow> (lstate, Elf64_Sym) prog" where
  "symbol_of p i = bindM (read_at (ptr_add p (24 * i)) 24) (\<lambda>bs. retM (dec_Elf64_Sym bs))"

definition relocation_of :: "ptr \<Rightarrow> nat \<Rightarrow> (lstate, Elf64_Rela) prog" where
  "relocation_of p i = bindM (read_at (ptr_add p (24 * i)) 24) (\<lambda>bs. retM (dec_Elf64_Rela bs))"

section \<open>The constructor\<close>

definition registerUserIO :: "ptr \<Rightarrow> nat \<Rightarrow> DeviceBuffer list \<Rightarrow> (lstate, DeviceBuffer list) prog" where
  "registerUserIO symbols symbolCount userIO =
     (if symbolCount \<le> 1 then retM userIO
      else mapM (\<lambda>symbolCtr. bindM (symbol_of symbols symbolCtr) (\<lambda>s.
             retM (DeviceBuffer_make Null 0 (st_size s)))) [1..<symbolCount])"

text \<open>
  The section is a copy: its data buffer is not kept. The arguments of \<^verbatim>\<open>registerUserIO\<close> are
  evaluated from left to right.
\<close>

definition fetchIO :: "lenv \<Rightarrow> RSection \<Rightarrow> DeviceBuffer list \<Rightarrow> (lstate, DeviceBuffer list) prog" where
  "fetchIO L section descriptors =
     throwM_when (descriptors \<noteq> []) SequenceError
     (bindM (in_world (getData (le_env L) (le_am L) section)) (\<lambda>(symbols, _).
      bindM (liftM (getEntriesNum section)) (\<lambda>symbolCount.
      registerUserIO symbols symbolCount descriptors)))"

definition earlyFetchIO :: "lenv \<Rightarrow> RSection \<Rightarrow> (lstate, unit) prog" where
  "earlyFetchIO L section =
     (let sectionFlags = sh_flags (rs_header section)
      in if sectionFlags AND VPU_SHF_USERINPUT \<noteq> 0
         then bindM (readM (\<lambda>s. m_userInputsDescriptors (shd s))) (\<lambda>d.
              bindM (fetchIO L section d) (\<lambda>d'. on_shd (m_userInputsDescriptors_update (\<lambda>_. d'))))
         else if sectionFlags AND VPU_SHF_USEROUTPUT \<noteq> 0
         then bindM (readM (\<lambda>s. m_userOutputsDescriptors (shd s))) (\<lambda>d.
              bindM (fetchIO L section d) (\<lambda>d'. on_shd (m_userOutputsDescriptors_update (\<lambda>_. d'))))
         else if sectionFlags AND VPU_SHF_PROFOUTPUT \<noteq> 0
         then bindM (readM (\<lambda>s. m_profOutputsDescriptors (shd s))) (\<lambda>d.
              bindM (fetchIO L section d) (\<lambda>d'. on_shd (m_profOutputsDescriptors_update (\<lambda>_. d'))))
         else retM ())"

text \<open>A section type that the map does not have dereferences its end.\<close>

definition registerSection :: "lenv \<Rightarrow> nat \<Rightarrow> (lstate, unit) prog" where
  "registerSection L sectionCtr =
     bindM (sectionAt sectionCtr) (\<lambda>section.
     let sectionType = sh_type (rs_header section)
     in bindM (on_shd (m_sectionMap_update (\<lambda>m. m(sectionType \<mapsto>
          (case m sectionType of None \<Rightarrow> [] | Some is \<Rightarrow> is) @ [sectionCtr])))) (\<lambda>_.
        case actionMap sectionType of
          None \<Rightarrow> throwM UndefinedBehaviour
        | Some action \<Rightarrow> if action = RegisterUserIO then earlyFetchIO L section else retM ()))"

definition registerPerfMetrics :: "(lstate, unit) prog" where
  "registerPerfMetrics = on_shd (m_sectionMap_update (\<lambda>m.
     if m VPU_SHT_PERF_METRICS = None then m(VPU_SHT_PERF_METRICS \<mapsto> []) else m))"

text \<open>
  Two members are not initialised by the constructor: their first values are arguments here.
\<close>

definition newLoader :: "bool \<Rightarrow> bool \<Rightarrow> bool \<Rightarrow> VPUXLoader" where
  "newLoader hasManager override0 explicit0 = \<lparr>
     m_inferBufferContainer = DeviceBufferContainer_new hasManager,
     m_backupBufferContainer = DeviceBufferContainer_new hasManager,
     m_runtimeSymTabs = [], m_symTabOverrideMode = override0, m_explicitAllocations = explicit0,
     m_loaded = False, m_symbolSectionTypes = [], m_inferencesMayBeRunInParallel = True,
     m_sharedScratchBuffers = []\<rparr>"

definition newShared :: "Reader \<Rightarrow> LoaderShared" where
  "newShared rd = \<lparr>
     m_reader = rd, m_relocationSectionIndexes = [], m_jitRelocations = [],
     m_userInputsDescriptors = [], m_userOutputsDescriptors = [], m_profOutputsDescriptors = [],
     m_sectionMap = \<lambda>_. None\<rparr>"

definition registerSections :: "lenv \<Rightarrow> (lstate, unit) prog" where
  "registerSections L =
     bindM sectionsNum (\<lambda>numSections.
     bindM (forM (registerSection L) [0..<numSections]) (\<lambda>_. registerPerfMetrics))"

definition VPUXLoader_new ::
    "lenv \<Rightarrow> bool \<Rightarrow> bool \<Rightarrow> bool \<Rightarrow> (world, VPUXLoader \<times> LoaderShared) prog" where
  "VPUXLoader_new L hasManager override0 explicit0 w =
     (case throwM_unless hasManager ArgsError (Reader_new (le_env L) (Some (le_am L))) w of
        (Inl e, w') \<Rightarrow> (Inl e, w')
      | (Inr rd, w') \<Rightarrow>
          (case registerSections L
             \<lparr>ldr = newLoader hasManager override0 explicit0, shd = newShared rd, wld = w'\<rparr> of
             (Inl e, s) \<Rightarrow> (Inl e, wld s)
           | (Inr _, s) \<Rightarrow> (Inr (ldr s, shd s), wld s)))"

section \<open>Relocations\<close>

text \<open>Patching in place: the relocation function works on the cell at the address.\<close>

definition applyRelocM :: "reloc_func \<Rightarrow> ptr \<Rightarrow> Elf64_Sym \<Rightarrow> u64 \<Rightarrow> (lstate, unit) prog" where
  "applyRelocM relocFunc targetAddr targetSym addend = in_world (\<lambda>w.
     (case targetAddr of
        Null \<Rightarrow> (Inl UndefinedBehaviour, w)
      | Ptr b off \<Rightarrow>
          if b < length (memory w)
          then (case applyReloc relocFunc off targetSym addend (snd (memory w ! b)) of
                  Inl e \<Rightarrow> (Inl e, w)
                | Inr bs \<Rightarrow> (Inr (), w\<lparr>memory := (memory w)[b := (fst (memory w ! b), bs)]\<rparr>))
          else (Inl UndefinedBehaviour, w)))"

text \<open>The symbol table of a relocation section: the runtime's, or a section's entries.\<close>

definition checkSectionType :: "Elf64_Shdr \<Rightarrow> u32 \<Rightarrow> bool" where
  "checkSectionType h secType \<longleftrightarrow> sh_type h = secType"

datatype symtab = RuntimeSymTab | SectionSymTab ptr nat

definition getSymTab :: "lenv \<Rightarrow> u32 \<Rightarrow> (lstate, symtab) prog" where
  "getSymTab L symTabIdx =
     (if symTabIdx = VPU_RT_SYMTAB then retM RuntimeSymTab
      else bindM (sectionAt (unat symTabIdx)) (\<lambda>symTabSection.
           bindM (liftM (getEntriesNum symTabSection)) (\<lambda>symTabEntries.
           throwM_unless (checkSectionType (rs_header symTabSection) SHT_SYMTAB) RelocError
           (bindM (sectionData L (unat symTabIdx)) (\<lambda>symTabs.
            retM (SectionSymTab symTabs symTabEntries))))))"

primrec symTabEntriesOf :: "symtab \<Rightarrow> nat" where
  "symTabEntriesOf RuntimeSymTab = 0"
| "symTabEntriesOf (SectionSymTab p n) = n"

definition runtimeSymbol :: "nat \<Rightarrow> (lstate, Elf64_Sym) prog" where
  "runtimeSymbol i =
     bindM (readM (\<lambda>s. m_runtimeSymTabs (ldr s))) (\<lambda>syms.
     throwM_unless (i < length syms) UndefinedBehaviour (retM (syms ! i)))"

primrec symTabAt :: "symtab \<Rightarrow> nat \<Rightarrow> (lstate, Elf64_Sym) prog" where
  "symTabAt RuntimeSymTab i = runtimeSymbol i"
| "symTabAt (SectionSymTab p n) i = symbol_of p i"

primrec indexOf :: "'a \<Rightarrow> 'a list \<Rightarrow> nat" where
  "indexOf x [] = 0"
| "indexOf x (y # ys) = (if y = x then 0 else Suc (indexOf x ys))"

text \<open>
  The symbol that a relocation uses: the value of a symbol of a loaded section is moved by the
  section's device address, a symbol of another section is replaced by the runtime symbol that
  stands at the place of the section's type.
\<close>

definition resolveSymbol :: "symtab \<Rightarrow> Elf64_Sym \<Rightarrow> (lstate, Elf64_Sym) prog" where
  "resolveSymbol tab targetSymbol =
     (let symbolTargetSectionIdx = unat (st_shndx targetSymbol)
      in bindM (readM (\<lambda>s. hasBufferInfoAtIndex symbolTargetSectionIdx (m_inferBufferContainer (ldr s))))
         (\<lambda>has.
         bindM (if has
                then bindM (inferInfo symbolTargetSectionIdx) (\<lambda>info.
                     in_world (bindM (deref (mBuffer info)) (\<lambda>r. readM (\<lambda>w. vpu_addr (getBuffer r w)))))
                else retM 0) (\<lambda>symValue.
         if symValue \<noteq> 0 \<or> tab = RuntimeSymTab
         then retM (targetSymbol\<lparr>st_value := st_value targetSymbol + symValue\<rparr>)
         else bindM (sectionAt symbolTargetSectionIdx) (\<lambda>section.
              bindM (readM (\<lambda>s. m_symbolSectionTypes (ldr s))) (\<lambda>types.
              runtimeSymbol (indexOf (sh_type (rs_header section)) types))))))"

definition applyRelocation ::
    "symtab \<Rightarrow> ptr \<Rightarrow> bref \<Rightarrow> ptr \<Rightarrow> nat \<Rightarrow> (lstate, unit) prog" where
  "applyRelocation tab relocations target targetSectionAddr relocIdx =
     bindM (relocation_of relocations relocIdx) (\<lambda>relocation.
     let relOffset = r_offset relocation;
         relSymIdx = elf64RSym (r_info relocation);
         relType = elf64RType (r_info relocation);
         addend = r_addend relocation
     in bindM (readM (\<lambda>s. buf_size (getBuffer target (wld s)))) (\<lambda>bufferSize.
        throwM_unless (relOffset < bufferSize) RelocError
        (bindM (readM (\<lambda>s. length (m_runtimeSymTabs (ldr s)))) (\<lambda>runtimeEntries.
         throwM_when (unat relSymIdx > symTabEntriesOf tab \<and> tab \<noteq> RuntimeSymTab \<or>
                      unat relSymIdx > runtimeEntries \<and> tab = RuntimeSymTab) RelocError
         (case relocationMap relType of
            None \<Rightarrow> throwM RelocError
          | Some relocFunc \<Rightarrow>
              bindM (symTabAt tab (unat relSymIdx)) (\<lambda>targetSymbol.
              bindM (resolveSymbol tab targetSymbol) (\<lambda>targetSymbol.
              applyRelocM relocFunc (ptr_add targetSectionAddr (unat relOffset)) targetSymbol addend)))))))"

text \<open>The target of a relocation section, which only counts when the flags say so.\<close>

definition relocationTarget :: "Elf64_Shdr \<Rightarrow> nat option" where
  "relocationTarget h =
     (if sh_flags h AND SHF_INFO_LINK \<noteq> 0 then Some (unat (sh_info h)) else None)"

definition applyRelocationSection :: "lenv \<Rightarrow> nat \<Rightarrow> (lstate, unit) prog" where
  "applyRelocationSection L relocationSectionIdx =
     bindM (sectionAt relocationSectionIdx) (\<lambda>relocSection.
     let relocSecHdr = rs_header relocSection
     in bindM (sectionData L relocationSectionIdx) (\<lambda>relocations.
        bindM (liftM (getEntriesNum relocSection)) (\<lambda>numRelocs.
        bindM sectionsNum (\<lambda>numSections.
        let symTabIdx = sh_link relocSecHdr
        in throwM_unless (unat symTabIdx < numSections \<or> symTabIdx = VPU_RT_SYMTAB) RangeError
           (bindM (getSymTab L symTabIdx) (\<lambda>symTabs.
            case relocationTarget relocSecHdr of
              None \<Rightarrow> throwM RelocError
            | Some targetSectionIdx \<Rightarrow>
                throwM_when (targetSectionIdx = 0 \<or> targetSectionIdx > numSections) RelocError
                (bindM (sectionAt targetSectionIdx) (\<lambda>_.
                 bindM (inferInfo targetSectionIdx) (\<lambda>targetInfo.
                 guarded L (mBuffer targetInfo)
                   (bindM (in_world (deref (mBuffer targetInfo))) (\<lambda>target.
                    bindM (readM (\<lambda>s. cpu_addr (getBuffer target (wld s)))) (\<lambda>targetSectionAddr.
                    forM (applyRelocation symTabs relocations target targetSectionAddr)
                      [0..<numRelocs]))))))))))))"

definition applyRelocations :: "lenv \<Rightarrow> nat list \<Rightarrow> (lstate, unit) prog" where
  "applyRelocations L relocationSectionIndexes =
     forM (applyRelocationSection L) relocationSectionIndexes"

text \<open>
  Just-in-time relocations patch addresses of the user's buffers. Symbol 0 reads the element before
  the first.
\<close>

definition applyJitRelocation ::
    "ptr \<Rightarrow> nat \<Rightarrow> DeviceBuffer list \<Rightarrow> ptr \<Rightarrow> bref \<Rightarrow> ptr \<Rightarrow> nat \<Rightarrow> (lstate, unit) prog" where
  "applyJitRelocation symTabs symTabSize userAddrs relocations target targetSectionAddr relocIdx =
     bindM (relocation_of relocations relocIdx) (\<lambda>relocation.
     let relOffset = r_offset relocation;
         symIdx = unat (elf64RSym (r_info relocation));
         relType = elf64RType (r_info relocation);
         addend = r_addend relocation
     in bindM (readM (\<lambda>s. buf_size (getBuffer target (wld s)))) (\<lambda>bufferSize.
        throwM_unless (relOffset < bufferSize) RelocError
        (throwM_when (symIdx > symTabSize) RelocError
        (throwM_when (symIdx > length userAddrs) RelocError
        (case relocationMap relType of
           None \<Rightarrow> throwM RelocError
         | Some relocFunc \<Rightarrow>
             bindM (symbol_of symTabs symIdx) (\<lambda>origSymbol.
             throwM_when (symIdx = 0) UndefinedBehaviour
             (let targetSymbol = \<lparr>st_name = 0, st_info = 0, st_other = 0, st_shndx = 0,
                    st_value = vpu_addr (userAddrs ! (symIdx - 1)), st_size = st_size origSymbol\<rparr>
              in applyRelocM relocFunc (ptr_add targetSectionAddr (unat relOffset)) targetSymbol
                   addend)))))))"

definition getUserAddrs ::
    "u64 \<Rightarrow> DeviceBuffer list \<Rightarrow> DeviceBuffer list \<Rightarrow> DeviceBuffer list \<Rightarrow> DeviceBuffer list res" where
  "getUserAddrs relocSecFlags inputs outputs profiling =
     (if relocSecFlags AND VPU_SHF_USERINPUT \<noteq> 0 then Inr inputs
      else if relocSecFlags AND VPU_SHF_USEROUTPUT \<noteq> 0 then Inr outputs
      else if relocSecFlags AND VPU_SHF_PROFOUTPUT \<noteq> 0 then Inr profiling
      else Inl RelocError)"

definition applyJitRelocationSection ::
    "lenv \<Rightarrow> DeviceBuffer list \<Rightarrow> DeviceBuffer list \<Rightarrow> DeviceBuffer list \<Rightarrow> nat \<Rightarrow> (lstate, unit) prog" where
  "applyJitRelocationSection L inputs outputs profiling relocationSectionIdx =
     bindM (sectionAt relocationSectionIdx) (\<lambda>relocSection.
     let relocSecHdr = rs_header relocSection
     in bindM (sectionData L relocationSectionIdx) (\<lambda>relocations.
        bindM (liftM (getEntriesNum relocSection)) (\<lambda>numRelocs.
        bindM sectionsNum (\<lambda>numSections.
        let symTabIdx = sh_link relocSecHdr
        in throwM_unless (unat symTabIdx < numSections) RangeError
           (throwM_when (symTabIdx = VPU_RT_SYMTAB) RelocError
           (bindM (sectionAt (unat symTabIdx)) (\<lambda>symTabSection.
            throwM_unless (checkSectionType (rs_header symTabSection) SHT_SYMTAB) RelocError
            (bindM (liftM (getEntriesNum symTabSection)) (\<lambda>symTabSize.
             bindM (sectionData L (unat symTabIdx)) (\<lambda>symTabs.
             bindM (liftM (getUserAddrs (sh_flags relocSecHdr) inputs outputs profiling)) (\<lambda>userAddrs.
             case relocationTarget relocSecHdr of
               None \<Rightarrow> throwM RelocError
             | Some targetSectionIdx \<Rightarrow>
                 bindM (inferInfo targetSectionIdx) (\<lambda>targetInfo.
                 guarded L (mBuffer targetInfo)
                   (bindM (in_world (deref (mBuffer targetInfo))) (\<lambda>target.
                    bindM (readM (\<lambda>s. cpu_addr (getBuffer target (wld s)))) (\<lambda>targetSectionAddr.
                    forM (applyJitRelocation symTabs symTabSize userAddrs relocations target
                      targetSectionAddr) [0..<numRelocs])))))))))))))))"

definition applyJitRelocations ::
    "lenv \<Rightarrow> DeviceBuffer list \<Rightarrow> DeviceBuffer list \<Rightarrow> DeviceBuffer list \<Rightarrow> (lstate, unit) prog" where
  "applyJitRelocations L inputs outputs profiling =
     bindM (readM (\<lambda>s. m_jitRelocations (shd s)))
       (forM (applyJitRelocationSection L inputs outputs profiling))"

section \<open>Loading\<close>

definition details :: "bool \<Rightarrow> bool \<Rightarrow> bool \<Rightarrow> BufferDetails" where
  "details hasData isShared isProcessed =
     \<lparr>mHasData = hasData, mIsShared = isShared, mIsProcessed = isProcessed\<rparr>"

definition sectionAction :: "u32 \<Rightarrow> Action res" where
  "sectionAction sectionType =
     (case actionMap sectionType of
        Some action \<Rightarrow> Inr action
      | None \<Rightarrow>
          if SHT_LOUSER \<le> sectionType \<and> sectionType \<le> SHT_HIUSER then Inr ActionNone
          else Inl ImplausibleState)"

text \<open>A section with file data: its buffer is made later, by \<^verbatim>\<open>loadBuffers\<close>.\<close>

definition loadDataSection :: "nat \<Rightarrow> Elf64_Shdr \<Rightarrow> (lstate, unit) prog" where
  "loadDataSection sectionCtr h =
     bindM (readM (\<lambda>s. m_explicitAllocations (ldr s))) (\<lambda>explicit.
     if explicit \<and> sh_flags h AND SHF_ALLOC = 0 then retM ()
     else bindM (safeInitInfer sectionCtr) (\<lambda>_.
          setInfer sectionCtr
            \<lparr>mBuffer = None, mBufferDetails = details True (sh_flags h AND SHF_WRITE = 0) False\<rparr>))"

definition loadScratchSection :: "lenv \<Rightarrow> nat \<Rightarrow> Elf64_Shdr \<Rightarrow> (lstate, unit) prog" where
  "loadScratchSection L sectionCtr h =
     bindM (readM (\<lambda>s. m_explicitAllocations (ldr s))) (\<lambda>explicit.
     if explicit \<and> sh_flags h AND SHF_ALLOC = 0 \<or> isNetworkIO (sh_flags h) then retM ()
     else throwM_when (sh_flags h AND SHF_WRITE = 0) SectionError
       (bindM (readM (\<lambda>s. m_inferencesMayBeRunInParallel (ldr s))) (\<lambda>parallel.
        let sectionFlags = (if \<not> parallel then sh_flags h OR SHARABLE_BUFFER_ENABLED else sh_flags h)
        in bindM (safeInitInfer sectionCtr) (\<lambda>_.
           bindM (buildInfer L (BufferSpecs_make (sh_addralign h) (sh_size h) sectionFlags)) (\<lambda>r.
           bindM (setInfer sectionCtr \<lparr>mBuffer = Some r, mBufferDetails = BufferDetails_default\<rparr>) (\<lambda>_.
           bindM (readM (\<lambda>s. cpu_addr (getBuffer r (wld s)))) (\<lambda>addr.
           bindM (if addr = Null
                  then on_ldr (m_sharedScratchBuffers_update (\<lambda>xs. xs @ [sectionCtr]))
                  else retM ()) (\<lambda>_.
           setInfer sectionCtr \<lparr>mBuffer = Some r, mBufferDetails = details False False True\<rparr>))))))))"

definition registerRelocation :: "lenv \<Rightarrow> nat \<Rightarrow> Elf64_Shdr \<Rightarrow> (lstate, unit) prog" where
  "registerRelocation L sectionCtr h =
     (if sh_flags h AND VPU_SHF_JIT \<noteq> 0
      then bindM (sectionData L sectionCtr) (\<lambda>_.
           on_shd (m_jitRelocations_update (\<lambda>xs. xs @ [sectionCtr])))
      else on_shd (m_relocationSectionIndexes_update (\<lambda>xs. xs @ [sectionCtr])))"

definition loadSection :: "lenv \<Rightarrow> nat \<Rightarrow> (lstate, unit) prog" where
  "loadSection L sectionCtr =
     bindM (sectionAt sectionCtr) (\<lambda>section.
     let h = rs_header section
     in bindM (liftM (sectionAction (sh_type h))) (\<lambda>action.
        case action of
          AllocateAndLoad \<Rightarrow> loadDataSection sectionCtr h
        | Allocate \<Rightarrow> loadScratchSection L sectionCtr h
        | Relocate \<Rightarrow> registerRelocation L sectionCtr h
        | ActionError \<Rightarrow> throwM SectionError
        | RegisterUserIO \<Rightarrow> bindM (sectionData L sectionCtr) (\<lambda>_. retM ())
        | ActionNone \<Rightarrow> retM ()
        | _ \<Rightarrow> throwM ImplausibleState))"

definition updateSharedBuffer :: "nat \<Rightarrow> (lstate, unit) prog" where
  "updateSharedBuffer relocationSectionIdx =
     bindM (sectionAt relocationSectionIdx) (\<lambda>relocSection.
     case relocationTarget (rs_header relocSection) of
       None \<Rightarrow> throwM RelocError
     | Some targetSectionIdx \<Rightarrow>
         bindM sectionsNum (\<lambda>numSections.
         throwM_when (targetSectionIdx = 0 \<or> targetSectionIdx > numSections) RelocError
         (bindM (inferInfo targetSectionIdx) (\<lambda>info.
          if \<not> mIsProcessed (mBufferDetails info)
          then setInfer targetSectionIdx
                 (info\<lparr>mBufferDetails := (mBufferDetails info)\<lparr>mIsShared := False\<rparr>\<rparr>)
          else retM ()))))"

definition updateSharedBuffers :: "nat list \<Rightarrow> (lstate, unit) prog" where
  "updateSharedBuffers relocationSectionIndexes = forM updateSharedBuffer relocationSectionIndexes"

definition sectionBuffer :: "lenv \<Rightarrow> bool \<Rightarrow> nat \<Rightarrow> (lstate, bref option) prog" where
  "sectionBuffer L cpuOnlyAccess index =
     bindM (sectionAt index) (\<lambda>section.
     in_world (getDataBuffer (le_env L) (le_am L) cpuOnlyAccess section))"

definition loadBuffer :: "lenv \<Rightarrow> nat \<Rightarrow> (lstate, unit) prog" where
  "loadBuffer L bufferIndex =
     bindM (inferInfo bufferIndex) (\<lambda>bufferInfo.
     let processed = (\<lambda>buf. setInfer bufferIndex \<lparr>mBuffer = buf, mBufferDetails =
           (mBufferDetails bufferInfo)\<lparr>mIsProcessed := True\<rparr>\<rparr>)
     in if mIsProcessed (mBufferDetails bufferInfo) then retM ()
        else bindM (sectionAt bufferIndex) (\<lambda>section.
          if mIsShared (mBufferDetails bufferInfo)
          then bindM (sectionBuffer L False bufferIndex) processed
          else bindM (safeInitBackup bufferIndex) (\<lambda>_.
               bindM (sectionBuffer L True bufferIndex) (\<lambda>backup.
               bindM (setBackup bufferIndex
                 \<lparr>mBuffer = backup, mBufferDetails = BufferDetails_default\<rparr>) (\<lambda>_.
               bindM (guarded L backup
                 (bindM (in_world (deref backup)) (\<lambda>b.
                  bindM (readM (\<lambda>s. getBufferSpecs b (wld s))) (\<lambda>bufferSpecs.
                  bindM (buildInfer L (bufferSpecs\<lparr>procFlags := sh_flags (rs_header section)\<rparr>)) (\<lambda>r.
                  bindM (setInfer bufferIndex (bufferInfo\<lparr>mBuffer := Some r\<rparr>)) (\<lambda>_.
                  bindM (readM (\<lambda>s. getBuffer b (wld s))) (\<lambda>db.
                  bindM (in_world (loadWithLock (le_env L) r (cpu_addr db) (buf_size db))) (\<lambda>_.
                  bindM (setBackup bufferIndex
                    \<lparr>mBuffer = backup, mBufferDetails = details True True True\<rparr>) (\<lambda>_.
                  retM r))))))))) (\<lambda>r. processed (Some r)))))))"

definition loadBuffers :: "lenv \<Rightarrow> (lstate, unit) prog" where
  "loadBuffers L =
     bindM (readM (\<lambda>s. container_keys (le_ord L) (m_inferBufferContainer (ldr s))))
       (forM (loadBuffer L))"

definition load ::
    "lenv \<Rightarrow> Elf64_Sym list \<Rightarrow> bool \<Rightarrow> u32 list \<Rightarrow> (lstate, unit) prog" where
  "load L runtimeSymTabs symTabOverrideMode symbolSectionTypes =
     bindM (readM (\<lambda>s. m_loaded (ldr s))) (\<lambda>loaded.
     throwM_when loaded SequenceError
     (bindM (on_ldr (\<lambda>l. l\<lparr>m_runtimeSymTabs := runtimeSymTabs,
         m_symTabOverrideMode := symTabOverrideMode, m_explicitAllocations := symTabOverrideMode,
         m_symbolSectionTypes := symbolSectionTypes\<rparr>)) (\<lambda>_.
      bindM sectionsNum (\<lambda>numSections.
      bindM (forM (loadSection L) [0..<numSections]) (\<lambda>_.
      bindM (readM (\<lambda>s. m_relocationSectionIndexes (shd s))) (\<lambda>relocs.
      bindM (updateSharedBuffers relocs) (\<lambda>_.
      bindM (readM (\<lambda>s. m_jitRelocations (shd s))) (\<lambda>jits.
      bindM (updateSharedBuffers jits) (\<lambda>_.
      bindM (loadBuffers L) (\<lambda>_.
      bindM (readM (\<lambda>s. m_sharedScratchBuffers (ldr s))) (\<lambda>scratch.
      bindM (if scratch = [] then applyRelocations L relocs else retM ()) (\<lambda>_.
      on_ldr (m_loaded_update (\<lambda>_. True))))))))))))))"

section \<open>Copying\<close>

definition reloadNewBuffer :: "lenv \<Rightarrow> nat \<Rightarrow> (lstate, unit) prog" where
  "reloadNewBuffer L sectionIndex =
     bindM (inferInfo sectionIndex) (\<lambda>inferBufferInfo.
     if mHasData (mBufferDetails inferBufferInfo) \<and> \<not> mIsShared (mBufferDetails inferBufferInfo)
     then bindM (backupInfo sectionIndex) (\<lambda>backupBufferInfo.
          guarded L (mBuffer backupBufferInfo)
            (bindM (in_world (deref (mBuffer backupBufferInfo))) (\<lambda>b.
             bindM (in_world (deref (mBuffer inferBufferInfo))) (\<lambda>r.
             bindM (readM (\<lambda>s. getBuffer b (wld s))) (\<lambda>from.
             bindM (readM (\<lambda>s. getBuffer r (wld s))) (\<lambda>to.
             throwM_unless (buf_size from = buf_size to) RuntimeError
             (in_world (loadWithLock (le_env L) r (cpu_addr from) (buf_size to)))))))))
     else retM ())"

definition reloadNewBuffers :: "lenv \<Rightarrow> (lstate, unit) prog" where
  "reloadNewBuffers L =
     bindM (readM (\<lambda>s. container_keys (le_ord L) (m_inferBufferContainer (ldr s))))
       (forM (reloadNewBuffer L))"

definition reloadAndRelocate :: "lenv \<Rightarrow> (lstate, unit) prog" where
  "reloadAndRelocate L =
     bindM (reloadNewBuffers L) (\<lambda>_.
     bindM (readM (\<lambda>s. m_relocationSectionIndexes (shd s))) (applyRelocations L))"

text \<open>
  The two copy constructors: the copy of \<open>other\<close>, with its runtime symbols or with the given ones.
\<close>

definition VPUXLoader_copy ::
    "lenv \<Rightarrow> Elf64_Sym list option \<Rightarrow> VPUXLoader \<Rightarrow> (LoaderShared \<times> world, VPUXLoader) prog" where
  "VPUXLoader_copy L runtimeSymTabs other = (\<lambda>(sh, w).
     (case bindM (DeviceBufferContainer_copy (le_env L) (le_ord L) (m_inferBufferContainer other)) (\<lambda>infer.
           bindM (DeviceBufferContainer_copy (le_env L) (le_ord L) (m_backupBufferContainer other))
             (\<lambda>backup. retM (infer, backup))) w of
        (Inl e, w') \<Rightarrow> (Inl e, (sh, w'))
      | (Inr (infer, backup), w') \<Rightarrow>
          (case reloadAndRelocate L \<lparr>
             ldr = other\<lparr>m_inferBufferContainer := infer, m_backupBufferContainer := backup,
               m_runtimeSymTabs := (case runtimeSymTabs of
                  None \<Rightarrow> m_runtimeSymTabs other | Some syms \<Rightarrow> syms)\<rparr>,
             shd = sh, wld = w'\<rparr> of
             (Inl e, s) \<Rightarrow> (Inl e, (shd s, wld s))
           | (Inr _, s) \<Rightarrow> (Inr (ldr s), (shd s, wld s)))))"

text \<open>Assignment, for two different loaders; assigning a loader to itself does nothing.\<close>

definition assignContainers :: "lenv \<Rightarrow> VPUXLoader \<Rightarrow> (lstate, unit) prog" where
  "assignContainers L other s =
     (case DeviceBufferContainer_assign (le_env L) (le_ord L) False (m_inferBufferContainer other)
             (m_inferBufferContainer (ldr s), wld s) of
        (r, (infer, w1)) \<Rightarrow>
          (let s1 = s\<lparr>ldr := (ldr s)\<lparr>m_inferBufferContainer := infer\<rparr>, wld := w1\<rparr>
           in case r of
                Inl e \<Rightarrow> (Inl e, s1)
              | Inr _ \<Rightarrow>
                  (case DeviceBufferContainer_assign (le_env L) (le_ord L) False
                          (m_backupBufferContainer other) (m_backupBufferContainer (ldr s1), w1) of
                     (r, (backup, w2)) \<Rightarrow>
                       (r, s1\<lparr>ldr := (ldr s1)\<lparr>m_backupBufferContainer := backup\<rparr>, wld := w2\<rparr>))))"

definition VPUXLoader_assign :: "lenv \<Rightarrow> VPUXLoader \<Rightarrow> LoaderShared \<Rightarrow> (lstate, unit) prog" where
  "VPUXLoader_assign L other otherShared =
     bindM (on_shd (m_reader_update (\<lambda>_. m_reader otherShared))) (\<lambda>_.
     bindM (assignContainers L other) (\<lambda>_.
     bindM (on_shd (\<lambda>_. otherShared)) (\<lambda>_.
     bindM (on_ldr (\<lambda>l. other\<lparr>m_inferBufferContainer := m_inferBufferContainer l,
       m_backupBufferContainer := m_backupBufferContainer l\<rparr>)) (\<lambda>_.
     reloadAndRelocate L))))"

section \<open>Accessors\<close>

primrec findEntry :: "ptr \<Rightarrow> nat list \<Rightarrow> (lstate, nat option) prog" where
  "findEntry symTabs [] = retM None"
| "findEntry symTabs (i # is) =
     bindM (symbol_of symTabs i) (\<lambda>symTab.
     if elf64STType (ucast (st_info symTab)) = ucast VPU_STT_ENTRY
     then retM (Some (unat (st_shndx symTab))) else findEntry symTabs is)"

primrec getEntryFrom :: "lenv \<Rightarrow> nat list \<Rightarrow> (lstate, bref option) prog" where
  "getEntryFrom L [] = throwM ImplausibleState"
| "getEntryFrom L (i # is) =
     bindM (sectionAt i) (\<lambda>section.
     if sh_type (rs_header section) = SHT_SYMTAB
     then bindM (liftM (getEntriesNum section)) (\<lambda>symTabsSize.
          bindM (sectionData L i) (\<lambda>symTabs.
          bindM (findEntry symTabs [0..<symTabsSize]) (\<lambda>found.
          case found of
            Some secIndx \<Rightarrow> bindM (inferInfo secIndx) (\<lambda>info. retM (mBuffer info))
          | None \<Rightarrow> getEntryFrom L is)))
     else getEntryFrom L is)"

definition getEntry :: "lenv \<Rightarrow> (lstate, bref option) prog" where
  "getEntry L = bindM sectionsNum (\<lambda>numSections. getEntryFrom L [0..<numSections])"

definition getAllocatedBuffers :: "lenv \<Rightarrow> (lstate, DeviceBuffer list) prog" where
  "getAllocatedBuffers L =
     bindM (readM (\<lambda>s. m_inferBufferContainer (ldr s))) (\<lambda>c.
     in_world (getBuffersAsVector (le_ord L) c))"

definition getInputBuffers :: "(lstate, DeviceBuffer list) prog" where
  "getInputBuffers = readM (\<lambda>s. m_userInputsDescriptors (shd s))"

definition getOutputBuffers :: "(lstate, DeviceBuffer list) prog" where
  "getOutputBuffers = readM (\<lambda>s. m_userOutputsDescriptors (shd s))"

definition getProfBuffers :: "(lstate, DeviceBuffer list) prog" where
  "getProfBuffers = readM (\<lambda>s. m_profOutputsDescriptors (shd s))"

definition getInferencesMayBeRunInParallel :: "(lstate, bool) prog" where
  "getInferencesMayBeRunInParallel = readM (\<lambda>s. m_inferencesMayBeRunInParallel (ldr s))"

definition getSectionsOfType :: "lenv \<Rightarrow> u32 \<Rightarrow> (lstate, bref option list) prog" where
  "getSectionsOfType L type =
     throwM_when (\<not> hasMemoryFootprint type) RuntimeError
     (bindM (readM (\<lambda>s. m_sectionMap (shd s) type)) (\<lambda>indexes.
      case indexes of
        None \<Rightarrow> throwM RangeError
      | Some is \<Rightarrow> mapM (sectionBuffer L False) is))"

definition setInferencesMayBeRunInParallel :: "bool \<Rightarrow> (lstate, unit) prog" where
  "setInferencesMayBeRunInParallel b = on_ldr (m_inferencesMayBeRunInParallel_update (\<lambda>_. b))"

definition updateSharedScratchBuffers :: "lenv \<Rightarrow> DeviceBuffer list \<Rightarrow> (lstate, unit) prog" where
  "updateSharedScratchBuffers L buffers =
     bindM (readM (\<lambda>s. m_sharedScratchBuffers (ldr s))) (\<lambda>scratch.
     throwM_when (length scratch \<noteq> length buffers) RuntimeError
     (if scratch = [] then retM ()
      else bindM (reloadNewBuffers L) (\<lambda>_.
           bindM (forM (\<lambda>(index, buffer).
             bindM (inferInfo index) (\<lambda>info.
             in_world (bindM (deref (mBuffer info)) (\<lambda>r. resetBuffer r buffer)))) (zip scratch buffers)) (\<lambda>_.
           bindM (readM (\<lambda>s. m_relocationSectionIndexes (shd s))) (applyRelocations L)))))"

end
