(* ===== verification/Elf_Hoare.thy ===== *)
theory Elf_Hoare imports Elf_Monad begin

text \<open>
  Triples for programs: from a state where \<open>P\<close> holds, a program ends in a state that \<open>R\<close> relates to
  the first one, however it ends, and if it returns \<open>v\<close>, then \<open>Q v\<close> holds. The rules are proved once,
  for every relation that can be carried along a program, and are interpreted with it.
\<close>

definition triple ::
    "('s \<Rightarrow> elf_error option \<Rightarrow> 's \<Rightarrow> bool) \<Rightarrow> ('s \<Rightarrow> bool) \<Rightarrow> ('s, 'a) prog \<Rightarrow> ('a \<Rightarrow> 's \<Rightarrow> bool) \<Rightarrow> bool" where
  "triple R P m Q \<longleftrightarrow>
     (\<forall>s x t. P s \<longrightarrow> m s = (x, t) \<longrightarrow> R s (outcome x) t \<and> (\<forall>v. x = Inr v \<longrightarrow> Q v t))"

lemma tripleI:
  "(\<And>s x t. P s \<Longrightarrow> m s = (x, t) \<Longrightarrow> R s (outcome x) t \<and> (\<forall>v. x = Inr v \<longrightarrow> Q v t)) \<Longrightarrow> triple R P m Q"
  by (simp add: triple_def)

lemma triple_rel: "triple R P m Q \<Longrightarrow> P s \<Longrightarrow> m s = (x, t) \<Longrightarrow> R s (outcome x) t"
  by (simp add: triple_def)

lemma triple_post: "triple R P m Q \<Longrightarrow> P s \<Longrightarrow> m s = (Inr v, t) \<Longrightarrow> Q v t"
  by (auto simp: triple_def)

lemma triple_conseq:
  "triple R P' m Q' \<Longrightarrow> (\<And>s. P s \<Longrightarrow> P' s) \<Longrightarrow> (\<And>v s. Q' v s \<Longrightarrow> Q v s) \<Longrightarrow> triple R P m Q"
  unfolding triple_def by blast

lemma triple_pre: "triple R P' m Q \<Longrightarrow> (\<And>s. P s \<Longrightarrow> P' s) \<Longrightarrow> triple R P m Q"
  by (rule triple_conseq)

lemma triple_split: "triple R P m Q \<Longrightarrow> triple R P m Q' \<Longrightarrow> triple R P m (\<lambda>v s. Q v s \<and> Q' v s)"
  by (simp add: triple_def)

lemma bindM_retM_right: "bindM m retM = m"
  by (rule ext) (auto simp: bindM_def retM_def split: prod.splits sum.splits)

text \<open>Facts that do not depend on the state.\<close>

lemma triple_fact: "(F \<Longrightarrow> triple R P m Q) \<Longrightarrow> triple R (\<lambda>s. F \<and> P s) m Q"
  unfolding triple_def by blast

lemma triple_ex: "(\<And>a. triple R (P a) m Q) \<Longrightarrow> triple R (\<lambda>s. \<exists>a. P a s) m Q"
  by (fastforce simp: triple_def)

context step_relation
begin

lemma t_ret: "triple R (Q v) (retM v) Q"
  by (simp add: triple_def retM_def R_refl)

lemma t_read: "triple R P (readM f) (\<lambda>v s. v = f s \<and> P s)"
  by (simp add: triple_def readM_def R_refl)

lemma t_bind:
  assumes "triple R P m Q" and "\<And>v. triple R (Q v) (f v) S"
  shows "triple R P (bindM m f) S"
proof (rule tripleI)
  fix s x u
  assume P: "P s" and run: "bindM m f s = (x, u)"
  from run show "R s (outcome x) u \<and> (\<forall>v. x = Inr v \<longrightarrow> S v u)"
  proof (cases rule: bindM_cases)
    case (err e)
    then show ?thesis using triple_rel [OF assms(1) P err(1)] by simp
  next
    case (ok v t)
    have "R s None t" using triple_rel [OF assms(1) P ok(1)] by simp
    moreover have "R t (outcome x) u" "\<And>v'. x = Inr v' \<Longrightarrow> S v' u"
      using triple_rel [OF assms(2) triple_post [OF assms(1) P ok(1)] ok(2)]
        triple_post [OF assms(2) triple_post [OF assms(1) P ok(1)]] ok(2) by auto
    ultimately show ?thesis using R_trans by blast
  qed
qed

lemma t_if: "(c \<Longrightarrow> triple R P k Q) \<Longrightarrow> (\<not> c \<Longrightarrow> triple R P l Q) \<Longrightarrow> triple R P (if c then k else l) Q"
  by simp

lemma t_option:
  "(v = None \<Longrightarrow> triple R P k Q) \<Longrightarrow> (\<And>x. v = Some x \<Longrightarrow> triple R P (f x) Q) \<Longrightarrow>
    triple R P (case v of None \<Rightarrow> k | Some x \<Rightarrow> f x) Q"
  by (simp split: option.splits)

lemma t_for:
  "(\<And>x. x \<in> set xs \<Longrightarrow> triple R P (f x) (\<lambda>_. P)) \<Longrightarrow> triple R P (forM f xs) (\<lambda>_. P)"
proof (induction xs)
  case Nil
  show ?case using t_ret [of "\<lambda>_. P"] by simp
next
  case (Cons x xs)
  have "triple R P (f x) (\<lambda>_. P)" "triple R P (forM f xs) (\<lambda>_. P)" using Cons by simp_all
  then show ?case by (simp add: t_bind)
qed

text \<open>A loop over indexes whose invariant counts the rounds.\<close>

lemma t_upto:
  assumes "\<And>i. i < n \<Longrightarrow> triple R (P i) (f i) (\<lambda>_. P (Suc i))"
  shows "triple R (P 0) (forM f [0..<n]) (\<lambda>_. P n)"
  using assms
proof (induction n)
  case 0
  show ?case using t_ret [of "\<lambda>_. P 0"] by simp
next
  case (Suc n)
  have "triple R (P 0) (forM f [0..<n]) (\<lambda>_. P n)" using Suc by simp
  moreover have "triple R (P n) (forM f [n]) (\<lambda>_. P (Suc n))"
    using Suc.prems [of n] by (simp add: bindM_retM_right)
  ultimately show ?case by (simp add: forM_append t_bind)
qed

lemma t_mapM_upto:
  assumes "\<And>i. i < n \<Longrightarrow> triple R (P i) (f i) (\<lambda>_. P (Suc i))"
  shows "triple R (P 0) (mapM f [0..<n]) (\<lambda>_. P n)"
proof -
  have "triple R (P i) (mapM f [i..<n]) (\<lambda>_. P n)" if "i \<le> n" for i
    using that
  proof (induction "n - i" arbitrary: i)
    case 0
    then show ?case using t_ret [of "\<lambda>_. P n"] by simp
  next
    case (Suc k)
    then have i: "i < n" "k = n - Suc i" by simp_all
    have "triple R (P (Suc i)) (mapM f [Suc i..<n]) (\<lambda>_. P n)" using Suc.hyps(1) [OF i(2)] i(1) by simp
    then have "triple R (P (Suc i)) (bindM (mapM f [Suc i..<n]) (\<lambda>ys. retM (y # ys))) (\<lambda>_. P n)" for y
      by (rule t_bind) (rule t_ret)
    then show ?case using assms [OF i(1)] i(1) by (simp add: upt_conv_Cons t_bind)
  qed
  then show ?thesis by simp
qed

text \<open>A loop over a list whose invariant says which elements are done.\<close>

lemma t_prefix:
  assumes "\<And>ys x zs. xs = ys @ x # zs \<Longrightarrow> triple R (P ys) (f x) (\<lambda>_. P (ys @ [x]))"
  shows "triple R (P []) (forM f xs) (\<lambda>_. P xs)"
  using assms
proof (induction xs rule: rev_induct)
  case Nil
  show ?case using t_ret [of "\<lambda>_. P []"] by simp
next
  case (snoc x xs)
  have "triple R (P ys) (f y) (\<lambda>_. P (ys @ [y]))" if "xs = ys @ y # zs" for ys y zs
    by (rule snoc.prems [of ys y "zs @ [x]"]) (simp add: that)
  then have "triple R (P []) (forM f xs) (\<lambda>_. P xs)" by (rule snoc.IH)
  moreover have "triple R (P xs) (forM f [x]) (\<lambda>_. P (xs @ [x]))"
    using snoc.prems [of xs x "[]"] by (simp add: bindM_retM_right)
  ultimately show ?case by (simp add: forM_append t_bind)
qed

lemma t_relates: "relates R m \<Longrightarrow> (\<And>s t v. P s \<Longrightarrow> m s = (Inr v, t) \<Longrightarrow> Q v t) \<Longrightarrow> triple R P m Q"
  by (auto simp: triple_def dest: relatesD)

lemma t_modify: "(\<And>s. P s \<Longrightarrow> R s None (f s) \<and> Q (f s)) \<Longrightarrow> triple R P (modifyM f) (\<lambda>_. Q)"
  by (simp add: triple_def modifyM_def)

end

context state_relation
begin

lemma t_throw: "triple R P (throwM e) Q"
  by (simp add: triple_def throwM_def R_err)

lemma t_lift: "triple R P (liftM r) (\<lambda>v s. r = Inr v \<and> P s)"
  by (cases r) (simp_all add: triple_def liftM_def R_refl R_err)

lemma t_when: "(\<not> c \<Longrightarrow> triple R P k Q) \<Longrightarrow> triple R P (throwM_when c e k) Q"
  by (cases c) (simp_all add: t_throw)

lemma t_unless: "(c \<Longrightarrow> triple R P k Q) \<Longrightarrow> triple R P (throwM_unless c e k) Q"
  by (cases c) (simp_all add: t_throw)

end

text \<open>The relation that allows everything: partial correctness.\<close>

interpretation any: state_relation "\<lambda>_ _ _. True"
  by unfold_locales simp_all

end
