(* ===== verification/Elf_Loader_Frame.thy ===== *)
theory Elf_Loader_Frame imports Elf_Loader Elf_Reader_Props Elf_Hoare begin

text \<open>
  What the loader's programs leave alone. The section table and the descriptors of the user's buffers
  never change after construction, whatever is called; and
  memory is only ever written in the buffers that a program owns: \<open>grows_from N\<close> says that blocks
  below \<open>N\<close> keep their bytes and that existing buffer objects stay as they are.
\<close>

section \<open>The section table\<close>

definition table_kept :: "lstate \<Rightarrow> elf_error option \<Rightarrow> lstate \<Rightarrow> bool" where
  "table_kept s x t \<longleftrightarrow>
     mSectionHeaders (m_reader (shd t)) = mSectionHeaders (m_reader (shd s)) \<and>
     mSectionNames (m_reader (shd t)) = mSectionNames (m_reader (shd s)) \<and>
     mElfHeader (m_reader (shd t)) = mElfHeader (m_reader (shd s)) \<and>
     m_userInputsDescriptors (shd t) = m_userInputsDescriptors (shd s) \<and>
     m_userOutputsDescriptors (shd t) = m_userOutputsDescriptors (shd s) \<and>
     m_profOutputsDescriptors (shd t) = m_profOutputsDescriptors (shd s) \<and>
     (reader_ok (m_reader (shd s)) \<longrightarrow> reader_ok (m_reader (shd t)))"

interpretation table: state_relation table_kept
  by unfold_locales (auto simp: table_kept_def)

lemma table_in_world: "relates table_kept (in_world m)"
  by (auto simp: relates_def in_world_def zoomM_def table_kept_def split: prod.splits)

lemma getSection_frame:
  assumes "getSection i rd = (r, rd')"
  shows "mSectionHeaders rd' = mSectionHeaders rd" "mSectionNames rd' = mSectionNames rd"
    "mElfHeader rd' = mElfHeader rd"
  using assms by (auto simp: getSection_def Let_def split: if_splits option.splits)

lemma table_sectionAt: "relates table_kept (sectionAt i)"
proof (rule relatesI)
  fix s x t
  assume "sectionAt i s = (x, t)"
  then obtain rd' where g: "getSection i (m_reader (shd s)) = (x, rd')" and t: "shd t = (shd s)\<lparr>m_reader := rd'\<rparr>"
    by (auto simp: sectionAt_def in_reader_def zoomM_def sectionM_def split: prod.splits)
  show "table_kept s (outcome x) t"
    using getSection_frame [OF g] getSection_spec(1) [OF _ g] by (simp add: table_kept_def t)
qed

lemma getData_header: "getData E am s w = (Inr (p, s'), w') \<Longrightarrow> rs_header s' = rs_header s \<and> rs_name s' = rs_name s"
  by (auto simp: getData_def bindM_Inr_iff readM_def)

lemma sectionDataM_cases:
  assumes "sectionDataM E am i (rd, w) = (x, (rd', w'))"
  obtains (err) e where "x = Inl e" and "rd' = snd (getSection i rd)"
      and "(fst (getSection i rd) = Inl e \<and> w' = w) \<or>
           (\<exists>s. fst (getSection i rd) = Inr s \<and> getData E am s w = (Inl e, w'))"
    | (ok) s p s' where "x = Inr p" and "fst (getSection i rd) = Inr s" and "getData E am s w = (Inr (p, s'), w')"
      and "rd' = (snd (getSection i rd))\<lparr>mSectionsCache := (mSectionsCache (snd (getSection i rd)))(i \<mapsto> s')\<rparr>"
  using assms
  by (auto simp: sectionDataM_def bindM_def sectionM_def on_world_def zoomM_def modifyM_def retM_def
      split: prod.splits sum.splits)

lemma table_sectionData: "relates table_kept (sectionData L i)"
proof (rule relatesI)
  fix s x t
  assume "sectionData L i s = (x, t)"
  then obtain rd' w' where d: "sectionDataM (le_env L) (le_am L) i (m_reader (shd s), wld s) = (x, (rd', w'))"
    and t: "shd t = (shd s)\<lparr>m_reader := rd'\<rparr>"
    by (auto simp: sectionData_def in_reader_def zoomM_def split: prod.splits)
  obtain r rd1 where g: "getSection i (m_reader (shd s)) = (r, rd1)" by (cases "getSection i (m_reader (shd s))")
  note f = getSection_frame [OF g]
  from d show "table_kept s (outcome x) t"
  proof (cases rule: sectionDataM_cases)
    case (err e)
    then show ?thesis using f getSection_spec(1) [OF _ g] g by (simp add: table_kept_def t)
  next
    case (ok sec p sec')
    have "reader_ok rd'" if "reader_ok (m_reader (shd s))"
      using getSection_spec(1) [OF that g] getSection_spec(5) [OF that g, of sec] ok(2,4) g
        getData_header [OF ok(3)]
      by (auto simp: reader_ok_def)
    then show ?thesis using f ok(4) g by (simp add: table_kept_def t)
  qed
qed

lemma table_sectionsNum: "relates table_kept sectionsNum"
  unfolding sectionsNum_def by (intro table.rel_rules)

lemma table_on_ldr: "relates table_kept (on_ldr f)"
  by (simp add: relates_def on_ldr_def modifyM_def table_kept_def)

lemma table_on_shd: "(\<And>sh. m_reader (f sh) = m_reader sh \<and>
    m_userInputsDescriptors (f sh) = m_userInputsDescriptors sh \<and>
    m_userOutputsDescriptors (f sh) = m_userOutputsDescriptors sh \<and>
    m_profOutputsDescriptors (f sh) = m_profOutputsDescriptors sh) \<Longrightarrow> relates table_kept (on_shd f)"
  by (simp add: relates_def on_shd_def modifyM_def table_kept_def)

lemma table_guarded: "relates table_kept body \<Longrightarrow> relates table_kept (guarded L b body)"
proof (cases b)
  case (Some r)
  assume body: "relates table_kept body"
  have "relates table_kept (finallyM body (\<lambda>s. s\<lparr>wld := unlock (le_env L) r (wld s)\<rparr>))"
  proof (rule relatesI)
    fix s x t
    assume "finallyM body (\<lambda>s. s\<lparr>wld := unlock (le_env L) r (wld s)\<rparr>) s = (x, t)"
    then obtain t' where "body s = (x, t')" "shd t = shd t'" by (auto simp: finallyM_def split: prod.splits)
    then show "table_kept s (outcome x) t" using relatesD [OF body, of s x t'] by (simp add: table_kept_def)
  qed
  then show ?thesis by (simp add: guarded_def Some table.rel_bind table_in_world)
qed (simp add: guarded_def)

lemma table_containers:
  "relates table_kept (inferInfo i)" "relates table_kept (backupInfo i)"
  "relates table_kept (setInfer i info)" "relates table_kept (setBackup i info)"
  "relates table_kept (safeInitInfer i)" "relates table_kept (safeInitBackup i)"
  "relates table_kept (buildInfer L specs)" "relates table_kept (read_at p n)"
  "relates table_kept (symbol_of p i)" "relates table_kept (relocation_of p i)"
  "relates table_kept (applyRelocM f p y a)" "relates table_kept (runtimeSymbol i)"
  unfolding inferInfo_def backupInfo_def setInfer_def setBackup_def safeInitInfer_def
    safeInitBackup_def buildInfer_def read_at_def symbol_of_def relocation_of_def applyRelocM_def
    runtimeSymbol_def
  by (intro table.rel_rules table_in_world table_on_ldr)+

lemmas table_prims = table_in_world table_sectionAt table_sectionData table_sectionsNum
  table_on_ldr table_guarded table_containers

lemma table_symTab: "relates table_kept (symTabAt tab i)" "relates table_kept (getSymTab L j)"
    "relates table_kept (resolveSymbol tab y)"
  by (cases tab; simp add: table_prims)
    (unfold getSymTab_def resolveSymbol_def Let_def, (intro table.rel_rules table_prims)+)

lemma table_applyRelocation: "relates table_kept (applyRelocation tab p r a i)"
  unfolding applyRelocation_def Let_def
  by (intro table.rel_rules table_prims table_symTab) (auto split: option.split intro!: table.rel_rules table_prims table_symTab)

lemma table_applyRelocations: "relates table_kept (applyRelocations L is)"
  unfolding applyRelocations_def applyRelocationSection_def Let_def
  by (intro table.rel_rules table_prims table_symTab)
    (auto split: option.split intro!: table.rel_rules table_prims table_symTab table_applyRelocation)

lemma table_loadSection: "relates table_kept (loadSection L i)"
proof -
  have "relates table_kept (loadDataSection i h)" "relates table_kept (loadScratchSection L i h)"
    "relates table_kept (registerRelocation L i h)" for h
    unfolding loadDataSection_def loadScratchSection_def registerRelocation_def Let_def
    by (intro table.rel_rules table_prims table_on_shd | simp)+
  then show ?thesis
    unfolding loadSection_def Let_def
    by (intro table.rel_rules table_prims)
      (auto split: Action.split intro!: table.rel_rules table_prims)
qed

lemma table_updateSharedBuffers: "relates table_kept (updateSharedBuffers is)"
  unfolding updateSharedBuffers_def updateSharedBuffer_def
  by (intro table.rel_rules table_prims)
    (auto split: option.split intro!: table.rel_rules table_prims)

lemma table_sectionBuffer: "relates table_kept (sectionBuffer L c i)"
  unfolding sectionBuffer_def by (intro table.rel_rules table_prims)

lemma table_loadBuffers: "relates table_kept (loadBuffers L)"
  unfolding loadBuffers_def loadBuffer_def Let_def
  by (intro table.rel_rules table_prims table_sectionBuffer)

lemma table_reloadNewBuffers: "relates table_kept (reloadNewBuffers L)"
  unfolding reloadNewBuffers_def reloadNewBuffer_def
  by (intro table.rel_rules table_prims)

section \<open>The loader's own state\<close>

text \<open>
  Relocating, reloading and reading sections leave the loader itself, its lists of relocation
  sections and the section table as they are.
\<close>

definition calm :: "lstate \<Rightarrow> elf_error option \<Rightarrow> lstate \<Rightarrow> bool" where
  "calm s x t \<longleftrightarrow> ldr t = ldr s \<and>
     m_relocationSectionIndexes (shd t) = m_relocationSectionIndexes (shd s) \<and>
     m_jitRelocations (shd t) = m_jitRelocations (shd s) \<and> table_kept s x t"

interpretation calm: state_relation calm
  by unfold_locales (auto simp: calm_def intro: table.R_refl table.R_err table.R_trans)

lemma in_world_cases:
  assumes "in_world m s = (x, t)"
  shows "m (wld s) = (x, wld t)" "ldr t = ldr s" "shd t = shd s"
  using assms by (auto simp: in_world_def zoomM_def split: prod.splits)

lemma calm_in_world: "relates calm (in_world m)"
  by (rule relatesI) (auto dest: in_world_cases simp: calm_def table_kept_def)

lemma in_reader_cases:
  assumes "in_reader m s = (x, t)"
  shows "ldr t = ldr s" "m_relocationSectionIndexes (shd t) = m_relocationSectionIndexes (shd s)"
    "m_jitRelocations (shd t) = m_jitRelocations (shd s)"
  using assms by (auto simp: in_reader_def zoomM_def split: prod.splits)

lemma calm_in_reader: "relates table_kept (in_reader m) \<Longrightarrow> relates calm (in_reader m)"
proof (rule relatesI)
  fix s x t
  assume "relates table_kept (in_reader m)" and run: "in_reader m s = (x, t)"
  then show "calm s (outcome x) t"
    using in_reader_cases [OF run] by (auto simp: calm_def dest: relatesD)
qed

lemma calm_sections: "relates calm (sectionAt i)" "relates calm (sectionData L i)" "relates calm sectionsNum"
proof -
  show "relates calm (sectionAt i)"
    unfolding sectionAt_def by (rule calm_in_reader [OF table_sectionAt [unfolded sectionAt_def]])
  show "relates calm (sectionData L i)"
    unfolding sectionData_def by (rule calm_in_reader [OF table_sectionData [unfolded sectionData_def]])
  show "relates calm sectionsNum" unfolding sectionsNum_def by (intro calm.rel_rules)
qed

lemma calm_reads:
  "relates calm (inferInfo i)" "relates calm (backupInfo i)" "relates calm (buildInfer L specs)"
  "relates calm (read_at p n)" "relates calm (symbol_of p i)" "relates calm (relocation_of p i)"
  "relates calm (applyRelocM f p y a)" "relates calm (runtimeSymbol i)" "relates calm (sectionBuffer L c i)"
  unfolding inferInfo_def backupInfo_def buildInfer_def read_at_def symbol_of_def relocation_of_def
    applyRelocM_def runtimeSymbol_def sectionBuffer_def
  by (intro calm.rel_rules calm_in_world calm_sections)+

lemma calm_guarded: "relates calm body \<Longrightarrow> relates calm (guarded L b body)"
proof (cases b)
  case (Some r)
  assume body: "relates calm body"
  have "relates calm (finallyM body (\<lambda>s. s\<lparr>wld := unlock (le_env L) r (wld s)\<rparr>))"
  proof (rule relatesI)
    fix s x t
    assume "finallyM body (\<lambda>s. s\<lparr>wld := unlock (le_env L) r (wld s)\<rparr>) s = (x, t)"
    then obtain t' where "body s = (x, t')" "ldr t = ldr t'" "shd t = shd t'" by (auto simp: finallyM_def split: prod.splits)
    then show "calm s (outcome x) t"
      using relatesD [OF body, of s x t'] by (auto simp: calm_def table_kept_def)
  qed
  then show ?thesis by (simp add: guarded_def Some calm.rel_bind calm_in_world)
qed (simp add: guarded_def)

lemmas calm_prims = calm_in_world calm_sections calm_reads calm_guarded

lemma calm_symTab: "relates calm (symTabAt tab i)" "relates calm (getSymTab L j)"
    "relates calm (resolveSymbol tab y)"
  by (cases tab; simp add: calm_prims)
    (unfold getSymTab_def resolveSymbol_def Let_def, (intro calm.rel_rules calm_prims)+)

lemma calm_applyRelocation: "relates calm (applyRelocation tab p r a i)"
  unfolding applyRelocation_def Let_def
  by (intro calm.rel_rules calm_prims calm_symTab)
    (auto split: option.split intro!: calm.rel_rules calm_prims calm_symTab)

lemma calm_applyRelocations: "relates calm (applyRelocations L is)"
  unfolding applyRelocations_def applyRelocationSection_def Let_def
  by (intro calm.rel_rules calm_prims calm_symTab)
    (auto split: option.split intro!: calm.rel_rules calm_prims calm_symTab calm_applyRelocation)

lemma calm_reloadNewBuffers: "relates calm (reloadNewBuffers L)"
  unfolding reloadNewBuffers_def reloadNewBuffer_def
  by (intro calm.rel_rules calm_prims)

lemma sectionAt_header:
  assumes "sectionAt k s = (Inr sec, t)" and "reader_ok (m_reader (shd s))"
  shows "k < length (mSectionHeaders (m_reader (shd s)))"
    and "rs_header sec = mSectionHeaders (m_reader (shd s)) ! k"
proof -
  from assms(1) obtain rd' where "getSection k (m_reader (shd s)) = (Inr sec, rd')"
    by (auto simp: sectionAt_def in_reader_def zoomM_def sectionM_def split: prod.splits)
  from getSection_spec(5) [OF assms(2) this]
  show "k < length (mSectionHeaders (m_reader (shd s)))"
    "rs_header sec = mSectionHeaders (m_reader (shd s)) ! k" by auto
qed

lemma inferInfo_Inr: "inferInfo i s = (Inr info, t) \<longleftrightarrow>
    getBufferInfoFromIndex i (m_inferBufferContainer (ldr s)) = Inr info \<and> t = s"
  by (auto simp: inferInfo_def bindM_Inr_iff readM_def liftM_def)

section \<open>Memory\<close>

text \<open>
  \<open>grows_from N w x w'\<close>: if there are at least \<open>N\<close> blocks, those below \<open>N\<close> keep address and bytes,
  and no existing buffer object changes.
\<close>

definition grows_from :: "nat \<Rightarrow> world \<Rightarrow> elf_error option \<Rightarrow> world \<Rightarrow> bool" where
  "grows_from N w x w' \<longleftrightarrow> N \<le> length (memory w) \<longrightarrow>
     length (memory w) \<le> length (memory w') \<and> (\<forall>b < N. memory w' ! b = memory w ! b) \<and>
     (\<exists>new. objs w' = objs w @ new)"

interpretation grows: state_relation "grows_from N"
  by unfold_locales (auto simp: grows_from_def)

primrec beyond :: "nat \<Rightarrow> ptr \<Rightarrow> bool" where
  "beyond N Null \<longleftrightarrow> True"
| "beyond N (Ptr b off) \<longleftrightarrow> N \<le> b"

lemma poke_beyond: "beyond N p \<Longrightarrow> b < N \<Longrightarrow> poke m p bs ! b = m ! b"
  by (cases p) (auto simp: nth_list_update_cases)

lemma grows_memcpyM: "beyond N dst \<Longrightarrow> memcpyM dst src n w = (x, w') \<Longrightarrow> grows_from N w (outcome x) w'"
  by (auto simp: memcpyM_def memcpy_mem_def grows_from_def poke_beyond split: if_splits sum.splits)

lemma grows_objs: "grows_from N w x w' \<Longrightarrow> N \<le> length (memory w) \<Longrightarrow> r < length (objs w) \<Longrightarrow>
    getBuffer r w' = getBuffer r w \<and> getBufferSpecs r w' = getBufferSpecs r w \<and> r < length (objs w')"
  by (auto simp: grows_from_def getBuffer_def getBufferSpecs_def nth_append)

text \<open>With a documented buffer manager, locking changes nothing but the trace.\<close>

lemma grows_lock: "lock_documented (env_bm E) \<Longrightarrow> relates (grows_from N) (lock E r)"
proof (rule relatesI)
  fix w x w'
  assume doc: "lock_documented (env_bm E)" and run: "lock E r w = (x, w')"
  obtain y m where l: "bm_lock (env_bm E) (getBuffer r w) (memory w) = (y, m)" by (metis surj_pair)
  have m: "m = memory w" using doc l by (metis lock_documented_def snd_conv)
  have y: "db = getBuffer r w" if "y = Inr db" for db using doc l that by (metis lock_documented_def fst_conv)
  show "grows_from N w (outcome x) w'"
    using run l m y by (auto simp: lock_def grows_from_def setDevBuffer_def getBuffer_def logEv_def
        split: if_splits buffer_kind.splits sum.splits)
qed

lemma grows_unlock: "lock_documented (env_bm E) \<Longrightarrow> grows_from N w x (unlock E r w)"
  using unlock_same [of E w r] by (auto simp: grows_from_def same_state_def)

lemma grows_load_buffer:
  assumes "copy_documented (env_bm E)" and "beyond N (cpu_addr (getBuffer r w))"
    and "load_buffer E r src n w = (x, w')"
  shows "grows_from N w (outcome x) w'"
proof (cases "bufKind (objs w ! r) = AllocatedDeviceBuffer")
  case True
  have c: "bm_copy (env_bm E) (getBuffer r w) src n (memory w) =
      (case memcpy_mem (cpu_addr (getBuffer r w)) src (unat n) (memory w) of
         Inl e \<Rightarrow> (Inl e, memory w) | Inr m' \<Rightarrow> (Inr (getBuffer r w), m'))"
    using assms(1) by (simp add: copy_documented_def)
  show ?thesis
    using assms(2,3) True c
    by (auto simp: load_buffer_def memcpy_mem_def grows_from_def poke_beyond setDevBuffer_def
        getBuffer_def split: if_splits)
next
  case False
  then have "memcpyM (cpu_addr (getBuffer r w)) src (unat n) w = (x, w')"
    using assms(3) by (cases "bufKind (objs w ! r)") (simp_all add: load_buffer_def)
  then show ?thesis by (rule grows_memcpyM [OF assms(2)])
qed

lemma unlock_buffers: "lock_documented (env_bm E) \<Longrightarrow> getBuffer q (unlock E r w) = getBuffer q w"
  using unlock_same getBuffer_same by blast

text \<open>\<open>owned N r\<close>: the buffer \<open>r\<close> exists and has no storage below block \<open>N\<close>.\<close>

definition owned :: "nat \<Rightarrow> bref \<Rightarrow> world \<Rightarrow> bool" where
  "owned N r w \<longleftrightarrow> N \<le> length (memory w) \<and> r < length (objs w) \<and> beyond N (cpu_addr (getBuffer r w))"

lemma owned_grows: "owned N r w \<Longrightarrow> grows_from N w x w' \<Longrightarrow> owned N r w'"
  using grows_objs [of N w x w' r] by (auto simp: owned_def grows_from_def)

lemma grows_loadWithLock:
  assumes doc: "lock_documented (env_bm E)" "copy_documented (env_bm E)" and own: "owned N r w"
    and run: "loadWithLock E r src n w = (x, w')"
  shows "grows_from N w (outcome x) w'"
proof -
  from run have "bindM (lock E r) (\<lambda>_. bindM (load_buffer E r src n) (\<lambda>_. modifyM (unlock E r))) w = (x, w')"
    by (simp add: loadWithLock_def)
  then show ?thesis
  proof (cases rule: bindM_cases)
    case (err e)
    then show ?thesis using relatesD [OF grows_lock [OF doc(1)] err(1), of N] by simp
  next
    case (ok u t)
    have g1: "grows_from N w None t" using relatesD [OF grows_lock [OF doc(1)] ok(1), of N] by simp
    have own': "beyond N (cpu_addr (getBuffer r t))" using owned_grows [OF own g1] by (simp add: owned_def)
    from ok(2) show ?thesis
    proof (cases rule: bindM_cases)
      case (err e)
      then show ?thesis using grows_load_buffer [OF doc(2) own' err(1)] g1 grows.R_trans by simp
    next
      case (ok v t')
      then have "grows_from N t None t'" "x = Inr ()" "w' = unlock E r t'"
        using grows_load_buffer [OF doc(2) own' ok(1)] by (auto simp: modifyM_def)
      then show ?thesis
        using g1 grows.R_trans grows_unlock [OF doc(1), of N t' None r] by (metis outcome.simps(2))
    qed
  qed
qed

lemma grows_newStaticBuffer: "relates (grows_from N) (newStaticBuffer p s)"
  by (auto simp: relates_def newStaticBuffer_def newObj_def grows_from_def)

lemma new_blocks: "N \<le> length m \<Longrightarrow> b < N \<Longrightarrow> (m @ ext) ! b = m ! b"
  by (simp add: nth_append)

lemma grows_newDynamicBuffer: "relates (grows_from N) (newDynamicBuffer E s)"
  unfolding newDynamicBuffer_def relates_def
  by (auto simp: grows_from_def newObj_def throwM_unless_def throwM_when_def throwM_def Let_def
      new_blocks split: option.splits)

lemma grows_newAllocatedDeviceBuffer:
  assumes "allocate_documented (env_bm E)"
  shows "relates (grows_from N) (newAllocatedDeviceBuffer E h s)"
proof (rule relatesI)
  fix w x w'
  assume run: "newAllocatedDeviceBuffer E h s w = (x, w')"
  obtain y m where y: "bm_allocate (env_bm E) s (memory w) = (y, m)" by (metis surj_pair)
  have "mem_grows (memory w) m" using assms y by (metis allocate_documented_def snd_conv)
  then obtain ext where m: "m = memory w @ ext" by (auto simp: mem_grows_def)
  show "grows_from N w (outcome x) w'"
    using run y by (auto simp: newAllocatedDeviceBuffer_def grows_from_def m new_blocks newObj_def
        throwM_unless_def throwM_when_def throwM_def Let_def split: if_splits sum.splits)
qed

lemma owned_newDynamicBuffer:
  assumes "newDynamicBuffer E s w = (Inr r, w')" and "N \<le> length (memory w)"
  shows "owned N r w'"
  using assms by (auto simp: newDynamicBuffer_def owned_def newObj_def Let_def getBuffer_def
      DeviceBuffer_make_def split: option.splits if_splits)

lemma owned_newAllocatedDeviceBuffer:
  assumes "allocate_documented (env_bm E)" and "newAllocatedDeviceBuffer E h s w = (Inr r, w')"
    and "N \<le> length (memory w)"
  shows "owned N r w'"
proof -
  obtain y m where y: "bm_allocate (env_bm E) s (memory w) = (y, m)" by (metis surj_pair)
  from assms(2) y obtain db where db: "y = Inr db" "memory w' = m" "getBuffer r w' = db" "r < length (objs w')"
    by (auto simp: newAllocatedDeviceBuffer_def newObj_def Let_def getBuffer_def logEv_def split: sum.splits)
  have "mem_grows (memory w) m" using assms(1) y by (metis allocate_documented_def snd_conv)
  then have "length (memory w) \<le> length m" by (auto simp: mem_grows_def)
  moreover have "cpu_addr db = Null \<or> (\<exists>blk. cpu_addr db = Ptr blk 0 \<and> length (memory w) \<le> blk)"
    using assms(1) y db(1) unfolding allocate_documented_def by (metis fst_conv)
  ultimately show ?thesis using db assms(3) by (auto simp: owned_def)
qed

lemma grows_createNew:
  assumes "allocate_documented (env_bm E)"
  shows "relates (grows_from N) (createNew E b)"
    and "createNew E b w = (Inr r, w') \<Longrightarrow> N \<le> length (memory w) \<Longrightarrow> owned N r w'"
proof -
  show "relates (grows_from N) (createNew E b)"
  proof (rule relatesI)
    fix w x w'
    assume "createNew E b w = (x, w')"
    then show "grows_from N w (outcome x) w'"
      by (auto simp: createNew_def split: buffer_kind.splits dest: relatesD [OF grows_newDynamicBuffer]
          relatesD [OF grows_newAllocatedDeviceBuffer [OF assms]])
  qed
  show "createNew E b w = (Inr r, w') \<Longrightarrow> N \<le> length (memory w) \<Longrightarrow> owned N r w'"
    using owned_newDynamicBuffer owned_newAllocatedDeviceBuffer [OF assms]
    by (auto simp: createNew_def split: buffer_kind.splits)
qed

lemma grows_getAllocatedBuffer:
  assumes "allocate_documented (env_bm E)"
  shows "relates (grows_from N) (getAllocatedBuffer E f s)"
    and "getAllocatedBuffer E f s w = (Inr r, w') \<Longrightarrow> N \<le> length (memory w) \<Longrightarrow> owned N r w'"
  using grows_newDynamicBuffer grows_newAllocatedDeviceBuffer [OF assms] owned_newDynamicBuffer
    owned_newAllocatedDeviceBuffer [OF assms]
  by (auto simp: getAllocatedBuffer_def split: buffer_factory.splits if_splits)

lemma grows_withLock:
  assumes doc: "lock_documented (env_bm E)" and body: "triple (grows_from N) P body Q"
    and P: "\<And>w t. P w \<Longrightarrow> grows_from N w None t \<Longrightarrow> P t"
  shows "triple (grows_from N) P (withLock E b body) (\<lambda>_ _. True)"
proof (cases b)
  case None
  then show ?thesis using body by (simp add: withLock_def triple_def)
next
  case (Some r)
  have l: "triple (grows_from N) P (lock E r) (\<lambda>_. P)"
    by (rule grows.t_relates [OF grows_lock [OF doc]])
      (use P relatesD [OF grows_lock [OF doc]] in fastforce)
  have f: "triple (grows_from N) P (finallyM body (unlock E r)) (\<lambda>_ _. True)"
  proof (rule tripleI)
    fix w x w'
    assume w: "P w" and "finallyM body (unlock E r) w = (x, w')"
    then obtain t where t: "body w = (x, t)" and w': "w' = unlock E r t"
      by (auto simp: finallyM_def split: prod.splits)
    have "grows_from N w (outcome x) t" by (rule triple_rel [OF body w t])
    then show "grows_from N w (outcome x) w' \<and> (\<forall>v. x = Inr v \<longrightarrow> True)"
      using grows_unlock [OF doc, of N t None r] by (auto simp: w' grows_from_def)
  qed
  show ?thesis unfolding Some withLock_def option.case by (rule grows.t_bind [OF l f])
qed

lemma grows_fill:
  "triple (grows_from N) (owned N r) (memcpy_to_buffer r a) (\<lambda>_ _. True)"
  "triple (grows_from N) (owned N r) (fs_readM file off r) (\<lambda>_ _. True)"
proof -
  show "triple (grows_from N) (owned N r) (memcpy_to_buffer r a) (\<lambda>_ _. True)"
    by (rule tripleI) (auto simp: memcpy_to_buffer_def owned_def intro: grows_memcpyM)
  show "triple (grows_from N) (owned N r) (fs_readM file off r) (\<lambda>_ _. True)"
    by (rule tripleI) (auto simp: fs_readM_def Let_def write_mem_def owned_def grows_from_def poke_beyond
        split: prod.splits sum.splits if_splits)
qed

lemma grows_read_allocated:
  assumes "lock_documented (env_bm E)" and "allocate_documented (env_bm E)"
    and fill: "\<And>r. triple (grows_from N) (owned N r) (fill r) (\<lambda>_ _. True)"
  shows "relates (grows_from N) (read_allocated E f specs fill)"
proof (rule relatesI)
  fix w x w'
  assume run: "read_allocated E f specs fill w = (x, w')"
  have 1: "triple (grows_from N) (\<lambda>w. N \<le> length (memory w)) (getAllocatedBuffer E f specs) (owned N)"
    by (rule grows.t_relates [OF grows_getAllocatedBuffer(1) [OF assms(2)]])
      (rule grows_getAllocatedBuffer(2) [OF assms(2)])
  have 2: "triple (grows_from N) (owned N r) (withLock E (Some r) (fill r)) (\<lambda>_ _. True)" for r
    by (rule grows_withLock [OF assms(1) fill]) (rule owned_grows)
  have "triple (grows_from N) (\<lambda>w. N \<le> length (memory w)) (read_allocated E f specs fill) (\<lambda>_ _. True)"
    unfolding read_allocated_def
    by (rule grows.t_bind [OF 1], rule grows.t_bind [OF 2]) (rule grows.t_ret [of N "\<lambda>_ _. True"])
  from triple_rel [OF this _ run] show "grows_from N w (outcome x) w'"
    by (cases "N \<le> length (memory w)") (auto simp: grows_from_def)
qed

lemma grows_readInternal:
  assumes "lock_documented (env_bm E)" and "allocate_documented (env_bm E)"
  shows "relates (grows_from N) (readInternal E am off specs)"
proof -
  have e: "relates (grows_from N) (getEmplacedBuffer a s)" for a s
    unfolding getEmplacedBuffer_def by (intro grows.rel_rules grows_newStaticBuffer)
  show ?thesis
    by (cases am)
      (auto simp: Let_def intro!: grows.rel_rules e grows_read_allocated [OF assms] grows_fill)
qed

lemma grows_getDataBuffer:
  assumes "lock_documented (env_bm E)" and "allocate_documented (env_bm E)"
  shows "relates (grows_from N) (getDataBuffer E am c s)"
  unfolding getDataBuffer_def Let_def
  by (intro grows.rel_rules grows_readInternal [OF assms])

lemma grows_deref: "relates (grows_from N) (deref r)"
  by (auto simp: relates_def deref_def grows_from_def split: option.splits)

lemma grows_getData:
  assumes "lock_documented (env_bm E)" and "allocate_documented (env_bm E)"
  shows "relates (grows_from N) (getData E am s)"
  unfolding getData_def
  by (intro grows.rel_rules grows_deref)
    (auto split: option.splits intro!: grows.rel_rules grows_getDataBuffer [OF assms])

end
