(* ===== verification/Elf_Loader_Props.thy ===== *)
theory Elf_Loader_Props imports Elf_Loader_Frame begin

text \<open>
  What \<^verbatim>\<open>VPUXLoader::load\<close> decides: which sections get a buffer and which of the buffers are shared by
  all copies of the loader. The specification reads both off the section table; the proof carries
  it along the three passes of the code: registering the sections, taking the targets of relocation
  sections out of the shared ones, and making the buffers.
\<close>

section \<open>The specification\<close>

definition gets_buffer :: "bool \<Rightarrow> Elf64_Shdr \<Rightarrow> bool" where
  "gets_buffer explicit h \<longleftrightarrow>
     (sh_type h = SHT_PROGBITS \<or> sh_type h = SHT_NOBITS \<and> \<not> isNetworkIO (sh_flags h)) \<and>
     (explicit \<longrightarrow> sh_flags h AND SHF_ALLOC \<noteq> 0)"

definition is_reloc :: "bool \<Rightarrow> Elf64_Shdr \<Rightarrow> bool" where
  "is_reloc jit h \<longleftrightarrow> sh_type h = SHT_RELA \<and> (sh_flags h AND VPU_SHF_JIT \<noteq> 0 \<longleftrightarrow> jit)"

definition relocs_upto :: "bool \<Rightarrow> Elf64_Shdr list \<Rightarrow> nat \<Rightarrow> nat list" where
  "relocs_upto jit H n = filter (\<lambda>k. is_reloc jit (H ! k)) [0..<n]"

text \<open>The index of some relocation section's target.\<close>

definition targeted :: "Elf64_Shdr list \<Rightarrow> nat \<Rightarrow> bool" where
  "targeted H i \<longleftrightarrow> (\<exists>k < length H. sh_type (H ! k) = SHT_RELA \<and> relocationTarget (H ! k) = Some i)"

definition shareable :: "Elf64_Shdr list \<Rightarrow> nat \<Rightarrow> bool" where
  "shareable H i \<longleftrightarrow>
     sh_type (H ! i) = SHT_PROGBITS \<and> sh_flags (H ! i) AND SHF_WRITE = 0 \<and> \<not> targeted H i"

text \<open>No relocation section patches a buffer that copies of the loader share.\<close>

definition targets_private :: "LoaderShared \<Rightarrow> VPUXLoader \<Rightarrow> bool" where
  "targets_private sh l \<longleftrightarrow>
     (\<forall>k \<in> set (m_relocationSectionIndexes sh). \<forall>i info.
        k < length (mSectionHeaders (m_reader sh)) \<longrightarrow>
        relocationTarget (mSectionHeaders (m_reader sh) ! k) = Some i \<longrightarrow>
        getBufferInfoFromIndex i (m_inferBufferContainer l) = Inr info \<longrightarrow>
        \<not> mIsShared (mBufferDetails info))"

section \<open>The entries of a container\<close>

definition entries_are :: "(nat \<Rightarrow> bool) \<Rightarrow> (nat \<Rightarrow> BufferDetails) \<Rightarrow> DeviceBufferContainer \<Rightarrow> bool" where
  "entries_are D F c \<longleftrightarrow>
     (\<forall>i. (hasBufferInfoAtIndex i c \<longleftrightarrow> D i) \<and>
        (\<forall>info. getBufferInfoFromIndex i c = Inr info \<longrightarrow> mBufferDetails info = F i))"

lemma entries_put:
  assumes "entries_are D F c"
    and "\<And>j. D' j \<longleftrightarrow> j = i \<or> D j"
    and "\<And>j. D' j \<Longrightarrow> F' j = (if j = i then mBufferDetails info else F j)"
  shows "entries_are D' F' (setBufferInfo i info c)"
  using assms by (auto simp: entries_are_def container.has_lookup container.lookup_put)

lemma entries_upd:
  "entries_are D F c \<Longrightarrow>
    entries_are (\<lambda>j. j = i \<or> D j) (F(i := mBufferDetails info)) (setBufferInfo i info c)"
  by (erule entries_put) simp_all

lemma entries_cong:
  "entries_are D F c \<Longrightarrow> (\<And>j. D' j = D j) \<Longrightarrow> (\<And>j. D j \<Longrightarrow> F' j = F j) \<Longrightarrow> entries_are D' F' c"
  by (auto simp: entries_are_def container.has_lookup)

lemma entries_lookup:
  "entries_are D F c \<Longrightarrow> getBufferInfoFromIndex i c = Inr info \<Longrightarrow> D i \<and> mBufferDetails info = F i"
  by (auto simp: entries_are_def container.has_lookup)

lemma entries_init:
  "entries_are D F c \<Longrightarrow> safeInitBufferInfoAtIndex i c = Inr c' \<Longrightarrow>
    \<not> D i \<and> c' = setBufferInfo i BufferInfo_default c"
  by (auto simp: entries_are_def safeInitBufferInfoAtIndex_def throw_when_def split: if_splits)

text \<open>The state of the loader between the passes.\<close>

definition ledger ::
    "Elf64_Shdr list \<Rightarrow> bool \<Rightarrow> nat \<Rightarrow> (nat \<Rightarrow> bool) \<Rightarrow> (nat \<Rightarrow> BufferDetails) \<Rightarrow> lstate \<Rightarrow> bool" where
  "ledger H explicit n D F s \<longleftrightarrow>
     mSectionHeaders (m_reader (shd s)) = H \<and> reader_ok (m_reader (shd s)) \<and>
     m_explicitAllocations (ldr s) = explicit \<and>
     m_relocationSectionIndexes (shd s) = relocs_upto False H n \<and>
     m_jitRelocations (shd s) = relocs_upto True H n \<and>
     entries_are D F (m_inferBufferContainer (ldr s))"

lemma ledger_calm: "ledger H ex n D F s \<Longrightarrow> calm s x t \<Longrightarrow> ledger H ex n D F t"
  by (auto simp: ledger_def calm_def table_kept_def)

lemma t_calm: "relates calm m \<Longrightarrow> triple (\<lambda>_ _ _. True) (ledger H ex n D F) m (\<lambda>_. ledger H ex n D F)"
  by (rule tripleI) (auto dest: relatesD ledger_calm)

lemma ledger_cong:
  "ledger H ex n D F s \<Longrightarrow> (\<And>j. D' j = D j) \<Longrightarrow> (\<And>j. D j \<Longrightarrow> F' j = F j) \<Longrightarrow> ledger H ex n D' F' s"
  unfolding ledger_def by (blast intro: entries_cong)

lemma t_setInfer:
  assumes "\<And>j. D' j \<longleftrightarrow> j = i \<or> D j"
    and "\<And>j. D' j \<Longrightarrow> F' j = (if j = i then mBufferDetails info else F j)"
  shows "triple (\<lambda>_ _ _. True) (ledger H ex n D F) (setInfer i info) (\<lambda>_. ledger H ex n D' F')"
  unfolding setInfer_def on_ldr_def
  by (rule any.t_modify) (use assms in \<open>auto simp: ledger_def intro!: entries_put\<close>)

lemma t_safeInitInfer:
  "triple (\<lambda>_ _ _. True) (ledger H ex n D F) (safeInitInfer i)
     (\<lambda>_ s. \<not> D i \<and> ledger H ex n (\<lambda>j. j = i \<or> D j) (F(i := BufferDetails_default)) s)"
proof (rule tripleI)
  fix s x t
  assume l: "ledger H ex n D F s" and run: "safeInitInfer i s = (x, t)"
  have e: "entries_are D F (m_inferBufferContainer (ldr s))" using l by (simp add: ledger_def)
  have "\<not> D i \<and> ledger H ex n (\<lambda>j. j = i \<or> D j) (F(i := BufferDetails_default)) t" if v: "x = Inr v" for v
  proof -
    from run v obtain c' where c': "safeInitBufferInfoAtIndex i (m_inferBufferContainer (ldr s)) = Inr c'"
      and t: "t = s\<lparr>ldr := (ldr s)\<lparr>m_inferBufferContainer := c'\<rparr>\<rparr>"
      by (auto simp: safeInitInfer_def bindM_simps on_ldr_def modifyM_def split: sum.splits)
    have "\<not> D i" "entries_are (\<lambda>j. j = i \<or> D j) (F(i := BufferDetails_default)) c'"
      using entries_init [OF e c'] entries_upd [OF e, of i BufferInfo_default]
      by (auto simp: BufferInfo_default_def)
    then show ?thesis using l by (simp add: ledger_def t)
  qed
  then show "True \<and> (\<forall>v. x = Inr v \<longrightarrow> \<not> D i \<and>
      ledger H ex n (\<lambda>j. j = i \<or> D j) (F(i := BufferDetails_default)) t)" by simp
qed

lemma t_section_header:
  "triple (\<lambda>_ _ _. True) (ledger H ex n D F) (sectionAt k)
     (\<lambda>sec s. (k < length H \<and> rs_header sec = H ! k) \<and> ledger H ex n D F s)"
proof (rule tripleI)
  fix s x t
  assume l: "ledger H ex n D F s" and run: "sectionAt k s = (x, t)"
  have r: "reader_ok (m_reader (shd s))" "mSectionHeaders (m_reader (shd s)) = H"
    using l by (simp_all add: ledger_def)
  have "ledger H ex n D F t" using ledger_calm [OF l] relatesD [OF calm_sections(1) run] .
  then show "True \<and> (\<forall>sec. x = Inr sec \<longrightarrow> (k < length H \<and> rs_header sec = H ! k) \<and> ledger H ex n D F t)"
    using sectionAt_header [OF _ r(1)] run r(2) by blast
qed

section \<open>Registering the sections\<close>

definition first_details :: "Elf64_Shdr \<Rightarrow> BufferDetails" where
  "first_details h = (if sh_type h = SHT_PROGBITS then details True (sh_flags h AND SHF_WRITE = 0) False
     else details False False True)"

lemma sectionAction_types:
  assumes "sectionAction ty = Inr a"
  shows "a = AllocateAndLoad \<longleftrightarrow> ty = SHT_PROGBITS" "a = Allocate \<longleftrightarrow> ty = SHT_NOBITS"
    "a = Relocate \<longleftrightarrow> ty = SHT_RELA"
  using assms
  by (auto simp: sectionAction_def actionMap_def elf_consts split: if_splits)

lemma distinct_types: "SHT_PROGBITS \<noteq> SHT_NOBITS" "SHT_PROGBITS \<noteq> SHT_RELA" "SHT_NOBITS \<noteq> SHT_RELA"
  by (simp_all add: elf_consts)

lemma relocs_upto_Suc: "relocs_upto jit H (Suc n) = relocs_upto jit H n @ (if is_reloc jit (H ! n) then [n] else [])"
  by (simp add: relocs_upto_def)

abbreviation registered :: "Elf64_Shdr list \<Rightarrow> bool \<Rightarrow> nat \<Rightarrow> lstate \<Rightarrow> bool" where
  "registered H ex n \<equiv> ledger H ex n (\<lambda>i. i < n \<and> gets_buffer ex (H ! i)) (\<lambda>i. first_details (H ! i))"

lemma ledger_Suc:
  "ledger H ex n D F s \<Longrightarrow> sh_type (H ! n) \<noteq> SHT_RELA \<Longrightarrow> ledger H ex (Suc n) D F s"
  by (simp add: ledger_def relocs_upto_Suc is_reloc_def)

lemma registered_skip:
  assumes "registered H ex n s" and "sh_type (H ! n) \<noteq> SHT_RELA" and "\<not> gets_buffer ex (H ! n)"
  shows "registered H ex (Suc n) s"
  by (rule ledger_cong [OF ledger_Suc [OF assms(1,2)]]) (use assms(3) in \<open>auto simp: less_Suc_eq\<close>)

lemma registered_put:
  assumes "ledger H ex n D F s" and "sh_type (H ! n) \<noteq> SHT_RELA"
    and "\<And>i. D i \<longleftrightarrow> i < Suc n \<and> gets_buffer ex (H ! i)" and "\<And>i. D i \<Longrightarrow> F i = first_details (H ! i)"
  shows "registered H ex (Suc n) s"
  by (rule ledger_cong [OF ledger_Suc [OF assms(1,2)]]) (use assms(3,4) in auto)

lemma t_explicit:
  "triple (\<lambda>_ _ _. True) (ledger H ex n D F) (readM (\<lambda>s. m_explicitAllocations (ldr s)))
     (\<lambda>b s. b = ex \<and> ledger H ex n D F s)"
  by (rule triple_conseq [OF any.t_read]) (auto simp: ledger_def)

lemma t_loadDataSection:
  assumes "sh_type (H ! n) = SHT_PROGBITS"
  shows "triple (\<lambda>_ _ _. True) (registered H ex n) (loadDataSection n (H ! n)) (\<lambda>_. registered H ex (Suc n))"
  unfolding loadDataSection_def
proof (rule any.t_bind [OF t_explicit], rule triple_fact, rule any.t_if)
  fix explicit
  assume e: "explicit = ex" "explicit \<and> sh_flags (H ! n) AND SHF_ALLOC = 0"
  show "triple (\<lambda>_ _ _. True) (registered H ex n) (retM ()) (\<lambda>_. registered H ex (Suc n))"
    by (rule triple_pre [OF any.t_ret], rule registered_skip)
      (use e assms in \<open>simp_all add: gets_buffer_def distinct_types\<close>)
next
  fix explicit
  assume e: "explicit = ex" "\<not> (explicit \<and> sh_flags (H ! n) AND SHF_ALLOC = 0)"
  show "triple (\<lambda>_ _ _. True) (registered H ex n) (bindM (safeInitInfer n) (\<lambda>_. setInfer n
      \<lparr>mBuffer = None, mBufferDetails = details True (sh_flags (H ! n) AND SHF_WRITE = 0) False\<rparr>))
    (\<lambda>_. registered H ex (Suc n))"
  proof (rule any.t_bind [OF t_safeInitInfer], rule triple_fact, rule triple_conseq [OF t_setInfer])
    fix v s
    assume "ledger H ex n (\<lambda>i. i < Suc n \<and> gets_buffer ex (H ! i)) (\<lambda>i. first_details (H ! i)) s"
    then show "registered H ex (Suc n) s"
      by (rule registered_put) (use assms in \<open>simp_all add: distinct_types\<close>)
  qed (use e assms in \<open>auto simp: gets_buffer_def first_details_def less_Suc_eq\<close>)
qed

lemma t_on_ldr:
  assumes "\<And>l. m_inferBufferContainer (f l) = m_inferBufferContainer l"
    and "\<And>l. m_explicitAllocations (f l) = m_explicitAllocations l"
  shows "triple (\<lambda>_ _ _. True) (ledger H ex n D F) (on_ldr f) (\<lambda>_. ledger H ex n D F)"
  unfolding on_ldr_def by (rule any.t_modify) (use assms in \<open>simp add: ledger_def\<close>)

lemma t_observe: "triple (\<lambda>_ _ _. True) (ledger H ex n D F) (readM g) (\<lambda>_. ledger H ex n D F)"
  by (rule triple_conseq [OF any.t_read]) auto

lemma t_loadScratchSection:
  assumes "sh_type (H ! n) = SHT_NOBITS"
  shows "triple (\<lambda>_ _ _. True) (registered H ex n) (loadScratchSection L n (H ! n)) (\<lambda>_. registered H ex (Suc n))"
  unfolding loadScratchSection_def Let_def
proof (rule any.t_bind [OF t_explicit], rule triple_fact, rule any.t_if)
  fix explicit
  assume e: "explicit = ex" "explicit \<and> sh_flags (H ! n) AND SHF_ALLOC = 0 \<or> isNetworkIO (sh_flags (H ! n))"
  show "triple (\<lambda>_ _ _. True) (registered H ex n) (retM ()) (\<lambda>_. registered H ex (Suc n))"
    by (rule triple_pre [OF any.t_ret], rule registered_skip)
      (use e assms distinct_types in \<open>auto simp: gets_buffer_def\<close>)
next
  fix explicit
  assume e: "explicit = ex" "\<not> (explicit \<and> sh_flags (H ! n) AND SHF_ALLOC = 0 \<or> isNetworkIO (sh_flags (H ! n)))"
  let ?D = "\<lambda>i. i = n \<or> i < n \<and> gets_buffer ex (H ! i)"
  show "triple (\<lambda>_ _ _. True) (registered H ex n)
    (throwM_when (sh_flags (H ! n) AND SHF_WRITE = 0) SectionError
      (bindM (readM (\<lambda>s. m_inferencesMayBeRunInParallel (ldr s))) (\<lambda>parallel.
       bindM (safeInitInfer n) (\<lambda>_.
       bindM (buildInfer L (BufferSpecs_make (sh_addralign (H ! n)) (sh_size (H ! n))
         (if \<not> parallel then sh_flags (H ! n) OR SHARABLE_BUFFER_ENABLED else sh_flags (H ! n)))) (\<lambda>r.
       bindM (setInfer n \<lparr>mBuffer = Some r, mBufferDetails = BufferDetails_default\<rparr>) (\<lambda>_.
       bindM (readM (\<lambda>s. cpu_addr (getBuffer r (wld s)))) (\<lambda>addr.
       bindM (if addr = Null then on_ldr (m_sharedScratchBuffers_update (\<lambda>xs. xs @ [n])) else retM ()) (\<lambda>_.
       setInfer n \<lparr>mBuffer = Some r, mBufferDetails = details False False True\<rparr>))))))))
    (\<lambda>_. registered H ex (Suc n))"
    apply (rule any.t_when)
    apply (rule any.t_bind [OF t_observe])
    apply (rule any.t_bind [OF t_safeInitInfer], rule triple_fact)
    apply (rule any.t_bind [OF t_calm [OF calm_reads(3)]])
    apply (rule any.t_bind)
     apply (rule t_setInfer [where D' = ?D and F' = "(\<lambda>i. first_details (H ! i))(n := BufferDetails_default)"])
      apply simp
     apply simp
    apply (rule any.t_bind [OF t_observe])
    apply (rule any.t_bind [where Q = "\<lambda>_. ledger H ex n ?D ((\<lambda>i. first_details (H ! i))(n := BufferDetails_default))"])
     apply (rule any.t_if)
      apply (rule t_on_ldr; simp)
     apply (rule any.t_ret)
    apply (rule triple_conseq [OF t_setInfer [where H = H and ex = ex and n = n and D = ?D and D' = ?D
          and F = "(\<lambda>i. first_details (H ! i))(n := BufferDetails_default)" and F' = "\<lambda>i. first_details (H ! i)"]])
       apply simp
      apply (use assms distinct_types in \<open>simp add: first_details_def\<close>)
     apply assumption
    apply (rule registered_put, assumption)
      apply (use e assms distinct_types in \<open>auto simp: gets_buffer_def less_Suc_eq\<close>)
    done
qed

lemma t_registerRelocation:
  assumes "sh_type (H ! n) = SHT_RELA"
  shows "triple (\<lambda>_ _ _. True) (registered H ex n) (registerRelocation L n (H ! n)) (\<lambda>_. registered H ex (Suc n))"
proof -
  have D: "i < Suc n \<and> gets_buffer ex (H ! i) \<longleftrightarrow> i < n \<and> gets_buffer ex (H ! i)" for i
    using assms distinct_types by (auto simp: less_Suc_eq gets_buffer_def)
  show ?thesis
  proof (cases "sh_flags (H ! n) AND VPU_SHF_JIT = 0")
    case True
    have "triple (\<lambda>_ _ _. True) (registered H ex n)
        (on_shd (m_relocationSectionIndexes_update (\<lambda>xs. xs @ [n]))) (\<lambda>_. registered H ex (Suc n))"
      unfolding on_shd_def
      by (rule any.t_modify) (use assms True D in \<open>simp add: ledger_def relocs_upto_Suc is_reloc_def\<close>)
    then show ?thesis using True by (simp add: registerRelocation_def)
  next
    case False
    have "triple (\<lambda>_ _ _. True) (registered H ex n)
        (on_shd (m_jitRelocations_update (\<lambda>xs. xs @ [n]))) (\<lambda>_. registered H ex (Suc n))"
      unfolding on_shd_def
      by (rule any.t_modify) (use assms False D in \<open>simp add: ledger_def relocs_upto_Suc is_reloc_def\<close>)
    then show ?thesis
      using False any.t_bind [OF t_calm [OF calm_sections(2)]] by (simp add: registerRelocation_def)
  qed
qed

lemma t_loadSection:
  "triple (\<lambda>_ _ _. True) (registered H ex n) (loadSection L n) (\<lambda>_. registered H ex (Suc n))"
  unfolding loadSection_def Let_def
proof (rule any.t_bind [OF t_section_header], rule triple_fact, rule any.t_bind [OF any.t_lift], rule triple_fact)
  fix sec action
  assume h: "n < length H \<and> rs_header sec = H ! n" and a: "sectionAction (sh_type (rs_header sec)) = Inr action"
  note ty = sectionAction_types [OF a]
  have skip: "triple (\<lambda>_ _ _. True) (registered H ex n) (retM ()) (\<lambda>_. registered H ex (Suc n))"
    if "action \<noteq> AllocateAndLoad" "action \<noteq> Allocate" "action \<noteq> Relocate"
    by (rule triple_pre [OF any.t_ret], rule registered_skip)
      (use that h ty in \<open>auto simp: gets_buffer_def\<close>)
  show "triple (\<lambda>_ _ _. True) (registered H ex n)
    (case action of
       AllocateAndLoad \<Rightarrow> loadDataSection n (rs_header sec)
     | Allocate \<Rightarrow> loadScratchSection L n (rs_header sec)
     | Relocate \<Rightarrow> registerRelocation L n (rs_header sec)
     | ActionError \<Rightarrow> throwM SectionError
     | RegisterUserIO \<Rightarrow> bindM (sectionData L n) (\<lambda>_. retM ())
     | ActionNone \<Rightarrow> retM ()
     | _ \<Rightarrow> throwM ImplausibleState) (\<lambda>_. registered H ex (Suc n))"
  proof (cases action)
    case RegisterUserIO
    then show ?thesis using any.t_bind [OF t_calm [OF calm_sections(2)] skip] by simp
  qed (use h ty skip in \<open>simp_all add: t_loadDataSection t_loadScratchSection t_registerRelocation any.t_throw\<close>)
qed

section \<open>Taking relocation targets out of the shared buffers\<close>

definition unshare :: "bool \<Rightarrow> BufferDetails \<Rightarrow> BufferDetails" where
  "unshare b d = (if b \<and> \<not> mIsProcessed d then d\<lparr>mIsShared := False\<rparr> else d)"

definition hit :: "Elf64_Shdr list \<Rightarrow> nat list \<Rightarrow> nat \<Rightarrow> bool" where
  "hit H ks i \<longleftrightarrow> (\<exists>k \<in> set ks. relocationTarget (H ! k) = Some i)"

lemma unshare_twice: "unshare b (unshare c d) = unshare (c \<or> b) d"
  by (auto simp: unshare_def)

lemma t_inferInfo_entry:
  "triple (\<lambda>_ _ _. True) (ledger H ex n D F) (inferInfo i)
     (\<lambda>info s. (D i \<and> mBufferDetails info = F i) \<and> ledger H ex n D F s)"
  by (rule tripleI) (auto simp: inferInfo_Inr ledger_def dest: entries_lookup)

lemma t_updateSharedBuffer:
  "triple (\<lambda>_ _ _. True) (ledger H ex n D F) (updateSharedBuffer k)
     (\<lambda>_. ledger H ex n D (\<lambda>i. unshare (relocationTarget (H ! k) = Some i) (F i)))"
  unfolding updateSharedBuffer_def
proof (rule any.t_bind [OF t_section_header], rule triple_fact, rule any.t_option, rule any.t_throw)
  fix sec i
  assume "k < length H \<and> rs_header sec = H ! k" and "relocationTarget (rs_header sec) = Some i"
  then have i: "relocationTarget (H ! k) = Some i" by simp
  show "triple (\<lambda>_ _ _. True) (ledger H ex n D F)
    (bindM sectionsNum (\<lambda>numSections.
     throwM_when (i = 0 \<or> i > numSections) RelocError
     (bindM (inferInfo i) (\<lambda>info.
      if \<not> mIsProcessed (mBufferDetails info)
      then setInfer i (info\<lparr>mBufferDetails := (mBufferDetails info)\<lparr>mIsShared := False\<rparr>\<rparr>)
      else retM ()))))
    (\<lambda>_. ledger H ex n D (\<lambda>i. unshare (relocationTarget (H ! k) = Some i) (F i)))"
    apply (rule any.t_bind [OF t_calm [OF calm_sections(3)]], rule any.t_when)
    apply (rule any.t_bind [OF t_inferInfo_entry], rule triple_fact, rule any.t_if)
     apply (rule t_setInfer)
      apply auto [1]
     apply (use i in \<open>auto simp: unshare_def\<close>) [1]
    apply (rule triple_pre [OF any.t_ret], erule ledger_cong)
     apply (use i in \<open>auto simp: unshare_def\<close>)
    done
qed

lemma t_updateSharedBuffers:
  "triple (\<lambda>_ _ _. True) (ledger H ex n D F) (updateSharedBuffers ks)
     (\<lambda>_. ledger H ex n D (\<lambda>i. unshare (hit H ks i) (F i)))"
proof -
  let ?P = "\<lambda>ys. ledger H ex n D (\<lambda>i. unshare (hit H ys i) (F i))"
  have "triple (\<lambda>_ _ _. True) (?P []) (forM updateSharedBuffer ks) (\<lambda>_. ?P ks)"
  proof (rule any.t_prefix)
    fix ys k zs
    have e: "hit H (ys @ [k]) i \<longleftrightarrow> hit H ys i \<or> relocationTarget (H ! k) = Some i" for i
      by (auto simp: hit_def)
    show "triple (\<lambda>_ _ _. True) (?P ys) (updateSharedBuffer k) (\<lambda>_. ?P (ys @ [k]))"
      using t_updateSharedBuffer [of H ex n D "\<lambda>i. unshare (hit H ys i) (F i)" k]
      by (simp add: unshare_twice e)
  qed
  moreover have "?P [] = ledger H ex n D F" by (simp add: hit_def unshare_def)
  ultimately show ?thesis by (simp add: updateSharedBuffers_def)
qed

section \<open>Making the buffers\<close>

lemma t_guarded_ledger:
  assumes "triple (\<lambda>_ _ _. True) (ledger H ex n D F) body (\<lambda>_. ledger H ex n D F)"
  shows "triple (\<lambda>_ _ _. True) (ledger H ex n D F) (guarded L b body) (\<lambda>_. ledger H ex n D F)"
proof (cases b)
  case (Some r)
  have "triple (\<lambda>_ _ _. True) (ledger H ex n D F)
      (finallyM body (\<lambda>s. s\<lparr>wld := unlock (le_env L) r (wld s)\<rparr>)) (\<lambda>_. ledger H ex n D F)"
  proof (rule tripleI)
    fix s x t
    assume l: "ledger H ex n D F s" and "finallyM body (\<lambda>s. s\<lparr>wld := unlock (le_env L) r (wld s)\<rparr>) s = (x, t)"
    then obtain t' where b: "body s = (x, t')" and t: "ldr t = ldr t'" "shd t = shd t'"
      by (auto simp: finallyM_def split: prod.splits)
    have "ledger H ex n D F t" if "x = Inr v" for v
      using triple_post [OF assms l, of v t'] b that t by (simp add: ledger_def)
    then show "True \<and> (\<forall>v. x = Inr v \<longrightarrow> ledger H ex n D F t)" by blast
  qed
  then show ?thesis
    unfolding guarded_def Some option.case by (rule any.t_bind [OF t_calm [OF calm_in_world]])
qed (simp add: guarded_def assms)

lemma t_safeInitBackup:
  "triple (\<lambda>_ _ _. True) (ledger H ex n D F) (safeInitBackup i) (\<lambda>_. ledger H ex n D F)"
  unfolding safeInitBackup_def
  by (rule any.t_bind [OF t_observe], rule any.t_bind [OF t_calm [OF calm.rel_lift]], rule t_on_ldr) simp_all

lemma t_setBackup:
  "triple (\<lambda>_ _ _. True) (ledger H ex n D F) (setBackup i info) (\<lambda>_. ledger H ex n D F)"
  unfolding setBackup_def by (rule t_on_ldr) simp_all

definition processed :: "BufferDetails \<Rightarrow> BufferDetails" where
  "processed d = d\<lparr>mIsProcessed := True\<rparr>"

lemma t_loadBuffer:
  "triple (\<lambda>_ _ _. True) (ledger H ex n D F) (loadBuffer L i)
     (\<lambda>_. ledger H ex n D (F(i := processed (F i))))"
  unfolding loadBuffer_def Let_def
proof (rule any.t_bind [OF t_inferInfo_entry], rule triple_fact)
  fix info :: BufferInfo
  assume e: "D i \<and> mBufferDetails info = F i"
  let ?Q = "\<lambda>_. ledger H ex n D (F(i := processed (F i)))"
  let ?set = "\<lambda>b. setInfer i \<lparr>mBuffer = b, mBufferDetails = (mBufferDetails info)\<lparr>mIsProcessed := True\<rparr>\<rparr>"
  have fin: "triple (\<lambda>_ _ _. True) (ledger H ex n D F) (?set b) ?Q" for b
    by (rule t_setInfer) (use e in \<open>auto simp: processed_def\<close>)
  have body: "triple (\<lambda>_ _ _. True) (ledger H ex n D F)
    (bindM (in_world (deref backup)) (\<lambda>b.
     bindM (readM (\<lambda>s. getBufferSpecs b (wld s))) (\<lambda>bufferSpecs.
     bindM (buildInfer L (bufferSpecs\<lparr>procFlags := sh_flags (rs_header sec)\<rparr>)) (\<lambda>r.
     bindM (setInfer i (info\<lparr>mBuffer := Some r\<rparr>)) (\<lambda>_.
     bindM (readM (\<lambda>s. getBuffer b (wld s))) (\<lambda>db.
     bindM (in_world (loadWithLock (le_env L) r (cpu_addr db) (buf_size db))) (\<lambda>_.
     bindM (setBackup i \<lparr>mBuffer = backup, mBufferDetails = details True True True\<rparr>) (\<lambda>_.
     retM r)))))))) (\<lambda>_. ledger H ex n D F)" for backup :: "bref option" and sec
    apply (rule any.t_bind [OF t_calm [OF calm_in_world]], rule any.t_bind [OF t_observe])
    apply (rule any.t_bind [OF t_calm [OF calm_reads(3)]])
    apply (rule any.t_bind, rule t_setInfer [where D' = D and F' = F], use e in auto, use e in auto)
    apply (rule any.t_bind [OF t_observe], rule any.t_bind [OF t_calm [OF calm_in_world]])
    apply (rule any.t_bind [OF t_setBackup], rule any.t_ret)
    done
  show "triple (\<lambda>_ _ _. True) (ledger H ex n D F)
    (if mIsProcessed (mBufferDetails info) then retM ()
     else bindM (sectionAt i) (\<lambda>sec.
       if mIsShared (mBufferDetails info) then bindM (sectionBuffer L False i) ?set
       else bindM (safeInitBackup i) (\<lambda>_.
            bindM (sectionBuffer L True i) (\<lambda>backup.
            bindM (setBackup i \<lparr>mBuffer = backup, mBufferDetails = BufferDetails_default\<rparr>) (\<lambda>_.
            bindM (guarded L backup
              (bindM (in_world (deref backup)) (\<lambda>b.
               bindM (readM (\<lambda>s. getBufferSpecs b (wld s))) (\<lambda>bufferSpecs.
               bindM (buildInfer L (bufferSpecs\<lparr>procFlags := sh_flags (rs_header sec)\<rparr>)) (\<lambda>r.
               bindM (setInfer i (info\<lparr>mBuffer := Some r\<rparr>)) (\<lambda>_.
               bindM (readM (\<lambda>s. getBuffer b (wld s))) (\<lambda>db.
               bindM (in_world (loadWithLock (le_env L) r (cpu_addr db) (buf_size db))) (\<lambda>_.
               bindM (setBackup i \<lparr>mBuffer = backup, mBufferDetails = details True True True\<rparr>) (\<lambda>_.
               retM r))))))))) (\<lambda>r. ?set (Some r)))))))
    ?Q"
    apply (rule any.t_if)
     apply (rule triple_pre [OF any.t_ret], erule ledger_cong, simp, use e in \<open>simp add: processed_def\<close>)
    apply (rule any.t_bind [OF t_calm [OF calm_sections(1)]], rule any.t_if)
     apply (rule any.t_bind [OF t_calm [OF calm_reads(9)] fin])
    apply (rule any.t_bind [OF t_safeInitBackup], rule any.t_bind [OF t_calm [OF calm_reads(9)]])
    apply (rule any.t_bind [OF t_setBackup])
    apply (rule any.t_bind [OF t_guarded_ledger [OF body] fin])
    done
qed

lemma t_loadBuffers:
  assumes "order_ok (le_ord L)"
  shows "triple (\<lambda>_ _ _. True) (ledger H ex n D F) (loadBuffers L)
     (\<lambda>_. ledger H ex n D (\<lambda>i. processed (F i)))"
  unfolding loadBuffers_def
proof (rule any.t_bind [OF any.t_read])
  fix ks
  let ?P = "\<lambda>ys. ledger H ex n D (\<lambda>i. if i \<in> set ys then processed (F i) else F i)"
  have "triple (\<lambda>_ _ _. True) (?P []) (forM (loadBuffer L) ks) (\<lambda>_. ?P ks)"
  proof (rule any.t_prefix)
    fix ys k zs
    show "triple (\<lambda>_ _ _. True) (?P ys) (loadBuffer L k) (\<lambda>_. ?P (ys @ [k]))"
      by (rule triple_conseq [OF t_loadBuffer], assumption, erule ledger_cong)
        (auto simp: processed_def)
  qed
  then have loop: "triple (\<lambda>_ _ _. True) (ledger H ex n D F) (forM (loadBuffer L) ks) (\<lambda>_. ?P ks)" by simp
  show "triple (\<lambda>_ _ _. True) (\<lambda>s. ks = container_keys (le_ord L) (m_inferBufferContainer (ldr s)) \<and>
      ledger H ex n D F s) (forM (loadBuffer L) ks) (\<lambda>_. ledger H ex n D (\<lambda>i. processed (F i)))"
  proof (rule tripleI)
    fix s x t
    assume s: "ks = container_keys (le_ord L) (m_inferBufferContainer (ldr s)) \<and> ledger H ex n D F s"
      and run: "forM (loadBuffer L) ks s = (x, t)"
    have all: "i \<in> set ks" if "D i" for i
      using s that by (simp add: container_keys_set [OF assms] ledger_def entries_are_def)
    have "ledger H ex n D (\<lambda>i. processed (F i)) t" if "x = Inr v" for v
      using triple_post [OF loop, of s v t] s run that all by (auto elim!: ledger_cong)
    then show "True \<and> (\<forall>v. x = Inr v \<longrightarrow> ledger H ex n D (\<lambda>i. processed (F i)) t)" by blast
  qed
qed

section \<open>The whole load\<close>

text \<open>What the constructor leaves behind, as far as \<^verbatim>\<open>load\<close> depends on it.\<close>

definition fresh_loader :: "lstate \<Rightarrow> bool" where
  "fresh_loader s \<longleftrightarrow> reader_ok (m_reader (shd s)) \<and>
     mBufferMap (m_inferBufferContainer (ldr s)) = [] \<and>
     m_relocationSectionIndexes (shd s) = [] \<and> m_jitRelocations (shd s) = []"

definition loaded_details :: "Elf64_Shdr list \<Rightarrow> nat \<Rightarrow> BufferDetails" where
  "loaded_details H i = processed (unshare (hit H (relocs_upto True H (length H)) i)
     (unshare (hit H (relocs_upto False H (length H)) i) (first_details (H ! i))))"

lemma t_sectionsNum:
  "triple (\<lambda>_ _ _. True) (ledger H ex n D F) sectionsNum (\<lambda>v s. v = length H \<and> ledger H ex n D F s)"
  unfolding sectionsNum_def
proof (rule any.t_bind [OF any.t_read])
  fix rd
  show "triple (\<lambda>_ _ _. True) (\<lambda>s. rd = m_reader (shd s) \<and> ledger H ex n D F s) (liftM (getSectionsNum rd))
      (\<lambda>v s. v = length H \<and> ledger H ex n D F s)"
    by (rule triple_conseq [OF any.t_lift, where P = "\<lambda>s. rd = m_reader (shd s) \<and> ledger H ex n D F s"])
      (auto simp: getSectionsNum_def throw_when_def ledger_def reader_ok_def split: if_splits)
qed

lemma t_relocationLists:
  "triple (\<lambda>_ _ _. True) (ledger H ex n D F) (readM (\<lambda>s. m_relocationSectionIndexes (shd s)))
     (\<lambda>v s. v = relocs_upto False H n \<and> ledger H ex n D F s)"
  "triple (\<lambda>_ _ _. True) (ledger H ex n D F) (readM (\<lambda>s. m_jitRelocations (shd s)))
     (\<lambda>v s. v = relocs_upto True H n \<and> ledger H ex n D F s)"
  by (rule triple_conseq [OF any.t_read]; auto simp: ledger_def)+

abbreviation loaded_ledger :: "Elf64_Shdr list \<Rightarrow> bool \<Rightarrow> lstate \<Rightarrow> bool" where
  "loaded_ledger H ex \<equiv> ledger H ex (length H) (\<lambda>i. i < length H \<and> gets_buffer ex (H ! i)) (loaded_details H)"

text \<open>
  \<^verbatim>\<open>load\<close> in parts: the buffers are laid out, then the relocation sections run, at last the flag is set.
\<close>

definition lay_out :: "lenv \<Rightarrow> (lstate, nat list) prog" where
  "lay_out L =
     bindM sectionsNum (\<lambda>numSections.
     bindM (forM (loadSection L) [0..<numSections]) (\<lambda>_.
     bindM (readM (\<lambda>s. m_relocationSectionIndexes (shd s))) (\<lambda>relocs.
     bindM (updateSharedBuffers relocs) (\<lambda>_.
     bindM (readM (\<lambda>s. m_jitRelocations (shd s))) (\<lambda>jits.
     bindM (updateSharedBuffers jits) (\<lambda>_.
     bindM (loadBuffers L) (\<lambda>_. retM relocs)))))))"

definition load_body :: "lenv \<Rightarrow> Elf64_Sym list \<Rightarrow> bool \<Rightarrow> u32 list \<Rightarrow> (lstate, unit) prog" where
  "load_body L syms ov types =
     bindM (on_ldr (\<lambda>l. l\<lparr>m_runtimeSymTabs := syms, m_symTabOverrideMode := ov,
       m_explicitAllocations := ov, m_symbolSectionTypes := types\<rparr>)) (\<lambda>_.
     bindM (lay_out L) (\<lambda>relocs.
     bindM (readM (\<lambda>s. m_sharedScratchBuffers (ldr s))) (\<lambda>scratch.
     if scratch = [] then applyRelocations L relocs else retM ())))"

lemma load_split:
  "load L syms ov types s =
     (if m_loaded (ldr s) then (Inl SequenceError, s)
      else bindM (load_body L syms ov types) (\<lambda>_. on_ldr (m_loaded_update (\<lambda>_. True))) s)"
  unfolding load_def load_body_def lay_out_def bindM_assoc bindM_retM
  by (subst bindM_readM) (simp add: throwM_def)

lemma t_lay_out:
  assumes "order_ok (le_ord L)"
  shows "triple (\<lambda>_ _ _. True) (registered H ov 0) (lay_out L)
     (\<lambda>relocs s. relocs = relocs_upto False H (length H) \<and> loaded_ledger H ov s)"
  unfolding lay_out_def
  apply (rule any.t_bind [OF t_sectionsNum], rule triple_fact, simp only:)
  apply (rule any.t_bind, rule any.t_upto [where P = "registered H ov"], rule t_loadSection)
  apply (rule any.t_bind [OF t_relocationLists(1)], rule triple_fact, simp only:)
  apply (rule any.t_bind [OF t_updateSharedBuffers])
  apply (rule any.t_bind [OF t_relocationLists(2)], rule triple_fact, simp only:)
  apply (rule any.t_bind [OF t_updateSharedBuffers], rule any.t_bind [OF t_loadBuffers [OF assms]])
  apply (fold loaded_details_def)
  apply (simp add: triple_def retM_def)
  done

lemma fresh_registered:
  "fresh_loader s \<Longrightarrow> mSectionHeaders (m_reader (shd s)) = H \<Longrightarrow>
    registered H ov 0 (s\<lparr>ldr := (ldr s)\<lparr>m_runtimeSymTabs := syms, m_symTabOverrideMode := ov,
      m_explicitAllocations := ov, m_symbolSectionTypes := types\<rparr>\<rparr>)"
  by (auto simp: fresh_loader_def ledger_def relocs_upto_def entries_are_def hasBufferInfoAtIndex_def
      getBufferInfoFromIndex_def)

lemma t_load:
  assumes "order_ok (le_ord L)"
  shows "triple (\<lambda>_ _ _. True) (\<lambda>s. fresh_loader s \<and> mSectionHeaders (m_reader (shd s)) = H)
     (load L syms ov types) (\<lambda>_ s. m_loaded (ldr s) \<and> loaded_ledger H ov s)"
proof -
  have start: "triple (\<lambda>_ _ _. True) (\<lambda>s. fresh_loader s \<and> mSectionHeaders (m_reader (shd s)) = H)
      (on_ldr (\<lambda>l. l\<lparr>m_runtimeSymTabs := syms, m_symTabOverrideMode := ov, m_explicitAllocations := ov,
        m_symbolSectionTypes := types\<rparr>)) (\<lambda>_. registered H ov 0)"
    unfolding on_ldr_def by (rule any.t_modify, intro conjI TrueI, elim conjE, rule fresh_registered)
  have finish: "triple (\<lambda>_ _ _. True) (loaded_ledger H ov) (on_ldr (m_loaded_update (\<lambda>_. True)))
      (\<lambda>_ s. m_loaded (ldr s) \<and> loaded_ledger H ov s)"
    unfolding on_ldr_def by (rule any.t_modify) (auto simp: ledger_def)
  have body: "triple (\<lambda>_ _ _. True) (\<lambda>s. fresh_loader s \<and> mSectionHeaders (m_reader (shd s)) = H)
      (bindM (load_body L syms ov types) (\<lambda>_. on_ldr (m_loaded_update (\<lambda>_. True))))
      (\<lambda>_ s. m_loaded (ldr s) \<and> loaded_ledger H ov s)"
    unfolding load_body_def
    apply (rule any.t_bind [OF _ finish], rule any.t_bind [OF start])
    apply (rule any.t_bind [OF t_lay_out [OF assms]], rule triple_fact, rule any.t_bind [OF t_observe])
    apply (rule any.t_if, rule t_calm [OF calm_applyRelocations], rule any.t_ret)
    done
  show ?thesis
    by (rule tripleI) (auto simp: load_split triple_post [OF body] split: if_splits)
qed

lemma hit_relocs:
  "hit H (relocs_upto False H (length H)) i \<or> hit H (relocs_upto True H (length H)) i \<longleftrightarrow> targeted H i"
  by (auto simp: hit_def relocs_upto_def is_reloc_def targeted_def)

lemma loaded_details_shared:
  "mIsShared (loaded_details H i) \<longleftrightarrow> shareable H i"
  "mHasData (loaded_details H i) \<longleftrightarrow> sh_type (H ! i) = SHT_PROGBITS"
  "mIsProcessed (loaded_details H i)"
  using hit_relocs [of H i]
  by (auto simp: loaded_details_def processed_def unshare_def first_details_def details_def shareable_def)

lemma ledger_targets_private:
  assumes "loaded_ledger H ex t"
  shows "targets_private (shd t) (ldr t)"
proof -
  have "\<not> mIsShared (mBufferDetails info)"
    if k: "k \<in> set (m_relocationSectionIndexes (shd t))" "k < length (mSectionHeaders (m_reader (shd t)))"
      "relocationTarget (mSectionHeaders (m_reader (shd t)) ! k) = Some i"
      and i: "getBufferInfoFromIndex i (m_inferBufferContainer (ldr t)) = Inr info" for k i info
  proof -
    have H: "mSectionHeaders (m_reader (shd t)) = H" "m_relocationSectionIndexes (shd t) = relocs_upto False H (length H)"
      using assms by (simp_all add: ledger_def)
    then have "targeted H i" using k hit_relocs [of H i] by (auto simp: hit_def)
    moreover have "mBufferDetails info = loaded_details H i"
      using assms i entries_lookup by (auto simp: ledger_def)
    ultimately show ?thesis by (simp add: loaded_details_shared shareable_def)
  qed
  then show ?thesis unfolding targets_private_def by blast
qed

text \<open>
  C5. Loading decides from the section table alone which buffers there are and which are shared.
  After a successful load of a fresh loader, section \<open>i\<close> has a buffer exactly if it holds program
  data, or scratch memory that is not for user I/O, and is allocatable when only such sections were
  asked for; its buffer is shared by the copies of the loader exactly if the section holds data, is
  read-only and is not the target of any relocation section, just-in-time ones included; and no
  relocation section that runs on a copy patches a shared buffer.
\<close>

theorem load_decides_sharing:
  assumes "order_ok (le_ord L)" and "fresh_loader s" and "load L syms ov types s = (Inr (), t)"
  shows "m_loaded (ldr t) \<and>
    (let H = mSectionHeaders (m_reader (shd s)) in
     (\<forall>i. hasBufferInfoAtIndex i (m_inferBufferContainer (ldr t)) \<longleftrightarrow> i < length H \<and> gets_buffer ov (H ! i)) \<and>
     (\<forall>i info. getBufferInfoFromIndex i (m_inferBufferContainer (ldr t)) = Inr info \<longrightarrow>
        mIsProcessed (mBufferDetails info) \<and>
        (mHasData (mBufferDetails info) \<longleftrightarrow> sh_type (H ! i) = SHT_PROGBITS) \<and>
        (mIsShared (mBufferDetails info) \<longleftrightarrow> shareable H i))) \<and>
    targets_private (shd t) (ldr t)"
proof -
  let ?H = "mSectionHeaders (m_reader (shd s))"
  have l: "m_loaded (ldr t)" "loaded_ledger ?H ov t"
    using triple_post [OF t_load [OF assms(1)] _ assms(3)] assms(2) by auto
  have e: "entries_are (\<lambda>i. i < length ?H \<and> gets_buffer ov (?H ! i)) (loaded_details ?H)
      (m_inferBufferContainer (ldr t))"
    using l(2) by (simp add: ledger_def)
  have h: "hasBufferInfoAtIndex i (m_inferBufferContainer (ldr t)) \<longleftrightarrow> i < length ?H \<and> gets_buffer ov (?H ! i)" for i
    using e by (simp add: entries_are_def)
  have d: "mBufferDetails info = loaded_details ?H i"
    if "getBufferInfoFromIndex i (m_inferBufferContainer (ldr t)) = Inr info" for i info
    using entries_lookup [OF e that] by simp
  show ?thesis
    using l(1) ledger_targets_private [OF l(2)] by (simp add: Let_def h d loaded_details_shared)
qed

section \<open>Loading runs once\<close>

definition flag_kept :: "lstate \<Rightarrow> elf_error option \<Rightarrow> lstate \<Rightarrow> bool" where
  "flag_kept s x t \<longleftrightarrow> m_loaded (ldr t) = m_loaded (ldr s) \<and>
     m_runtimeSymTabs (ldr t) = m_runtimeSymTabs (ldr s) \<and> m_symbolSectionTypes (ldr t) = m_symbolSectionTypes (ldr s)"

interpretation flag: state_relation flag_kept
  by unfold_locales (auto simp: flag_kept_def)

lemma flag_calm: "relates calm m \<Longrightarrow> relates flag_kept m"
  by (auto simp: relates_def calm_def flag_kept_def)

lemma flag_on_ldr:
  "(\<And>l. m_loaded (f l) = m_loaded l \<and> m_runtimeSymTabs (f l) = m_runtimeSymTabs l \<and>
     m_symbolSectionTypes (f l) = m_symbolSectionTypes l) \<Longrightarrow> relates flag_kept (on_ldr f)"
  by (simp add: relates_def on_ldr_def modifyM_def flag_kept_def)

lemma flag_on_shd: "relates flag_kept (on_shd f)"
  by (simp add: relates_def on_shd_def modifyM_def flag_kept_def)

lemma flag_containers:
  "relates flag_kept (setInfer i info)" "relates flag_kept (setBackup i info)"
  "relates flag_kept (safeInitInfer i)" "relates flag_kept (safeInitBackup i)"
  unfolding setInfer_def setBackup_def safeInitInfer_def safeInitBackup_def
  by (intro flag.rel_rules flag_on_ldr, simp_all)+

lemma flag_guarded:
  assumes "relates flag_kept body"
  shows "relates flag_kept (guarded L b body)"
proof (cases b)
  case (Some r)
  have "relates flag_kept (finallyM body (\<lambda>s. s\<lparr>wld := unlock (le_env L) r (wld s)\<rparr>))"
    by (rule relatesI) (auto simp: finallyM_def flag_kept_def split: prod.splits dest: relatesD [OF assms])
  then show ?thesis
    by (simp add: guarded_def Some flag.rel_bind flag_calm [OF calm_in_world])
qed (simp add: guarded_def assms)

lemmas flag_prims = flag_calm [OF calm_in_world] flag_calm [OF calm_sections(1)] flag_calm [OF calm_sections(2)]
  flag_calm [OF calm_sections(3)] flag_calm [OF calm_reads(1)] flag_calm [OF calm_reads(3)]
  flag_calm [OF calm_reads(9)] flag_calm [OF calm_applyRelocations] flag_containers flag_on_shd flag_guarded

lemma flag_loadSection: "relates flag_kept (loadSection L i)"
proof -
  have "relates flag_kept (loadDataSection i h)" "relates flag_kept (loadScratchSection L i h)"
    "relates flag_kept (registerRelocation L i h)" for h
    unfolding loadDataSection_def loadScratchSection_def registerRelocation_def Let_def
    by (intro flag.rel_rules flag_prims flag_on_ldr | simp)+
  then show ?thesis
    unfolding loadSection_def Let_def
    by (intro flag.rel_rules flag_prims)
      (auto split: Action.split intro!: flag.rel_rules flag_prims)
qed

lemma flag_updateSharedBuffers: "relates flag_kept (updateSharedBuffers is)"
  unfolding updateSharedBuffers_def updateSharedBuffer_def
  by (intro flag.rel_rules flag_prims)
    (auto split: option.split intro!: flag.rel_rules flag_prims)

lemma flag_loadBuffers: "relates flag_kept (loadBuffers L)"
  unfolding loadBuffers_def loadBuffer_def Let_def
  by (intro flag.rel_rules flag_prims)

lemma flag_lay_out: "relates flag_kept (lay_out L)"
  unfolding lay_out_def
  by (intro flag.rel_rules flag_prims flag_loadSection flag_updateSharedBuffers flag_loadBuffers)

lemma flag_load_body:
  assumes "load_body L syms ov types s = (x, t)"
  shows "m_loaded (ldr t) = m_loaded (ldr s)"
proof -
  have "relates flag_kept (bindM (lay_out L) (\<lambda>relocs.
      bindM (readM (\<lambda>s. m_sharedScratchBuffers (ldr s))) (\<lambda>scratch.
      if scratch = [] then applyRelocations L relocs else retM ())))"
    by (intro flag.rel_rules flag_prims flag_lay_out)
  from relatesD [OF this] assms show ?thesis
    by (fastforce simp: load_body_def flag_kept_def bindM_def on_ldr_def modifyM_def)
qed

lemma load_flag: "load L syms ov types s = (Inr (), t) \<Longrightarrow> m_loaded (ldr t)"
  by (auto simp: load_split bindM_Inr_iff on_ldr_def modifyM_def split: if_splits)

text \<open>
  C13. A loader loads once. On a loader that has been loaded, \<^verbatim>\<open>load\<close> throws a sequence error and
  changes nothing at all; on one that has not, the loader counts as loaded afterwards exactly if
  the load succeeded, wherever it may have failed.
\<close>

theorem load_runs_once:
  "case load L syms ov types s of (x, t) \<Rightarrow>
     if m_loaded (ldr s) then x = Inl SequenceError \<and> t = s
     else m_loaded (ldr t) \<longleftrightarrow> x = Inr ()"
proof (cases "m_loaded (ldr s)")
  case True
  then show ?thesis by (simp add: load_split)
next
  case False
  obtain x t where run: "load L syms ov types s = (x, t)" by (metis surj_pair)
  then have "bindM (load_body L syms ov types) (\<lambda>_. on_ldr (m_loaded_update (\<lambda>_. True))) s = (x, t)"
    using False by (simp add: load_split)
  then have "m_loaded (ldr t) \<longleftrightarrow> x = Inr ()"
  proof (cases rule: bindM_cases)
    case (err e)
    then show ?thesis using flag_load_body [OF err(1)] False by simp
  next
    case (ok v u)
    then show ?thesis by (auto simp: on_ldr_def modifyM_def)
  qed
  then show ?thesis using run False by simp
qed

end
