(* ===== verification/Elf_Loader_Copy.thy ===== *)
theory Elf_Loader_Copy imports Elf_Loader_Props begin

text \<open>
  Copies of a loader do not disturb each other. \<open>steady N\<close> relates the states of the programs that a
  copy runs on itself; \<open>private_ok N\<close> says that the buffers a loader writes have no storage below block
  \<open>N\<close>.
\<close>

section \<open>Programs that leave the loader's own state alone\<close>

definition loader_documented :: "lenv \<Rightarrow> bool" where
  "loader_documented L \<longleftrightarrow> lock_documented (env_bm (le_env L)) \<and>
     allocate_documented (env_bm (le_env L)) \<and> copy_documented (env_bm (le_env L))"

definition steady :: "nat \<Rightarrow> lstate \<Rightarrow> elf_error option \<Rightarrow> lstate \<Rightarrow> bool" where
  "steady N s x t \<longleftrightarrow> calm s x t \<and> grows_from N (wld s) x (wld t)"

interpretation steady: state_relation "steady N"
  by unfold_locales
    (auto simp: steady_def intro: calm.R_refl calm.R_err grows.R_refl grows.R_err
      calm.R_trans grows.R_trans)

definition stable :: "nat \<Rightarrow> (lstate \<Rightarrow> bool) \<Rightarrow> bool" where
  "stable N P \<longleftrightarrow> (\<forall>s x t. P s \<longrightarrow> steady N s x t \<longrightarrow> P t)"

lemmas steady_calm_def = steady_def calm_def

lemma t_steady: "relates (steady N) m \<Longrightarrow> stable N P \<Longrightarrow> triple (steady N) P m (\<lambda>_. P)"
  unfolding triple_def stable_def by (metis relatesD)

lemma steady_in_world: "relates (grows_from N) m \<Longrightarrow> relates (steady N) (in_world m)"
proof (rule relatesI)
  fix s x t
  assume m: "relates (grows_from N) m" and run: "in_world m s = (x, t)"
  show "steady N s (outcome x) t"
    using in_world_cases [OF run] relatesD [OF m] relatesD [OF table_in_world run]
    by (simp add: steady_calm_def)
qed

lemma steady_sectionAt: "relates (steady N) (sectionAt i)"
proof (rule relatesI)
  fix s x t
  assume run: "sectionAt i s = (x, t)"
  then have "ldr t = ldr s" "wld t = wld s" "m_jitRelocations (shd t) = m_jitRelocations (shd s)"
    "m_relocationSectionIndexes (shd t) = m_relocationSectionIndexes (shd s)"
    by (auto simp: sectionAt_def in_reader_def zoomM_def sectionM_def split: prod.splits)
  then show "steady N s (outcome x) t"
    using relatesD [OF table_sectionAt run] by (simp add: steady_calm_def grows_from_def)
qed

lemma steady_sectionData:
  assumes "loader_documented L"
  shows "relates (steady N) (sectionData L i)"
proof (rule relatesI)
  fix s x t
  assume run: "sectionData L i s = (x, t)"
  then obtain rd' where d: "sectionDataM (le_env L) (le_am L) i (m_reader (shd s), wld s) = (x, (rd', wld t))"
    and t: "ldr t = ldr s" "m_jitRelocations (shd t) = m_jitRelocations (shd s)"
    "m_relocationSectionIndexes (shd t) = m_relocationSectionIndexes (shd s)"
    by (auto simp: sectionData_def in_reader_def zoomM_def split: prod.splits)
  have g: "relates (grows_from N) (getData (le_env L) (le_am L) sec)" for sec
    using assms by (simp add: grows_getData loader_documented_def)
  from d have "grows_from N (wld s) (outcome x) (wld t)"
    by (cases rule: sectionDataM_cases)
      (auto simp: grows.R_err dest: relatesD [OF g])
  then show "steady N s (outcome x) t"
    using relatesD [OF table_sectionData run] t by (simp add: steady_calm_def)
qed

lemma steady_sectionsNum: "relates (steady N) sectionsNum"
  unfolding sectionsNum_def by (intro steady.rel_rules)

lemma steady_infos: "relates (steady N) (inferInfo i)" "relates (steady N) (backupInfo i)"
    "relates (steady N) (read_at p n)" "relates (steady N) (symbol_of p i)"
    "relates (steady N) (relocation_of p i)" "relates (steady N) (runtimeSymbol i)"
  unfolding inferInfo_def backupInfo_def read_at_def symbol_of_def relocation_of_def runtimeSymbol_def
  by (intro steady.rel_rules steady_in_world grows.rel_rules)+

lemma steady_resolveSymbol: "relates (steady N) (resolveSymbol tab y)"
  unfolding resolveSymbol_def Let_def
  by (intro steady.rel_rules steady_infos steady_sectionAt steady_in_world grows.rel_rules grows_deref)

lemma steady_symTabAt: "relates (steady N) (symTabAt tab i)"
  by (cases tab) (simp_all add: steady_infos)

lemma steady_getSymTab: "loader_documented L \<Longrightarrow> relates (steady N) (getSymTab L j)"
  unfolding getSymTab_def
  by (intro steady.rel_rules steady_infos steady_sectionAt steady_sectionData)

lemmas steady_prims = steady_sectionAt steady_sectionData steady_sectionsNum steady_infos
  steady_symTabAt steady_getSymTab

lemma t_guarded:
  assumes L: "loader_documented L" and body: "triple (steady N) P body Q" and P: "stable N P"
  shows "triple (steady N) P (guarded L b body) (\<lambda>_ _. True)"
proof (cases b)
  case None
  then show ?thesis using body by (simp add: guarded_def triple_def)
next
  case (Some r)
  let ?u = "\<lambda>s. s\<lparr>wld := unlock (le_env L) r (wld s)\<rparr>"
  have doc: "lock_documented (env_bm (le_env L))" using L by (simp add: loader_documented_def)
  have l: "triple (steady N) P (in_world (lock (le_env L) r)) (\<lambda>_. P)"
    by (rule t_steady [OF steady_in_world [OF grows_lock [OF doc]] P])
  have f: "triple (steady N) P (finallyM body ?u) (\<lambda>_ _. True)"
  proof (rule tripleI)
    fix s x t
    assume s: "P s" and "finallyM body ?u s = (x, t)"
    then obtain t' where t': "body s = (x, t')" and t: "t = ?u t'"
      by (auto simp: finallyM_def split: prod.splits)
    have "steady N s (outcome x) t'" by (rule triple_rel [OF body s t'])
    then show "steady N s (outcome x) t \<and> (\<forall>v. x = Inr v \<longrightarrow> True)"
      using grows_unlock [OF doc, of N "wld t'" None r]
      by (auto simp: t steady_calm_def table_kept_def grows_from_def)
  qed
  show ?thesis unfolding Some guarded_def option.case by (rule steady.t_bind [OF l f])
qed

section \<open>Private buffers\<close>

definition private_ok :: "nat \<Rightarrow> lstate \<Rightarrow> bool" where
  "private_ok N s \<longleftrightarrow> N \<le> length (memory (wld s)) \<and> reader_ok (m_reader (shd s)) \<and>
     targets_private (shd s) (ldr s) \<and>
     (\<forall>i info r. getBufferInfoFromIndex i (m_inferBufferContainer (ldr s)) = Inr info \<longrightarrow>
        \<not> mIsShared (mBufferDetails info) \<longrightarrow> mBuffer info = Some r \<longrightarrow> owned N r (wld s))"

lemma stable_private_ok: "stable N (private_ok N)"
proof -
  have "private_ok N t" if s: "private_ok N s" and r: "steady N s x t" for s x t
  proof -
    have g: "grows_from N (wld s) x (wld t)" using r by (simp add: steady_calm_def)
    have len: "N \<le> length (memory (wld t))" using s g by (auto simp: private_ok_def grows_from_def)
    have own: "owned N b (wld s) \<Longrightarrow> owned N b (wld t)" for b using owned_grows g by blast
    show ?thesis
      using s r len own unfolding steady_calm_def table_kept_def private_ok_def targets_private_def by metis
  qed
  then show ?thesis by (auto simp: stable_def)
qed

lemma stable_owned: "stable N (\<lambda>s. owned N r (wld s))"
  unfolding stable_def steady_calm_def using owned_grows by blast

lemma stable_conj: "stable N P \<Longrightarrow> stable N Q \<Longrightarrow> stable N (\<lambda>s. P s \<and> Q s)"
  by (auto simp: stable_def)

lemma deref_Inr: "in_world (deref b) s = (Inr r, t) \<longleftrightarrow> b = Some r \<and> r < length (objs (wld s)) \<and> t = s"
  by (auto simp: in_world_def zoomM_def deref_def split: option.splits if_splits)

section \<open>Reloading\<close>

lemma t_stable: "triple (steady N) P m Q \<Longrightarrow> stable N P \<Longrightarrow> triple (steady N) P m (\<lambda>v s. P s)"
  unfolding triple_def stable_def by meson

lemma t_weaken: "triple (steady N) P m Q \<Longrightarrow> triple (steady N) P m (\<lambda>_ _. True)"
  by (simp add: triple_def)

lemma t_inferInfo:
  "triple (steady N) (private_ok N) (inferInfo i) (\<lambda>info s. private_ok N s \<and>
     getBufferInfoFromIndex i (m_inferBufferContainer (ldr s)) = Inr info)"
  by (rule steady.t_relates [OF steady_infos(1)]) (simp add: inferInfo_Inr)

text \<open>Dereferencing the buffer of an entry that is not shared gives a buffer that may be written.\<close>

lemma t_deref_private:
  assumes "\<not> mIsShared (mBufferDetails info)"
  shows "triple (steady N) (\<lambda>s. private_ok N s \<and>
      getBufferInfoFromIndex i (m_inferBufferContainer (ldr s)) = Inr info)
    (in_world (deref (mBuffer info))) (\<lambda>r s. private_ok N s \<and> owned N r (wld s))"
  by (rule steady.t_relates [OF steady_in_world [OF grows_deref]])
    (use assms in \<open>auto simp: deref_Inr private_ok_def\<close>)

lemma stable_infer: "stable N (\<lambda>s. private_ok N s \<and>
    getBufferInfoFromIndex i (m_inferBufferContainer (ldr s)) = Inr info)"
  using stable_private_ok by (auto simp: stable_def steady_calm_def)

lemma t_loadWithLock:
  assumes "loader_documented L"
  shows "triple (steady N) (\<lambda>s. owned N r (wld s)) (in_world (loadWithLock (le_env L) r src n)) (\<lambda>_ _. True)"
proof (rule tripleI)
  fix s x t
  assume own: "owned N r (wld s)" and run: "in_world (loadWithLock (le_env L) r src n) s = (x, t)"
  then have "loadWithLock (le_env L) r src n (wld s) = (x, wld t)"
    by (auto simp: in_world_def zoomM_def split: prod.splits)
  then have "grows_from N (wld s) (outcome x) (wld t)"
    using grows_loadWithLock [where r = r and E = "le_env L"] own assms
    by (simp add: loader_documented_def)
  then show "steady N s (outcome x) t \<and> (\<forall>v. x = Inr v \<longrightarrow> True)"
    using relatesD [OF table_in_world run] in_world_cases [OF run] by (simp add: steady_calm_def)
qed

lemma private_reloadNewBuffer:
  assumes L: "loader_documented L"
  shows "triple (steady N) (private_ok N) (reloadNewBuffer L i) (\<lambda>_. private_ok N)"
proof (rule t_stable [OF _ stable_private_ok])
  let ?I = "\<lambda>(info :: BufferInfo) s. private_ok N s \<and>
    getBufferInfoFromIndex i (m_inferBufferContainer (ldr s)) = Inr info"
  have body: "triple (steady N) (?I info)
      (bindM (in_world (deref (mBuffer backup))) (\<lambda>b.
       bindM (in_world (deref (mBuffer info))) (\<lambda>r.
       bindM (readM (\<lambda>s. getBuffer b (wld s))) (\<lambda>from.
       bindM (readM (\<lambda>s. getBuffer r (wld s))) (\<lambda>to.
       throwM_unless (buf_size from = buf_size to) RuntimeError
       (in_world (loadWithLock (le_env L) r (cpu_addr from) (buf_size to)))))))) (\<lambda>_ _. True)"
    if "\<not> mIsShared (mBufferDetails info)" for info :: BufferInfo and backup :: BufferInfo
  proof (rule steady.t_bind)
    show "triple (steady N) (?I info) (in_world (deref (mBuffer backup))) (\<lambda>_. ?I info)"
      by (rule t_steady [OF steady_in_world [OF grows_deref] stable_infer])
    fix b
    show "triple (steady N) (?I info) (bindM (in_world (deref (mBuffer info))) (\<lambda>r.
       bindM (readM (\<lambda>s. getBuffer b (wld s))) (\<lambda>from.
       bindM (readM (\<lambda>s. getBuffer r (wld s))) (\<lambda>to.
       throwM_unless (buf_size from = buf_size to) RuntimeError
       (in_world (loadWithLock (le_env L) r (cpu_addr from) (buf_size to))))))) (\<lambda>_ _. True)"
      by (rule steady.t_bind [OF t_deref_private [OF that]], rule steady.t_bind [OF steady.t_read],
          rule steady.t_bind [OF steady.t_read], rule steady.t_unless,
          rule triple_pre [OF t_loadWithLock [OF L]]) simp
  qed
  show "triple (steady N) (private_ok N) (reloadNewBuffer L i) (\<lambda>_ _. True)"
    unfolding reloadNewBuffer_def
  proof (rule steady.t_bind [OF t_inferInfo], rule steady.t_if)
    fix info :: BufferInfo
    assume c: "mHasData (mBufferDetails info) \<and> \<not> mIsShared (mBufferDetails info)"
    show "triple (steady N) (?I info) (bindM (backupInfo i) (\<lambda>backup. guarded L (mBuffer backup)
      (bindM (in_world (deref (mBuffer backup))) (\<lambda>b.
       bindM (in_world (deref (mBuffer info))) (\<lambda>r.
       bindM (readM (\<lambda>s. getBuffer b (wld s))) (\<lambda>from.
       bindM (readM (\<lambda>s. getBuffer r (wld s))) (\<lambda>to.
       throwM_unless (buf_size from = buf_size to) RuntimeError
       (in_world (loadWithLock (le_env L) r (cpu_addr from) (buf_size to)))))))))) (\<lambda>_ _. True)"
      by (rule steady.t_bind [OF t_steady [OF steady_infos(2) stable_infer]])
        (rule t_guarded [OF L body stable_infer], use c in simp)
  qed (rule steady.t_ret [of N "\<lambda>_ _. True", THEN triple_pre], simp)
qed

lemma private_reloadNewBuffers:
  assumes "loader_documented L"
  shows "triple (steady N) (private_ok N) (reloadNewBuffers L) (\<lambda>_. private_ok N)"
  unfolding reloadNewBuffers_def
  by (rule steady.t_bind [OF steady.t_read])
    (rule triple_pre [OF steady.t_for [OF private_reloadNewBuffer [OF assms]]], simp)

section \<open>Relocating\<close>

lemma steady_applyRelocM:
  assumes "beyond N p"
  shows "relates (steady N) (applyRelocM f p y a)"
  unfolding applyRelocM_def
  by (rule steady_in_world)
    (use assms in \<open>auto simp: relates_def grows_from_def split: ptr.splits sum.splits\<close>)

lemma beyond_add: "beyond N p \<Longrightarrow> beyond N (ptr_add p n)"
  by (cases p) auto

lemma steady_applyRelocation:
  assumes "beyond N addr"
  shows "relates (steady N) (applyRelocation tab p r addr i)"
  unfolding applyRelocation_def Let_def
  by (intro steady.rel_rules steady_infos)
    (auto split: option.split intro!: steady.rel_rules steady_symTabAt steady_resolveSymbol
      steady_applyRelocM beyond_add [OF assms])

text \<open>A relocation sec of the loader, and the entry of its target.\<close>

definition private_section :: "nat \<Rightarrow> nat \<Rightarrow> RSection \<Rightarrow> lstate \<Rightarrow> bool" where
  "private_section N k sec s \<longleftrightarrow> private_ok N s \<and>
     k \<in> set (m_relocationSectionIndexes (shd s)) \<and>
     k < length (mSectionHeaders (m_reader (shd s))) \<and>
     rs_header sec = mSectionHeaders (m_reader (shd s)) ! k"

lemma stable_section: "stable N (private_section N k sec)"
  using stable_private_ok [of N]
  by (auto simp: stable_def private_section_def steady_calm_def table_kept_def)

lemma t_private_section:
  "triple (steady N) (\<lambda>s. private_ok N s \<and> k \<in> set (m_relocationSectionIndexes (shd s)))
     (sectionAt k) (\<lambda>sec. private_section N k sec)"
proof (rule steady.t_relates [OF steady_sectionAt])
  fix s t sec
  assume s: "private_ok N s \<and> k \<in> set (m_relocationSectionIndexes (shd s))" and run: "sectionAt k s = (Inr sec, t)"
  have "reader_ok (m_reader (shd s))" using s by (simp add: private_ok_def)
  note h = sectionAt_header [OF run this]
  have "private_section N k sec s" using s h by (simp add: private_section_def)
  then show "private_section N k sec t"
    using relatesD [OF steady_sectionAt run, of N] stable_section unfolding stable_def by blast
qed

text \<open>Looking up the target of a relocation sec gives an entry that is not shared.\<close>

lemma t_private_target:
  assumes "relocationTarget (rs_header sec) = Some i"
  shows "triple (steady N) (private_section N k sec) (inferInfo i) (\<lambda>info s.
    \<not> mIsShared (mBufferDetails info) \<and> private_ok N s \<and>
    getBufferInfoFromIndex i (m_inferBufferContainer (ldr s)) = Inr info)"
  by (rule steady.t_relates [OF steady_infos(1)])
    (use assms in \<open>auto simp: inferInfo_Inr private_section_def private_ok_def targets_private_def\<close>)

lemma t_relocate_private:
  assumes "\<not> mIsShared (mBufferDetails info)"
  shows "triple (steady N) (\<lambda>s. private_ok N s \<and>
      getBufferInfoFromIndex i (m_inferBufferContainer (ldr s)) = Inr info)
    (bindM (in_world (deref (mBuffer info))) (\<lambda>target.
     bindM (readM (\<lambda>s. cpu_addr (getBuffer target (wld s)))) (\<lambda>addr.
     forM (applyRelocation tab p target addr) [0..<n]))) (\<lambda>_ _. True)"
proof (rule steady.t_bind [OF t_deref_private [OF assms]], rule steady.t_bind [OF steady.t_read])
  fix r addr
  show "triple (steady N) (\<lambda>s. addr = cpu_addr (getBuffer r (wld s)) \<and> private_ok N s \<and> owned N r (wld s))
      (forM (applyRelocation tab p r addr) [0..<n]) (\<lambda>_ _. True)"
  proof (rule triple_pre [OF triple_fact])
    assume "beyond N addr"
    then show "triple (steady N) (\<lambda>_. True) (forM (applyRelocation tab p r addr) [0..<n]) (\<lambda>_ _. True)"
      by (intro steady.t_relates steady.rel_for steady_applyRelocation) simp_all
  qed (simp add: owned_def)
qed

definition relocating :: "nat \<Rightarrow> nat \<Rightarrow> lstate \<Rightarrow> bool" where
  "relocating N k s \<longleftrightarrow> private_ok N s \<and> k \<in> set (m_relocationSectionIndexes (shd s))"

lemma stable_relocating: "stable N (relocating N k)"
  using stable_private_ok [of N] by (auto simp: stable_def relocating_def steady_calm_def)

lemma private_applyRelocationSection:
  assumes L: "loader_documented L"
  shows "triple (steady N) (relocating N k) (applyRelocationSection L k) (\<lambda>_. relocating N k)"
proof (rule t_stable [OF _ stable_relocating])
  show "triple (steady N) (relocating N k) (applyRelocationSection L k) (\<lambda>_ _. True)"
    unfolding applyRelocationSection_def Let_def
  proof (rule steady.t_bind [OF triple_pre [OF t_private_section]])
    fix sec
    note keep = t_steady [OF _ stable_section [of N k sec]]
    show "triple (steady N) (private_section N k sec)
      (bindM (sectionData L k) (\<lambda>relocations.
       bindM (liftM (getEntriesNum sec)) (\<lambda>numRelocs.
       bindM sectionsNum (\<lambda>numSections.
       throwM_unless (unat (sh_link (rs_header sec)) < numSections \<or> sh_link (rs_header sec) = VPU_RT_SYMTAB) RangeError
         (bindM (getSymTab L (sh_link (rs_header sec))) (\<lambda>symTabs.
          case relocationTarget (rs_header sec) of None \<Rightarrow> throwM RelocError
          | Some i \<Rightarrow>
              throwM_when (i = 0 \<or> i > numSections) RelocError
              (bindM (sectionAt i) (\<lambda>_.
               bindM (inferInfo i) (\<lambda>info.
               guarded L (mBuffer info)
                 (bindM (in_world (deref (mBuffer info))) (\<lambda>target.
                  bindM (readM (\<lambda>s. cpu_addr (getBuffer target (wld s)))) (\<lambda>addr.
                  forM (applyRelocation symTabs relocations target addr) [0..<numRelocs]))))))))))))
      (\<lambda>_ _. True)"
      apply (rule steady.t_bind [OF keep [OF steady_sectionData [OF L]]])
      apply (rule steady.t_bind [OF keep [OF steady.rel_lift]])
      apply (rule steady.t_bind [OF keep [OF steady_sectionsNum]])
      apply (rule steady.t_unless)
      apply (rule steady.t_bind [OF keep [OF steady_getSymTab [OF L]]])
      apply (rule steady.t_option)
       apply (rule steady.t_throw)
      apply (rule steady.t_when)
      apply (rule steady.t_bind [OF keep [OF steady_sectionAt]])
      apply (rule steady.t_bind [OF t_private_target], assumption)
      apply (rule triple_fact)
      apply (rule t_guarded [OF L t_relocate_private stable_infer], assumption)
      done
  qed (simp add: relocating_def)
qed

lemma private_applyRelocations:
  assumes "loader_documented L"
  shows "triple (steady N) (\<lambda>s. private_ok N s \<and> ks = m_relocationSectionIndexes (shd s))
    (applyRelocations L ks) (\<lambda>_. private_ok N)"
proof -
  have "triple (steady N) (\<lambda>s. \<forall>k \<in> set ks. relocating N k s) (forM (applyRelocationSection L) ks)
      (\<lambda>_ s. \<forall>k \<in> set ks. relocating N k s)"
  proof (rule steady.t_for)
    fix k
    assume "k \<in> set ks"
    have "stable N (\<lambda>s. \<forall>k \<in> set ks. relocating N k s)"
      using stable_relocating by (fastforce simp: stable_def)
    from t_stable [OF triple_pre [OF private_applyRelocationSection [OF assms, of N k]] this] \<open>k \<in> set ks\<close>
    show "triple (steady N) (\<lambda>s. \<forall>k \<in> set ks. relocating N k s) (applyRelocationSection L k)
        (\<lambda>_ s. \<forall>k \<in> set ks. relocating N k s)" by blast
  qed
  then have "triple (steady N) (\<lambda>s. private_ok N s \<and> ks = m_relocationSectionIndexes (shd s))
      (applyRelocations L ks) (\<lambda>_ _. True)"
    unfolding applyRelocations_def by (rule t_weaken [OF triple_pre]) (auto simp: relocating_def)
  moreover have "stable N (\<lambda>s. private_ok N s \<and> ks = m_relocationSectionIndexes (shd s))"
    using stable_private_ok [of N] by (auto simp: stable_def steady_calm_def)
  ultimately show ?thesis by (rule triple_conseq [OF t_stable]) auto
qed

lemma private_reloadAndRelocate:
  assumes "loader_documented L"
  shows "triple (steady N) (private_ok N) (reloadAndRelocate L) (\<lambda>_. private_ok N)"
  unfolding reloadAndRelocate_def
  by (rule steady.t_bind [OF private_reloadNewBuffers [OF assms]], rule steady.t_bind [OF steady.t_read])
    (rule triple_pre [OF private_applyRelocations [OF assms]], auto)

section \<open>Copying the containers\<close>

text \<open>Every entry of the copy so far has the details of the source's, and its own storage.\<close>

definition copy_inv :: "nat \<Rightarrow> DeviceBufferContainer \<Rightarrow> copy_state \<Rightarrow> bool" where
  "copy_inv N other s \<longleftrightarrow> N \<le> length (memory (snd s)) \<and>
     (\<forall>i new. getBufferInfoFromIndex i (fst s) = Inr new \<longrightarrow>
        (\<exists>old. getBufferInfoFromIndex i other = Inr old \<and> mBufferDetails new = mBufferDetails old) \<and>
        (\<not> mIsShared (mBufferDetails new) \<longrightarrow>
           (\<forall>r. mBuffer new = Some r \<longrightarrow> owned N r (snd s))))"

definition copy_grows :: "nat \<Rightarrow> copy_state \<Rightarrow> elf_error option \<Rightarrow> copy_state \<Rightarrow> bool" where
  "copy_grows N s x t \<longleftrightarrow> grows_from N (snd s) x (snd t)"

interpretation copy_grows: state_relation "copy_grows N"
  by unfold_locales (auto simp: copy_grows_def grows.R_refl grows.R_err intro: grows.R_trans)

lemma copy_inv_grows:
  assumes "copy_inv N other (c, w)" and "grows_from N w x w'"
  shows "copy_inv N other (c, w')"
  using assms owned_grows [OF _ assms(2)] by (force simp: copy_inv_def grows_from_def)

lemma copy_inv_put:
  assumes "copy_inv N other (c, w)" and "getBufferInfoFromIndex i other = Inr old"
    and "mBufferDetails new = mBufferDetails old"
    and "\<And>r. \<not> mIsShared (mBufferDetails new) \<Longrightarrow> mBuffer new = Some r \<Longrightarrow> owned N r w"
  shows "copy_inv N other (setBufferInfo i new c, w)"
  using assms by (auto simp: copy_inv_def container.lookup_put split: if_splits)

lemma copy_copyBufferInfo:
  assumes A: "allocate_documented (env_bm E)"
  shows "triple (copy_grows N) (copy_inv N other) (copyBufferInfo E other i) (\<lambda>_. copy_inv N other)"
  unfolding copyBufferInfo_def
proof (rule copy_grows.t_bind [OF copy_grows.t_lift], rule copy_grows.t_if)
  fix old :: BufferInfo
  assume sh: "mIsShared (mBufferDetails old)"
  show "triple (copy_grows N) (\<lambda>s. getBufferInfoFromIndex i other = Inr old \<and> copy_inv N other s)
      (modifyM (apfst (setBufferInfo i old))) (\<lambda>_. copy_inv N other)"
    by (rule copy_grows.t_modify)
      (use sh in \<open>auto simp: copy_grows_def grows.R_refl intro!: copy_inv_put\<close>)
next
  fix old :: BufferInfo
  assume sh: "\<not> mIsShared (mBufferDetails old)"
  let ?P = "\<lambda>s. getBufferInfoFromIndex i other = Inr old \<and> copy_inv N other s"
  show "triple (copy_grows N) ?P (bindM (inWorld (bindM (deref (mBuffer old)) (createNew E)))
      (\<lambda>r. modifyM (apfst (setBufferInfo i \<lparr>mBuffer = Some r, mBufferDetails = mBufferDetails old\<rparr>))))
      (\<lambda>_. copy_inv N other)"
  proof (rule copy_grows.t_bind)
    show "triple (copy_grows N) ?P (inWorld (bindM (deref (mBuffer old)) (createNew E)))
        (\<lambda>r s. ?P s \<and> owned N r (snd s))"
    proof (rule tripleI)
      fix s x t
      assume P: "?P s" and run: "inWorld (bindM (deref (mBuffer old)) (createNew E)) s = (x, t)"
      obtain c w where s: "s = (c, w)" by (metis surj_pair)
      from run obtain w' where t: "t = (c, w')" and d: "bindM (deref (mBuffer old)) (createNew E) w = (x, w')"
        by (auto simp: s inWorld_def zoomM_def split: prod.splits)
      have "relates (grows_from N) (bindM (deref (mBuffer old)) (createNew E))"
        by (rule grows.rel_bind [OF grows_deref grows_createNew(1) [OF A]])
      note g = relatesD [OF this d]
      have "owned N r w'" if "x = Inr r" for r
        using d P that grows_createNew(2) [OF A] unfolding s copy_inv_def
        by (auto simp: bindM_Inr_iff deref_def split: option.splits if_splits)
      then show "copy_grows N s (outcome x) t \<and> (\<forall>r. x = Inr r \<longrightarrow> ?P t \<and> owned N r (snd t))"
        using g P copy_inv_grows [OF _ g] by (simp add: s t copy_grows_def)
    qed
    fix r
    show "triple (copy_grows N) (\<lambda>s. ?P s \<and> owned N r (snd s))
        (modifyM (apfst (setBufferInfo i \<lparr>mBuffer = Some r, mBufferDetails = mBufferDetails old\<rparr>)))
        (\<lambda>_. copy_inv N other)"
      by (rule copy_grows.t_modify)
        (auto simp: copy_grows_def grows.R_refl intro!: copy_inv_put)
  qed
qed

lemma container_copy_owned:
  assumes A: "allocate_documented (env_bm E)" and N: "N \<le> length (memory w)"
    and run: "DeviceBufferContainer_copy E ord other w = (x, w')"
  shows "grows_from N w (outcome x) w'" and "x = Inr c \<Longrightarrow> copy_inv N other (c, w')"
proof -
  let ?new = "(DeviceBufferContainer_new (mBufferManager other), w)"
  obtain y c1 w1 where m: "copyBufferMap E ord False other ?new = (y, (c1, w1))" by (metis surj_pair)
  have r: "w' = w1" "outcome x = outcome y" "\<And>c. x = Inr c \<Longrightarrow> y = Inr () \<and> c = c1"
    using run m by (auto simp: DeviceBufferContainer_copy_def split: sum.splits)
  have t: "triple (copy_grows N) (copy_inv N other) (copyBufferMap E ord False other) (\<lambda>_. copy_inv N other)"
    by (simp add: copyBufferMap_def copy_grows.t_for [OF copy_copyBufferInfo [OF A]])
  have i: "copy_inv N other ?new"
    using N by (simp add: copy_inv_def getBufferInfoFromIndex_def DeviceBufferContainer_new_def)
  show "grows_from N w (outcome x) w'" using triple_rel [OF t i m] r by (simp add: copy_grows_def)
  show "x = Inr c \<Longrightarrow> copy_inv N other (c, w')" using triple_post [OF t i] m r by auto
qed

section \<open>Copying a loader\<close>

lemma copy_private_ok:
  assumes "copy_inv N (m_inferBufferContainer other) (infer, w1)" and "grows_from N w1 None w2"
    and "reader_ok (m_reader sh)" and "targets_private sh other"
    and "m_inferBufferContainer l = infer"
  shows "private_ok N \<lparr>ldr = l, shd = sh, wld = w2\<rparr>"
proof -
  have i: "copy_inv N (m_inferBufferContainer other) (infer, w2)"
    by (rule copy_inv_grows [OF assms(1,2)])
  then have "targets_private sh l"
    using assms(4,5) unfolding targets_private_def copy_inv_def by (metis fst_conv)
  then show ?thesis using i assms(3,5) by (auto simp: private_ok_def copy_inv_def)
qed

lemma copy_containers_cases:
  assumes "bindM m (\<lambda>infer. bindM (n infer) (\<lambda>backup. retM (infer, backup))) w = (x, w')"
  obtains (fst) e where "m w = (Inl e, w')" and "x = Inl e"
    | (snd) infer w1 e where "m w = (Inr infer, w1)" and "n infer w1 = (Inl e, w')" and "x = Inl e"
    | (ok) infer w1 backup where "m w = (Inr infer, w1)" and "n infer w1 = (Inr backup, w')"
        and "x = Inr (infer, backup)"
  using assms by (auto simp: bindM_def retM_def split: prod.splits sum.splits)

lemma copy_private:
  assumes L: "loader_documented L" and rd: "reader_ok (m_reader sh)" and pr: "targets_private sh other"
    and run: "VPUXLoader_copy L syms other (sh, w) = (x, (sh', w'))"
  shows "grows_from (length (memory w)) w (outcome x) w' \<and>
    (\<forall>l. x = Inr l \<longrightarrow> private_ok (length (memory w)) \<lparr>ldr = l, shd = sh', wld = w'\<rparr>)"
proof -
  let ?N = "length (memory w)"
  let ?copy = "DeviceBufferContainer_copy (le_env L) (le_ord L)"
  have A: "allocate_documented (env_bm (le_env L))" using L by (simp add: loader_documented_def)
  have goal: ?thesis if "grows_from ?N w y w'" and "\<And>l. x = Inr l \<Longrightarrow> private_ok ?N \<lparr>ldr = l, shd = sh', wld = w'\<rparr>" for y
    using that by (simp add: grows_from_def)
  obtain y w2 where both: "bindM (?copy (m_inferBufferContainer other)) (\<lambda>infer.
      bindM (?copy (m_backupBufferContainer other)) (\<lambda>backup. retM (infer, backup))) w = (y, w2)"
    by (metis surj_pair)
  then show ?thesis
  proof (cases rule: copy_containers_cases)
    case (fst e)
    then have "x = Inl e" "w' = w2" using run both by (simp_all add: VPUXLoader_copy_def)
    then show ?thesis using goal container_copy_owned(1) [OF A le_refl fst(1)] by simp
  next
    case (snd infer w1 e)
    then have x: "x = Inl e" "w' = w2" using run both by (simp_all add: VPUXLoader_copy_def)
    have 1: "grows_from ?N w None w1" using container_copy_owned(1) [OF A le_refl snd(1)] by simp
    then have "?N \<le> length (memory w1)" by (simp add: grows_from_def)
    from container_copy_owned(1) [OF A this snd(2)] have "grows_from ?N w (Some e) w2"
      using 1 grows.R_trans by simp
    then show ?thesis using goal x by simp
  next
    case (ok infer w1 backup)
    let ?s = "\<lparr>ldr = other\<lparr>m_inferBufferContainer := infer, m_backupBufferContainer := backup,
         m_runtimeSymTabs := (case syms of None \<Rightarrow> m_runtimeSymTabs other | Some syms \<Rightarrow> syms)\<rparr>,
       shd = sh, wld = w2\<rparr>"
    obtain z t where rr: "reloadAndRelocate L ?s = (z, t)" by (metis surj_pair)
    have 1: "grows_from ?N w None w1" using container_copy_owned(1) [OF A le_refl ok(1)] by simp
    then have len: "?N \<le> length (memory w1)" by (simp add: grows_from_def)
    have 2: "grows_from ?N w1 None w2" using container_copy_owned(1) [OF A len ok(2)] by simp
    have i: "copy_inv ?N (m_inferBufferContainer other) (infer, w1)"
      by (rule container_copy_owned(2) [OF A le_refl ok(1)]) simp
    have P: "private_ok ?N ?s" by (rule copy_private_ok [OF i 2 rd pr]) simp
    note T = private_reloadAndRelocate [OF L, of ?N]
    have 3: "grows_from ?N w2 (outcome z) (wld t)"
      using triple_rel [OF T P rr] by (simp add: steady_calm_def)
    have x: "w' = wld t" "sh' = shd t" "\<And>l. x = Inr l \<Longrightarrow> z = Inr () \<and> l = ldr t"
      using run both rr ok(3) by (auto simp: VPUXLoader_copy_def split: sum.splits)
    have Q: "private_ok ?N \<lparr>ldr = l, shd = sh', wld = w'\<rparr>" if "x = Inr l" for l
    proof -
      have t: "\<lparr>ldr = l, shd = sh', wld = w'\<rparr> = t" using x(1,2) x(3) [OF that] by simp
      have "z = Inr ()" using x(3) [OF that] by simp
      then show ?thesis unfolding t using triple_post [OF T P] rr by metis
    qed
    have "grows_from ?N w2 (outcome z) w'" using 3 x(1) by simp
    then have "grows_from ?N w (outcome z) w'" using 1 2 grows.R_trans by blast
    then show ?thesis by (rule goal [OF _ Q])
  qed
qed


end
