(* ===== verification/Elf_Loader_Example.thy ===== *)
theory Elf_Loader_Example imports Elf_Loader_Copy begin

text \<open>
  A small loader for the concrete instances of the loader's theorems: section 1 is a buffer of eight
  bytes, section 2 a relocation that writes its own device address plus 6 to it, section 3 the symbol
  table for it, which also names the buffer as the entry. Loading and copying it is evaluated by the kernel.
\<close>

definition small_shdr :: "u32 \<Rightarrow> u64 \<Rightarrow> u64 \<Rightarrow> u64 \<Rightarrow> u32 \<Rightarrow> u32 \<Rightarrow> u64 \<Rightarrow> Elf64_Shdr" where
  "small_shdr type flags off n link info entry = \<lparr>sh_name = 0, sh_type = type, sh_flags = flags,
     sh_addr = 0, sh_offset = off, sh_size = n, sh_link = link, sh_info = info,
     sh_addralign = 8, sh_entsize = entry\<rparr>"

definition small_symbols :: "Elf64_Sym list" where
  "small_symbols =
     [\<lparr>st_name = 0, st_info = 0, st_other = 0, st_shndx = 0, st_value = 0, st_size = 0\<rparr>,
      \<lparr>st_name = 0, st_info = 0, st_other = 0, st_shndx = 1, st_value = 4, st_size = 0\<rparr>,
      \<lparr>st_name = 0, st_info = ucast (elf64STInfo (ucast STB_GLOBAL) (ucast VPU_STT_ENTRY)), st_other = 0,
       st_shndx = 1, st_value = 0, st_size = 0\<rparr>]"

definition small_blob :: bytes where
  "small_blob = [1, 2, 3, 4, 5, 6, 7, 8] @
     enc_Elf64_Rela \<lparr>r_offset = 0, r_info = elf64RInfo 1 R_VPU_64, r_addend = 2\<rparr> @
     concat (map enc_Elf64_Sym small_symbols)"

definition small_reader :: Reader where
  "small_reader = \<lparr>mElfHeader = example_header\<lparr>e_shnum := 4\<rparr>,
     mSectionHeaders =
       [small_shdr SHT_NULL 0 0 0 0 0 0,
        small_shdr SHT_PROGBITS SHF_ALLOC 0 8 0 0 0,
        small_shdr SHT_RELA SHF_INFO_LINK 8 24 3 1 24,
        small_shdr SHT_SYMTAB 0 32 72 0 0 24],
     mSectionNames = [0], mSectionsCache = \<lambda>_. None\<rparr>"

text \<open>A buffer manager that numbers its blocks, without a C++ heap.\<close>

definition small_env :: env where
  "small_env = \<lparr>env_bm = bump_manager\<lparr>bm_allocate := \<lambda>specs m.
     (Inr (DeviceBuffer_make (Ptr (length m) 0) (push_bit 12 (of_nat (length m))) (sz specs)),
      m @ [(push_bit 12 (of_nat (length m)), replicate (unat (sz specs)) 0)])\<rparr>,
     reserveMem = \<lambda>n m. None\<rparr>"

definition small_lenv :: lenv where
  "small_lenv = \<lparr>le_env = small_env,
     le_am = DDRAccessManager DDRStandardEmplace HybridBufferFactory (Ptr 0 0) 104, le_ord = rev\<rparr>"

definition small_start :: lstate where
  "small_start = \<lparr>ldr = newLoader True False False, shd = newShared small_reader,
     wld = image_world small_blob\<rparr>"


lemma small_documented: "loader_documented small_lenv"
  using bump_documented(2,3)
  by (simp add: loader_documented_def small_lenv_def small_env_def lock_documented_def copy_documented_def
      bump_manager_def allocate_documented_def mem_grows_def DeviceBuffer_make_def)

lemma small_fresh: "fresh_loader small_start" "order_ok (le_ord small_lenv)"
  by (simp_all add: fresh_loader_def small_start_def newLoader_def newShared_def small_reader_def
      reader_ok_def example_header_def DeviceBufferContainer_new_def small_lenv_def order_ok_def)

lemma small_load: "fst (load small_lenv [] False [] small_start) = Inr ()"
  by code_simp

lemma small_copy:
  "let s = snd (load small_lenv [] False [] small_start) in
   case VPUXLoader_copy small_lenv None (ldr s) (shd s, wld s) of
     (Inl e, _) \<Rightarrow> False
   | (Inr l, (sh, w)) \<Rightarrow> length (memory (wld s)) = 2 \<and>
       memory (wld s) ! 1 = (0x1000, [6, 0x10, 0, 0, 0, 0, 0, 0]) \<and>
       memory w ! 2 = (0x2000, [6, 0x20, 0, 0, 0, 0, 0, 0])"
  by code_simp

theorem load_decides_sharing_witness:
  "\<exists>t. load small_lenv [] False [] small_start = (Inr (), t) \<and>
     hasBufferInfoAtIndex 1 (m_inferBufferContainer (ldr t)) \<and>
     \<not> hasBufferInfoAtIndex 3 (m_inferBufferContainer (ldr t)) \<and>
     (\<forall>info. getBufferInfoFromIndex 1 (m_inferBufferContainer (ldr t)) = Inr info \<longrightarrow>
        \<not> mIsShared (mBufferDetails info))"
proof -
  obtain t where t: "load small_lenv [] False [] small_start = (Inr (), t)"
    using small_load by (metis prod.collapse)
  have H: "mSectionHeaders (m_reader (shd small_start)) = mSectionHeaders small_reader"
    by (simp add: small_start_def newShared_def)
  have g: "gets_buffer False (mSectionHeaders small_reader ! 1)" "\<not> gets_buffer False (mSectionHeaders small_reader ! 3)"
    by (simp_all add: small_reader_def small_shdr_def gets_buffer_def elf_consts)
  have "targeted (mSectionHeaders small_reader) 1"
    unfolding targeted_def
    by (rule exI [of _ 2]) (simp add: small_reader_def small_shdr_def relocationTarget_def elf_consts)
  then have "\<not> shareable (mSectionHeaders small_reader) 1" by (simp add: shareable_def)
  then show ?thesis
    using load_decides_sharing [OF small_fresh(2,1) t] t g unfolding H
    by (auto simp: Let_def small_reader_def)
qed

lemma small_reader_loaded:
  assumes "load small_lenv [] False [] small_start = (Inr (), t)"
  shows "reader_ok (m_reader (shd t))" "targets_private (shd t) (ldr t)"
  using triple_post [OF t_load [OF small_fresh(2)] _ assms, of "mSectionHeaders small_reader"]
    small_fresh(1) ledger_targets_private
  by (auto simp: ledger_def small_start_def newShared_def)


end
