(* ===== verification/Elf_Serial.thy ===== *)
theory Elf_Serial imports Elf_Monad Elf_Utils begin

text \<open>
  \<^verbatim>\<open>serial_struct_base.hpp\<close>: structures that are written as a chain of descriptors, each followed by
  the images of its items. An element refers to a value of the structure; here it holds the byte
  images of that value, together with the image of the value-initialised item, whose length is
  \<^verbatim>\<open>sizeof(DataType)\<close>. The pointers of the code into the buffer that is being written are offsets.
  \<open>fits\<close> says how many bytes a \<^verbatim>\<open>std::vector\<close> can get from the allocator.
\<close>

section \<open>Descriptors\<close>

record SerialDescriptor =
  mDataOffset :: u64
  mNextDescOffset :: u64
  mElementCount :: u64
  mElementSize :: u64

definition SerialDescriptor_default :: SerialDescriptor where
  "SerialDescriptor_default =
     \<lparr>mDataOffset = 0, mNextDescOffset = 0, mElementCount = 0, mElementSize = 0\<rparr>"

definition enc_SerialDescriptor :: "SerialDescriptor \<Rightarrow> bytes" where
  "enc_SerialDescriptor d =
     le_bytes 8 (mDataOffset d) @
     le_bytes 8 (mNextDescOffset d) @
     le_bytes 8 (mElementCount d) @
     le_bytes 8 (mElementSize d)"

definition dec_SerialDescriptor :: "bytes \<Rightarrow> SerialDescriptor" where
  "dec_SerialDescriptor bs = \<lparr>
     mDataOffset = le_word (bslice 0 8 bs),
     mNextDescOffset = le_word (bslice 8 8 bs),
     mElementCount = le_word (bslice 16 8 bs),
     mElementSize = le_word (bslice 24 8 bs)\<rparr>"

interpretation pod_serialdescriptor: pod enc_SerialDescriptor dec_SerialDescriptor 32 "\<lambda>_. True"
  by unfold_locales (simp_all add: enc_SerialDescriptor_def dec_SerialDescriptor_def struct_layout)

section \<open>Buffers\<close>

text \<open>The memory at the buffer pointer, and the size that the caller claims.\<close>

record SerialInputBuffer =
  si_address :: u64
  si_bytes :: bytes
  si_size :: u64

definition newSerialInputBuffer :: "u64 \<Rightarrow> bytes \<Rightarrow> u64 \<Rightarrow> SerialInputBuffer res" where
  "newSerialInputBuffer address bs sz =
     throw_unless (address \<noteq> 0) RuntimeError
     (throw_unless (sz \<noteq> 0) RuntimeError
     (Inr \<lparr>si_address = address, si_bytes = bs, si_size = sz\<rparr>))"

definition checkDataPointer :: "SerialInputBuffer \<Rightarrow> u64 \<Rightarrow> u64 \<Rightarrow> unit res" where
  "checkDataPointer b data sz =
     (let dataStartAddress = data;
          dataEndAddress = dataStartAddress + (sz - 1);
          bufferStartAddress = si_address b;
          bufferEndAddress = si_address b + (si_size b - 1)
      in throw_when (dataStartAddress < bufferStartAddress \<or> dataStartAddress > bufferEndAddress \<or>
                     dataEndAddress > bufferEndAddress) RuntimeError (Inr ()))"

text \<open>The result is the offset of the address in the buffer.\<close>

definition getAddressOfOffset :: "u64 \<Rightarrow> u64 \<Rightarrow> SerialInputBuffer \<Rightarrow> u64 res" where
  "getAddressOfOffset offset sz b =
     throw_when (offset + sz > si_size b) RuntimeError
     (bindE (checkDataPointer b (si_address b + offset) sz) (\<lambda>_. Inr offset))"

text \<open>Reading at an address: beyond the memory there is none.\<close>

definition read_input :: "SerialInputBuffer \<Rightarrow> u64 \<Rightarrow> nat \<Rightarrow> bytes res" where
  "read_input b offset n =
     (if unat offset + n \<le> length (si_bytes b) then Inr (bslice (unat offset) n (si_bytes b))
      else Inl UndefinedBehaviour)"

record SerialOutputBuffer =
  so_bytes :: bytes
  so_size :: u64
  so_offset :: u64

definition newSerialOutputBuffer :: "bytes \<Rightarrow> SerialOutputBuffer res" where
  "newSerialOutputBuffer bs =
     throw_unless (bs \<noteq> []) RuntimeError
     (Inr \<lparr>so_bytes = bs, so_size = of_nat (length bs), so_offset = 0\<rparr>)"

definition getNextBufferSlice ::
    "u64 \<Rightarrow> u64 \<Rightarrow> SerialOutputBuffer \<Rightarrow> (u64 \<times> SerialOutputBuffer) res" where
  "getNextBufferSlice sz alignment b =
     (let offset = alignUp (so_offset b) alignment
      in throw_when (offset + sz > so_size b) RuntimeError
         (Inr (offset, b\<lparr>so_offset := offset + sz\<rparr>)))"

definition write_output :: "u64 \<Rightarrow> bytes \<Rightarrow> SerialOutputBuffer \<Rightarrow> SerialOutputBuffer res" where
  "write_output offset bs b =
     (if unat offset + length bs \<le> length (so_bytes b)
      then Inr (b\<lparr>so_bytes := bwrite (unat offset) bs (so_bytes b)\<rparr>)
      else Inl UndefinedBehaviour)"

section \<open>Elements\<close>

datatype element = SerialElement bytes bytes | SerialElementVector bytes "bytes list"

fun clear :: "element \<Rightarrow> element" where
  "clear (SerialElement dflt x) = SerialElement dflt dflt"
| "clear (SerialElementVector dflt xs) = SerialElementVector dflt []"

fun resize :: "(nat \<Rightarrow> bool) \<Rightarrow> u64 \<Rightarrow> element \<Rightarrow> element res" where
  "resize fits count (SerialElement dflt x) =
     throw_when (count > 1) RuntimeError (Inr (SerialElement dflt x))"
| "resize fits count (SerialElementVector dflt xs) =
     throw_unless (fits (unat count * length dflt)) BadAlloc
     (Inr (SerialElementVector dflt (take (unat count) xs @ replicate (unat count - length xs) dflt)))"

fun getSize_element :: "element \<Rightarrow> u64" where
  "getSize_element (SerialElement dflt x) = of_nat (length dflt)"
| "getSize_element (SerialElementVector dflt xs) = of_nat (length dflt)"

fun getCount :: "element \<Rightarrow> u64" where
  "getCount (SerialElement dflt x) = 1"
| "getCount (SerialElementVector dflt xs) = of_nat (length xs)"

fun copyFromIndex :: "u64 \<Rightarrow> element \<Rightarrow> bytes res" where
  "copyFromIndex index (SerialElement dflt x) =
     throw_when (index \<ge> getCount (SerialElement dflt x)) RuntimeError (Inr x)"
| "copyFromIndex index (SerialElementVector dflt xs) =
     throw_when (index \<ge> getCount (SerialElementVector dflt xs)) RuntimeError (Inr (xs ! unat index))"

text \<open>\<open>from n\<close> reads \<open>n\<close> bytes at the source pointer.\<close>

fun copyToIndex :: "(nat \<Rightarrow> bytes res) \<Rightarrow> u64 \<Rightarrow> u64 \<Rightarrow> element \<Rightarrow> element res" where
  "copyToIndex from index sz (SerialElement dflt x) =
     throw_when (index \<ge> getCount (SerialElement dflt x)) RuntimeError
     (throw_when (sz \<noteq> of_nat (length dflt)) RuntimeError
     (bindE (from (unat sz)) (\<lambda>bs. Inr (SerialElement dflt bs))))"
| "copyToIndex from index sz (SerialElementVector dflt xs) =
     throw_when (index \<ge> getCount (SerialElementVector dflt xs)) RuntimeError
     (throw_when (sz \<noteq> of_nat (length dflt)) RuntimeError
     (bindE (from (unat sz)) (\<lambda>bs. Inr (SerialElementVector dflt (xs[unat index := bs])))))"

section \<open>Serialising\<close>

definition updateRequiredBufferSize :: "u64 \<Rightarrow> u64 \<Rightarrow> u64 \<Rightarrow> u64" where
  "updateRequiredBufferSize currentBufferSize elementSize elementCount =
     currentBufferSize + alignUp (32 + elementSize * elementCount) 8"

definition calculateBufferSize :: "element list \<Rightarrow> u64" where
  "calculateBufferSize mElements =
     fold (\<lambda>elem requiredBufferSize.
       updateRequiredBufferSize requiredBufferSize (getSize_element elem) (getCount elem)) mElements 0"

definition serializeItem ::
    "element \<Rightarrow> u64 \<Rightarrow> nat \<Rightarrow> SerialOutputBuffer \<Rightarrow> SerialOutputBuffer res" where
  "serializeItem elem currentDescriptor idx buffer =
     bindE (getNextBufferSlice (getSize_element elem) 0 buffer) (\<lambda>(dataPtr, buffer).
     bindE (if idx = 0 then write_output currentDescriptor (le_bytes 8 dataPtr) buffer else Inr buffer)
       (\<lambda>buffer.
     bindE (copyFromIndex (of_nat idx) elem) (\<lambda>bs. write_output dataPtr bs buffer)))"

definition serializeElement ::
    "element \<Rightarrow> SerialOutputBuffer \<times> u64 option \<Rightarrow> (SerialOutputBuffer \<times> u64 option) res" where
  "serializeElement elem = (\<lambda>(buffer, previousDescriptor).
     bindE (getNextBufferSlice 32 8 buffer) (\<lambda>(currentDescriptor, buffer).
     bindE (case previousDescriptor of
              None \<Rightarrow> Inr buffer
            | Some p \<Rightarrow> write_output (p + 8) (le_bytes 8 currentDescriptor) buffer) (\<lambda>buffer.
     let elementCount = getCount elem
     in if elementCount \<noteq> 0
        then bindE (write_output (currentDescriptor + 16) (le_bytes 8 elementCount) buffer) (\<lambda>buffer.
             bindE (write_output (currentDescriptor + 24) (le_bytes 8 (getSize_element elem)) buffer)
               (\<lambda>buffer.
             bindE (foldE (serializeItem elem currentDescriptor) [0..<unat elementCount] buffer) (\<lambda>buffer.
             Inr (buffer, Some currentDescriptor))))
        else bindE (write_output (currentDescriptor + 16) (le_bytes 8 (0 :: u64)) buffer) (\<lambda>buffer.
             bindE (write_output (currentDescriptor + 24) (le_bytes 8 (0 :: u64)) buffer) (\<lambda>buffer.
             Inr (buffer, Some currentDescriptor))))))"

definition serialize :: "(nat \<Rightarrow> bool) \<Rightarrow> element list \<Rightarrow> bytes res" where
  "serialize fits mElements =
     (let n = unat (calculateBufferSize mElements)
      in throw_unless (fits n) BadAlloc
         (bindE (newSerialOutputBuffer (replicate n 0)) (\<lambda>buffer.
          bindE (foldE serializeElement mElements (buffer, None)) (\<lambda>(buffer, _).
          Inr (so_bytes buffer)))))"

section \<open>Deserialising\<close>

text \<open>The state is the offset of the next item and the element that is filled.\<close>

definition deserializeItem ::
    "SerialInputBuffer \<Rightarrow> u64 \<Rightarrow> nat \<Rightarrow> (u64 \<times> element, unit) prog" where
  "deserializeItem buffer elemSize idx =
     bindM (readM fst) (\<lambda>currentDataOffset.
     bindM (liftM (getAddressOfOffset currentDataOffset elemSize buffer)) (\<lambda>dataPtr.
     bindM (modifyM (apfst (\<lambda>offset. offset + elemSize))) (\<lambda>_.
     bindM (readM snd) (\<lambda>elem.
     bindM (liftM (copyToIndex (read_input buffer dataPtr) (of_nat idx) elemSize elem)) (\<lambda>elem'.
     modifyM (apsnd (\<lambda>_. elem')))))))"

definition readDescriptor :: "SerialInputBuffer \<Rightarrow> u64 \<Rightarrow> SerialDescriptor res" where
  "readDescriptor buffer offset =
     bindE (getAddressOfOffset offset 32 buffer) (\<lambda>address.
     bindE (read_input buffer address 32) (\<lambda>bs. Inr (dec_SerialDescriptor bs)))"

definition deserializeElement ::
    "(nat \<Rightarrow> bool) \<Rightarrow> SerialInputBuffer \<Rightarrow> SerialDescriptor \<Rightarrow> (element, SerialDescriptor) prog" where
  "deserializeElement fits buffer currentDescriptor =
     bindM (modifyM clear) (\<lambda>_.
     let elemCount = mElementCount currentDescriptor;
         elemSize = mElementSize currentDescriptor
     in bindM (if elemCount \<noteq> 0
               then bindM (readM id) (\<lambda>elem.
                    bindM (liftM (resize fits elemCount elem)) (\<lambda>elem'.
                    (\<lambda>_. case forM (deserializeItem buffer elemSize) [0..<unat elemCount]
                             (mDataOffset currentDescriptor, elem') of
                          (r, (_, elem'')) \<Rightarrow> (r, elem''))))
               else retM ()) (\<lambda>_.
        if mNextDescOffset currentDescriptor \<noteq> 0
        then liftM (readDescriptor buffer (mNextDescOffset currentDescriptor))
        else retM SerialDescriptor_default))"

primrec deserializeElements ::
    "(nat \<Rightarrow> bool) \<Rightarrow> SerialInputBuffer \<Rightarrow> u64 \<Rightarrow> SerialDescriptor \<Rightarrow> element list \<Rightarrow>
     unit res \<times> element list" where
  "deserializeElements fits buffer sz currentDescriptor [] = (Inr (), [])"
| "deserializeElements fits buffer sz currentDescriptor (elem # elems) =
     (if mElementSize currentDescriptor * mElementCount currentDescriptor +
           mDataOffset currentDescriptor > sz
      then (Inl RuntimeError, elem # elems)
      else case deserializeElement fits buffer currentDescriptor elem of
             (Inl e, elem') \<Rightarrow> (Inl e, elem' # elems)
           | (Inr d, elem') \<Rightarrow>
               (case deserializeElements fits buffer sz d elems of
                  (r, elems') \<Rightarrow> (r, elem' # elems')))"

definition deserialize ::
    "(nat \<Rightarrow> bool) \<Rightarrow> u64 \<Rightarrow> bytes \<Rightarrow> u64 \<Rightarrow> (element list, unit) prog" where
  "deserialize fits address bs sz =
     throwM_unless (sz \<ge> 32) RuntimeError
     (bindM (liftM (newSerialInputBuffer address bs sz)) (\<lambda>buffer.
      bindM (liftM (readDescriptor buffer 0)) (\<lambda>currentDescriptor.
      deserializeElements fits buffer sz currentDescriptor)))"

end
