(* ===== verification/Elf_Serial_Props.thy ===== *)
theory Elf_Serial_Props imports Elf_Serial begin

text \<open>
  The serialiser writes a closed form, the chain of blocks \<open>chain\<close>, and the deserialiser reads it
  back. What the deserialiser needs of an element is the locale \<open>serial_item\<close>, which stands for the
  abstract class \<^verbatim>\<open>SerialElementInterface\<close>.
\<close>

section \<open>The interface of elements\<close>

locale serial_item =
  fixes items :: "'e \<Rightarrow> bytes list"
    and same :: "'e \<Rightarrow> 'e \<Rightarrow> bool"
    and clr :: "'e \<Rightarrow> 'e"
    and rsz :: "u64 \<Rightarrow> 'e \<Rightarrow> 'e res"
    and isize :: "'e \<Rightarrow> u64"
    and copy_to :: "(nat \<Rightarrow> bytes res) \<Rightarrow> u64 \<Rightarrow> u64 \<Rightarrow> 'e \<Rightarrow> 'e res"
  assumes same_eq: "same f e \<Longrightarrow> items f = items e \<Longrightarrow> f = e"
    and same_trans: "same f g \<Longrightarrow> same g e \<Longrightarrow> same f e"
    and same_size: "same f e \<Longrightarrow> isize f = isize e"
    and clr_same: "same (clr e) e"
    and clr_items: "same f e \<Longrightarrow> items e = [] \<Longrightarrow> items (clr f) = []"
    and rsz_spec: "rsz n e = Inr f \<Longrightarrow> n \<noteq> 0 \<Longrightarrow> same f e \<and> length (items f) = unat n"
    and to_spec: "unat i < length (items e) \<Longrightarrow> length (items e) < 2 ^ 64 \<Longrightarrow>
      from (unat (isize e)) = Inr bs \<Longrightarrow>
      \<exists>f. copy_to from i (isize e) e = Inr f \<and> same f e \<and> items f = (items e)[unat i := bs]"
begin

lemma fill_prefix:
  assumes "same g e" and "length (items g) = length (items e)" and "length (items e) < 2 ^ 64"
    and "\<And>i. i < k \<Longrightarrow> from i (unat (isize e)) = Inr (items e ! i)" and "k \<le> length (items e)"
  shows "\<exists>f. foldE (\<lambda>i. copy_to (from i) (of_nat i) (isize e)) [0..<k] g = Inr f \<and>
    same f e \<and> items f = take k (items e) @ drop k (items g)"
  using assms(4,5)
proof (induction k)
  case 0
  then show ?case using assms(1) by simp
next
  case (Suc k)
  then obtain f where f: "foldE (\<lambda>i. copy_to (from i) (of_nat i) (isize e)) [0..<k] g = Inr f"
    "same f e" "items f = take k (items e) @ drop k (items g)" by fastforce
  have k: "k < length (items e)" "unat (of_nat k :: u64) = k" using Suc.prems assms(3) by (simp_all add: unat_of_nat_u64)
  have len: "length (items f) = length (items e)" using f(3) assms(2) k(1) by simp
  obtain h where h: "copy_to (from k) (of_nat k) (isize f) f = Inr h" "same h f"
    "items h = (items f)[k := items e ! k]"
    using to_spec [of "of_nat k" f "from k" "items e ! k"] k len assms(3) Suc.prems(1) [of k] same_size [OF f(2)]
    by auto
  have "items h = take (Suc k) (items e) @ drop (Suc k) (items g)"
    using h(3) f(3) k(1) assms(2) by (simp add: list_update_append take_Suc_conv_app_nth Cons_nth_drop_Suc [symmetric])
  then show ?case
    using f(1) h(1,2) same_trans [OF h(2) f(2)] same_size [OF f(2)] by (simp add: foldE_append)
qed

text \<open>Clearing, resizing and filling with the images of another element gives that element.\<close>

lemma fill_restores:
  assumes "same f e" and "items e \<noteq> []" and "length (items e) < 2 ^ 64"
    and "rsz (of_nat (length (items e))) (clr f) = Inr g"
    and "\<And>i. i < length (items e) \<Longrightarrow> from i (unat (isize e)) = Inr (items e ! i)"
  shows "foldE (\<lambda>i. copy_to (from i) (of_nat i) (isize e)) [0..<length (items e)] g = Inr e"
proof -
  let ?n = "of_nat (length (items e)) :: u64"
  have n: "unat ?n = length (items e)" using assms(3) by (simp add: unat_of_nat_u64)
  then have "?n \<noteq> 0" using assms(2) by (metis length_0_conv unsigned_0)
  then have g: "same g (clr f)" "length (items g) = length (items e)"
    using rsz_spec [OF assms(4)] n by simp_all
  have "same g e" using same_trans [OF g(1) same_trans [OF clr_same assms(1)]] .
  from fill_prefix [OF this g(2) assms(3), of "length (items e)" "from"] assms(5)
  obtain h where "foldE (\<lambda>i. copy_to (from i) (of_nat i) (isize e)) [0..<length (items e)] g = Inr h"
    "same h e" "items h = items e" using g(2) by auto
  then show ?thesis using same_eq by blast
qed

lemma clear_restores: "same f e \<Longrightarrow> items e = [] \<Longrightarrow> clr f = e"
  using same_eq same_trans [OF clr_same] clr_items by metis

end

fun items :: "element \<Rightarrow> bytes list" where
  "items (SerialElement dflt x) = [x]"
| "items (SerialElementVector dflt xs) = xs"

fun item_image :: "element \<Rightarrow> bytes" where
  "item_image (SerialElement dflt x) = dflt"
| "item_image (SerialElementVector dflt xs) = dflt"

text \<open>Two elements are for values of the same type.\<close>

fun same_type :: "element \<Rightarrow> element \<Rightarrow> bool" where
  "same_type (SerialElement d x) (SerialElement d' y) \<longleftrightarrow> d = d'"
| "same_type (SerialElementVector d xs) (SerialElementVector d' ys) \<longleftrightarrow> d = d'"
| "same_type _ _ \<longleftrightarrow> False"

lemma getSize_image: "getSize_element e = of_nat (length (item_image e))"
  by (cases e) simp_all

interpretation elem: serial_item items same_type clear "resize fits" getSize_element copyToIndex
proof
  fix f g e :: element and n i :: u64 and "from" :: "nat \<Rightarrow> bytes res" and bs
  show "same_type f e \<Longrightarrow> items f = items e \<Longrightarrow> f = e" by (cases f; cases e) simp_all
  show "same_type f g \<Longrightarrow> same_type g e \<Longrightarrow> same_type f e" by (cases f; cases g; cases e) simp_all
  show "same_type f e \<Longrightarrow> getSize_element f = getSize_element e" by (cases f; cases e) simp_all
  show "same_type (clear e) e" by (cases e) simp_all
  show "same_type f e \<Longrightarrow> items e = [] \<Longrightarrow> items (clear f) = []" by (cases f; cases e) simp_all
  show "resize fits n e = Inr f \<Longrightarrow> n \<noteq> 0 \<Longrightarrow> same_type f e \<and> length (items f) = unat n"
  proof (cases e)
    case (SerialElement d x)
    assume "resize fits n e = Inr f" "n \<noteq> 0"
    then have "\<not> 1 < n" "f = e" using SerialElement by auto
    then have "n = 1" using \<open>n \<noteq> 0\<close> by (metis linorder_neqE word_less_1)
    then show ?thesis using SerialElement \<open>f = e\<close> by simp
  qed auto
  show "unat i < length (items e) \<Longrightarrow> length (items e) < 2 ^ 64 \<Longrightarrow> from (unat (getSize_element e)) = Inr bs \<Longrightarrow>
      \<exists>f. copyToIndex from i (getSize_element e) e = Inr f \<and> same_type f e \<and> items f = (items e)[unat i := bs]"
    by (cases e)
      (auto simp: throw_when_def word_le_nat_alt unat_of_nat_u64)
qed

section \<open>The chain of blocks\<close>

definition isz :: "element \<Rightarrow> nat" where
  "isz e = length (item_image e)"

definition cnt :: "element \<Rightarrow> nat" where
  "cnt e = length (items e)"

definition wf_element :: "element \<Rightarrow> bool" where
  "wf_element e \<longleftrightarrow> 0 < isz e \<and> (\<forall>x \<in> set (items e). length x = isz e)"

definition block_len :: "element \<Rightarrow> nat" where
  "block_len e = round_up (32 + isz e * cnt e) 8"

definition chain_len :: "element list \<Rightarrow> nat" where
  "chain_len es = sum_list (map block_len es)"

definition descriptor :: "nat \<Rightarrow> nat \<Rightarrow> element \<Rightarrow> SerialDescriptor" where
  "descriptor pos nxt e = \<lparr>
     mDataOffset = (if cnt e = 0 then 0 else of_nat (pos + 32)), mNextDescOffset = of_nat nxt,
     mElementCount = of_nat (cnt e), mElementSize = (if cnt e = 0 then 0 else of_nat (isz e))\<rparr>"

definition block :: "nat \<Rightarrow> nat \<Rightarrow> element \<Rightarrow> bytes" where
  "block pos nxt e = enc_SerialDescriptor (descriptor pos nxt e) @ concat (items e) @
     replicate (block_len e - (32 + isz e * cnt e)) 0"

text \<open>\<open>chain pos nxt es\<close>: the blocks of \<open>es\<close> from offset \<open>pos\<close> on; the last one points to \<open>nxt\<close>.\<close>

primrec chain :: "nat \<Rightarrow> nat \<Rightarrow> element list \<Rightarrow> bytes" where
  "chain pos nxt [] = []"
| "chain pos nxt (e # es) =
     block pos (if es = [] then nxt else pos + block_len e) e @ chain (pos + block_len e) nxt es"

lemma block_len_ge: "32 + isz e * cnt e \<le> block_len e"
  by (simp add: block_len_def round_up_ge)

lemma block_len_dvd: "8 dvd block_len e"
  using round_up_dvd [of 8 "32 + isz e * cnt e"] by (simp add: block_len_def)

lemma length_concat_all: "\<forall>x \<in> set xs. length x = n \<Longrightarrow> length (concat xs) = n * length xs"
  by (induction xs) (simp_all add: algebra_simps)

lemma length_items: "wf_element e \<Longrightarrow> length (concat (items e)) = isz e * cnt e"
  by (simp add: wf_element_def cnt_def length_concat_all)

lemma length_block: "wf_element e \<Longrightarrow> length (block pos nxt e) = block_len e"
  using block_len_ge [of e] by (simp add: block_def pod_serialdescriptor.length_enc length_items)

lemma length_chain: "list_all wf_element es \<Longrightarrow> length (chain pos nxt es) = chain_len es"
  by (induction es arbitrary: pos) (simp_all add: chain_len_def length_block)

lemma chain_snoc:
  "chain pos nxt (es @ [e]) = chain pos (pos + chain_len es) es @ block (pos + chain_len es) nxt e"
  by (induction es arbitrary: pos) (auto simp: chain_len_def add.assoc)

lemma chain_len_snoc: "chain_len (es @ [e]) = chain_len es + block_len e"
  by (simp add: chain_len_def)

lemma chain_len_dvd: "8 dvd chain_len es"
  by (induction es) (simp_all add: chain_len_def block_len_dvd)

lemma bwrite_append_right:
  "length xs \<le> off \<Longrightarrow> bwrite off ys (xs @ zs) = xs @ bwrite (off - length xs) ys zs"
  by (simp add: bwrite_def)

lemma bwrite_append_left:
  "off + length ys \<le> length xs \<Longrightarrow> bwrite off ys (xs @ zs) = bwrite off ys xs @ zs"
  by (simp add: bwrite_def)

lemma bwrite_exact: "length xs = length ys \<Longrightarrow> bwrite 0 ys xs = ys"
  by (simp add: bwrite_def)

lemmas bwrite_shape = bwrite_append_right bwrite_append_left bwrite_exact

lemma relink_descriptor:
  "bwrite 8 (le_bytes 8 (of_nat m :: u64)) (enc_SerialDescriptor (descriptor pos n e)) =
    enc_SerialDescriptor (descriptor pos m e)"
  by (simp add: enc_SerialDescriptor_def descriptor_def bwrite_shape)

lemma relink_block:
  "bwrite 8 (le_bytes 8 (of_nat m :: u64)) (block pos n e @ zs) = block pos m e @ zs"
  by (simp add: block_def bwrite_append_left pod_serialdescriptor.length_enc relink_descriptor)

text \<open>Linking the last block of a chain to what follows it.\<close>

lemma relink_chain:
  assumes "list_all wf_element (es @ [e])"
  shows "bwrite (chain_len es + 8) (le_bytes 8 (of_nat m :: u64)) (chain 0 n (es @ [e]) @ zs) =
    chain 0 m (es @ [e]) @ zs"
proof -
  have "length (chain 0 (chain_len es) es) = chain_len es" using assms by (simp add: length_chain)
  then show ?thesis by (simp add: chain_snoc bwrite_append_right relink_block)
qed

section \<open>Serialising writes the chain\<close>

definition out_at :: "bytes \<Rightarrow> nat \<Rightarrow> SerialOutputBuffer" where
  "out_at bs off = \<lparr>so_bytes = bs, so_size = of_nat (length bs), so_offset = of_nat off\<rparr>"

lemma slice_at:
  assumes "round_up off (unat al) + n \<le> length bs" and "length bs < 2 ^ 64" and "off + unat al \<le> 2 ^ 64"
  shows "getNextBufferSlice (of_nat n) al (out_at bs off) =
    Inr (of_nat (round_up off (unat al)), out_at bs (round_up off (unat al) + n))"
proof -
  have off: "off \<le> round_up off (unat al)" by (rule round_up_ge)
  then have "unat (of_nat off :: u64) = off" using assms(1,2) by (simp add: unat_of_nat_u64)
  then have u: "unat (alignUp (of_nat off) al) = round_up off (unat al)" using assms(3) by (simp add: unat_alignUp)
  have "alignUp (of_nat off) al = of_nat (unat (alignUp (of_nat off) al))" by simp
  then have a: "alignUp (of_nat off) al = of_nat (round_up off (unat al))" by (simp only: u)
  have "\<not> of_nat (round_up off (unat al)) + of_nat n > (of_nat (length bs) :: u64)"
    using assms(1,2) by (simp add: word_less_nat_alt unat_of_nat_u64 flip: of_nat_add)
  then show ?thesis by (simp add: getNextBufferSlice_def out_at_def a Let_def)
qed

lemma write_at:
  assumes "pos + length ys \<le> length bs" and "length bs < 2 ^ 64"
  shows "write_output (of_nat pos) ys (out_at bs off) = Inr (out_at (bwrite pos ys bs) off)"
  using assms by (simp add: write_output_def out_at_def unat_of_nat_u64)

lemma write_at_plus:
  assumes "pos + k + length ys \<le> length bs" and "length bs < 2 ^ 64"
  shows "write_output (of_nat pos + of_nat k) ys (out_at bs off) = Inr (out_at (bwrite (pos + k) ys bs) off)"
  using write_at [of "pos + k"] assms by simp

text \<open>The descriptor while its items are copied: \<open>k\<close> of them are in place.\<close>

definition partial :: "nat \<Rightarrow> element \<Rightarrow> nat \<Rightarrow> bytes" where
  "partial pos e k = enc_SerialDescriptor \<lparr>
     mDataOffset = (if k = 0 then 0 else of_nat (pos + 32)), mNextDescOffset = 0,
     mElementCount = of_nat (cnt e), mElementSize = (if cnt e = 0 then 0 else of_nat (isz e))\<rparr>"

lemma length_partial [simp]: "length (partial pos e k) = 32"
  by (simp add: partial_def pod_serialdescriptor.length_enc)

lemma partial_data: "bwrite 0 (le_bytes 8 (of_nat (pos + 32) :: u64)) (partial pos e 0) = partial pos e (Suc k)"
  by (simp add: partial_def enc_SerialDescriptor_def bwrite_shape)

lemma partial_full: "partial pos e (cnt e) = enc_SerialDescriptor (descriptor pos 0 e)"
  by (simp add: partial_def descriptor_def)

lemma copyFromIndex_items:
  "k < cnt e \<Longrightarrow> cnt e < 2 ^ 64 \<Longrightarrow> copyFromIndex (of_nat k) e = Inr (items e ! k)"
  by (cases e) (auto simp: cnt_def throw_when_def word_le_nat_alt unat_of_nat_u64)

lemma serializeItem_step:
  assumes wf: "wf_element e" and k: "k < cnt e" and A: "length A = pos" and count: "cnt e < 2 ^ 64"
    and room: "isz e * Suc k \<le> M" and N: "pos + 32 + M < 2 ^ 64"
  shows "serializeItem e (of_nat pos) k
      (out_at (A @ partial pos e k @ concat (take k (items e)) @ replicate (M - isz e * k) 0) (pos + 32 + isz e * k)) =
    Inr (out_at (A @ partial pos e (Suc k) @ concat (take (Suc k) (items e)) @
      replicate (M - isz e * Suc k) 0) (pos + 32 + isz e * Suc k))"
proof -
  let ?C = "concat (take k (items e))"
  let ?x = "items e ! k"
  let ?a = "pos + 32 + isz e * k"
  let ?Z = "replicate (M - isz e * k) (0 :: 8 word)"
  have C: "length ?C = isz e * k"
    using wf k by (subst length_concat_all [of _ "isz e"]) (auto simp: wf_element_def cnt_def dest: in_set_takeD)
  have x: "length ?x = isz e" using wf k by (simp add: wf_element_def cnt_def)
  have take: "concat (take (Suc k) (items e)) = ?C @ ?x"
    using k by (simp add: cnt_def take_Suc_conv_app_nth)
  have len: "length (A @ partial pos e j @ ?C @ ?Z) = pos + 32 + M" for j
    using A C room by simp
  have Z: "?Z = replicate (isz e) 0 @ replicate (M - isz e * Suc k) 0"
    using room by (simp flip: replicate_add)
  have slice: "getNextBufferSlice (getSize_element e) 0 (out_at (A @ partial pos e k @ ?C @ ?Z) ?a) =
      Inr (of_nat ?a, out_at (A @ partial pos e k @ ?C @ ?Z) (?a + isz e))"
    using slice_at [of ?a 0 "isz e" "A @ partial pos e k @ ?C @ ?Z"] room N len
    by (simp add: round_up_def getSize_image isz_def [symmetric])
  have link: "(if k = 0 then write_output (of_nat pos) (le_bytes 8 (of_nat ?a :: u64))
        (out_at (A @ partial pos e k @ ?C @ ?Z) (?a + isz e))
      else Inr (out_at (A @ partial pos e k @ ?C @ ?Z) (?a + isz e))) =
    Inr (out_at (A @ partial pos e (Suc k) @ ?C @ ?Z) (?a + isz e))"
  proof (cases "k = 0")
    case True
    have "bwrite pos (le_bytes 8 (of_nat ?a :: u64)) (A @ partial pos e 0 @ ?C @ ?Z) =
        A @ partial pos e (Suc k) @ ?C @ ?Z"
      using A True partial_data [of pos e k] by (simp add: bwrite_append_right bwrite_append_left)
    then show ?thesis using True write_at [of pos "le_bytes 8 (of_nat ?a :: u64)"] N len [of 0] by simp
  next
    case False
    then show ?thesis by (simp add: partial_def)
  qed
  have data: "write_output (of_nat ?a) ?x (out_at (A @ partial pos e (Suc k) @ ?C @ ?Z) (?a + isz e)) =
      Inr (out_at (A @ partial pos e (Suc k) @ ?C @ ?x @ replicate (M - isz e * Suc k) 0) (?a + isz e))"
  proof -
    have "bwrite ?a ?x (A @ partial pos e (Suc k) @ ?C @ ?Z) =
        A @ partial pos e (Suc k) @ ?C @ ?x @ replicate (M - isz e * Suc k) 0"
      unfolding Z using A C x by (simp add: bwrite_append_right bwrite_append_left bwrite_exact)
    then show ?thesis using write_at [of ?a ?x "A @ partial pos e (Suc k) @ ?C @ ?Z"] len room N x by simp
  qed
  have next_off: "?a + isz e = pos + 32 + isz e * Suc k" by simp
  show ?thesis
    unfolding serializeItem_def slice bindE_simps prod.case link copyFromIndex_items [OF k count] data take
    by (simp add: next_off)
qed

lemma serializeItems:
  assumes wf: "wf_element e" and A: "length A = pos" and count: "cnt e < 2 ^ 64"
    and room: "isz e * cnt e \<le> M" and N: "pos + 32 + M < 2 ^ 64" and k: "k \<le> cnt e"
  shows "foldE (serializeItem e (of_nat pos)) [0..<k] (out_at (A @ partial pos e 0 @ replicate M 0) (pos + 32)) =
    Inr (out_at (A @ partial pos e k @ concat (take k (items e)) @ replicate (M - isz e * k) 0) (pos + 32 + isz e * k))"
  using k
proof (induction k)
  case 0
  then show ?case by simp
next
  case (Suc k)
  have "isz e * Suc k \<le> M" using mult_le_mono2 [OF Suc.prems, of "isz e"] room by linarith
  with Suc show ?case using serializeItem_step [OF wf _ A count _ N, of k] by (simp add: foldE_append)
qed

lemma le_bytes_zero: "le_bytes n 0 = replicate n 0"
  by (induction n) simp_all

lemma partial_written:
  assumes A: "length A = pos" and R: "32 \<le> R"
  shows "bwrite (pos + 24) (le_bytes 8 (if cnt e = 0 then 0 else of_nat (isz e) :: u64))
      (bwrite (pos + 16) (le_bytes 8 (of_nat (cnt e) :: u64)) (A @ replicate R 0)) =
    A @ partial pos e 0 @ replicate (R - 32) 0"
proof -
  have "replicate R (0 :: 8 word) = replicate 16 0 @ replicate 8 0 @ replicate 8 0 @ replicate (R - 32) 0"
    using R by (simp flip: replicate_add)
  moreover have "partial pos e 0 = replicate 16 0 @ le_bytes 8 (of_nat (cnt e) :: u64) @
      le_bytes 8 (if cnt e = 0 then 0 else of_nat (isz e) :: u64)"
    by (simp add: partial_def enc_SerialDescriptor_def le_bytes_zero flip: replicate_add)
  ultimately show ?thesis
    using A by (simp add: bwrite_append_right bwrite_append_left bwrite_exact)
qed

lemma getCount_cnt: "getCount e = of_nat (cnt e)"
  by (cases e) (simp_all add: cnt_def)

text \<open>The body of an element: both counters, then the items.\<close>

lemma serialize_body:
  assumes wf: "wf_element e" and A: "length A = pos" and R: "block_len e \<le> R" and N: "pos + R < 2 ^ 64"
  shows "(let elementCount = getCount e in
      if elementCount \<noteq> 0
      then bindE (write_output (of_nat pos + 16) (le_bytes 8 elementCount) (out_at (A @ replicate R 0) (pos + 32))) (\<lambda>buffer.
           bindE (write_output (of_nat pos + 24) (le_bytes 8 (getSize_element e)) buffer) (\<lambda>buffer.
           bindE (foldE (serializeItem e (of_nat pos)) [0..<unat elementCount] buffer) (\<lambda>buffer.
           Inr (buffer, Some (of_nat pos)))))
      else bindE (write_output (of_nat pos + 16) (le_bytes 8 (0 :: u64)) (out_at (A @ replicate R 0) (pos + 32))) (\<lambda>buffer.
           bindE (write_output (of_nat pos + 24) (le_bytes 8 (0 :: u64)) buffer) (\<lambda>buffer.
           Inr (buffer, Some (of_nat pos))))) =
    Inr (out_at (A @ block pos 0 e @ replicate (R - block_len e) 0) (pos + 32 + isz e * cnt e), Some (of_nat pos))"
proof -
  have bl: "32 + isz e * cnt e \<le> R" using block_len_ge [of e] R by simp
  have i: "0 < isz e" using wf by (simp add: wf_element_def)
  then have "cnt e \<le> isz e * cnt e" by simp
  then have c: "cnt e < 2 ^ 64" using bl N by linarith
  then have cu: "unat (of_nat (cnt e) :: u64) = cnt e" by (rule unat_of_nat_u64)
  have c0: "(of_nat (cnt e) :: u64) = 0 \<longleftrightarrow> cnt e = 0" 
  proof
    assume "(of_nat (cnt e) :: u64) = 0"
    then show "cnt e = 0" using cu by simp
  qed simp
  let ?B = "A @ replicate R (0 :: 8 word)"
  have len: "length ?B = pos + R" using A by simp
  have w1: "write_output (of_nat pos + 16) (le_bytes 8 (of_nat (cnt e) :: u64)) (out_at ?B (pos + 32)) =
      Inr (out_at (bwrite (pos + 16) (le_bytes 8 (of_nat (cnt e) :: u64)) ?B) (pos + 32))"
    using write_at_plus [of pos 16 "le_bytes 8 (of_nat (cnt e) :: u64)" ?B] bl N len by simp
  let ?sz = "if cnt e = 0 then 0 else of_nat (isz e) :: u64"
  have w2: "write_output (of_nat pos + 24) (le_bytes 8 ?sz)
      (out_at (bwrite (pos + 16) (le_bytes 8 (of_nat (cnt e) :: u64)) ?B) (pos + 32)) =
      Inr (out_at (A @ partial pos e 0 @ replicate (R - 32) 0) (pos + 32))"
    using write_at_plus [of pos 24 "le_bytes 8 ?sz"] partial_written [OF A, of R e] bl N len by simp
  have r: "replicate (R - 32 - isz e * cnt e) (0 :: 8 word) =
      replicate (block_len e - (32 + isz e * cnt e)) 0 @ replicate (R - block_len e) 0"
    using R block_len_ge [of e] by (simp flip: replicate_add)
  have take_items: "take (cnt e) (items e) = items e" by (simp add: cnt_def)
  have fin: "A @ partial pos e (cnt e) @ concat (take (cnt e) (items e)) @ replicate (R - 32 - isz e * cnt e) 0 =
      A @ block pos 0 e @ replicate (R - block_len e) 0"
    unfolding r by (simp add: partial_full block_def take_items)
  show ?thesis
  proof (cases "cnt e = 0")
    case True
    have v1: "write_output (of_nat pos + 16) (le_bytes 8 (0 :: u64)) (out_at ?B (pos + 32)) =
        Inr (out_at (bwrite (pos + 16) (le_bytes 8 (0 :: u64)) ?B) (pos + 32))"
      using w1 by (simp add: True)
    have v2: "write_output (of_nat pos + 24) (le_bytes 8 (0 :: u64))
        (out_at (bwrite (pos + 16) (le_bytes 8 (0 :: u64)) ?B) (pos + 32)) =
        Inr (out_at (A @ partial pos e 0 @ replicate (R - 32) 0) (pos + 32))"
      using w2 by (simp add: True)
    have v3: "A @ partial pos e 0 @ replicate (R - 32) 0 = A @ block pos 0 e @ replicate (R - block_len e) 0"
      using fin True by simp
    show ?thesis
      unfolding getCount_cnt Let_def using v1 v2 v3 True by simp
  next
    case False
    have it: "foldE (serializeItem e (of_nat pos)) [0..<cnt e] (out_at (A @ partial pos e 0 @ replicate (R - 32) 0) (pos + 32)) =
        Inr (out_at (A @ block pos 0 e @ replicate (R - block_len e) 0) (pos + 32 + isz e * cnt e))"
      using serializeItems [OF wf A c, of "R - 32" "cnt e"] bl N fin by simp
    have v2: "write_output (of_nat pos + 24) (le_bytes 8 (of_nat (isz e) :: u64))
      (out_at (bwrite (pos + 16) (le_bytes 8 (of_nat (cnt e) :: u64)) ?B) (pos + 32)) =
      Inr (out_at (A @ partial pos e 0 @ replicate (R - 32) 0) (pos + 32))"
      using w2 unfolding if_not_P [OF False] .
    have nz: "((of_nat (cnt e) :: u64) \<noteq> 0) = True" using False c0 by simp
    show ?thesis
      unfolding getCount_cnt Let_def nz if_True getSize_image isz_def [symmetric] w1 v2 bindE_simps cu it ..
  qed
qed

lemma serializeElement_step:
  assumes wf: "list_all wf_element (es @ [e])" and R: "block_len e \<le> R" and N: "chain_len es + R < 2 ^ 64"
    and off: "round_up off 8 = chain_len es"
    and prev: "prev = (if es = [] then None else Some (of_nat (chain_len (butlast es))))"
  shows "serializeElement e (out_at (chain 0 0 es @ replicate R 0) off, prev) =
    Inr (out_at (chain 0 0 (es @ [e]) @ replicate (R - block_len e) 0) (chain_len es + 32 + isz e * cnt e),
      Some (of_nat (chain_len es)))"
proof -
  let ?pos = "chain_len es"
  let ?Z = "replicate R (0 :: 8 word)"
  have bl: "32 \<le> R" using block_len_ge [of e] R by simp
  have len: "length (chain 0 m es @ ?Z) = ?pos + R" for m using wf by (simp add: length_chain)
  have "off \<le> ?pos" using round_up_ge [of off 8] off by simp
  then have slice: "getNextBufferSlice 32 8 (out_at (chain 0 0 es @ ?Z) off) =
      Inr (of_nat ?pos, out_at (chain 0 0 es @ ?Z) (?pos + 32))"
    using slice_at [of off 8 32 "chain 0 0 es @ ?Z"] off bl N len by simp
  have link: "(case prev of None \<Rightarrow> Inr (out_at (chain 0 0 es @ ?Z) (?pos + 32))
      | Some p \<Rightarrow> write_output (p + 8) (le_bytes 8 (of_nat ?pos :: u64)) (out_at (chain 0 0 es @ ?Z) (?pos + 32))) =
    Inr (out_at (chain 0 ?pos es @ ?Z) (?pos + 32))"
  proof (cases es rule: rev_cases)
    case Nil
    then show ?thesis by (simp add: prev)
  next
    case (snoc qs q)
    have "chain_len qs + 16 \<le> ?pos" using block_len_ge [of q] by (simp add: snoc chain_len_snoc)
    then show ?thesis
      using write_at_plus [of "chain_len qs" 8 "le_bytes 8 (of_nat ?pos :: u64)" "chain 0 0 es @ ?Z"]
        relink_chain [of qs q ?pos 0 ?Z] wf len N by (simp add: prev snoc)
  qed
  have A: "length (chain 0 ?pos es) = ?pos" using wf by (simp add: length_chain)
  have we: "wf_element e" using wf by simp
  show ?thesis
    unfolding serializeElement_def prod.case slice bindE_simps link serialize_body [OF we A R N]
    by (simp add: chain_snoc)
qed

lemma round_up_add: "8 dvd n \<Longrightarrow> round_up (n + m) 8 = n + round_up m 8"
proof -
  assume "8 dvd n"
  then obtain k where "n = k * 8" by (auto simp: dvd_def)
  then have "(n + m + 7) div 8 = k + (m + 7) div 8" by (metis add.assoc add.commute div_mult_self3 zero_neq_numeral)
  then show ?thesis using \<open>n = k * 8\<close> by (simp add: round_up_def algebra_simps)
qed

lemma serializeElements:
  assumes "list_all wf_element es" and "chain_len es \<le> N" and "N < 2 ^ 64"
  shows "\<exists>off. foldE serializeElement es (out_at (replicate N 0) 0, None) =
      Inr (out_at (chain 0 0 es @ replicate (N - chain_len es) 0) off,
        if es = [] then None else Some (of_nat (chain_len (butlast es)))) \<and> round_up off 8 = chain_len es"
  using assms(1,2)
proof (induction es rule: rev_induct)
  case Nil
  then show ?case by (auto simp: chain_len_def round_up_def)
next
  case (snoc e es)
  then obtain off where off: "foldE serializeElement es (out_at (replicate N 0) 0, None) =
      Inr (out_at (chain 0 0 es @ replicate (N - chain_len es) 0) off,
        if es = [] then None else Some (of_nat (chain_len (butlast es))))" "round_up off 8 = chain_len es"
    by (auto simp: chain_len_snoc)
  have R: "block_len e \<le> N - chain_len es" using snoc.prems by (simp add: chain_len_snoc)
  have "round_up (chain_len es + (32 + isz e * cnt e)) 8 = chain_len (es @ [e])"
    by (simp add: round_up_add chain_len_dvd chain_len_snoc block_len_def)
  then show ?case
    using serializeElement_step [OF snoc.prems(1) R _ off(2) refl] snoc.prems assms(3)
    by (auto simp: foldE_append off(1) chain_len_snoc add.assoc)
qed

lemma fold_required_size:
  "fold (\<lambda>elem requiredBufferSize.
      updateRequiredBufferSize requiredBufferSize (getSize_element elem) (getCount elem)) es (of_nat n) =
    of_nat (n + chain_len es)" if "n + chain_len es < 2 ^ 64"
  using that
proof (induction es arbitrary: n)
  case Nil
  then show ?case by (simp add: chain_len_def)
next
  case (Cons e es)
  have N: "n + block_len e + chain_len es < 2 ^ 64" using Cons.prems by (simp add: chain_len_def)
  have b: "block_len e < 2 ^ 64" using N by simp
  have s: "unat (of_nat (32 + isz e * cnt e) :: u64) = 32 + isz e * cnt e"
    using block_len_ge [of e] b by (intro unat_of_nat_u64) simp
  have "32 + isz e * cnt e + 8 \<le> 2 ^ 64"
  proof -
    have "32 + isz e * cnt e \<le> 2 ^ 64 - 8"
      using block_len_ge [of e] block_len_dvd [of e] b by (auto simp: dvd_def)
    then show ?thesis by simp
  qed
  then have "unat (alignUp (of_nat (32 + isz e * cnt e)) 8) = block_len e"
    using s by (simp add: unat_alignUp block_len_def)
  then have "of_nat (unat (alignUp (of_nat (32 + isz e * cnt e)) 8)) = (of_nat (block_len e) :: u64)" by simp
  then have a: "alignUp (of_nat (32 + isz e * cnt e)) 8 = (of_nat (block_len e) :: u64)" by simp
  have "updateRequiredBufferSize (of_nat n) (getSize_element e) (getCount e) = of_nat (n + block_len e)"
    using a by (simp add: updateRequiredBufferSize_def getSize_image isz_def [symmetric] getCount_cnt)
  then show ?case using Cons.IH [of "n + block_len e"] N by (simp add: chain_len_def add.assoc)
qed

lemma calculateBufferSize_chain: "chain_len es < 2 ^ 64 \<Longrightarrow> calculateBufferSize es = of_nat (chain_len es)"
  using fold_required_size [of 0 es] by (simp add: calculateBufferSize_def)

lemma serializeElements_result:
  assumes "es \<noteq> []" and "list_all wf_element es" and "chain_len es < 2 ^ 64"
  shows "serialize fits es = (if fits (chain_len es) then Inr (chain 0 0 es) else Inl BadAlloc)"
proof -
  have u: "unat (calculateBufferSize es) = chain_len es"
    using assms(3) by (simp add: calculateBufferSize_chain unat_of_nat_u64)
  obtain e qs where e: "es = e # qs" using assms(1) by (meson neq_Nil_conv)
  have "0 < chain_len es" using block_len_ge [of e] by (simp add: e chain_len_def)
  then have new: "newSerialOutputBuffer (replicate (chain_len es) 0) = Inr (out_at (replicate (chain_len es) 0) 0)"
    by (simp add: newSerialOutputBuffer_def out_at_def)
  obtain off where "foldE serializeElement es (out_at (replicate (chain_len es) 0) 0, None) =
      Inr (out_at (chain 0 0 es) off, Some (of_nat (chain_len (butlast es))))"
    using serializeElements [OF assms(2) order_refl assms(3)] assms(1) by auto
  then show ?thesis
    unfolding serialize_def Let_def u new by (simp add: out_at_def throw_unless_def)
qed

text \<open>
  C19. The serialiser writes the chain of blocks: for every element its descriptor, with the number
  and the size of its items, the offset of the first one and the offset of the next descriptor, then
  the images of the items, then zero bytes up to the next multiple of eight. It fills exactly the
  buffer that it computes beforehand, so no write is out of bounds, and only the allocation of that
  buffer can fail.
\<close>

theorem serialize_writes_chain:
  assumes "es \<noteq> []" and "list_all wf_element es" and "chain_len es < 2 ^ 64"
  shows "serialize fits es = (if fits (chain_len es) then Inr (chain 0 0 es) else Inl BadAlloc)"
  by (rule serializeElements_result [OF assms])

theorem serialize_writes_chain_witness:
  "serialize (\<lambda>n. n \<le> 1000) [SerialElement [0, 0] [1, 2], SerialElementVector [0] [], SerialElementVector [0] [[7], [8]]] =
    Inr (chain 0 0 [SerialElement [0, 0] [1, 2], SerialElementVector [0] [], SerialElementVector [0] [[7], [8]]])"
proof -
  let ?es = "[SerialElement [0, 0] [1, 2], SerialElementVector [0] [], SerialElementVector [0] [[7], [8]]]"
  have "list_all wf_element ?es" by (simp add: wf_element_def isz_def)
  moreover have "chain_len ?es = 112" by (simp add: chain_len_def block_len_def isz_def cnt_def round_up_def)
  ultimately show ?thesis using serialize_writes_chain [of ?es "\<lambda>n. n \<le> 1000"] by simp
qed

section \<open>Reading the chain back\<close>

definition in_at :: "u64 \<Rightarrow> bytes \<Rightarrow> SerialInputBuffer" where
  "in_at a bs = \<lparr>si_address = a, si_bytes = bs, si_size = of_nat (length bs)\<rparr>"

lemma address_in:
  assumes "off + n \<le> length bs" and "0 < n" and "unat a + length bs < 2 ^ 64"
  shows "getAddressOfOffset (of_nat off) (of_nat n) (in_at a bs) = Inr (of_nat off)"
proof -
  have fit: "k \<le> length bs \<Longrightarrow> unat (a + of_nat k) = unat a + k" for k
    using assms(3) by (simp add: unat_add_no_wrap unat_of_nat_u64)
  have s: "a + of_nat off + (of_nat n - 1) = a + of_nat (off + n - 1)"
    and e: "a + (of_nat (length bs) - 1) = a + of_nat (length bs - 1)"
    using assms(1,2) by (simp_all add: of_nat_diff)
  have "\<not> of_nat off + of_nat n > (of_nat (length bs) :: u64)"
    using assms by (simp add: word_less_nat_alt unat_of_nat_u64 flip: of_nat_add)
  moreover have "checkDataPointer (in_at a bs) (a + of_nat off) (of_nat n) = Inr ()"
    using assms(1,2) fit [of off] fit [of "off + n - 1"] fit [of "length bs - 1"]
    unfolding checkDataPointer_def Let_def s in_at_def SerialInputBuffer.simps e
    by (auto simp: throw_when_def word_less_nat_alt)
  ultimately show ?thesis by (simp add: getAddressOfOffset_def in_at_def)
qed

lemma read_in:
  "off + n \<le> length bs \<Longrightarrow> length bs < 2 ^ 64 \<Longrightarrow> read_input (in_at a bs) (of_nat off) n = Inr (bslice off n bs)"
  by (simp add: read_input_def in_at_def unat_of_nat_u64)

lemma deserializeItems:
  assumes "foldE (\<lambda>i. copyToIndex (read_input b (of_nat (p + n * i))) (of_nat i) (of_nat n)) [0..<k] g = Inr h"
    and "\<And>i. i < k \<Longrightarrow> getAddressOfOffset (of_nat (p + n * i)) (of_nat n) b = Inr (of_nat (p + n * i))"
  shows "forM (deserializeItem b (of_nat n)) [0..<k] (of_nat p, g) = (Inr (), of_nat (p + n * k), h)"
  using assms
proof (induction k arbitrary: h)
  case 0
  then show ?case by (simp add: retM_def)
next
  case (Suc k)
  then obtain m where m: "foldE (\<lambda>i. copyToIndex (read_input b (of_nat (p + n * i))) (of_nat i) (of_nat n)) [0..<k] g = Inr m"
    and step: "copyToIndex (read_input b (of_nat (p + n * k))) (of_nat k) (of_nat n) m = Inr h"
    by (auto simp: foldE_append bindE_Inr_iff)
  have ih: "forM (deserializeItem b (of_nat n)) [0..<k] (of_nat p, g) = (Inr (), of_nat (p + n * k), m)"
    using Suc.IH [OF m] Suc.prems(2) by simp
  have addr: "getAddressOfOffset (of_nat (p + n * k)) (of_nat n) b = Inr (of_nat (p + n * k))"
    using Suc.prems(2) by simp
  have next_off: "of_nat (p + n * k) + of_nat n = (of_nat (p + n * Suc k) :: u64)" by simp
  have "deserializeItem b (of_nat n) k (of_nat (p + n * k), m) = (Inr (), of_nat (p + n * Suc k), h)"
    unfolding deserializeItem_def bindM_readM bindM_liftM bindM_modifyM fst_conv snd_conv apfst_conv apsnd_conv
      modifyM_def addr step sum.case next_off ..
  then show ?case using ih by (simp add: forM_append bindM_def retM_def del: of_nat_add of_nat_mult)
qed

text \<open>What lies where in the chain.\<close>

lemma chain_append:
  "chain pos nxt (es @ fs) =
    chain pos (if fs = [] then nxt else pos + chain_len es) es @ chain (pos + chain_len es) nxt fs"
  by (induction es arbitrary: pos) (auto simp: chain_len_def add.assoc)

lemma chain_len_append: "chain_len (es @ fs) = chain_len es + chain_len fs"
  by (simp add: chain_len_def)

abbreviation link :: "element list \<Rightarrow> element \<Rightarrow> element list \<Rightarrow> nat" where
  "link pre e post \<equiv> (if post = [] then 0 else chain_len pre + block_len e)"

lemma chain_at:
  assumes "list_all wf_element pre"
  shows "chain 0 0 (pre @ e # post) = chain 0 (chain_len pre) pre @ block (chain_len pre) (link pre e post) e @
    chain (chain_len pre + block_len e) 0 post" and "length (chain 0 (chain_len pre) pre) = chain_len pre"
  using assms by (simp_all add: chain_append length_chain)

lemma descriptor_at:
  assumes "list_all wf_element pre"
  shows "bslice (chain_len pre) 32 (chain 0 0 (pre @ e # post)) =
    enc_SerialDescriptor (descriptor (chain_len pre) (link pre e post) e)"
  unfolding chain_at(1) [OF assms]
  using chain_at(2) [OF assms] by (simp add: bslice_def block_def pod_serialdescriptor.length_enc)

lemma item_at:
  assumes wf: "list_all wf_element pre" "wf_element e" and i: "i < cnt e"
  shows "bslice (chain_len pre + 32 + isz e * i) (isz e) (chain 0 0 (pre @ e # post)) = items e ! i"
proof -
  have "concat (items e) = concat (take i (items e)) @ items e ! i @ concat (drop (Suc i) (items e))"
    using i by (metis cnt_def concat.simps(2) concat_append id_take_nth_drop)
  moreover have "length (concat (take i (items e))) = isz e * i"
    using wf(2) i by (subst length_concat_all [of _ "isz e"]) (auto simp: wf_element_def cnt_def dest: in_set_takeD)
  moreover have "length (items e ! i) = isz e" using wf(2) i by (simp add: wf_element_def cnt_def)
  ultimately show ?thesis
    unfolding chain_at(1) [OF wf(1)]
    using chain_at(2) [OF wf(1)] by (simp add: bslice_def block_def pod_serialdescriptor.length_enc)
qed

lemma chain_fits: "chain_len pre + (32 + isz e * cnt e) \<le> chain_len (pre @ e # post)"
  using block_len_ge [of e] by (simp add: chain_len_def)

lemma item_fits: "i < cnt e \<Longrightarrow> isz e * i + isz e \<le> isz e * cnt e"
  by (metis Suc_leI mult_Suc_right add.commute mult_le_mono2)

text \<open>Filling an element from the block of an element of its type gives that element.\<close>

lemma resize_cleared:
  assumes "same_type f e" and "cnt e \<noteq> 0" and "cnt e < 2 ^ 64" and "fits (isz e * cnt e)"
  shows "\<exists>g. resize fits (of_nat (cnt e)) (clear f) = Inr g"
proof (cases e)
  case (SerialElement d x)
  then show ?thesis using assms(1) by (cases f) (simp_all add: cnt_def)
next
  case (SerialElementVector d xs)
  then show ?thesis
    using assms by (cases f) (simp_all add: cnt_def isz_def unat_of_nat_u64 mult.commute)
qed

lemma readDescriptor_at:
  assumes "list_all wf_element (pre @ e # post)" and "unat a + chain_len (pre @ e # post) < 2 ^ 64"
  shows "readDescriptor (in_at a (chain 0 0 (pre @ e # post))) (of_nat (chain_len pre)) =
    Inr (descriptor (chain_len pre) (link pre e post) e)"
proof -
  let ?C = "chain 0 0 (pre @ e # post)"
  have len: "length ?C = chain_len (pre @ e # post)" by (rule length_chain [OF assms(1)])
  have pre: "list_all wf_element pre" using assms(1) by simp
  have room: "chain_len pre + 32 \<le> length ?C" using chain_fits [of pre e post] len by simp
  have "getAddressOfOffset (of_nat (chain_len pre)) (of_nat 32) (in_at a ?C) = Inr (of_nat (chain_len pre))"
    using address_in [OF room] assms(2) len by simp
  moreover have "read_input (in_at a ?C) (of_nat (chain_len pre)) 32 =
      Inr (enc_SerialDescriptor (descriptor (chain_len pre) (link pre e post) e))"
    using read_in [OF room] descriptor_at [OF pre, of e post] assms(2) len by simp
  ultimately show ?thesis by (simp add: readDescriptor_def pod_serialdescriptor.dec_enc)
qed

lemma deserializeElement_chain:
  assumes wf: "list_all wf_element (pre @ e # post)" and N: "unat a + chain_len (pre @ e # post) < 2 ^ 64"
    and fits: "fits (isz e * cnt e)" and f: "same_type f e"
  shows "deserializeElement fits (in_at a (chain 0 0 (pre @ e # post)))
      (descriptor (chain_len pre) (link pre e post) e) f =
    (case post of [] \<Rightarrow> Inr SerialDescriptor_default
     | q # qs \<Rightarrow> Inr (descriptor (chain_len (pre @ [e])) (link (pre @ [e]) q qs) q), e)"
proof -
  let ?C = "chain 0 0 (pre @ e # post)"
  let ?d = "descriptor (chain_len pre) (link pre e post) e"
  have len: "length ?C = chain_len (pre @ e # post)" by (rule length_chain [OF wf])
  have room: "chain_len pre + (32 + isz e * cnt e) \<le> length ?C" unfolding len by (rule chain_fits)
  have i: "0 < isz e" and pre: "list_all wf_element pre" "wf_element e" using wf by (auto simp: wf_element_def)
  have "cnt e \<le> isz e * cnt e" using i by simp
  then have c: "cnt e < 2 ^ 64" using room N len by linarith
  have cu: "unat (of_nat (cnt e) :: u64) = cnt e" using c by (rule unat_of_nat_u64)
  have tail: "(if mNextDescOffset ?d \<noteq> 0
      then liftM (readDescriptor (in_at a ?C) (mNextDescOffset ?d)) else retM SerialDescriptor_default) e =
    (case post of [] \<Rightarrow> Inr SerialDescriptor_default
     | q # qs \<Rightarrow> Inr (descriptor (chain_len (pre @ [e])) (link (pre @ [e]) q qs) q), e)"
  proof (cases post)
    case Nil
    then show ?thesis by (simp add: descriptor_def retM_def)
  next
    case (Cons q qs)
    have "chain_len (pre @ [e]) < 2 ^ 64" using N by (simp add: Cons chain_len_def)
    then have "unat (of_nat (chain_len (pre @ [e])) :: u64) = chain_len (pre @ [e])" by (rule unat_of_nat_u64)
    moreover have "chain_len (pre @ [e]) \<noteq> 0" using block_len_ge [of e] by (simp add: chain_len_def)
    ultimately have "of_nat (chain_len (pre @ [e])) \<noteq> (0 :: u64)" by (metis unsigned_0)
    moreover have "mNextDescOffset ?d = of_nat (chain_len (pre @ [e]))" by (simp add: descriptor_def Cons chain_len_snoc)
    ultimately show ?thesis
      using readDescriptor_at [of "pre @ [e]" q qs a] wf N by (simp add: Cons liftM_def)
  qed
  show ?thesis
  proof (cases "cnt e = 0")
    case True
    then have "clear f = e" using elem.clear_restores [OF f] by (simp add: cnt_def)
    then show ?thesis
      using True tail unfolding deserializeElement_def Let_def bindM_modifyM
      by (simp add: descriptor_def)
  next
    case False
    then have nz: "items e \<noteq> []" by (simp add: cnt_def)
    obtain g where g: "resize fits (of_nat (cnt e)) (clear f) = Inr g"
      using resize_cleared [of f e fits] f False c fits by blast
    let ?from = "\<lambda>i. read_input (in_at a ?C) (of_nat (chain_len pre + 32 + isz e * i))"
    have iu: "unat (of_nat (isz e) :: u64) = isz e"
      using room N len False by (intro unat_of_nat_u64) (cases "cnt e"; simp)
    have rd: "?from k (isz e) = Inr (items e ! k)" if "k < cnt e" for k
      using read_in [of "chain_len pre + 32 + isz e * k" "isz e" ?C a] item_at [OF pre that, of post]
        item_fits [OF that] room N len by simp
    have fold: "foldE (\<lambda>k. copyToIndex (?from k) (of_nat k) (of_nat (isz e))) [0..<cnt e] g = Inr e"
      using elem.fill_restores [OF f nz, of fits g ?from] g rd c iu
      by (simp add: cnt_def getSize_image isz_def)
    have addr: "getAddressOfOffset (of_nat (chain_len pre + 32 + isz e * k)) (of_nat (isz e)) (in_at a ?C) =
        Inr (of_nat (chain_len pre + 32 + isz e * k))" if "k < cnt e" for k
      using address_in [of "chain_len pre + 32 + isz e * k" "isz e" ?C a] item_fits [OF that] room N len i by simp
    have items: "forM (deserializeItem (in_at a ?C) (of_nat (isz e))) [0..<cnt e] (of_nat (chain_len pre + 32), g) =
        (Inr (), of_nat (chain_len pre + 32 + isz e * cnt e), e)"
      using deserializeItems [OF fold] addr by blast
    have dsc: "mElementCount ?d = of_nat (cnt e)" "mElementSize ?d = of_nat (isz e)"
      "mDataOffset ?d = of_nat (chain_len pre + 32)"
      using False by (simp_all add: descriptor_def del: of_nat_add)
    have nz64: "((of_nat (cnt e) :: u64) \<noteq> 0) = True" using False cu by (metis unsigned_0)
    have fill: "bindM (readM id) (\<lambda>elem. bindM (liftM (resize fits (of_nat (cnt e)) elem)) (\<lambda>elem' _.
        case forM (deserializeItem (in_at a ?C) (of_nat (isz e))) [0..<unat (of_nat (cnt e) :: u64)]
            (of_nat (chain_len pre + 32), elem') of (r, _, elem'') \<Rightarrow> (r, elem''))) (clear f) = (Inr (), e)"
      unfolding bindM_readM bindM_liftM id_apply g sum.case cu items prod.case ..
    show ?thesis
      unfolding deserializeElement_def Let_def bindM_modifyM dsc nz64 if_True
      by (rule trans, rule bindM_Inr, rule fill, rule tail)
  qed
qed

lemma deserializeElements_default:
  "deserializeElements fits b sz SerialDescriptor_default fs = (Inr (), map clear fs)"
proof (induction fs)
  case (Cons f fs)
  have "deserializeElement fits b SerialDescriptor_default f = (Inr SerialDescriptor_default, clear f)"
    by (simp add: deserializeElement_def SerialDescriptor_default_def bindM_def modifyM_def retM_def)
  moreover have "\<not> mElementSize SerialDescriptor_default * mElementCount SerialDescriptor_default +
      mDataOffset SerialDescriptor_default > sz" by (simp add: SerialDescriptor_default_def)
  ultimately show ?case using Cons by simp
qed simp

lemma element_in_bound:
  assumes "chain_len (pre @ e # post) < 2 ^ 64"
  shows "\<not> mElementSize (descriptor (chain_len pre) n e) * mElementCount (descriptor (chain_len pre) n e) +
    mDataOffset (descriptor (chain_len pre) n e) > of_nat (chain_len (pre @ e # post))"
proof (cases "cnt e = 0")
  case False
  then have "mElementSize (descriptor (chain_len pre) n e) * mElementCount (descriptor (chain_len pre) n e) +
      mDataOffset (descriptor (chain_len pre) n e) = (of_nat (chain_len pre + (32 + isz e * cnt e)) :: u64)"
    by (simp add: descriptor_def)
  moreover have "unat (of_nat (chain_len pre + (32 + isz e * cnt e)) :: u64) \<le> chain_len (pre @ e # post)"
    using chain_fits [of pre e post] assms by (subst unat_of_nat_u64) simp_all
  ultimately show ?thesis
    using unat_of_nat_u64 [OF assms] by (simp add: word_less_nat_alt del: of_nat_add of_nat_mult)
qed (simp add: descriptor_def)

lemma deserializeElements_chain:
  assumes "list_all wf_element (pre @ e # post)" and "unat a + chain_len (pre @ e # post) < 2 ^ 64"
    and "\<forall>x \<in> set (e # post). fits (isz x * cnt x)"
    and "\<forall>i < min (length fs) (length (e # post)). same_type (fs ! i) ((e # post) ! i)"
  shows "deserializeElements fits (in_at a (chain 0 0 (pre @ e # post))) (of_nat (chain_len (pre @ e # post)))
      (descriptor (chain_len pre) (link pre e post) e) fs =
    (Inr (), take (length fs) (e # post) @ map clear (drop (length (e # post)) fs))"
  using assms
proof (induction fs arbitrary: pre e post)
  case (Cons f fs)
  let ?b = "in_at a (chain 0 0 (pre @ e # post))"
  let ?n = "of_nat (chain_len (pre @ e # post)) :: u64"
  have f: "same_type f e" using Cons.prems(4) by (auto dest: spec [of _ 0])
  have fs: "\<forall>i < min (length fs) (length post). same_type (fs ! i) (post ! i)"
    using Cons.prems(4) by fastforce
  note step = deserializeElement_chain [OF Cons.prems(1,2) _ f, of fits]
  have bound: "chain_len (pre @ e # post) < 2 ^ 64" using Cons.prems(2) by simp
  note in_bound = element_in_bound [OF bound, of "link pre e post"]
  show ?case
  proof (cases post)
    case Nil
    then have "deserializeElement fits ?b (descriptor (chain_len pre) (link pre e post) e) f =
        (Inr SerialDescriptor_default, e)" using step Cons.prems(3) by simp
    then show ?thesis
      using in_bound unfolding deserializeElements.simps if_not_P [OF in_bound]
      by (simp add: deserializeElements_default Nil)
  next
    case (Cons q qs)
    have "deserializeElement fits ?b (descriptor (chain_len pre) (link pre e post) e) f =
        (Inr (descriptor (chain_len (pre @ [e])) (link (pre @ [e]) q qs) q), e)"
      using step Cons.prems(3) Cons by simp
    moreover have "deserializeElements fits ?b ?n (descriptor (chain_len (pre @ [e])) (link (pre @ [e]) q qs) q) fs =
        (Inr (), take (length fs) (q # qs) @ map clear (drop (length (q # qs)) fs))"
      using Cons.IH [of "pre @ [e]" q qs] Cons.prems Cons fs by simp
    ultimately show ?thesis
      unfolding deserializeElements.simps if_not_P [OF in_bound] by (simp add: Cons)
  qed
qed simp

lemma deserialize_serialized:
  assumes "es \<noteq> []" and "list_all wf_element es" and "unat a + chain_len es < 2 ^ 64" and "a \<noteq> 0"
    and "\<forall>i < min (length fs) (length es). same_type (fs ! i) (es ! i)"
    and "\<forall>e \<in> set es. fits (isz e * cnt e)" and "serialize fits es = Inr bs"
  shows "deserialize fits a bs (of_nat (length bs)) fs =
    (Inr (), take (length fs) es @ map clear (drop (length es) fs))"
proof -
  have N: "chain_len es < 2 ^ 64" using assms(3) by simp
  have bs: "bs = chain 0 0 es"
    using assms(7) serializeElements_result [OF assms(1,2) N, of fits] by (simp split: if_splits)
  have len: "length bs = chain_len es" unfolding bs by (rule length_chain [OF assms(2)])
  obtain e post where es: "es = e # post" using assms(1) by (meson neq_Nil_conv)
  have big: "32 \<le> chain_len es" using block_len_ge [of e] by (simp add: es chain_len_def)
  have u: "unat (of_nat (length bs) :: u64) = length bs" using N len by (simp add: unat_of_nat_u64)
  have "of_nat (length bs) \<ge> (32 :: u64)" using big u len by (simp add: word_le_nat_alt)
  moreover have "of_nat (length bs) \<noteq> (0 :: u64)" using big u len by (metis not_numeral_le_zero unsigned_0)
  moreover have "readDescriptor (in_at a bs) 0 = Inr (descriptor 0 (link [] e post) e)"
    using readDescriptor_at [of "[]" e post a] assms(2,3) unfolding bs es by (simp add: chain_len_def)
  moreover have "deserializeElements fits (in_at a bs) (of_nat (length bs)) (descriptor 0 (link [] e post) e) fs =
      (Inr (), take (length fs) es @ map clear (drop (length es) fs))"
    using deserializeElements_chain [of "[]" e post a fits fs] assms(2,3,5,6) len
    unfolding bs es by (simp add: chain_len_def)
  ultimately show ?thesis
    using assms(4) by (simp add: deserialize_def newSerialInputBuffer_def bindM_liftM in_at_def)
qed

text \<open>
  C16. Round trip. Deserialising what the serialiser wrote gives the elements back, into a structure
  of elements for the same types, whatever those held before. A structure that has grown reads an
  older buffer: the elements it appends are cleared. A structure that lacks trailing elements reads
  a newer buffer: they are ignored.
\<close>

theorem deserialize_restores:
  assumes "es \<noteq> []" and "list_all wf_element es" and "unat a + chain_len es < 2 ^ 64" and "a \<noteq> 0"
    and "\<forall>i < min (length fs) (length es). same_type (fs ! i) (es ! i)"
    and "\<forall>e \<in> set es. fits (isz e * cnt e)" and "serialize fits es = Inr bs"
  shows "deserialize fits a bs (of_nat (length bs)) fs =
    (Inr (), take (length fs) es @ map clear (drop (length es) fs))"
  by (rule deserialize_serialized [OF assms])

theorem deserialize_restores_witness:
  "deserialize (\<lambda>n. n \<le> 1000) 4096
      (chain 0 0 [SerialElement [0, 0] [1, 2], SerialElementVector [0] [[7], [8]]]) 80
      [SerialElement [0, 0] [3, 4], SerialElementVector [0] [[9]], SerialElementVector [0] [[9]]] =
    (Inr (), [SerialElement [0, 0] [1, 2], SerialElementVector [0] [[7], [8]], SerialElementVector [0] []])"
proof -
  let ?es = "[SerialElement [0, 0] [1, 2], SerialElementVector [0] [[7], [8]]]"
  let ?fs = "[SerialElement [0, 0] [3, 4], SerialElementVector [0] [[9]], SerialElementVector [0] [[9]]]"
  have wf: "list_all wf_element ?es" by (simp add: wf_element_def isz_def)
  have len: "chain_len ?es = 80" by (simp add: chain_len_def block_len_def isz_def cnt_def round_up_def)
  have "\<forall>i < min (length ?fs) (length ?es). same_type (?fs ! i) (?es ! i)" by (auto simp: less_Suc_eq numeral_2_eq_2)
  moreover have "serialize (\<lambda>n. n \<le> 1000) ?es = Inr (chain 0 0 ?es)"
    using serializeElements_result [OF _ wf, of "\<lambda>n. n \<le> 1000"] len by simp
  ultimately show ?thesis
    using deserialize_restores [of ?es 4096 ?fs "\<lambda>n. n \<le> 1000"] wf len length_chain [OF wf, of 0 0]
    by (simp add: isz_def cnt_def)
qed

section \<open>Deserialising any buffer\<close>

definition room_after :: "u64 \<Rightarrow> bytes \<Rightarrow> nat \<Rightarrow> bool" where
  "room_after a bs n \<longleftrightarrow> unat a + length bs + n \<le> 2 ^ 64"

text \<open>
  The check of a pointer rejects every item that does not lie in the buffer, although its sums wrap,
  when an item that starts in the buffer cannot reach the end of the address space.
\<close>

lemma address_lies_in:
  assumes get: "getAddressOfOffset off n (in_at a bs) = Inr x" and bs: "bs \<noteq> []" and n: "0 < unat n"
    and room: "room_after a bs (unat n)"
  shows "x = off \<and> unat off + unat n \<le> length bs"
proof -
  have len: "length bs < 2 ^ 64" "0 < length bs" using room n bs by (simp_all add: room_after_def)
  have nz: "n \<noteq> 0" using n by auto
  have last: "a + (of_nat (length bs) - 1) = a + of_nat (length bs - 1)"
  proof -
    have "of_nat (length bs - 1) = (of_nat (length bs) - of_nat 1 :: u64)" using len(2) by (intro of_nat_diff) linarith
    then show ?thesis by simp
  qed
  have ul: "unat (a + of_nat (length bs - 1)) = unat a + length bs - 1"
  proof -
    have "unat (a + of_nat (length bs - 1)) = unat a + (length bs - 1)"
      using room n len(1) by (subst unat_add_no_wrap) (simp_all add: room_after_def unat_of_nat_u64)
    then show ?thesis using len(2) by linarith
  qed
  have x: "x = off" and lo: "unat a \<le> unat (a + off)"
    and hi': "unat (a + off) \<le> unat (a + of_nat (length bs - 1))"
    and en': "unat (a + off + (n - 1)) \<le> unat (a + of_nat (length bs - 1))"
    using get unfolding getAddressOfOffset_def checkDataPointer_def in_at_def SerialInputBuffer.simps Let_def last
    by (auto simp: bindE_Inr_iff word_less_nat_alt not_less)
  note hi = hi' [unfolded ul] and en = en' [unfolded ul]
  have off: "unat off = unat (a + off) - unat a"
    using lo unat_sub [of a "a + off"] by (simp add: word_le_nat_alt)
  have n1: "unat (n - 1) = unat n - 1" using nz by (simp add: unat_minus_one)
  have "unat (a + off + (n - 1)) = unat (a + off) + (unat n - 1)"
    using hi room n n1 len by (subst unat_add_no_wrap) (simp_all add: room_after_def)
  then show ?thesis using x off lo en n len by linarith
qed

lemma same_type_isz: "same_type f e \<Longrightarrow> isz f = isz e"
  by (cases f; cases e) (simp_all add: isz_def)

lemma same_type_refl [simp]: "same_type e e"
  by (cases e) simp_all

lemma copyToIndex_type: "copyToIndex from i n e = Inr f \<Longrightarrow> same_type f e"
  by (cases e) (auto simp: bindE_Inr_iff)

lemma resize_type: "resize fits n e = Inr f \<Longrightarrow> same_type f e"
  by (cases e) auto

lemma copyToIndex_undefined:
  "copyToIndex from i n e = Inl UndefinedBehaviour \<Longrightarrow>
    n = of_nat (isz e) \<and> from (unat n) = Inl UndefinedBehaviour"
  by (cases e) (auto simp: isz_def throw_when_def bindE_Inl_iff split: if_splits)

lemma getAddressOfOffset_error: "getAddressOfOffset off n b = Inl e \<Longrightarrow> e = RuntimeError"
  by (auto simp: getAddressOfOffset_def checkDataPointer_def Let_def throw_when_def split: if_splits)

lemma deserializeItem_safe:
  assumes run: "deserializeItem (in_at a bs) n i (off, f) = (r, off', f')"
    and bs: "bs \<noteq> []" and f: "0 < isz f" "room_after a bs (isz f)"
  shows "r \<noteq> Inl UndefinedBehaviour \<and> same_type f' f"
proof (cases "getAddressOfOffset off n (in_at a bs)")
  case (Inl e)
  then show ?thesis
    using run getAddressOfOffset_error [OF Inl]
    by (auto simp: deserializeItem_def bindM_readM bindM_liftM)
next
  case (Inr x)
  let ?c = "copyToIndex (read_input (in_at a bs) x) (of_nat i) n f"
  have r: "(r, off', f') = (case ?c of Inl e \<Rightarrow> (Inl e, off + n, f) | Inr g \<Rightarrow> (Inr (), off + n, g))"
    using run Inr by (simp add: deserializeItem_def bindM_simps modifyM_def split: sum.splits)
  have "?c \<noteq> Inl UndefinedBehaviour"
  proof
    assume c: "?c = Inl UndefinedBehaviour"
    have "isz f < 2 ^ 64" using f bs by (cases bs) (auto simp: room_after_def)
    then have n: "unat n = isz f" using copyToIndex_undefined [OF c] by (simp add: unat_of_nat_u64)
    then have "x = off \<and> unat off + unat n \<le> length bs" using address_lies_in [OF Inr bs] f by simp
    then have "read_input (in_at a bs) x (unat n) \<noteq> Inl UndefinedBehaviour"
      by (simp add: read_input_def in_at_def del: unat_of_nat)
    then show False using copyToIndex_undefined [OF c] by blast
  qed
  then show ?thesis using r copyToIndex_type by (auto split: sum.splits)
qed

lemma deserializeItems_safe:
  assumes "forM (deserializeItem (in_at a bs) n) is (off, f) = (r, off', f')"
    and "bs \<noteq> []" and "0 < isz f" and "room_after a bs (isz f)"
  shows "r \<noteq> Inl UndefinedBehaviour \<and> same_type f' f"
  using assms
proof (induction "is" arbitrary: off f)
  case Nil
  then show ?case by (auto simp: retM_def)
next
  case (Cons i "is")
  from Cons.prems(1) have "bindM (deserializeItem (in_at a bs) n i)
      (\<lambda>_. forM (deserializeItem (in_at a bs) n) is) (off, f) = (r, off', f')" by simp
  then show ?case
  proof (cases rule: bindM_cases)
    case (err e)
    then show ?thesis using deserializeItem_safe [OF err(1) Cons.prems(2-4)] by simp
  next
    case (ok x t)
    obtain off'' g where t: "t = (off'', g)" by (cases t)
    have g: "same_type g f" using deserializeItem_safe [OF ok(1) [unfolded t] Cons.prems(2-4)] by simp
    then have "r \<noteq> Inl UndefinedBehaviour \<and> same_type f' g"
      using Cons.IH [OF ok(2) [unfolded t] Cons.prems(2)] Cons.prems(3,4) same_type_isz [OF g] by simp
    then show ?thesis using g elem.same_trans by blast
  qed
qed

lemma readDescriptor_safe:
  assumes "bs \<noteq> []" and "room_after a bs 32"
  shows "readDescriptor (in_at a bs) off \<noteq> Inl UndefinedBehaviour"
proof (cases "getAddressOfOffset off 32 (in_at a bs)")
  case (Inl e)
  then show ?thesis using getAddressOfOffset_error [OF Inl] by (simp add: readDescriptor_def)
next
  case (Inr x)
  have "x = off \<and> unat off + 32 \<le> length bs" using address_lies_in [OF Inr assms(1)] assms(2) by simp
  then show ?thesis using Inr by (simp add: readDescriptor_def read_input_def in_at_def)
qed

lemma resize_error: "resize fits n e = Inl x \<Longrightarrow> x \<noteq> UndefinedBehaviour"
  by (cases e) (auto simp: throw_when_def throw_unless_def split: if_splits)

lemma deserializeElement_safe:
  assumes run: "deserializeElement fits (in_at a bs) d f = (r, f')"
    and bs: "bs \<noteq> []" and f: "0 < isz f" "room_after a bs (isz f)" and room: "room_after a bs 32"
  shows "r \<noteq> Inl UndefinedBehaviour \<and> same_type f' f"
proof -
  let ?fill = "bindM (readM id) (\<lambda>elem. bindM (liftM (resize fits (mElementCount d) elem)) (\<lambda>elem' _.
    case forM (deserializeItem (in_at a bs) (mElementSize d)) [0..<unat (mElementCount d)] (mDataOffset d, elem') of
      (r, _, elem'') \<Rightarrow> (r, elem'')))"
  have fill: "q \<noteq> Inl UndefinedBehaviour \<and> same_type g f" if run': "?fill (clear f) = (q, g)" for q g
  proof (cases "resize fits (mElementCount d) (clear f)")
    case (Inl e)
    then show ?thesis
      using that resize_error [OF Inl] elem.clr_same [of f] by (auto simp: bindM_readM bindM_liftM)
  next
    case (Inr h)
    have h: "same_type h f" using elem.same_trans [OF resize_type [OF Inr] elem.clr_same] .
    obtain off where "forM (deserializeItem (in_at a bs) (mElementSize d)) [0..<unat (mElementCount d)]
        (mDataOffset d, h) = (q, off, g)"
      using run' unfolding bindM_readM bindM_liftM id_apply Inr sum.case by (auto split: prod.splits)
    from deserializeItems_safe [OF this bs] show ?thesis
      using f same_type_isz [OF h] elem.same_trans [OF _ h] by auto
  qed
  have tail: "q \<noteq> Inl UndefinedBehaviour \<and> t = g"
    if "(if mNextDescOffset d \<noteq> 0 then liftM (readDescriptor (in_at a bs) (mNextDescOffset d))
      else retM SerialDescriptor_default) g = (q, t)" for q t g
    using that readDescriptor_safe [OF bs room, of "mNextDescOffset d"]
    by (auto simp: liftM_def retM_def split: if_splits)
  from run have "bindM (if mElementCount d \<noteq> 0 then ?fill else retM ()) (\<lambda>_.
      if mNextDescOffset d \<noteq> 0 then liftM (readDescriptor (in_at a bs) (mNextDescOffset d))
      else retM SerialDescriptor_default) (clear f) = (r, f')"
    unfolding deserializeElement_def Let_def bindM_modifyM .
  then show ?thesis
  proof (cases rule: bindM_cases)
    case (err e)
    then show ?thesis using fill by (cases "mElementCount d = 0") (auto simp: retM_def)
  next
    case (ok x t)
    have "same_type t f"
      using ok(1) fill elem.clr_same [of f] by (cases "mElementCount d = 0") (auto simp: retM_def)
    then show ?thesis using tail [OF ok(2)] by simp
  qed
qed

lemma deserializeElements_safe:
  assumes "bs \<noteq> []" and "room_after a bs 32"
    and "\<forall>f \<in> set fs. 0 < isz f \<and> room_after a bs (isz f)"
  shows "fst (deserializeElements fits (in_at a bs) sz d fs) \<noteq> Inl UndefinedBehaviour \<and>
    list_all2 same_type (snd (deserializeElements fits (in_at a bs) sz d fs)) fs"
  using assms(3)
proof (induction fs arbitrary: d)
  case (Cons f fs)
  obtain r f' where r: "deserializeElement fits (in_at a bs) d f = (r, f')" by fastforce
  have f: "r \<noteq> Inl UndefinedBehaviour" "same_type f' f"
    using deserializeElement_safe [OF r assms(1)] Cons.prems assms(2) by auto
  have refl: "list_all2 same_type fs fs" by (simp add: list_all2_refl)
  show ?case
  proof (cases "sz < mElementSize d * mElementCount d + mDataOffset d")
    case True
    then show ?thesis using refl by simp
  next
    case False
    show ?thesis
    proof (cases r)
      case (Inl e)
      then show ?thesis using False f r refl by simp
    next
      case (Inr d')
      then show ?thesis using False f(2) r Cons.IH [of d'] Cons.prems by (auto split: prod.splits)
    qed
  qed
qed simp

lemma deserialize_safe:
  assumes "length bs = unat sz" and "unat a + unat sz + 32 \<le> 2 ^ 64"
    and "\<forall>f \<in> set fs. 0 < isz f \<and> unat a + unat sz + isz f \<le> 2 ^ 64"
  shows "fst (deserialize fits a bs sz fs) \<noteq> Inl UndefinedBehaviour \<and>
    list_all2 same_type (snd (deserialize fits a bs sz fs)) fs"
proof (cases "sz \<ge> 32 \<and> a \<noteq> 0")
  case False
  have "list_all2 same_type fs fs" by (simp add: list_all2_refl)
  then show ?thesis
    using False by (auto simp: deserialize_def throwM_unless_def throwM_def newSerialInputBuffer_def bindM_liftM
      throw_unless_def)
next
  case True
  have "(32 :: u64) \<le> 0 \<longleftrightarrow> False" by simp
  then have sz: "sz \<noteq> 0" using True by auto
  then have bs: "bs \<noteq> []" "sz \<noteq> 0" using assms(1) by (auto simp: unat_eq_0)
  have room: "room_after a bs 32" "\<forall>f \<in> set fs. 0 < isz f \<and> room_after a bs (isz f)"
    using assms by (simp_all add: room_after_def)
  have "of_nat (length bs) = sz" using assms(1) by simp
  then have new: "newSerialInputBuffer a bs sz = Inr (in_at a bs)"
    using True bs by (simp add: newSerialInputBuffer_def in_at_def)
  have refl: "list_all2 same_type fs fs" by (simp add: list_all2_refl)
  show ?thesis
    using True new readDescriptor_safe [OF bs(1) room(1), of 0] refl
      deserializeElements_safe [OF bs(1) room, of fits sz]
    by (auto simp: deserialize_def bindM_liftM split: sum.splits)
qed

text \<open>
  C18. Deserialising is memory safe: whatever bytes the buffer holds, every descriptor and every item
  that is read lies in it, although the sums of offsets, sizes and counts of the file are computed
  modulo 2^64 and may wrap. A malformed buffer ends in an exception, and each element keeps its type.
  The hypotheses are that the buffer is as long as the caller says and that, for every item size of
  the structure, it does not end closer than that to the end of the address space.
\<close>

theorem deserialize_memory_safe:
  assumes "length bs = unat sz" and "unat a + unat sz + 32 \<le> 2 ^ 64"
    and "\<forall>f \<in> set fs. 0 < isz f \<and> unat a + unat sz + isz f \<le> 2 ^ 64"
  shows "fst (deserialize fits a bs sz fs) \<noteq> Inl UndefinedBehaviour \<and>
    list_all2 same_type (snd (deserialize fits a bs sz fs)) fs"
  by (rule deserialize_safe [OF assms])

theorem deserialize_memory_safe_witness:
  "fst (deserialize (\<lambda>n. True) 4096 (replicate 32 255) 32 [SerialElement [0] [7]]) \<noteq> Inl UndefinedBehaviour"
  using deserialize_memory_safe [of "replicate 32 255" 32 4096 "[SerialElement [0] [7]]" "\<lambda>n. True"]
  by (simp add: isz_def)

end
