(* ===== verification/Elf_Metadata.thy ===== *)
theory Elf_Metadata imports Elf_Serial_Props begin

text \<open>
  \<^verbatim>\<open>metadata_primitives.hpp\<close>, \<^verbatim>\<open>metadata.hpp\<close> and \<^verbatim>\<open>serial_metadata.hpp\<close>, then
  \<^verbatim>\<open>platform.hpp\<close> and \<^verbatim>\<open>platform.cpp\<close>: the two structures that a compiled network carries about
  itself, their images, how they are serialised and read back, and the architectures the library
  knows. The structs are packed; their enumerations are kept as the 32-bit value that is in the file.
\<close>

section \<open>Enumerations\<close>

datatype DType =
    DType_NOT_SET | DType_FP64 | DType_FP32 | DType_FP16 | DType_FP8 | DType_U64
  | DType_U32 | DType_U16 | DType_U8 | DType_I64 | DType_I32 | DType_I16 | DType_I8
  | DType_I4 | DType_I2 | DType_I4X | DType_BIN | DType_LOG | DType_I2X | DType_BFP16
  | DType_U4 | DType_HF8

primrec DType_value :: "DType \<Rightarrow> u32" where
  "DType_value DType_NOT_SET = 0"
| "DType_value DType_FP64 = 1"
| "DType_value DType_FP32 = 2"
| "DType_value DType_FP16 = 3"
| "DType_value DType_FP8 = 4"
| "DType_value DType_U64 = 5"
| "DType_value DType_U32 = 6"
| "DType_value DType_U16 = 7"
| "DType_value DType_U8 = 8"
| "DType_value DType_I64 = 9"
| "DType_value DType_I32 = 10"
| "DType_value DType_I16 = 11"
| "DType_value DType_I8 = 12"
| "DType_value DType_I4 = 13"
| "DType_value DType_I2 = 14"
| "DType_value DType_I4X = 15"
| "DType_value DType_BIN = 16"
| "DType_value DType_LOG = 17"
| "DType_value DType_I2X = 18"
| "DType_value DType_BFP16 = 19"
| "DType_value DType_U4 = 20"
| "DType_value DType_HF8 = 21"

datatype PreProcessColorSpace =
    PreProcessColorSpace_DEFAULT | PreProcessColorSpace_BGR | PreProcessColorSpace_RGB
  | PreProcessColorSpace_NV12 | PreProcessColorSpace_I420

primrec PreProcessColorSpace_value :: "PreProcessColorSpace \<Rightarrow> u32" where
  "PreProcessColorSpace_value PreProcessColorSpace_DEFAULT = 0"
| "PreProcessColorSpace_value PreProcessColorSpace_BGR = 1"
| "PreProcessColorSpace_value PreProcessColorSpace_RGB = 2"
| "PreProcessColorSpace_value PreProcessColorSpace_NV12 = 3"
| "PreProcessColorSpace_value PreProcessColorSpace_I420 = 4"

datatype PreProcessResizeAlgorithm =
    PreProcessResizeAlgorithm_NO_RESIZE | PreProcessResizeAlgorithm_RESIZE_BILINEAR
  | PreProcessResizeAlgorithm_RESIZE_AREA

primrec PreProcessResizeAlgorithm_value :: "PreProcessResizeAlgorithm \<Rightarrow> u32" where
  "PreProcessResizeAlgorithm_value PreProcessResizeAlgorithm_NO_RESIZE = 0"
| "PreProcessResizeAlgorithm_value PreProcessResizeAlgorithm_RESIZE_BILINEAR = 1"
| "PreProcessResizeAlgorithm_value PreProcessResizeAlgorithm_RESIZE_AREA = 2"

datatype OVNodeType =
    OVNodeType_UNDEFINED | OVNodeType_DYNAMIC | OVNodeType_BOOLEAN | OVNodeType_BF16
  | OVNodeType_F16 | OVNodeType_F32 | OVNodeType_F64 | OVNodeType_I4 | OVNodeType_I8
  | OVNodeType_I16 | OVNodeType_I32 | OVNodeType_I64 | OVNodeType_U1 | OVNodeType_U4
  | OVNodeType_U8 | OVNodeType_U16 | OVNodeType_U32 | OVNodeType_U64
  | OVNodeType_F8E4M3 | OVNodeType_F8E5M2 | OVNodeType_NF4

primrec OVNodeType_value :: "OVNodeType \<Rightarrow> u32" where
  "OVNodeType_value OVNodeType_UNDEFINED = 0"
| "OVNodeType_value OVNodeType_DYNAMIC = 1"
| "OVNodeType_value OVNodeType_BOOLEAN = 2"
| "OVNodeType_value OVNodeType_BF16 = 3"
| "OVNodeType_value OVNodeType_F16 = 4"
| "OVNodeType_value OVNodeType_F32 = 5"
| "OVNodeType_value OVNodeType_F64 = 6"
| "OVNodeType_value OVNodeType_I4 = 7"
| "OVNodeType_value OVNodeType_I8 = 8"
| "OVNodeType_value OVNodeType_I16 = 9"
| "OVNodeType_value OVNodeType_I32 = 10"
| "OVNodeType_value OVNodeType_I64 = 11"
| "OVNodeType_value OVNodeType_U1 = 12"
| "OVNodeType_value OVNodeType_U4 = 13"
| "OVNodeType_value OVNodeType_U8 = 14"
| "OVNodeType_value OVNodeType_U16 = 15"
| "OVNodeType_value OVNodeType_U32 = 16"
| "OVNodeType_value OVNodeType_U64 = 17"
| "OVNodeType_value OVNodeType_F8E4M3 = 18"
| "OVNodeType_value OVNodeType_F8E5M2 = 19"
| "OVNodeType_value OVNodeType_NF4 = 20"

section \<open>Structs\<close>

interpretation pod_string: pod "\<lambda>s. s" "\<lambda>s :: bytes. s" 256 "\<lambda>s. length s = 256"
  by unfold_locales simp_all

lemmas table_facts =
  pod_u32.length_enc_table pod_u32.dec_table_enc_table_n pod_u32.enc_table_dec_table
  pod_u64.length_enc_table pod_u64.dec_table_enc_table_n pod_u64.enc_table_dec_table
  pod_string.length_enc_table pod_string.dec_table_enc_table_n pod_string.enc_table_dec_table
  pod_string.wf_dec_table

record Identification =
  arch_name :: bytes
  blob_name :: bytes

definition enc_Identification :: "Identification \<Rightarrow> bytes" where
  "enc_Identification h =
     arch_name h @
     blob_name h"

definition dec_Identification :: "bytes \<Rightarrow> Identification" where
  "dec_Identification bs = \<lparr>
     arch_name = bslice 0 256 bs,
     blob_name = bslice 256 256 bs\<rparr>"

definition wf_Identification :: "Identification \<Rightarrow> bool" where
  "wf_Identification h \<longleftrightarrow> length (arch_name h) = 256 \<and> length (blob_name h) = 256"

interpretation pod_identification: pod enc_Identification dec_Identification 512 wf_Identification
  by unfold_locales
    (simp_all add: enc_Identification_def dec_Identification_def wf_Identification_def table_facts struct_layout)

record TensorRef =
  strides :: "u64 list"
  dimensions :: "u32 list"
  name :: bytes
  order :: u64
  data_type :: u32
  dimensions_size :: u32
  strides_size :: u32
  pad1 :: bytes

definition enc_TensorRef :: "TensorRef \<Rightarrow> bytes" where
  "enc_TensorRef h =
     pod_u64.enc_table (strides h) @
     pod_u32.enc_table (dimensions h) @
     name h @
     le_bytes 8 (order h) @
     le_bytes 4 (data_type h) @
     le_bytes 4 (dimensions_size h) @
     le_bytes 4 (strides_size h) @
     pad1 h"

definition dec_TensorRef :: "bytes \<Rightarrow> TensorRef" where
  "dec_TensorRef bs = \<lparr>
     strides = pod_u64.dec_table 9 (bslice 0 72 bs),
     dimensions = pod_u32.dec_table 8 (bslice 72 32 bs),
     name = bslice 104 256 bs,
     order = le_word (bslice 360 8 bs),
     data_type = le_word (bslice 368 4 bs),
     dimensions_size = le_word (bslice 372 4 bs),
     strides_size = le_word (bslice 376 4 bs),
     pad1 = bslice 380 4 bs\<rparr>"

definition wf_TensorRef :: "TensorRef \<Rightarrow> bool" where
  "wf_TensorRef h \<longleftrightarrow> length (strides h) = 9 \<and> length (dimensions h) = 8 \<and> length (name h) = 256 \<and> length (pad1 h) = 4"

interpretation pod_tensorref: pod enc_TensorRef dec_TensorRef 384 wf_TensorRef
  by unfold_locales
    (simp_all add: enc_TensorRef_def dec_TensorRef_def wf_TensorRef_def table_facts struct_layout)

record PreprocessingInfo =
  pre_input_name :: bytes
  input_format :: u32
  output_format :: u32
  algorithm :: u32

definition enc_PreprocessingInfo :: "PreprocessingInfo \<Rightarrow> bytes" where
  "enc_PreprocessingInfo h =
     pre_input_name h @
     le_bytes 4 (input_format h) @
     le_bytes 4 (output_format h) @
     le_bytes 4 (algorithm h)"

definition dec_PreprocessingInfo :: "bytes \<Rightarrow> PreprocessingInfo" where
  "dec_PreprocessingInfo bs = \<lparr>
     pre_input_name = bslice 0 256 bs,
     input_format = le_word (bslice 256 4 bs),
     output_format = le_word (bslice 260 4 bs),
     algorithm = le_word (bslice 264 4 bs)\<rparr>"

definition wf_PreprocessingInfo :: "PreprocessingInfo \<Rightarrow> bool" where
  "wf_PreprocessingInfo h \<longleftrightarrow> length (pre_input_name h) = 256"

interpretation pod_preprocessinginfo: pod enc_PreprocessingInfo dec_PreprocessingInfo 268 wf_PreprocessingInfo
  by unfold_locales
    (simp_all add: enc_PreprocessingInfo_def dec_PreprocessingInfo_def wf_PreprocessingInfo_def table_facts struct_layout)

record OVNode =
  tensor_names :: "bytes list"
  shape :: "u64 list"
  friendly_name :: bytes
  input_name :: bytes
  node_type :: u32
  shape_size :: u32
  tensor_names_count :: u32
  node_pad :: bytes

definition enc_OVNode :: "OVNode \<Rightarrow> bytes" where
  "enc_OVNode h =
     pod_string.enc_table (tensor_names h) @
     pod_u64.enc_table (shape h) @
     friendly_name h @
     input_name h @
     le_bytes 4 (node_type h) @
     le_bytes 4 (shape_size h) @
     le_bytes 4 (tensor_names_count h) @
     node_pad h"

definition dec_OVNode :: "bytes \<Rightarrow> OVNode" where
  "dec_OVNode bs = \<lparr>
     tensor_names = pod_string.dec_table 32 (bslice 0 8192 bs),
     shape = pod_u64.dec_table 8 (bslice 8192 64 bs),
     friendly_name = bslice 8256 256 bs,
     input_name = bslice 8512 256 bs,
     node_type = le_word (bslice 8768 4 bs),
     shape_size = le_word (bslice 8772 4 bs),
     tensor_names_count = le_word (bslice 8776 4 bs),
     node_pad = bslice 8780 4 bs\<rparr>"

definition wf_OVNode :: "OVNode \<Rightarrow> bool" where
  "wf_OVNode h \<longleftrightarrow> length (tensor_names h) = 32 \<and> list_all (\<lambda>s. length s = 256) (tensor_names h) \<and> length (shape h) = 8 \<and> length (friendly_name h) = 256 \<and> length (input_name h) = 256 \<and> length (node_pad h) = 4"

interpretation pod_ovnode: pod enc_OVNode dec_OVNode 8784 wf_OVNode
  by unfold_locales
    (simp_all add: enc_OVNode_def dec_OVNode_def wf_OVNode_def table_facts struct_layout)

lemma last_byte: "length bs = Suc off \<Longrightarrow> [le_word (drop off bs) :: u8] = drop off bs"
  by (cases "drop off bs") (auto simp: drop_eq_Nil dest: arg_cong [of _ _ length])

record ResourceRequirements =
  nn_slice_length :: u32
  ddr_scratch_length :: u32
  req_pad :: bytes
  nn_slice_count :: u8
  nn_barriers :: u8

definition enc_ResourceRequirements :: "ResourceRequirements \<Rightarrow> bytes" where
  "enc_ResourceRequirements h =
     le_bytes 4 (nn_slice_length h) @
     le_bytes 4 (ddr_scratch_length h) @
     req_pad h @
     [nn_slice_count h] @
     [nn_barriers h]"

definition dec_ResourceRequirements :: "bytes \<Rightarrow> ResourceRequirements" where
  "dec_ResourceRequirements bs = \<lparr>
     nn_slice_length = le_word (bslice 0 4 bs),
     ddr_scratch_length = le_word (bslice 4 4 bs),
     req_pad = bslice 8 2 bs,
     nn_slice_count = le_word (bslice 10 1 bs),
     nn_barriers = le_word (bslice 11 1 bs)\<rparr>"

definition wf_ResourceRequirements :: "ResourceRequirements \<Rightarrow> bool" where
  "wf_ResourceRequirements h \<longleftrightarrow> length (req_pad h) = 2"

interpretation pod_resourcerequirements: pod enc_ResourceRequirements dec_ResourceRequirements 12 wf_ResourceRequirements
  by unfold_locales
    (simp_all add: enc_ResourceRequirements_def dec_ResourceRequirements_def wf_ResourceRequirements_def table_facts last_byte struct_layout)

text \<open>The image of a value-initialised object of a struct type: all its members are zero.\<close>

definition zero_image :: "nat \<Rightarrow> bytes" where
  "zero_image n = replicate n 0"

section \<open>Network metadata\<close>

record NetworkMetadata =
  mIdentification :: Identification
  mResourceRequirements :: ResourceRequirements
  mNetInputs :: "TensorRef list"
  mNetOutputs :: "TensorRef list"
  mInTensorDescriptors :: "TensorRef list"
  mOutTensorDescriptors :: "TensorRef list"
  mProfilingOutputs :: "TensorRef list"
  mPreprocessingInfo :: "PreprocessingInfo list"
  mOVParameters :: "OVNode list"
  mOVResults :: "OVNode list"

definition NetworkMetadata_new :: NetworkMetadata where
  "NetworkMetadata_new = \<lparr>
     mIdentification = dec_Identification (zero_image 512),
     mResourceRequirements = dec_ResourceRequirements (zero_image 12),
     mNetInputs = [], mNetOutputs = [], mInTensorDescriptors = [], mOutTensorDescriptors = [],
     mProfilingOutputs = [], mPreprocessingInfo = [], mOVParameters = [], mOVResults = []\<rparr>"

definition SerialMetadata :: "NetworkMetadata \<Rightarrow> element list" where
  "SerialMetadata metaObj = [
     SerialElement (zero_image 512) (enc_Identification (mIdentification metaObj)),
     SerialElement (zero_image 12) (enc_ResourceRequirements (mResourceRequirements metaObj)),
     SerialElementVector (zero_image 384) (map enc_TensorRef (mNetInputs metaObj)),
     SerialElementVector (zero_image 384) (map enc_TensorRef (mNetOutputs metaObj)),
     SerialElementVector (zero_image 384) (map enc_TensorRef (mInTensorDescriptors metaObj)),
     SerialElementVector (zero_image 384) (map enc_TensorRef (mOutTensorDescriptors metaObj)),
     SerialElementVector (zero_image 384) (map enc_TensorRef (mProfilingOutputs metaObj)),
     SerialElementVector (zero_image 268) (map enc_PreprocessingInfo (mPreprocessingInfo metaObj)),
     SerialElementVector (zero_image 8784) (map enc_OVNode (mOVParameters metaObj)),
     SerialElementVector (zero_image 8784) (map enc_OVNode (mOVResults metaObj))]"

text \<open>The object that the elements refer to, with what they hold.\<close>

fun value_of :: "(bytes \<Rightarrow> 'a) \<Rightarrow> element \<Rightarrow> 'a" where
  "value_of dec (SerialElement dflt x) = dec x"
| "value_of dec (SerialElementVector dflt xs) = dec dflt"

fun vector_of :: "(bytes \<Rightarrow> 'a) \<Rightarrow> element \<Rightarrow> 'a list" where
  "vector_of dec (SerialElement dflt x) = []"
| "vector_of dec (SerialElementVector dflt xs) = map dec xs"

definition metadata_of :: "element list \<Rightarrow> NetworkMetadata" where
  "metadata_of es = \<lparr>
     mIdentification = value_of dec_Identification (es ! 0),
     mResourceRequirements = value_of dec_ResourceRequirements (es ! 1),
     mNetInputs = vector_of dec_TensorRef (es ! 2),
     mNetOutputs = vector_of dec_TensorRef (es ! 3),
     mInTensorDescriptors = vector_of dec_TensorRef (es ! 4),
     mOutTensorDescriptors = vector_of dec_TensorRef (es ! 5),
     mProfilingOutputs = vector_of dec_TensorRef (es ! 6),
     mPreprocessingInfo = vector_of dec_PreprocessingInfo (es ! 7),
     mOVParameters = vector_of dec_OVNode (es ! 8),
     mOVResults = vector_of dec_OVNode (es ! 9)\<rparr>"

definition serialize_metadata :: "(nat \<Rightarrow> bool) \<Rightarrow> NetworkMetadata \<Rightarrow> bytes res" where
  "serialize_metadata fits metadata = serialize fits (SerialMetadata metadata)"

definition deserialize_metadata ::
    "(nat \<Rightarrow> bool) \<Rightarrow> u64 \<Rightarrow> bytes \<Rightarrow> u64 \<Rightarrow> NetworkMetadata res" where
  "deserialize_metadata fits address bs sz =
     (case deserialize fits address bs sz (SerialMetadata NetworkMetadata_new) of
        (Inl e, _) \<Rightarrow> Inl e
      | (Inr _, es) \<Rightarrow> Inr (metadata_of es))"

section \<open>Platform information\<close>

text \<open>\<^verbatim>\<open>ArchKind\<close> has the fixed underlying type \<^verbatim>\<open>uint64_t\<close>: every 64-bit value is one.\<close>

type_synonym ArchKind = u64

definition ArchKind_UNKNOWN :: ArchKind where
  "ArchKind_UNKNOWN = 0"

definition VPUX30XX :: ArchKind where
  "VPUX30XX = 1"

definition VPUX37XX :: ArchKind where
  "VPUX37XX = 3"

definition VPUX40XX :: ArchKind where
  "VPUX40XX = 4"

definition getKnownArchitectures :: "(string \<times> ArchKind) list" where
  "getKnownArchitectures =
     [(''UNKNOWN'', ArchKind_UNKNOWN), (''VPUX30XX'', VPUX30XX), (''VPUX37XX'', VPUX37XX),
      (''VPUX40XX'', VPUX40XX)]"

definition mapArchStringToArchKind :: "string \<Rightarrow> ArchKind" where
  "mapArchStringToArchKind archName =
     (case map_of getKnownArchitectures archName of Some k \<Rightarrow> k | None \<Rightarrow> ArchKind_UNKNOWN)"

text \<open>The map has no two names for one value, so its order does not matter here.\<close>

definition stringifyArchKind :: "ArchKind \<Rightarrow> string" where
  "stringifyArchKind arch =
     (case find (\<lambda>archIt. snd archIt = arch) getKnownArchitectures of
        Some archIt \<Rightarrow> fst archIt | None \<Rightarrow> ''UNKNOWN'')"

definition getHardwareTileCount :: "ArchKind \<Rightarrow> u8 res" where
  "getHardwareTileCount arch =
     (case map_of [(ArchKind_UNKNOWN, 0), (VPUX30XX, 2), (VPUX37XX, 2), (VPUX40XX, 6)] arch of
        Some n \<Rightarrow> Inr n | None \<Rightarrow> Inl UndefinedBehaviour)"

record PlatformInfo =
  mArchKind :: ArchKind

definition SerialPlatformInfo :: "PlatformInfo \<Rightarrow> element list" where
  "SerialPlatformInfo platformInfo = [SerialElement (zero_image 8) (le_bytes 8 (mArchKind platformInfo))]"

definition platformInfo_of :: "element list \<Rightarrow> PlatformInfo" where
  "platformInfo_of es = \<lparr>mArchKind = value_of le_word (es ! 0)\<rparr>"

definition serialize_platformInfo :: "(nat \<Rightarrow> bool) \<Rightarrow> PlatformInfo \<Rightarrow> bytes res" where
  "serialize_platformInfo fits platformInfo = serialize fits (SerialPlatformInfo platformInfo)"

definition deserialize_platformInfo ::
    "(nat \<Rightarrow> bool) \<Rightarrow> u64 \<Rightarrow> bytes \<Rightarrow> u64 \<Rightarrow> PlatformInfo res" where
  "deserialize_platformInfo fits address bs sz =
     (case deserialize fits address bs sz (SerialPlatformInfo \<lparr>mArchKind = 0\<rparr>) of
        (Inl e, _) \<Rightarrow> Inl e
      | (Inr _, es) \<Rightarrow> Inr (platformInfo_of es))"

end
