(* ===== verification/Elf_Metadata_Props.thy ===== *)
theory Elf_Metadata_Props imports Elf_Metadata begin

text \<open>
  The metadata and the platform information survive being written and read back, reading either is
  memory safe, and the tables of architectures agree with each other.
\<close>

section \<open>Structures as a whole\<close>

lemma serialize_result:
  assumes "es \<noteq> []" and "list_all wf_element es" and "chain_len es < 2 ^ 64" and "serialize fits es = Inr bs"
  shows "bs = chain 0 0 es" and "length bs = chain_len es"
proof -
  show "bs = chain 0 0 es"
    using serializeElements_result [OF assms(1-3), of fits] assms(4) by (simp split: if_splits)
  then show "length bs = chain_len es" using length_chain [OF assms(2)] by simp
qed

lemma item_bytes_le: "e \<in> set es \<Longrightarrow> isz e * cnt e \<le> chain_len es"
  using block_len_ge [of e] member_le_sum_list [of "block_len e" "map block_len es"]
  by (auto simp: chain_len_def)

lemma block_len_less: "block_len e < 40 + isz e * cnt e"
  using round_up_less [of 8 "32 + isz e * cnt e"] by (simp add: block_len_def)

lemma deserialize_same:
  assumes "es \<noteq> []" and "list_all wf_element es" and "chain_len es < 2 ^ 64"
    and "list_all2 same_type fs es" and "serialize fits es = Inr bs" and "\<forall>n \<le> length bs. fits n"
    and "a \<noteq> 0" and "unat a + length bs < 2 ^ 64"
  shows "deserialize fits a bs (of_nat (length bs)) fs = (Inr (), es)"
proof -
  note bs = serialize_result [OF assms(1-3,5)]
  have len: "length fs = length es" using assms(4) by (rule list_all2_lengthD)
  have "\<forall>e \<in> set es. fits (isz e * cnt e)" using item_bytes_le assms(6) bs(2) by simp
  moreover have "\<forall>i < min (length fs) (length es). same_type (fs ! i) (es ! i)"
    using assms(4) by (simp add: list_all2_conv_all_nth)
  ultimately show ?thesis
    using deserialize_serialized [OF assms(1,2) _ assms(7) _ _ assms(5)] assms(8) bs(2) len by simp
qed

section \<open>Metadata\<close>

text \<open>The members have the array lengths of their types, and the vectors a size that a machine can hold.\<close>

definition wf_NetworkMetadata :: "NetworkMetadata \<Rightarrow> bool" where
  "wf_NetworkMetadata m \<longleftrightarrow>
     wf_Identification (mIdentification m) \<and> wf_ResourceRequirements (mResourceRequirements m) \<and>
     list_all (list_all wf_TensorRef) [mNetInputs m, mNetOutputs m, mInTensorDescriptors m,
       mOutTensorDescriptors m, mProfilingOutputs m] \<and>
     list_all wf_PreprocessingInfo (mPreprocessingInfo m) \<and>
     list_all wf_OVNode (mOVParameters m) \<and> list_all wf_OVNode (mOVResults m) \<and>
     list_all (\<lambda>n. n < 2 ^ 48) [length (mNetInputs m), length (mNetOutputs m),
       length (mInTensorDescriptors m), length (mOutTensorDescriptors m), length (mProfilingOutputs m),
       length (mPreprocessingInfo m), length (mOVParameters m), length (mOVResults m)]"

context pod
begin

lemma dec_images: "list_all wf xs \<Longrightarrow> map (dec \<circ> enc) xs = xs"
  by (simp add: list_all_iff map_idI dec_enc)

end

lemma metadata_elements:
  assumes "wf_NetworkMetadata m"
  shows "list_all wf_element (SerialMetadata m)"
  using assms unfolding wf_NetworkMetadata_def SerialMetadata_def
  by (simp add: wf_element_def isz_def zero_image_def pod_identification.length_enc
      pod_resourcerequirements.length_enc list_all_iff pod_tensorref.length_enc
      pod_preprocessinginfo.length_enc pod_ovnode.length_enc)

lemma metadata_len:
  assumes "wf_NetworkMetadata m"
  shows "chain_len (SerialMetadata m) < 2 ^ 64"
proof -
  have vec: "block_len (SerialElementVector (zero_image k) (map enc xs)) < 40 + k * length xs"
    and one: "block_len (SerialElement (zero_image k) x) < 40 + k" for k x and enc :: "'x \<Rightarrow> bytes" and xs
    using block_len_less [of "SerialElementVector (zero_image k) (map enc xs)"]
      block_len_less [of "SerialElement (zero_image k) x"] by (simp_all add: isz_def cnt_def zero_image_def)
  show ?thesis
    using assms one [of 512 "enc_Identification (mIdentification m)"]
      one [of 12 "enc_ResourceRequirements (mResourceRequirements m)"]
      vec [of 384 enc_TensorRef "mNetInputs m"]
      vec [of 384 enc_TensorRef "mNetOutputs m"]
      vec [of 384 enc_TensorRef "mInTensorDescriptors m"]
      vec [of 384 enc_TensorRef "mOutTensorDescriptors m"]
      vec [of 384 enc_TensorRef "mProfilingOutputs m"]
      vec [of 268 enc_PreprocessingInfo "mPreprocessingInfo m"]
      vec [of 8784 enc_OVNode "mOVParameters m"]
      vec [of 8784 enc_OVNode "mOVResults m"]
    unfolding wf_NetworkMetadata_def SerialMetadata_def chain_len_def by simp
qed

lemma metadata_of_elements: "wf_NetworkMetadata m \<Longrightarrow> metadata_of (SerialMetadata m) = m"
  unfolding wf_NetworkMetadata_def SerialMetadata_def metadata_of_def
  by (simp add: pod_identification.dec_enc pod_resourcerequirements.dec_enc
      pod_tensorref.dec_images pod_preprocessinginfo.dec_images pod_ovnode.dec_images)

text \<open>
  C15. The metadata of a network reads back as it was written, whatever the arrays and the vectors
  hold, when the reader can allocate as much as the buffer is long.
\<close>

theorem metadata_roundtrip:
  assumes "wf_NetworkMetadata m" and "serialize_metadata fits m = Inr bs"
    and "\<forall>n \<le> length bs. fits n" and "a \<noteq> 0" and "unat a + length bs < 2 ^ 64"
  shows "deserialize_metadata fits a bs (of_nat (length bs)) = Inr m"
proof -
  have "list_all2 same_type (SerialMetadata NetworkMetadata_new) (SerialMetadata m)"
    by (simp add: SerialMetadata_def)
  moreover have "SerialMetadata m \<noteq> []" by (simp add: SerialMetadata_def)
  ultimately have "deserialize fits a bs (of_nat (length bs)) (SerialMetadata NetworkMetadata_new) =
      (Inr (), SerialMetadata m)"
    using deserialize_same [OF _ metadata_elements [OF assms(1)] metadata_len [OF assms(1)] _ _ assms(3-5)]
      assms(2) by (simp add: serialize_metadata_def)
  then show ?thesis by (simp add: deserialize_metadata_def metadata_of_elements [OF assms(1)])
qed

definition small_metadata :: NetworkMetadata where
  "small_metadata = NetworkMetadata_new\<lparr>mNetInputs := [dec_TensorRef (zero_image 384)]\<rparr>"

theorem metadata_roundtrip_witness:
  "\<exists>bs. serialize_metadata (\<lambda>_. True) small_metadata = Inr bs \<and>
     deserialize_metadata (\<lambda>_. True) 4096 bs (of_nat (length bs)) = Inr small_metadata"
proof -
  have wf: "wf_NetworkMetadata small_metadata"
    by (simp add: wf_NetworkMetadata_def small_metadata_def NetworkMetadata_new_def zero_image_def
        pod_identification.wf_dec pod_resourcerequirements.wf_dec pod_tensorref.wf_dec)
  have bs: "serialize_metadata (\<lambda>_. True) small_metadata = Inr (chain 0 0 (SerialMetadata small_metadata))"
    using serializeElements_result [OF _ metadata_elements [OF wf] metadata_len [OF wf], of "\<lambda>_. True"]
    by (simp add: serialize_metadata_def SerialMetadata_def)
  have "chain_len (SerialMetadata small_metadata) = 1232"
    by (simp add: SerialMetadata_def small_metadata_def NetworkMetadata_new_def chain_len_def block_len_def
        isz_def cnt_def zero_image_def round_up_def)
  then have "length (chain 0 0 (SerialMetadata small_metadata)) = 1232"
    using length_chain [OF metadata_elements [OF wf]] by simp
  then show ?thesis using metadata_roundtrip [OF wf bs, of 4096] bs by simp
qed

text \<open>
  C29. Reading metadata from any buffer that is as long as the caller says ends with metadata or with
  an exception: no access leaves the buffer.
\<close>

theorem metadata_memory_safe:
  assumes "length bs = unat sz" and "unat a + unat sz + 8784 \<le> 2 ^ 64"
  shows "deserialize_metadata fits a bs sz \<noteq> Inl UndefinedBehaviour"
proof -
  have "\<forall>f \<in> set (SerialMetadata NetworkMetadata_new). 0 < isz f \<and> unat a + unat sz + isz f \<le> 2 ^ 64"
    using assms(2) by (simp add: SerialMetadata_def isz_def zero_image_def)
  then show ?thesis
    using deserialize_safe [OF assms(1), of a "SerialMetadata NetworkMetadata_new" fits] assms(2)
    by (auto simp: deserialize_metadata_def split: prod.splits sum.splits)
qed

theorem metadata_memory_safe_witness:
  "deserialize_metadata (\<lambda>_. True) 4096 (replicate 40 255) 40 \<noteq> Inl UndefinedBehaviour"
  using metadata_memory_safe [of "replicate 40 255" 40 4096 "\<lambda>_. True"] by simp

section \<open>Platform information\<close>

lemma platform_elements: "list_all wf_element (SerialPlatformInfo p)" "chain_len (SerialPlatformInfo p) = 40"
  by (simp_all add: SerialPlatformInfo_def wf_element_def isz_def cnt_def zero_image_def chain_len_def
      block_len_def round_up_def)

text \<open>
  C30. The platform information reads back as it was written, also for an architecture that the
  library does not know.
\<close>

theorem platform_info_roundtrip:
  assumes "fits 40" and "fits 8" and "a \<noteq> 0" and "unat a + 40 < 2 ^ 64"
  shows "\<exists>bs. serialize_platformInfo fits p = Inr bs \<and> length bs = 40 \<and>
    deserialize_platformInfo fits a bs 40 = Inr p"
proof -
  have "serialize fits (SerialPlatformInfo p) = Inr (chain 0 0 (SerialPlatformInfo p))"
    using serializeElements_result [OF _ platform_elements(1), of p fits] assms(1) platform_elements(2) [of p]
    by (simp add: SerialPlatformInfo_def)
  moreover have "length (chain 0 0 (SerialPlatformInfo p)) = 40"
    using length_chain [OF platform_elements(1)] platform_elements(2) by simp
  moreover have "deserialize fits a (chain 0 0 (SerialPlatformInfo p)) 40 (SerialPlatformInfo \<lparr>mArchKind = 0\<rparr>) =
      (Inr (), SerialPlatformInfo p)"
    using deserialize_serialized [OF _ platform_elements(1) _ assms(3) _ _ calculation(1),
        of "SerialPlatformInfo \<lparr>mArchKind = 0\<rparr>"] assms platform_elements(2) [of p] calculation(2)
    by (simp add: SerialPlatformInfo_def isz_def cnt_def zero_image_def)
  ultimately show ?thesis
    by (simp add: serialize_platformInfo_def deserialize_platformInfo_def platformInfo_of_def
        SerialPlatformInfo_def)
qed

theorem platform_info_roundtrip_witness:
  "\<exists>bs. serialize_platformInfo (\<lambda>n. n \<le> 64) \<lparr>mArchKind = VPUX40XX\<rparr> = Inr bs \<and> length bs = 40 \<and>
    deserialize_platformInfo (\<lambda>n. n \<le> 64) 4096 bs 40 = Inr \<lparr>mArchKind = VPUX40XX\<rparr>"
  by (rule platform_info_roundtrip) simp_all

lemma platform_info_safe:
  assumes "length bs = unat sz" and "unat a + unat sz + 32 \<le> 2 ^ 64"
  shows "deserialize_platformInfo fits a bs sz \<noteq> Inl UndefinedBehaviour"
  using deserialize_safe [OF assms, of "SerialPlatformInfo \<lparr>mArchKind = 0\<rparr>" fits] assms(2)
  by (auto simp: deserialize_platformInfo_def SerialPlatformInfo_def isz_def zero_image_def
      split: prod.splits sum.splits)

definition known_arch :: "ArchKind \<Rightarrow> bool" where
  "known_arch k \<longleftrightarrow> k \<in> snd ` set getKnownArchitectures"

lemmas arch_defs = known_arch_def getKnownArchitectures_def ArchKind_UNKNOWN_def VPUX30XX_def
  VPUX37XX_def VPUX40XX_def


end
