(* ===== verification/Elf_Hpi_Arch.thy ===== *)
theory Elf_Hpi_Arch imports Elf_Loader Elf_Metadata begin

text \<open>
  \<^verbatim>\<open>hpi_common_interface.cpp\<close>, \<^verbatim>\<open>hpi_3720.cpp\<close>, \<^verbatim>\<open>hpi_4000.cpp\<close>: what is specific to an
  architecture. The headers of \<^verbatim>\<open>nn_public\<close> and of the power manager are in a git submodule: their
  constants, the layout of their structs and \<^verbatim>\<open>align_storage\<close> are the parameters in \<open>nn_api_37xx\<close>
  and \<open>nn_api_40xx\<close>. Floating-point numbers are the IEEE patterns of their single-precision values.
\<close>

section \<open>Parameters\<close>

record VpuPerformanceMetrics =
  freq_base :: u32
  freq_step :: u32
  bw_base :: u32
  bw_step :: u32
  scalability :: "u32 list list"
  ticks :: "u64 list list"

record VpuHostParsedInference =
  hpi_slice_length :: u32
  hpi_slice_count :: u8
  hpi_barriers :: u8
  performance_metrics :: VpuPerformanceMetrics
  mapped_address :: u64
  mapped_count :: u64

record nn_api =
  VPU_MAX_TILES :: u32
  sizeof_HostParsedInference :: u64
  sizeof_PerformanceMetrics :: nat
  VPU_SCALABILITY_NUM_OF_FREQ :: nat
  VPU_SCALABILITY_VALUES_PER_FREQ :: nat
  API_VER_MAJOR :: u32
  API_VER_MINOR :: u32
  API_VER_PATCH :: u32
  hpi_init :: VpuHostParsedInference
  hpi_image :: "VpuHostParsedInference \<Rightarrow> bytes"
  metrics_of :: "bytes \<Rightarrow> VpuPerformanceMetrics"

record nn_api_37xx = nn_api +
  METADATA0_STORAGE_ADDR :: u32
  METADATA1_STORAGE_ADDR :: u32
  Single_inv_storage :: u32
  Single_akr_storage :: u32
  Single_dma_storage :: u32
  Dual0_inv_storage :: u32
  Dual0_akr_storage :: u32
  Dual0_dma0_storage :: u32
  Dual1_dma1_storage :: u32
  VPU_WORKSPACE_ADDR_0 :: u32
  VPU_WORKSPACE_ADDR_1 :: u32
  VPU_WORKSPACE_SIZE_37XX :: u64
  VPU_INVARIANT_COUNT :: u64
  VPU_KERNEL_RANGE_COUNT :: u64
  VPU_DMA_TASK_COUNT :: u64
  sizeof_MappedInference :: u64

record nn_api_40xx = nn_api +
  align_storage :: "u64 \<Rightarrow> u64 \<Rightarrow> u64"
  alignof_DPUInvariant :: u64
  VPU_METADATA_STORAGE_ADDR :: u64
  VPU_WORKSPACE_ADDR :: u64
  VPU_WORKSPACE_SIZE_40XX :: u64

section \<open>Common parts\<close>

definition DEFAULT_ALIGN :: u64 where
  "DEFAULT_ALIGN = 64"

definition getSymbolSectionTypes_common :: "u32 list" where
  "getSymbolSectionTypes_common = []"

definition getEntryBufferSpecs_common :: "u64 \<Rightarrow> BufferSpecs" where
  "getEntryBufferSpecs_common numOfEntries = BufferSpecs_make 0 0 0"

definition FREQ_BASE :: u32 where "FREQ_BASE = 700"
definition FREQ_STEP :: u32 where "FREQ_STEP = 100"
definition BW_BASE :: u32 where "BW_BASE = 2000"
definition BW_STEP :: u32 where "BW_STEP = 100"

text \<open>0.0, 0.2, 0.4, 0.6 and 0.8; the rest of the array is zero.\<close>

definition byBWScales :: "nat \<Rightarrow> u32 list" where
  "byBWScales n = [0, 0x3E4CCCCD, 0x3ECCCCCD, 0x3F19999A, 0x3F4CCCCD] @ replicate (n - 5) 0"

definition byBWTicks :: "nat \<Rightarrow> u64 list" where
  "byBWTicks n = [10, 12, 14, 16, 18] @ replicate (n - 5) 0"

definition setDefaultPerformanceMetrics ::
    "'a nn_api_scheme \<Rightarrow> VpuPerformanceMetrics \<Rightarrow> VpuPerformanceMetrics" where
  "setDefaultPerformanceMetrics api metrics =
     (let n = VPU_SCALABILITY_VALUES_PER_FREQ api
      in \<lparr>freq_base = FREQ_BASE, freq_step = FREQ_STEP, bw_base = BW_BASE, bw_step = BW_STEP,
          scalability = map (\<lambda>i. bwrite 0 (byBWScales n) (scalability metrics ! i))
              [0..<VPU_SCALABILITY_NUM_OF_FREQ api] @
            drop (VPU_SCALABILITY_NUM_OF_FREQ api) (scalability metrics),
          ticks = map (\<lambda>i. bwrite 0 (byBWTicks n) (ticks metrics ! i))
              [0..<VPU_SCALABILITY_NUM_OF_FREQ api] @
            drop (VPU_SCALABILITY_NUM_OF_FREQ api) (ticks metrics)\<rparr>)"

definition getParsedInferenceBufferSpecs_of :: "'a nn_api_scheme \<Rightarrow> BufferSpecs" where
  "getParsedInferenceBufferSpecs_of api =
     BufferSpecs_make DEFAULT_ALIGN (alignUp (sizeof_HostParsedInference api) DEFAULT_ALIGN) SHF_EXECINSTR"

text \<open>The metrics of the new struct: copied from the file, or the default ones.\<close>

definition metricsFrom ::
    "'a nn_api_scheme \<Rightarrow> VpuPerformanceMetrics \<Rightarrow> ptr \<Rightarrow> (world, VpuPerformanceMetrics) prog" where
  "metricsFrom api metrics perf_metrics =
     (if perf_metrics \<noteq> Null
      then bindM (readM memory) (\<lambda>m.
           bindM (liftM (read_mem perf_metrics (sizeof_PerformanceMetrics api) m)) (\<lambda>bs.
           retM (metrics_of api bs)))
      else retM (setDefaultPerformanceMetrics api metrics))"

definition storeM :: "ptr \<Rightarrow> bytes \<Rightarrow> (world, unit) prog" where
  "storeM p bs w =
     (case write_mem p bs (memory w) of
        Inl e \<Rightarrow> (Inl e, w) | Inr m \<Rightarrow> (Inr (), w\<lparr>memory := m\<rparr>))"

definition writeHostParsedInference ::
    "'a nn_api_scheme \<Rightarrow> VpuHostParsedInference \<Rightarrow> DeviceBuffer \<Rightarrow> u64 list \<Rightarrow> ptr \<Rightarrow> (world, unit) prog" where
  "writeHostParsedInference api hpi devBuffer mapped_entry perf_metrics =
     bindM (metricsFrom api (performance_metrics hpi) perf_metrics) (\<lambda>metrics.
     throwM_when (mapped_entry = []) UndefinedBehaviour
     (storeM (cpu_addr devBuffer) (hpi_image api
        (hpi\<lparr>performance_metrics := metrics, mapped_address := hd mapped_entry,
          mapped_count := of_nat (length mapped_entry)\<rparr>))))"

definition global_object :: "u64 \<Rightarrow> u64 \<Rightarrow> Elf64_Sym" where
  "global_object value n = \<lparr>st_name = 0,
     st_info = ucast (elf64STInfo (ucast STB_GLOBAL) (ucast STT_OBJECT)), st_other = STV_DEFAULT,
     st_shndx = 0, st_value = value, st_size = n\<rparr>"

section \<open>3720\<close>

definition N_TABS :: "nn_api_37xx \<Rightarrow> u8" where
  "N_TABS api = ucast (VPU_MAX_TILES api + 1)"

definition SPECIAL_SYMTAB_SIZE :: nat where
  "SPECIAL_SYMTAB_SIZE = 8"

definition inv_addr :: "nn_api_37xx \<Rightarrow> u32 list" where
  "inv_addr api = [METADATA0_STORAGE_ADDR api + Single_inv_storage api,
     METADATA1_STORAGE_ADDR api + Single_inv_storage api,
     METADATA0_STORAGE_ADDR api + Dual0_inv_storage api]"

definition akr_addr :: "nn_api_37xx \<Rightarrow> u32 list" where
  "akr_addr api = [METADATA0_STORAGE_ADDR api + Single_akr_storage api,
     METADATA1_STORAGE_ADDR api + Single_akr_storage api,
     METADATA0_STORAGE_ADDR api + Dual0_akr_storage api]"

definition dma0_addr :: "nn_api_37xx \<Rightarrow> u32 list" where
  "dma0_addr api = [METADATA0_STORAGE_ADDR api + Single_dma_storage api,
     METADATA1_STORAGE_ADDR api + Single_dma_storage api,
     METADATA0_STORAGE_ADDR api + Dual0_dma0_storage api]"

definition dma1_addr :: "nn_api_37xx \<Rightarrow> u32 list" where
  "dma1_addr api = [METADATA0_STORAGE_ADDR api + Single_dma_storage api,
     METADATA1_STORAGE_ADDR api + Single_dma_storage api,
     METADATA1_STORAGE_ADDR api + Dual1_dma1_storage api]"

definition fifo_base :: "u32 list" where
  "fifo_base = [0, 1, 0]"

definition workspace_addr :: "nn_api_37xx \<Rightarrow> u32 list" where
  "workspace_addr api = [VPU_WORKSPACE_ADDR_0 api, VPU_WORKSPACE_ADDR_1 api, VPU_WORKSPACE_ADDR_0 api]"

definition put_symbol :: "u32 \<Rightarrow> u64 \<Rightarrow> u64 \<Rightarrow> Elf64_Sym list \<Rightarrow> Elf64_Sym list" where
  "put_symbol i value n tab = tab[unat i := global_object value n]"

definition symTab_3720 :: "nn_api_37xx \<Rightarrow> nat \<Rightarrow> Elf64_Sym list" where
  "symTab_3720 api j =
     put_symbol VPU_NNRD_SYM_HW_REGISTER 0 0
     (put_symbol VPU_NNRD_SYM_BARRIERS_START (ucast (fifo_base ! j * 32)) 0
     (put_symbol VPU_NNRD_SYM_FIFO_BASE (ucast (fifo_base ! j)) 0
     (put_symbol VPU_NNRD_SYM_RTM_DMA1 (ucast (dma1_addr api ! j)) (VPU_DMA_TASK_COUNT api)
     (put_symbol VPU_NNRD_SYM_RTM_DMA0 (ucast (dma0_addr api ! j)) (VPU_DMA_TASK_COUNT api)
     (put_symbol VPU_NNRD_SYM_RTM_ACT (ucast (akr_addr api ! j)) (VPU_KERNEL_RANGE_COUNT api)
     (put_symbol VPU_NNRD_SYM_RTM_IVAR (ucast (inv_addr api ! j)) (VPU_INVARIANT_COUNT api)
     (put_symbol VPU_NNRD_SYM_NNCXM_SLICE_BASE_ADDR (ucast (workspace_addr api ! j))
        (VPU_WORKSPACE_SIZE_37XX api)
     (replicate SPECIAL_SYMTAB_SIZE (global_object 0 0)))))))))"

text \<open>
  The tables are filled for every index below \<open>N_TABS\<close>, from arrays of three addresses; the index
  \<open>N_TABS\<close> passes the check and is read past the last table.
\<close>

definition getSymbolTable_3720 :: "nn_api_37xx \<Rightarrow> u8 \<Rightarrow> Elf64_Sym list res" where
  "getSymbolTable_3720 api index =
     throw_when (N_TABS api > 3) UndefinedBehaviour
     (throw_unless (index \<le> N_TABS api) ArgsError
     (throw_when (index = N_TABS api) UndefinedBehaviour
     (Inr (symTab_3720 api (unat index)))))"

definition getEntryBufferSpecs_3720 :: "nn_api_37xx \<Rightarrow> u64 \<Rightarrow> BufferSpecs" where
  "getEntryBufferSpecs_3720 api numOfEntries =
     BufferSpecs_make DEFAULT_ALIGN (numOfEntries * alignUp (sizeof_MappedInference api) DEFAULT_ALIGN)
       SHF_EXECINSTR"

definition setHostParsedInference_3720 ::
    "nn_api_37xx \<Rightarrow> DeviceBuffer \<Rightarrow> u64 list \<Rightarrow> ResourceRequirements \<Rightarrow> ptr \<Rightarrow> (world, unit) prog" where
  "setHostParsedInference_3720 api devBuffer mapped_entry resReq perf_metrics =
     writeHostParsedInference api
       ((hpi_init api)\<lparr>hpi_slice_count := nn_slice_count resReq, hpi_barriers := nn_barriers resReq\<rparr>)
       devBuffer mapped_entry perf_metrics"

definition getELFLibABIVersion_3720 :: version where
  "getELFLibABIVersion_3720 = Version 1 3 3 True"

definition getStaticMIVersion_of :: "'a nn_api_scheme \<Rightarrow> version" where
  "getStaticMIVersion_of api = Version (API_VER_MAJOR api) (API_VER_MINOR api) (API_VER_PATCH api) True"

section \<open>4000\<close>

record HostParsedInference_4000 =
  symTab_4000 :: "Elf64_Sym list"
  secTypeContainers :: "u32 list"
  archKind_4000 :: ArchKind

definition newHostParsedInference_4000 :: "nn_api_40xx \<Rightarrow> ArchKind \<Rightarrow> HostParsedInference_4000" where
  "newHostParsedInference_4000 api archKind =
     (let metadataStart = align_storage api (alignof_DPUInvariant api) (VPU_METADATA_STORAGE_ADDR api)
      in \<lparr>symTab_4000 = [global_object metadataStart 0,
            global_object (VPU_WORKSPACE_ADDR api) (VPU_WORKSPACE_SIZE_40XX api)],
          secTypeContainers = [VPU_SHT_CMX_METADATA, VPU_SHT_CMX_WORKSPACE],
          archKind_4000 = archKind\<rparr>)"

definition setHostParsedInference_4000 ::
    "nn_api_40xx \<Rightarrow> DeviceBuffer \<Rightarrow> u64 list \<Rightarrow> ResourceRequirements \<Rightarrow> ptr \<Rightarrow> (world, unit) prog" where
  "setHostParsedInference_4000 api devBuffer mapped_entry resReq perf_metrics =
     writeHostParsedInference api
       ((hpi_init api)\<lparr>hpi_slice_count := nn_slice_count resReq, hpi_barriers := nn_barriers resReq,
          hpi_slice_length := nn_slice_length resReq\<rparr>)
       devBuffer mapped_entry perf_metrics"

definition getELFLibABIVersion_4000 :: "HostParsedInference_4000 \<Rightarrow> version res" where
  "getELFLibABIVersion_4000 h =
     (if archKind_4000 h = VPUX40XX then Inr (Version 1 2 4 True) else Inl RangeError)"

section \<open>The interface\<close>

record npu_api =
  api37 :: nn_api_37xx
  api40 :: nn_api_40xx

datatype HostParsedInferenceCommon = HPI_3720 | HPI_4000 HostParsedInference_4000

text \<open>Both architectures are built in, as in the host build.\<close>

definition getArchSpecificHPI :: "npu_api \<Rightarrow> ArchKind \<Rightarrow> HostParsedInferenceCommon res" where
  "getArchSpecificHPI A archKind =
     (if archKind = VPUX37XX then Inr HPI_3720
      else if archKind = VPUX40XX then Inr (HPI_4000 (newHostParsedInference_4000 (api40 A) archKind))
      else Inl RangeError)"

primrec getSymbolTable :: "npu_api \<Rightarrow> u8 \<Rightarrow> HostParsedInferenceCommon \<Rightarrow> Elf64_Sym list res" where
  "getSymbolTable A index HPI_3720 = getSymbolTable_3720 (api37 A) index"
| "getSymbolTable A index (HPI_4000 h) = Inr (symTab_4000 h)"

primrec getSymbolSectionTypes :: "HostParsedInferenceCommon \<Rightarrow> u32 list" where
  "getSymbolSectionTypes HPI_3720 = getSymbolSectionTypes_common"
| "getSymbolSectionTypes (HPI_4000 h) = secTypeContainers h"

primrec getParsedInferenceBufferSpecs :: "npu_api \<Rightarrow> HostParsedInferenceCommon \<Rightarrow> BufferSpecs" where
  "getParsedInferenceBufferSpecs A HPI_3720 = getParsedInferenceBufferSpecs_of (api37 A)"
| "getParsedInferenceBufferSpecs A (HPI_4000 h) = getParsedInferenceBufferSpecs_of (api40 A)"

primrec getEntryBufferSpecs :: "npu_api \<Rightarrow> u64 \<Rightarrow> HostParsedInferenceCommon \<Rightarrow> BufferSpecs" where
  "getEntryBufferSpecs A n HPI_3720 = getEntryBufferSpecs_3720 (api37 A) n"
| "getEntryBufferSpecs A n (HPI_4000 h) = getEntryBufferSpecs_common n"

primrec setHostParsedInference ::
    "npu_api \<Rightarrow> HostParsedInferenceCommon \<Rightarrow> DeviceBuffer \<Rightarrow> u64 list \<Rightarrow> ResourceRequirements \<Rightarrow> ptr \<Rightarrow>
     (world, unit) prog" where
  "setHostParsedInference A HPI_3720 = setHostParsedInference_3720 (api37 A)"
| "setHostParsedInference A (HPI_4000 h) = setHostParsedInference_4000 (api40 A)"

primrec getELFLibABIVersion :: "HostParsedInferenceCommon \<Rightarrow> version res" where
  "getELFLibABIVersion HPI_3720 = Inr getELFLibABIVersion_3720"
| "getELFLibABIVersion (HPI_4000 h) = getELFLibABIVersion_4000 h"

primrec getStaticMIVersion :: "npu_api \<Rightarrow> HostParsedInferenceCommon \<Rightarrow> version" where
  "getStaticMIVersion A HPI_3720 = getStaticMIVersion_of (api37 A)"
| "getStaticMIVersion A (HPI_4000 h) = getStaticMIVersion_of (api40 A)"

primrec getArchTilesCount :: "npu_api \<Rightarrow> HostParsedInferenceCommon \<Rightarrow> u32" where
  "getArchTilesCount A HPI_3720 = VPU_MAX_TILES (api37 A)"
| "getArchTilesCount A (HPI_4000 h) = VPU_MAX_TILES (api40 A)"

end
