(* ===== verification/Elf_Hpi.thy ===== *)
theory Elf_Hpi imports Elf_Hpi_Arch "HOL-Library.While_Combinator" begin

text \<open>
  \<^verbatim>\<open>vpux_hpi.cpp\<close>: the host parsed inference, the object that a driver works with. It owns loaders;
  what the copies of a loader share is kept in a store, and a loader of an inference is its own state
  with the place of the shared part in the store, so that a copy of an inference goes on sharing it.
  The programs run on an inference, the store and the world. The access manager and the environment
  are the same for all of them.
\<close>

section \<open>State\<close>

record HPIConfigs =
  nnVersion :: version
  archKind :: ArchKind

definition HPIConfigs_default :: HPIConfigs where
  "HPIConfigs_default = \<lparr>nnVersion = version_default, archKind = ArchKind_UNKNOWN\<rparr>"

record HostParsedInference =
  bufferManager :: bool
  metadata :: "NetworkMetadata option"
  platformInfo :: "PlatformInfo option"
  perfMetrics :: "bref option"
  loaders :: "(VPUXLoader \<times> nat) list"
  parsedInference :: "bref option"
  hpiCfg :: HPIConfigs
  entries :: "bref option"

record hstate =
  hpi :: HostParsedInference
  shareds :: "LoaderShared list"
  hwld :: world

record henv =
  he_lenv :: lenv
  he_api :: npu_api
  he_fits :: "nat \<Rightarrow> bool"

definition in_hworld :: "(world, 'a) prog \<Rightarrow> (hstate, 'a) prog" where
  "in_hworld m = zoomM hwld (\<lambda>f h. h\<lparr>hwld := f (hwld h)\<rparr>) m"

definition on_hpi :: "(HostParsedInference \<Rightarrow> HostParsedInference) \<Rightarrow> (hstate, unit) prog" where
  "on_hpi f = modifyM (\<lambda>h. h\<lparr>hpi := f (hpi h)\<rparr>)"

text \<open>Running a program of the loader on one of the loaders; an index past the end is undefined.\<close>

definition on_loader :: "nat \<Rightarrow> (lstate, 'a) prog \<Rightarrow> (hstate, 'a) prog" where
  "on_loader i m h =
     (if i < length (loaders (hpi h)) \<and> snd (loaders (hpi h) ! i) < length (shareds h)
      then let l = fst (loaders (hpi h) ! i); r = snd (loaders (hpi h) ! i)
           in case m \<lparr>ldr = l, shd = shareds h ! r, wld = hwld h\<rparr> of
                (x, s) \<Rightarrow> (x, h\<lparr>hpi := (hpi h)\<lparr>loaders := (loaders (hpi h))[i := (ldr s, r)]\<rparr>,
                  shareds := (shareds h)[r := shd s], hwld := wld s\<rparr>)
      else (Inl UndefinedBehaviour, h))"

definition guardedH :: "henv \<Rightarrow> bref option \<Rightarrow> (hstate, 'a) prog \<Rightarrow> (hstate, 'a) prog" where
  "guardedH H devBuff body =
     (case devBuff of
        None \<Rightarrow> body
      | Some r \<Rightarrow> bindM (in_hworld (lock (le_env (he_lenv H)) r)) (\<lambda>_.
          finallyM body (\<lambda>h. h\<lparr>hwld := unlock (le_env (he_lenv H)) r (hwld h)\<rparr>)))"

definition bufferOf :: "bref \<Rightarrow> (hstate, DeviceBuffer) prog" where
  "bufferOf r = readM (\<lambda>h. getBuffer r (hwld h))"

text \<open>Dereferencing a \<^verbatim>\<open>shared_ptr\<close> member.\<close>

definition the_member :: "(HostParsedInference \<Rightarrow> 'a option) \<Rightarrow> (hstate, 'a) prog" where
  "the_member f = bindM (readM (\<lambda>h. f (hpi h))) (\<lambda>x.
     case x of None \<Rightarrow> throwM UndefinedBehaviour | Some y \<Rightarrow> retM y)"

definition sectionsOfType :: "henv \<Rightarrow> u32 \<Rightarrow> (hstate, bref option list) prog" where
  "sectionsOfType H type = on_loader 0 (getSectionsOfType (he_lenv H) type)"

section \<open>Reading the sections\<close>

definition readPerfMetrics :: "henv \<Rightarrow> (hstate, bref option) prog" where
  "readPerfMetrics H =
     bindM (sectionsOfType H VPU_SHT_PERF_METRICS) (\<lambda>sections.
     throwM_when (length sections > 1) RangeError
     (retM (if length sections = 1 then sections ! 0 else None)))"

text \<open>The memory from a pointer on.\<close>

primrec bytes_from :: "mem \<Rightarrow> ptr \<Rightarrow> bytes" where
  "bytes_from m Null = []"
| "bytes_from m (Ptr b off) = drop off (snd (m ! b))"

definition deserializeSection ::
    "henv \<Rightarrow> bref option \<Rightarrow> (u64 \<Rightarrow> bytes \<Rightarrow> u64 \<Rightarrow> 'a res) \<Rightarrow> (hstate, 'a) prog" where
  "deserializeSection H section parse =
     guardedH H section
       (bindM (in_hworld (deref section)) (\<lambda>b.
        bindM (bufferOf b) (\<lambda>db.
        bindM (readM (\<lambda>h. memory (hwld h))) (\<lambda>m.
        liftM (parse (ptr_value m (cpu_addr db)) (bytes_from m (cpu_addr db)) (buf_size db))))))"

definition readMetadata :: "henv \<Rightarrow> (hstate, unit) prog" where
  "readMetadata H =
     bindM (sectionsOfType H VPU_SHT_NETDESC) (\<lambda>sections.
     throwM_unless (length sections = 1) RangeError
     (bindM (deserializeSection H (sections ! 0) (deserialize_metadata (he_fits H))) (\<lambda>m.
      on_hpi (metadata_update (\<lambda>_. Some m)))))"

definition readPlatformInfo :: "henv \<Rightarrow> (hstate, unit) prog" where
  "readPlatformInfo H =
     bindM (sectionsOfType H VPU_SHT_PLATFORM_INFO) (\<lambda>sections.
     throwM_unless (length sections = 1) RangeError
     (bindM (deserializeSection H (sections ! 0) (deserialize_platformInfo (he_fits H))) (\<lambda>p.
      on_hpi (platformInfo_update (\<lambda>_. Some p)))))"

primrec findVersion :: "henv \<Rightarrow> u32 \<Rightarrow> bref option list \<Rightarrow> (hstate, version) prog" where
  "findVersion H versionType [] = throwM RangeError"
| "findVersion H versionType (section # noteSections) =
     bindM (in_hworld (deref section)) (\<lambda>b.
     bindM (bufferOf b) (\<lambda>db.
     throwM_unless (buf_size db = 32) SectionError
     (bindM (guardedH H section
        (bindM (bufferOf b) (\<lambda>db.
         bindM (readM (\<lambda>h. memory (hwld h))) (\<lambda>m.
         bindM (liftM (read_mem (cpu_addr db) 32 m)) (\<lambda>bs.
         let note = dec_VersionNote bs
         in retM (if n_type note = versionType then Some (version_of_note note) else None)))))) (\<lambda>found.
      case found of Some v \<Rightarrow> retM v | None \<Rightarrow> findVersion H versionType noteSections))))"

definition readVersioningInfo :: "henv \<Rightarrow> u32 \<Rightarrow> (hstate, version) prog" where
  "readVersioningInfo H versionType =
     bindM (sectionsOfType H SHT_NOTE) (findVersion H versionType)"

definition getElfABIVersion :: "henv \<Rightarrow> (hstate, version) prog" where
  "getElfABIVersion H = readVersioningInfo H NT_GNU_ABI_TAG"

definition getMIVersion :: "henv \<Rightarrow> (hstate, version) prog" where
  "getMIVersion H = readVersioningInfo H NT_NPU_MPI_VERSION"

text \<open>What the library itself supports, for the architecture of the configuration.\<close>

definition libraryHpi :: "henv \<Rightarrow> (hstate, HostParsedInferenceCommon) prog" where
  "libraryHpi H =
     bindM (readM (\<lambda>h. archKind (hpiCfg (hpi h)))) (\<lambda>k. liftM (getArchSpecificHPI (he_api H) k))"

definition getLibraryELFVersion :: "henv \<Rightarrow> (hstate, version) prog" where
  "getLibraryELFVersion H = bindM (libraryHpi H) (\<lambda>a. liftM (getELFLibABIVersion a))"

definition getLibraryMIVersion :: "henv \<Rightarrow> (hstate, version) prog" where
  "getLibraryMIVersion H = bindM (libraryHpi H) (\<lambda>a. retM (getStaticMIVersion (he_api H) a))"

definition getHPISize :: "henv \<Rightarrow> (hstate, u64) prog" where
  "getHPISize H =
     bindM (libraryHpi H) (\<lambda>a. retM (BufferSpecs.sz (getParsedInferenceBufferSpecs (he_api H) a)))"

text \<open>\<^verbatim>\<open>VersionsProvider\<close> answers the same questions without a file.\<close>

record VersionsProvider =
  impl :: HostParsedInferenceCommon

definition VersionsProvider_new :: "npu_api \<Rightarrow> ArchKind \<Rightarrow> VersionsProvider res" where
  "VersionsProvider_new A architecture =
     bindE (getArchSpecificHPI A architecture) (\<lambda>a. Inr \<lparr>impl = a\<rparr>)"

definition VersionsProvider_getLibraryELFVersion :: "VersionsProvider \<Rightarrow> version res" where
  "VersionsProvider_getLibraryELFVersion p = getELFLibABIVersion (impl p)"

definition VersionsProvider_getLibraryMIVersion :: "npu_api \<Rightarrow> VersionsProvider \<Rightarrow> version" where
  "VersionsProvider_getLibraryMIVersion A p = getStaticMIVersion A (impl p)"

section \<open>The constructor\<close>

text \<open>The number of tiles that the network asks for, against the hardware.\<close>

definition checkTileCount :: "henv \<Rightarrow> ArchKind \<Rightarrow> (hstate, unit) prog" where
  "checkTileCount H kind =
     bindM (the_member metadata) (\<lambda>m.
     let tileCount = nn_slice_count (mResourceRequirements m)
     in bindM (liftM (getHardwareTileCount kind)) (\<lambda>hardwareTileCount.
        throwM_when (tileCount > hardwareTileCount) ArgsError
        (if tileCount > hardwareTileCount div 2 \<and> kind \<noteq> VPUX30XX \<and> kind \<noteq> VPUX37XX
         then on_loader 0 (setInferencesMayBeRunInParallel False) else retM ())))"

definition checkInference :: "henv \<Rightarrow> HPIConfigs \<Rightarrow> (hstate, unit) prog" where
  "checkInference H hpiConfigs =
     bindM (liftM (getArchSpecificHPI (he_api H) (archKind hpiConfigs))) (\<lambda>_.
     bindM (getLibraryELFVersion H) (\<lambda>libraryVersion.
     bindM (getElfABIVersion H) (\<lambda>elfVersion.
     bindM (liftM (checkVersionCompatibility libraryVersion elfVersion)) (\<lambda>_.
     bindM (readMetadata H) (\<lambda>_.
     bindM (readPlatformInfo H) (\<lambda>_.
     bindM (the_member platformInfo) (\<lambda>p.
     throwM_when (mArchKind p \<noteq> archKind hpiConfigs) ArgsError
     (bindM (if \<not> checkValidity (nnVersion hpiConfigs) then getLibraryMIVersion H
             else retM (nnVersion hpiConfigs)) (\<lambda>nnExpectedVersion.
      bindM (getMIVersion H) (\<lambda>miVersion.
      bindM (liftM (checkVersionCompatibility nnExpectedVersion miVersion)) (\<lambda>_.
      checkTileCount H (mArchKind p))))))))))))"

definition newInference :: "bool \<Rightarrow> HPIConfigs \<Rightarrow> (VPUXLoader \<times> nat) list \<Rightarrow> HostParsedInference" where
  "newInference hasManager hpiConfigs ls = \<lparr>
     bufferManager = hasManager, metadata = None, platformInfo = None, perfMetrics = None,
     loaders = ls, parsedInference = None, hpiCfg = hpiConfigs, entries = None\<rparr>"

definition HostParsedInference_new ::
    "henv \<Rightarrow> bool \<Rightarrow> bool \<Rightarrow> bool \<Rightarrow> HPIConfigs \<Rightarrow> (LoaderShared list \<times> world, HostParsedInference) prog" where
  "HostParsedInference_new H hasManager override0 explicit0 hpiConfigs = (\<lambda>(store, w).
     (case VPUXLoader_new (he_lenv H) hasManager override0 explicit0 w of
        (Inl e, w') \<Rightarrow> (Inl e, (store, w'))
      | (Inr (l, sh), w') \<Rightarrow>
          (case checkInference H hpiConfigs
             \<lparr>hpi = newInference hasManager hpiConfigs [(l, length store)],
              shareds = store @ [sh], hwld = w'\<rparr> of
             (Inl e, h) \<Rightarrow> (Inl e, (shareds h, hwld h))
           | (Inr _, h) \<Rightarrow> (Inr (hpi h), (shareds h, hwld h)))))"

section \<open>Loading\<close>

text \<open>A copy of a loader, appended to the loaders.\<close>

definition pushCopy :: "henv \<Rightarrow> Elf64_Sym list option \<Rightarrow> VPUXLoader \<times> nat \<Rightarrow> (hstate, unit) prog" where
  "pushCopy H runtimeSymTabs other h =
     (if snd other < length (shareds h)
      then case VPUXLoader_copy (he_lenv H) runtimeSymTabs (fst other)
                  (shareds h ! snd other, hwld h) of
             (x, (sh, w)) \<Rightarrow>
               (let h' = h\<lparr>shareds := (shareds h)[snd other := sh], hwld := w\<rparr>
                in case x of
                     Inl e \<Rightarrow> (Inl e, h')
                   | Inr l \<Rightarrow> (Inr (), h'\<lparr>hpi := (hpi h')\<lparr>loaders := loaders (hpi h') @ [(l, snd other)]\<rparr>\<rparr>))
      else (Inl UndefinedBehaviour, h))"

definition frontLoader :: "HostParsedInference \<Rightarrow> (hstate, VPUXLoader \<times> nat) prog" where
  "frontLoader other =
     (case loaders other of [] \<Rightarrow> throwM UndefinedBehaviour | l # _ \<Rightarrow> retM l)"

text \<open>The entry of a loader, copied to its place in the buffer of entries; the result is its address.\<close>

definition copyEntry :: "henv \<Rightarrow> bref \<Rightarrow> u64 \<Rightarrow> nat \<Rightarrow> (hstate, u64) prog" where
  "copyEntry H entriesBuffer entrySize idx =
     bindM (on_loader idx (getEntry (he_lenv H))) (\<lambda>entryDeviceBuffer.
     guardedH H entryDeviceBuffer
       (bindM (in_hworld (deref entryDeviceBuffer)) (\<lambda>e.
        bindM (bufferOf entriesBuffer) (\<lambda>to.
        bindM (bufferOf e) (\<lambda>from.
        bindM (in_hworld (memcpyM (ptr_add (cpu_addr to) (idx * unat entrySize)) (cpu_addr from)
          (unat entrySize))) (\<lambda>_.
        retM (vpu_addr to + of_nat idx * entrySize)))))))"

text \<open>One loader: the only element of the vector is the address of its entry.\<close>

definition frontEntry :: "henv \<Rightarrow> (hstate, u64 list) prog" where
  "frontEntry H =
     bindM (on_loader 0 (getEntry (he_lenv H))) (\<lambda>entry.
     bindM (in_hworld (deref entry)) (\<lambda>e.
     bindM (bufferOf e) (\<lambda>db. retM [vpu_addr db])))"

text \<open>A buffer for \<open>n\<close> entries, locked while \<open>each\<close> fills it; dividing by no entries is undefined.\<close>

definition withEntries ::
    "henv \<Rightarrow> HostParsedInferenceCommon \<Rightarrow> u64 \<Rightarrow> (bref \<Rightarrow> u64 \<Rightarrow> (hstate, u64 list) prog) \<Rightarrow>
     (hstate, u64 list) prog" where
  "withEntries H a n each =
     bindM (readM (\<lambda>h. bufferManager (hpi h))) (\<lambda>hasManager.
     bindM (in_hworld (newAllocatedDeviceBuffer (le_env (he_lenv H)) hasManager
       (getEntryBufferSpecs (he_api H) n a))) (\<lambda>e.
     bindM (on_hpi (entries_update (\<lambda>_. Some e))) (\<lambda>_.
     guardedH H (Some e)
       (throwM_when (n = 0) UndefinedBehaviour
        (bindM (readM (\<lambda>h. getBufferSpecs e (hwld h))) (\<lambda>specs. each e (BufferSpecs.sz specs div n)))))))"

text \<open>One entry per tile, instead of one for all.\<close>

definition manyEntries :: "npu_api \<Rightarrow> HostParsedInferenceCommon \<Rightarrow> PlatformInfo \<Rightarrow> NetworkMetadata \<Rightarrow> bool" where
  "manyEntries A a p m \<longleftrightarrow>
     mArchKind p = VPUX37XX \<and> ucast (nn_slice_count (mResourceRequirements m)) < getArchTilesCount A a"

definition finishInference ::
    "henv \<Rightarrow> HostParsedInferenceCommon \<Rightarrow> (hstate, unit) prog \<Rightarrow> u64 list \<Rightarrow> (hstate, unit) prog" where
  "finishInference H a readMetrics entriesVct =
     bindM (readM (\<lambda>h. bufferManager (hpi h))) (\<lambda>hasManager.
     bindM (in_hworld (newAllocatedDeviceBuffer (le_env (he_lenv H)) hasManager
       (getParsedInferenceBufferSpecs (he_api H) a))) (\<lambda>r.
     bindM (on_hpi (parsedInference_update (\<lambda>_. Some r))) (\<lambda>_.
     guardedH H (Some r)
       (bindM (bufferOf r) (\<lambda>parsedInferenceBuffer.
        bindM readMetrics (\<lambda>_.
        bindM (readM (\<lambda>h. perfMetrics (hpi h))) (\<lambda>pm.
        guardedH H pm
          (bindM (case pm of None \<Rightarrow> retM Null | Some b \<Rightarrow> bindM (bufferOf b) (\<lambda>db. retM (cpu_addr db)))
            (\<lambda>perfMetricsPtr.
           bindM (the_member metadata) (\<lambda>m.
           in_hworld (setHostParsedInference (he_api H) a parsedInferenceBuffer entriesVct
             (mResourceRequirements m) perfMetricsPtr)))))))))))"

definition loadTile :: "henv \<Rightarrow> HostParsedInferenceCommon \<Rightarrow> bref \<Rightarrow> u64 \<Rightarrow> nat \<Rightarrow> (hstate, u64) prog" where
  "loadTile H a entriesBuffer entrySize idx =
     bindM (liftM (getSymbolTable (he_api H) (of_nat idx) a)) (\<lambda>symbolTable.
     bindM (if idx = 0
            then on_loader 0 (load (he_lenv H) symbolTable (getSymbolSectionTypes a \<noteq> [])
                   (getSymbolSectionTypes a))
            else bindM (readM hpi) (\<lambda>this.
                 bindM (frontLoader this) (pushCopy H (Some symbolTable)))) (\<lambda>_.
     copyEntry H entriesBuffer entrySize idx))"

text \<open>
  The loop over the tiles: its counter has 8 bits, the bound 32. The indexes that it goes through, or
  \<open>None\<close> if it never ends.
\<close>

definition tileIndexes :: "u32 \<Rightarrow> u8 list option" where
  "tileIndexes tiles = map_option snd
     (while_option (\<lambda>(idx, is). ucast idx < tiles) (\<lambda>(idx, is). (idx + 1, is @ [idx])) (0, []))"

definition loadInference :: "henv \<Rightarrow> (hstate, unit) prog" where
  "loadInference H =
     bindM (the_member platformInfo) (\<lambda>p.
     bindM (liftM (getArchSpecificHPI (he_api H) (mArchKind p))) (\<lambda>a.
     bindM (the_member metadata) (\<lambda>m.
     let tiles = getArchTilesCount (he_api H) a
     in bindM (if manyEntries (he_api H) a p m
               then (case tileIndexes tiles of
                       None \<Rightarrow> throwM UndefinedBehaviour
                     | Some indexes \<Rightarrow> withEntries H a (ucast tiles) (\<lambda>e entrySize.
                         mapM (\<lambda>idx. loadTile H a e entrySize (unat idx)) indexes))
               else bindM (liftM (getSymbolTable (he_api H) (nn_slice_count (mResourceRequirements m)) a))
                 (\<lambda>symbolTable.
                 bindM (on_loader 0 (load (he_lenv H) symbolTable (getSymbolSectionTypes a \<noteq> [])
                   (getSymbolSectionTypes a))) (\<lambda>_.
                 frontEntry H))) (\<lambda>entriesVct.
        finishInference H a
          (bindM (readPerfMetrics H) (\<lambda>pm. on_hpi (perfMetrics_update (\<lambda>_. pm)))) entriesVct))))"

section \<open>Copying, assigning and moving\<close>

text \<open>
  What the copy constructor and the assignment have in common: the loaders of the other inference are
  copied to the end of the own loaders, and a new parsed inference is made for the first of them.
\<close>

definition cloneInference :: "henv \<Rightarrow> HostParsedInference \<Rightarrow> (hstate, unit) prog" where
  "cloneInference H other =
     bindM (the_member platformInfo) (\<lambda>p.
     bindM (liftM (getArchSpecificHPI (he_api H) (mArchKind p))) (\<lambda>a.
     bindM (the_member metadata) (\<lambda>m.
     bindM (if manyEntries (he_api H) a p m
            then withEntries H a (of_nat (length (loaders other))) (\<lambda>e entrySize.
              mapM (\<lambda>idx. bindM (pushCopy H None (loaders other ! idx)) (\<lambda>_. copyEntry H e entrySize idx))
                [0..<length (loaders other)])
            else bindM (bindM (frontLoader other) (pushCopy H None)) (\<lambda>_. frontEntry H)) (\<lambda>entriesVct.
     finishInference H a (retM ()) entriesVct))))"

definition HostParsedInference_copy ::
    "henv \<Rightarrow> HostParsedInference \<Rightarrow> (LoaderShared list \<times> world, HostParsedInference) prog" where
  "HostParsedInference_copy H other = (\<lambda>(store, w).
     (case cloneInference H other
        \<lparr>hpi = (newInference (bufferManager other) HPIConfigs_default [])
           \<lparr>metadata := metadata other, platformInfo := platformInfo other, perfMetrics := perfMetrics other\<rparr>,
         shareds = store, hwld = w\<rparr> of
        (Inl e, h) \<Rightarrow> (Inl e, (shareds h, hwld h))
      | (Inr _, h) \<Rightarrow> (Inr (hpi h), (shareds h, hwld h))))"

text \<open>Assignment, for two different inferences; assigning one to itself does nothing.\<close>

definition HostParsedInference_assign :: "henv \<Rightarrow> HostParsedInference \<Rightarrow> (hstate, unit) prog" where
  "HostParsedInference_assign H rhs =
     bindM (on_hpi (\<lambda>this. this\<lparr>bufferManager := bufferManager rhs, metadata := metadata rhs,
       platformInfo := platformInfo rhs, perfMetrics := perfMetrics rhs\<rparr>)) (\<lambda>_.
     cloneInference H rhs)"

text \<open>The new object, and what is left of the other one.\<close>

definition HostParsedInference_move ::
    "HostParsedInference \<Rightarrow> HostParsedInference \<times> HostParsedInference" where
  "HostParsedInference_move other =
     (other\<lparr>hpiCfg := HPIConfigs_default\<rparr>, other\<lparr>loaders := []\<rparr>)"

definition HostParsedInference_move_assign ::
    "HostParsedInference \<Rightarrow> HostParsedInference \<Rightarrow> HostParsedInference \<times> HostParsedInference" where
  "HostParsedInference_move_assign this rhs =
     (rhs\<lparr>hpiCfg := hpiCfg this\<rparr>, rhs\<lparr>loaders := []\<rparr>)"

section \<open>Accessors\<close>

definition getParsedInference :: "(hstate, DeviceBuffer) prog" where
  "getParsedInference = bindM (the_member parsedInference) bufferOf"

definition HPI_getAllocatedBuffers :: "henv \<Rightarrow> (hstate, DeviceBuffer list) prog" where
  "HPI_getAllocatedBuffers H =
     bindM (readM (\<lambda>h. length (loaders (hpi h)))) (\<lambda>n.
     bindM (mapM (\<lambda>i. on_loader i (getAllocatedBuffers (he_lenv H))) [0..<n]) (\<lambda>loaderAllocations.
     bindM (readM (\<lambda>h. entries (hpi h))) (\<lambda>e.
     bindM (case e of None \<Rightarrow> retM [] | Some r \<Rightarrow> bindM (bufferOf r) (\<lambda>db. retM [db])) (\<lambda>entryBuffers.
     bindM getParsedInference (\<lambda>db.
     retM (concat loaderAllocations @ entryBuffers @ [db]))))))"

definition HPI_getInputBuffers :: "(hstate, DeviceBuffer list) prog" where
  "HPI_getInputBuffers = on_loader 0 getInputBuffers"

definition HPI_getOutputBuffers :: "(hstate, DeviceBuffer list) prog" where
  "HPI_getOutputBuffers = on_loader 0 getOutputBuffers"

definition HPI_getProfBuffers :: "(hstate, DeviceBuffer list) prog" where
  "HPI_getProfBuffers = on_loader 0 getProfBuffers"

definition getMetadata :: "(hstate, NetworkMetadata option) prog" where
  "getMetadata = readM (\<lambda>h. metadata (hpi h))"

definition getPlatformInfo :: "(hstate, PlatformInfo option) prog" where
  "getPlatformInfo = readM (\<lambda>h. platformInfo (hpi h))"

definition applyInputOutput ::
    "henv \<Rightarrow> DeviceBuffer list \<Rightarrow> DeviceBuffer list \<Rightarrow> DeviceBuffer list \<Rightarrow> (hstate, unit) prog" where
  "applyInputOutput H inputs outputs profiling =
     bindM (readM (\<lambda>h. length (loaders (hpi h)))) (\<lambda>n.
     forM (\<lambda>i. on_loader i (applyJitRelocations (he_lenv H) inputs outputs profiling)) [0..<n])"

definition HPI_updateSharedScratchBuffers :: "henv \<Rightarrow> DeviceBuffer list \<Rightarrow> (hstate, unit) prog" where
  "HPI_updateSharedScratchBuffers H buffers = on_loader 0 (updateSharedScratchBuffers (he_lenv H) buffers)"

end
