(* ===== verification/Elf_Hpi_Props.thy ===== *)
theory Elf_Hpi_Props imports Elf_Hpi Elf_Loader_Copy Elf_Metadata_Props begin

text \<open>
  Properties of the host parsed inference. \<open>kept\<close> is the relation that every operation after the
  construction preserves: the members that identify the inference stay, and the loaders it has keep
  their places, with what they share.
\<close>

section \<open>The loop over the tiles\<close>

lemma tile_loop_from:
  "unat (tiles :: u32) \<le> 255 \<Longrightarrow> i \<le> unat tiles \<Longrightarrow>
    while_option (\<lambda>(idx, is). ucast idx < tiles) (\<lambda>(idx, is). (idx + 1, is @ [idx])) (of_nat i :: u8, is) =
    Some (of_nat (unat tiles), is @ map of_nat [i..<unat tiles])"
proof (induction "unat tiles - i" arbitrary: i "is")
  case 0
  have "i < 256" "i = unat tiles" using 0 by simp_all
  then have "\<not> ucast (of_nat i :: u8) < tiles"
    by (simp add: word_less_nat_alt unsigned_ucast_eq unsigned_of_nat take_bit_nat_eq_self del: of_nat_unat)
  then show ?case using 0 by (subst while_option_unfold) simp
next
  case (Suc k)
  have i: "i < 256" "i < unat tiles" using Suc by simp_all
  have c: "ucast (of_nat i :: u8) < tiles"
    using i by (simp add: word_less_nat_alt unsigned_ucast_eq unsigned_of_nat take_bit_nat_eq_self)
  have "while_option (\<lambda>(idx, is). ucast idx < tiles) (\<lambda>(idx, is). (idx + 1, is @ [idx])) (of_nat i :: u8, is) =
    while_option (\<lambda>(idx, is). ucast idx < tiles) (\<lambda>(idx, is). (idx + 1, is @ [idx])) (of_nat (Suc i) :: u8, is @ [of_nat i])"
    using c by (subst while_option_unfold) (simp add: add.commute)
  also have "\<dots> = Some (of_nat (unat tiles), is @ map of_nat [i..<unat tiles])"
    using Suc.hyps(1) [of "Suc i" "is @ [of_nat i]"] Suc.hyps(2) Suc.prems i by (simp add: upt_conv_Cons)
  finally show ?case .
qed

lemma tile_loop_forever:
  assumes "(tiles :: u32) > 255"
  shows "while_option (\<lambda>(idx :: u8, is). ucast idx < tiles) (\<lambda>(idx, is). (idx + 1, is @ [idx])) (0, []) = None"
proof (rule ccontr)
  assume "while_option (\<lambda>(idx :: u8, is). ucast idx < tiles) (\<lambda>(idx, is). (idx + 1, is @ [idx])) (0, []) \<noteq> None"
  then obtain st where "while_option (\<lambda>(idx :: u8, is). ucast idx < tiles) (\<lambda>(idx, is). (idx + 1, is @ [idx])) (0, []) = Some st"
    by auto
  then have "\<not> ucast (fst st) < tiles" by (auto dest: while_option_stop split: prod.splits)
  moreover have "unat (fst st) < 256" using unsigned_less [of "fst st"] by simp
  ultimately show False using assms
    by (simp add: word_less_nat_alt unsigned_ucast_eq unsigned_of_nat take_bit_nat_eq_self)
qed

lemma tileIndexes_eq:
  "tileIndexes tiles = (if tiles \<le> 255 then Some (map of_nat [0..<unat tiles]) else None)"
proof (cases "tiles \<le> 255")
  case True
  then have "unat tiles \<le> 255" by (simp add: word_le_nat_alt)
  then show ?thesis using tile_loop_from [of tiles 0 "[]"] True by (simp add: tileIndexes_def)
next
  case False
  then show ?thesis using tile_loop_forever [of tiles] by (simp add: tileIndexes_def)
qed

text \<open>The branch of loading that goes through the tiles.\<close>

lemma mapM_map: "mapM f (map g xs) = mapM (\<lambda>x. f (g x)) xs"
  by (induction xs) simp_all

lemma mapM_cong: "(\<And>x. x \<in> set xs \<Longrightarrow> f x = g x) \<Longrightarrow> mapM f xs = mapM g xs"
  by (induction xs) simp_all

lemma tile_branch:
  "(case tileIndexes tiles of
      None \<Rightarrow> throwM UndefinedBehaviour
    | Some indexes \<Rightarrow> withEntries H a (ucast tiles) (\<lambda>e n. mapM (\<lambda>idx. loadTile H a e n (unat idx)) indexes)) =
   throwM_when (tiles > 255) UndefinedBehaviour
     (withEntries H a (ucast tiles) (\<lambda>e n. mapM (loadTile H a e n) [0..<unat tiles]))"
proof (cases "tiles > 255")
  case False
  then have "unat tiles \<le> 255" by (simp add: word_less_nat_alt)
  then have "mapM (\<lambda>i. loadTile H a e n (unat (of_nat i :: u8))) [0..<unat tiles] =
      mapM (loadTile H a e n) [0..<unat tiles]" for e n
    by (intro mapM_cong) (simp add: unsigned_of_nat take_bit_nat_eq_self)
  then show ?thesis using False by (simp add: tileIndexes_eq mapM_map throwM_when_def not_le [symmetric])
qed (simp add: tileIndexes_eq linorder_not_le [THEN iffD2])

section \<open>What the loader's programs leave alone\<close>

lemma table_load: "relates table_kept (load L syms ov types)"
  unfolding load_def
  by (intro table.rel_rules table_prims table_loadSection table_updateSharedBuffers table_loadBuffers
      table_applyRelocations)

lemma calm_findEntry: "relates calm (findEntry p is)"
  by (induction "is") (auto intro!: calm.rel_rules calm_prims)

lemma calm_getEntry: "relates calm (getEntry L)"
proof -
  have "relates calm (getEntryFrom L is)" for "is"
  proof (induction "is")
    case (Cons i "is")
    then show ?case
      by (auto intro!: calm.rel_rules calm_prims calm_findEntry split: option.split)
  qed (simp add: calm.rel_raise)
  then show ?thesis unfolding getEntry_def by (intro calm.rel_rules calm_prims)
qed

lemma calm_getSectionsOfType: "relates calm (getSectionsOfType L type)"
  unfolding getSectionsOfType_def
  by (intro calm.rel_rules calm_prims) (auto split: option.split intro!: calm.rel_rules calm_prims)

lemma calm_reloadAndRelocate: "relates calm (reloadAndRelocate L)"
  unfolding reloadAndRelocate_def
  by (intro calm.rel_rules calm_reloadNewBuffers calm_applyRelocations)

lemma table_calm: "relates calm m \<Longrightarrow> relates table_kept m"
  by (auto simp: relates_def calm_def)

definition user_io :: "LoaderShared \<Rightarrow> DeviceBuffer list \<times> DeviceBuffer list \<times> DeviceBuffer list" where
  "user_io sh = (m_userInputsDescriptors sh, m_userOutputsDescriptors sh, m_profOutputsDescriptors sh)"

lemma table_user_io: "table_kept s x t \<Longrightarrow> user_io (shd t) = user_io (shd s)"
  by (simp add: table_kept_def user_io_def)

text \<open>A copy of a loader is loaded exactly if the original is.\<close>

lemma copy_cases:
  assumes "VPUXLoader_copy L syms other (sh, w) = (x, (sh', w'))"
  obtains (containers) e where "x = Inl e" and "sh' = sh"
    | (relocated) s z t where "calm s z t" and "shd s = sh" and "m_loaded (ldr s) = m_loaded other"
      and "sh' = shd t" and "\<And>l. x = Inr l \<Longrightarrow> l = ldr t"
proof -
  obtain y w1 where c: "bindM (DeviceBufferContainer_copy (le_env L) (le_ord L) (m_inferBufferContainer other)) (\<lambda>infer.
      bindM (DeviceBufferContainer_copy (le_env L) (le_ord L) (m_backupBufferContainer other))
        (\<lambda>backup. retM (infer, backup))) w = (y, w1)" by (metis surj_pair)
  show ?thesis
  proof (cases y)
    case (Inl e)
    then show ?thesis using containers assms c by (auto simp: VPUXLoader_copy_def)
  next
    case (Inr cs)
    obtain infer backup where cs: "cs = (infer, backup)" by (cases cs)
    let ?s = "\<lparr>ldr = other\<lparr>m_inferBufferContainer := infer, m_backupBufferContainer := backup,
      m_runtimeSymTabs := (case syms of None \<Rightarrow> m_runtimeSymTabs other | Some syms \<Rightarrow> syms)\<rparr>,
      shd = sh, wld = w1\<rparr>"
    obtain z t where r: "reloadAndRelocate L ?s = (z, t)" by (metis surj_pair)
    have k: "calm ?s (outcome z) t" using relatesD [OF calm_reloadAndRelocate r] .
    have "sh' = shd t" "x = Inr l \<Longrightarrow> l = ldr t" for l
      using assms c Inr cs r by (cases z; auto simp: VPUXLoader_copy_def)+
    with k show ?thesis using relocated [of ?s "outcome z" t] by simp
  qed
qed

lemma copy_spec:
  assumes "VPUXLoader_copy L syms other (sh, w) = (x, (sh', w'))"
  shows "user_io sh' = user_io sh" and "x = Inr l \<Longrightarrow> m_loaded l = m_loaded other"
proof -
  have "user_io sh' = user_io sh \<and> (x = Inr l \<longrightarrow> m_loaded l = m_loaded other)"
    using assms
  proof (rule copy_cases)
    fix s z t
    assume "calm s z t" "shd s = sh" "m_loaded (ldr s) = m_loaded other" "sh' = shd t" "\<And>l. x = Inr l \<Longrightarrow> l = ldr t"
    then show ?thesis using table_user_io [of s z t] by (auto simp: calm_def)
  qed auto
  then show "user_io sh' = user_io sh" "x = Inr l \<Longrightarrow> m_loaded l = m_loaded other" by blast+
qed

section \<open>What the operations leave alone\<close>

definition kept :: "hstate \<Rightarrow> elf_error option \<Rightarrow> hstate \<Rightarrow> bool" where
  "kept h x t \<longleftrightarrow>
     hpiCfg (hpi t) = hpiCfg (hpi h) \<and> metadata (hpi t) = metadata (hpi h) \<and>
     platformInfo (hpi t) = platformInfo (hpi h) \<and>
     map user_io (shareds t) = map user_io (shareds h) \<and>
     (\<exists>ext. map snd (loaders (hpi t)) = map snd (loaders (hpi h)) @ ext)"

interpretation kept: state_relation kept
  by unfold_locales (auto simp: kept_def)

lemma kept_in_hworld: "relates kept (in_hworld m)"
  by (auto simp: relates_def in_hworld_def zoomM_def kept_def split: prod.splits)

lemma map_update_same: "i < length xs \<Longrightarrow> f y = f (xs ! i) \<Longrightarrow> map f (xs[i := y]) = map f xs"
  by (metis list_update_id map_update)

lemma kept_on_loader:
  assumes "relates table_kept m"
  shows "relates kept (on_loader i m)"
proof (rule relatesI)
  fix h x t
  assume run: "on_loader i m h = (x, t)"
  let ?r = "snd (loaders (hpi h) ! i)"
  show "kept h (outcome x) t"
  proof (cases "i < length (loaders (hpi h)) \<and> ?r < length (shareds h)")
    case False
    then show ?thesis using run by (auto simp: on_loader_def kept_def)
  next
    case True
    let ?s = "\<lparr>ldr = fst (loaders (hpi h) ! i), shd = shareds h ! ?r, wld = hwld h\<rparr>"
    obtain s where s: "m ?s = (x, s)"
      and t: "t = h\<lparr>hpi := (hpi h)\<lparr>loaders := (loaders (hpi h))[i := (ldr s, ?r)]\<rparr>,
        shareds := (shareds h)[?r := shd s], hwld := wld s\<rparr>"
      using run True by (auto simp: on_loader_def Let_def split: prod.splits)
    have "user_io (shd s) = user_io (shareds h ! ?r)"
      using table_user_io [OF relatesD [OF assms s]] by simp
    then show ?thesis using True by (simp add: kept_def t map_update_same)
  qed
qed

lemma kept_guardedH:
  assumes "relates kept body"
  shows "relates kept (guardedH H b body)"
proof (cases b)
  case (Some r)
  have "relates kept (finallyM body (\<lambda>h. h\<lparr>hwld := unlock (le_env (he_lenv H)) r (hwld h)\<rparr>))"
    by (rule relatesI) (auto simp: finallyM_def kept_def split: prod.splits dest: relatesD [OF assms])
  then show ?thesis by (simp add: guardedH_def Some kept.rel_bind kept_in_hworld)
qed (simp add: guardedH_def assms)

lemma kept_on_hpi:
  assumes "\<And>i. hpiCfg (f i) = hpiCfg i \<and> metadata (f i) = metadata i \<and> platformInfo (f i) = platformInfo i \<and>
    loaders (f i) = loaders i"
  shows "relates kept (on_hpi f)"
  using assms by (auto simp: relates_def on_hpi_def modifyM_def kept_def)

lemma kept_pushCopy: "relates kept (pushCopy H syms other)"
proof (rule relatesI)
  fix h x t
  assume run: "pushCopy H syms other h = (x, t)"
  show "kept h (outcome x) t"
  proof (cases "snd other < length (shareds h)")
    case False
    then show ?thesis using run by (auto simp: pushCopy_def kept_def)
  next
    case True
    obtain y sh w where c: "VPUXLoader_copy (he_lenv H) syms (fst other) (shareds h ! snd other, hwld h) = (y, (sh, w))"
      by (metis surj_pair)
    have "user_io sh = user_io (shareds h ! snd other)" by (rule copy_spec(1) [OF c])
    then show ?thesis
      using run True c
      by (auto simp: pushCopy_def kept_def Let_def map_update_same split: sum.splits)
  qed
qed

lemma kept_member: "relates kept (the_member f)"
  unfolding the_member_def
  by (intro kept.rel_rules) (auto split: option.split intro!: kept.rel_rules)

lemma kept_frontLoader: "relates kept (frontLoader other)"
  by (auto simp: frontLoader_def split: list.split intro!: kept.rel_rules)

lemmas kept_prims = kept_in_hworld kept_guardedH kept_pushCopy kept_member kept_frontLoader
  kept_on_loader [OF table_calm [OF calm_getEntry]]
  kept_on_loader [OF table_calm [OF calm_getSectionsOfType]]
  kept_on_loader [OF table_load]

lemma kept_reads:
  "relates kept (bufferOf r)" "relates kept (sectionsOfType H type)" "relates kept (readPerfMetrics H)"
  unfolding bufferOf_def sectionsOfType_def readPerfMetrics_def
  by (intro kept.rel_rules kept_prims)+

lemma kept_entries:
  "relates kept (copyEntry H e n i)" "relates kept (frontEntry H)"
  "(\<And>e n. relates kept (each e n)) \<Longrightarrow> relates kept (withEntries H a k each)"
  "relates kept (loadTile H a e n i)"
  unfolding copyEntry_def frontEntry_def withEntries_def loadTile_def
  by (intro kept.rel_rules kept_prims kept_reads kept_on_hpi | simp)+

lemma kept_finishInference: "relates kept readMetrics \<Longrightarrow> relates kept (finishInference H a readMetrics vs)"
  unfolding finishInference_def
  by (intro kept.rel_rules kept_prims kept_reads kept_on_hpi conjI impI allI | simp split: option.split)+

lemma kept_loadInference: "relates kept (loadInference H)"
  unfolding loadInference_def Let_def tile_branch
  by (intro kept.rel_rules kept_prims kept_reads kept_entries kept_finishInference kept_on_hpi | simp)+

lemma kept_cloneInference: "relates kept (cloneInference H other)"
  unfolding cloneInference_def
  by (intro kept.rel_rules kept_prims kept_reads kept_entries kept_finishInference kept_on_hpi | simp)+

section \<open>Copies forget the configuration\<close>

text \<open>
  C17. The copy constructor does not copy the configuration: on every copy of an inference the
  queries about the library itself (its ELF version, its version of the mapped inference and the size
  of a parsed inference) throw a range error, because the architecture is that of a default
  configuration.
\<close>

theorem copies_forget_configuration:
  assumes "HostParsedInference_copy H other (store, w) = (Inr c, (store', w'))"
  shows "hpiCfg c = HPIConfigs_default \<and>
    (let h = \<lparr>hpi = c, shareds = store', hwld = w'\<rparr> in
       getLibraryELFVersion H h = (Inl RangeError, h) \<and>
       getLibraryMIVersion H h = (Inl RangeError, h) \<and> getHPISize H h = (Inl RangeError, h))"
proof -
  have cfg: "hpiCfg c = HPIConfigs_default"
    using assms relatesD [OF kept_cloneInference]
    by (fastforce simp: HostParsedInference_copy_def newInference_def kept_def split: prod.splits sum.splits)
  then show ?thesis
    by (simp add: getLibraryELFVersion_def getLibraryMIVersion_def getHPISize_def libraryHpi_def
        bindM_simps bindM_assoc getArchSpecificHPI_def HPIConfigs_default_def arch_defs Let_def)
qed

section \<open>Counting loaders\<close>

text \<open>\<open>quiet\<close>: the loaders themselves do not change.\<close>

definition quiet :: "hstate \<Rightarrow> elf_error option \<Rightarrow> hstate \<Rightarrow> bool" where
  "quiet h x t \<longleftrightarrow> loaders (hpi t) = loaders (hpi h)"

interpretation quiet: state_relation quiet
  by unfold_locales (auto simp: quiet_def)

lemma quiet_in_hworld: "relates quiet (in_hworld m)"
  by (auto simp: relates_def in_hworld_def zoomM_def quiet_def split: prod.splits)

lemma quiet_on_loader:
  assumes "relates calm m"
  shows "relates quiet (on_loader i m)"
proof (rule relatesI)
  fix h x t
  assume run: "on_loader i m h = (x, t)"
  then show "quiet h (outcome x) t"
    using relatesD [OF assms]
    by (fastforce simp: on_loader_def Let_def quiet_def calm_def split: prod.splits if_splits)
qed

lemma quiet_guardedH:
  assumes "relates quiet body"
  shows "relates quiet (guardedH H b body)"
proof (cases b)
  case (Some r)
  have "relates quiet (finallyM body (\<lambda>h. h\<lparr>hwld := unlock (le_env (he_lenv H)) r (hwld h)\<rparr>))"
    by (rule relatesI) (auto simp: finallyM_def quiet_def split: prod.splits dest: relatesD [OF assms])
  then show ?thesis by (simp add: guardedH_def Some quiet.rel_bind quiet_in_hworld)
qed (simp add: guardedH_def assms)

lemma quiet_on_hpi: "(\<And>i. loaders (f i) = loaders i) \<Longrightarrow> relates quiet (on_hpi f)"
  by (simp add: relates_def on_hpi_def modifyM_def quiet_def)

lemma quiet_member: "relates quiet (the_member f)"
  unfolding the_member_def
  by (intro quiet.rel_rules) (auto split: option.split intro!: quiet.rel_rules)

lemmas quiet_prims = quiet_in_hworld quiet_guardedH quiet_member
  quiet_on_loader [OF calm_getEntry] quiet_on_loader [OF calm_getSectionsOfType]

lemma quiet_reads:
  "relates quiet (bufferOf r)" "relates quiet (sectionsOfType H type)" "relates quiet (readPerfMetrics H)"
  "relates quiet (copyEntry H e n i)" "relates quiet (frontEntry H)"
  unfolding bufferOf_def sectionsOfType_def readPerfMetrics_def copyEntry_def frontEntry_def
  by (intro quiet.rel_rules quiet_prims)+

lemma quiet_finishInference: "relates quiet readMetrics \<Longrightarrow> relates quiet (finishInference H a readMetrics vs)"
  unfolding finishInference_def
  by (intro quiet.rel_rules quiet_prims quiet_reads quiet_on_hpi conjI impI allI | simp split: option.split)+

text \<open>A condition on the loaders, before and after.\<close>

abbreviation on_loaders :: "((VPUXLoader \<times> nat) list \<Rightarrow> bool) \<Rightarrow> hstate \<Rightarrow> bool" where
  "on_loaders P h \<equiv> P (loaders (hpi h))"

abbreviation hoare :: "(hstate \<Rightarrow> bool) \<Rightarrow> (hstate, 'a) prog \<Rightarrow> ('a \<Rightarrow> hstate \<Rightarrow> bool) \<Rightarrow> bool" where
  "hoare \<equiv> triple (\<lambda>_ _ _. True)"

lemma t_quiet: "relates quiet m \<Longrightarrow> hoare (on_loaders P) m (\<lambda>_. on_loaders P)"
  by (auto simp: triple_def quiet_def dest: relatesD)

lemma t_pushCopy:
  "hoare (on_loaders (\<lambda>ls. \<forall>l. m_loaded l = m_loaded (fst other) \<longrightarrow> P (ls @ [(l, snd other)])))
     (pushCopy H syms other) (\<lambda>_. on_loaders P)"
proof (rule tripleI)
  fix h x t
  assume pre: "on_loaders (\<lambda>ls. \<forall>l. m_loaded l = m_loaded (fst other) \<longrightarrow> P (ls @ [(l, snd other)])) h"
    and run: "pushCopy H syms other h = (x, t)"
  obtain y sh w where c: "VPUXLoader_copy (he_lenv H) syms (fst other) (shareds h ! snd other, hwld h) = (y, (sh, w))"
    by (metis surj_pair)
  show "True \<and> (\<forall>v. x = Inr v \<longrightarrow> on_loaders P t)"
    using run c pre copy_spec(2) [OF c]
    by (auto simp: pushCopy_def Let_def split: if_splits sum.splits)
qed

lemma t_guardedH: "hoare (on_loaders P) body (\<lambda>_. on_loaders Q) \<Longrightarrow> hoare (on_loaders P) (guardedH H b body) (\<lambda>_. on_loaders Q)"
proof (cases b)
  case (Some r)
  assume body: "hoare (on_loaders P) body (\<lambda>_. on_loaders Q)"
  have "hoare (on_loaders P) (finallyM body (\<lambda>h. h\<lparr>hwld := unlock (le_env (he_lenv H)) r (hwld h)\<rparr>)) (\<lambda>_. on_loaders Q)"
    using body by (auto simp: triple_def finallyM_def split: prod.splits)
  then show ?thesis
    unfolding guardedH_def Some option.case by (rule any.t_bind [OF t_quiet [OF quiet_in_hworld]])
qed (simp add: guardedH_def)

lemma t_withEntries:
  assumes "\<And>e n. k \<noteq> 0 \<Longrightarrow> hoare (on_loaders P) (each e n) (\<lambda>_. on_loaders Q)"
  shows "hoare (on_loaders P) (withEntries H a k each) (\<lambda>_. on_loaders Q)"
  unfolding withEntries_def
  by (rule any.t_bind [OF t_quiet [OF quiet.rel_read]],
      rule any.t_bind [OF t_quiet [OF quiet_in_hworld]],
      rule any.t_bind [OF t_quiet [OF quiet_on_hpi]], simp,
      rule t_guardedH, rule any.t_when, rule any.t_bind [OF t_quiet [OF quiet.rel_read]],
      rule assms, simp)

section \<open>Assigning an inference\<close>

abbreviation loader_count :: "nat \<Rightarrow> hstate \<Rightarrow> bool" where
  "loader_count k h \<equiv> length (loaders (hpi h)) = k"

lemma t_push_one: "hoare (loader_count k) (pushCopy H syms other) (\<lambda>_. loader_count (Suc k))"
  by (rule triple_pre [OF t_pushCopy [where P = "\<lambda>ls. length ls = Suc k"]]) simp

lemma t_quiet_count: "relates quiet m \<Longrightarrow> hoare (loader_count k) m (\<lambda>_. loader_count k)"
  by (rule t_quiet [where P = "\<lambda>ls. length ls = k"])

lemma t_copies:
  "hoare (loader_count k)
     (mapM (\<lambda>idx. bindM (pushCopy H None (ls ! idx)) (\<lambda>_. copyEntry H e n idx)) [0..<m])
     (\<lambda>_. loader_count (k + m))"
proof -
  have "hoare (loader_count (k + i)) (bindM (pushCopy H None (ls ! i)) (\<lambda>_. copyEntry H e n i))
      (\<lambda>_. loader_count (k + Suc i))" for i
    unfolding add_Suc_right by (rule any.t_bind [OF t_push_one t_quiet_count [OF quiet_reads(4)]])
  from any.t_mapM_upto [where P = "\<lambda>i. loader_count (k + i)" and n = m, OF this] show ?thesis by simp
qed

lemma t_front_copy:
  "hoare (loader_count k) (bindM (bindM (frontLoader other) (pushCopy H None)) (\<lambda>_. frontEntry H))
     (\<lambda>_. loader_count (Suc k))"
proof -
  have "relates quiet (frontLoader other)"
    by (auto simp: frontLoader_def split: list.split intro!: quiet.rel_rules)
  then have "hoare (loader_count k) (bindM (frontLoader other) (pushCopy H None)) (\<lambda>_. loader_count (Suc k))"
    by (rule any.t_bind [OF t_quiet_count t_push_one])
  then show ?thesis by (rule any.t_bind [OF _ t_quiet_count [OF quiet_reads(5)]])
qed

text \<open>The loaders that a copy of \<open>other\<close> adds.\<close>

definition added_loaders :: "henv \<Rightarrow> HostParsedInference \<Rightarrow> PlatformInfo \<Rightarrow> NetworkMetadata \<Rightarrow> nat" where
  "added_loaders H other p m =
     (if mArchKind p = VPUX37XX \<and> ucast (nn_slice_count (mResourceRequirements m)) < VPU_MAX_TILES (api37 (he_api H))
      then length (loaders other) else 1)"

lemma manyEntries_arch:
  "getArchSpecificHPI A (mArchKind p) = Inr a \<Longrightarrow>
    manyEntries A a p m \<longleftrightarrow> mArchKind p = VPUX37XX \<and>
      ucast (nn_slice_count (mResourceRequirements m)) < VPU_MAX_TILES (api37 A)"
  by (auto simp: getArchSpecificHPI_def manyEntries_def split: if_splits)

lemma the_member_Inr: "the_member f h = (Inr x, t) \<longleftrightarrow> f (hpi h) = Some x \<and> t = h"
  by (auto simp: the_member_def bindM_readM throwM_def retM_def split: option.splits)

lemma clone_count:
  assumes "cloneInference H other h = (Inr (), t)"
  obtains p m where "platformInfo (hpi h) = Some p" and "metadata (hpi h) = Some m"
    and "length (loaders (hpi t)) = length (loaders (hpi h)) + added_loaders H other p m"
    and "0 < added_loaders H other p m"
proof -
  from assms obtain p a m vs h1 where p: "platformInfo (hpi h) = Some p"
    and a: "getArchSpecificHPI (he_api H) (mArchKind p) = Inr a" and m: "metadata (hpi h) = Some m"
    and es: "(if manyEntries (he_api H) a p m
            then withEntries H a (of_nat (length (loaders other))) (\<lambda>e entrySize.
              mapM (\<lambda>idx. bindM (pushCopy H None (loaders other ! idx)) (\<lambda>_. copyEntry H e entrySize idx))
                [0..<length (loaders other)])
            else bindM (bindM (frontLoader other) (pushCopy H None)) (\<lambda>_. frontEntry H)) h = (Inr vs, h1)"
    and fin: "finishInference H a (retM ()) vs h1 = (Inr (), t)"
    unfolding cloneInference_def by (auto simp: bindM_Inr_iff the_member_Inr liftM_def)
  let ?n = "length (loaders other)"
  let ?k = "length (loaders (hpi h))"
  have t: "loaders (hpi t) = loaders (hpi h1)"
    using relatesD [OF quiet_finishInference [OF quiet.rel_ret] fin] by (simp add: quiet_def)
  have "length (loaders (hpi h1)) = ?k + added_loaders H other p m \<and> 0 < added_loaders H other p m"
  proof (cases "manyEntries (he_api H) a p m")
    case True
    have "hoare (on_loaders (\<lambda>ls. length ls = ?k))
        (withEntries H a (of_nat ?n) (\<lambda>e entrySize.
          mapM (\<lambda>idx. bindM (pushCopy H None (loaders other ! idx)) (\<lambda>_. copyEntry H e entrySize idx)) [0..<?n]))
        (\<lambda>_. on_loaders (\<lambda>ls. length ls = ?k + ?n \<and> 0 < ?n))"
    proof (rule t_withEntries)
      fix e s
      assume "(of_nat ?n :: u64) \<noteq> 0"
      then have "0 < ?n" by (cases "loaders other") simp_all
      then show "hoare (on_loaders (\<lambda>ls. length ls = ?k))
        (mapM (\<lambda>idx. bindM (pushCopy H None (loaders other ! idx)) (\<lambda>_. copyEntry H e s idx)) [0..<?n])
        (\<lambda>_. on_loaders (\<lambda>ls. length ls = ?k + ?n \<and> 0 < ?n))" using t_copies by simp
    qed
    from triple_post [OF this _ es [unfolded if_P [OF True]]] show ?thesis
      using True manyEntries_arch [OF a, of m] by (simp add: added_loaders_def)
  next
    case False
    from triple_post [OF t_front_copy _ es [unfolded if_not_P [OF False]]] show ?thesis
      using False manyEntries_arch [OF a, of m] by (auto simp: added_loaders_def)
  qed
  then show ?thesis using that [OF p m] t by simp
qed

lemma front_inputs:
  assumes "loaders (hpi h) = (l, r) # ls" and "r < length (shareds h)"
  shows "fst (HPI_getInputBuffers h) = Inr (m_userInputsDescriptors (shareds h ! r))"
  using assms by (simp add: HPI_getInputBuffers_def on_loader_def getInputBuffers_def readM_def Let_def)

text \<open>
  C14. Assigning an inference does not replace it. The loaders of the right-hand side are appended to
  the loaders that are there, which keep their places and what they share. All questions that go to
  the first loader are still answered for the old network, as here for the input buffers, while the
  metadata is the new one.
\<close>

theorem assignment_keeps_old_loaders:
  assumes "HostParsedInference_assign H rhs h = (Inr (), t)"
    and "loaders (hpi h) = (l, r) # ls" and "r < length (shareds h)"
  shows "metadata (hpi t) = metadata rhs \<and> platformInfo (hpi t) = platformInfo rhs \<and>
    take (length (loaders (hpi h))) (map snd (loaders (hpi t))) = map snd (loaders (hpi h)) \<and>
    length (loaders (hpi h)) < length (loaders (hpi t)) \<and>
    fst (HPI_getInputBuffers t) = Inr (m_userInputsDescriptors (shareds h ! r))"
proof -
  let ?h = "h\<lparr>hpi := (hpi h)\<lparr>bufferManager := bufferManager rhs, metadata := metadata rhs,
    platformInfo := platformInfo rhs, perfMetrics := perfMetrics rhs\<rparr>\<rparr>"
  have run: "cloneInference H rhs ?h = (Inr (), t)"
    using assms(1) by (simp add: HostParsedInference_assign_def on_hpi_def bindM_modifyM)
  have k: "kept ?h None t" using relatesD [OF kept_cloneInference run] by simp
  then obtain ext where refs: "map snd (loaders (hpi t)) = r # map snd ls @ ext"
    using assms(2) by (auto simp: kept_def)
  then obtain l' ls' where t: "loaders (hpi t) = (l', r) # ls'" by (cases "loaders (hpi t)") auto
  have io: "map user_io (shareds t) = map user_io (shareds h)" using k by (simp add: kept_def)
  then have len: "length (shareds t) = length (shareds h)" by (metis length_map)
  have "user_io (shareds t ! r) = user_io (shareds h ! r)" using io len assms(3) by (metis nth_map)
  then have "fst (HPI_getInputBuffers t) = Inr (m_userInputsDescriptors (shareds h ! r))"
    using front_inputs [OF t] len assms(3) by (simp add: user_io_def)
  moreover have "length (loaders (hpi h)) < length (loaders (hpi t))"
    by (rule clone_count [OF run]) simp
  ultimately show ?thesis using k refs assms(2) by (simp add: kept_def)
qed

section \<open>Loading an inference\<close>

text \<open>The loaders after \<open>i\<close> tiles, when the inference starts with the one loader \<open>x\<close>.\<close>

definition tiles_done :: "VPUXLoader \<times> nat \<Rightarrow> nat \<Rightarrow> (VPUXLoader \<times> nat) list \<Rightarrow> bool" where
  "tiles_done x i ls \<longleftrightarrow>
     (if i = 0 then ls = [x] else map snd ls = replicate i (snd x) \<and> (\<forall>y \<in> set ls. m_loaded (fst y)))"

lemma tiles_doneD:
  "tiles_done x n ls \<Longrightarrow> 0 < n \<Longrightarrow> map snd ls = replicate n (snd x) \<and> (\<forall>y \<in> set ls. m_loaded (fst y))"
  by (simp add: tiles_done_def)

lemma t_loadFront:
  "hoare (on_loaders (tiles_done x 0)) (on_loader 0 (load L syms ov types)) (\<lambda>_. on_loaders (tiles_done x (Suc 0)))"
proof (rule tripleI)
  fix h y t
  assume h: "on_loaders (tiles_done x 0) h" and run: "on_loader 0 (load L syms ov types) h = (y, t)"
  then show "True \<and> (\<forall>v. y = Inr v \<longrightarrow> on_loaders (tiles_done x (Suc 0)) t)"
    using load_flag [of L syms ov types]
    by (auto simp: on_loader_def tiles_done_def Let_def split: prod.splits if_splits)
qed

lemma t_loadTile:
  "hoare (on_loaders (tiles_done x i)) (loadTile H a e n i) (\<lambda>_. on_loaders (tiles_done x (Suc i)))"
proof -
  let ?syms = "getSymbolTable (he_api H) (of_nat i) a"
  have copy: "hoare (on_loaders (tiles_done x i)) (bindM (readM hpi) (\<lambda>this.
      bindM (frontLoader this) (pushCopy H (Some syms)))) (\<lambda>_. on_loaders (tiles_done x (Suc i)))"
    if "i \<noteq> 0" for syms
  proof (rule any.t_bind [OF any.t_read], rule any.t_bind)
    fix this
    show "hoare (\<lambda>h. this = hpi h \<and> on_loaders (tiles_done x i) h) (frontLoader this)
        (\<lambda>v. on_loaders (\<lambda>ls. snd v = snd x \<and> m_loaded (fst v) \<and> tiles_done x i ls))"
      using that by (auto simp: frontLoader_def triple_def retM_def throwM_def tiles_done_def split: list.split)
        (cases i; auto)+
    fix v
    show "hoare (on_loaders (\<lambda>ls. snd v = snd x \<and> m_loaded (fst v) \<and> tiles_done x i ls))
        (pushCopy H (Some syms) v) (\<lambda>_. on_loaders (tiles_done x (Suc i)))"
      by (rule triple_pre [OF t_pushCopy [where P = "tiles_done x (Suc i)"]])
        (use that in \<open>auto simp: tiles_done_def replicate_append_same\<close>)
  qed
  have "hoare (on_loaders (tiles_done x i)) (if i = 0
      then on_loader 0 (load (he_lenv H) syms (getSymbolSectionTypes a \<noteq> []) (getSymbolSectionTypes a))
      else bindM (readM hpi) (\<lambda>this. bindM (frontLoader this) (pushCopy H (Some syms))))
      (\<lambda>_. on_loaders (tiles_done x (Suc i)))" for syms
    using copy t_loadFront by (cases "i = 0") simp_all
  then show ?thesis
    unfolding loadTile_def
    by (intro any.t_bind [OF t_quiet [OF quiet.rel_lift]] any.t_bind [OF _ t_quiet [OF quiet_reads(4)]])
qed

lemma mapM_length: "mapM f xs s = (Inr ys, t) \<Longrightarrow> length ys = length xs"
proof (induction xs arbitrary: s ys t)
  case Nil
  then show ?case by (simp add: retM_def)
next
  case (Cons x xs)
  then obtain y s' zs u where "mapM f xs s' = (Inr zs, u)" "ys = y # zs"
    by (auto simp: bindM_Inr_iff retM_def)
  then show ?case using Cons.IH by simp
qed

lemma finallyM_Inr: "finallyM body u s = (Inr v, t) \<longleftrightarrow> (\<exists>t1. body s = (Inr v, t1) \<and> t = u t1)"
  by (cases "body s") (auto simp: finallyM_def)

lemma guardedH_Inr:
  assumes "guardedH H (Some r) body h = (Inr v, t)"
  obtains h1 t1 where "in_hworld (lock (le_env (he_lenv H)) r) h = (Inr (), h1)" and "body h1 = (Inr v, t1)"
    and "t = t1\<lparr>hwld := unlock (le_env (he_lenv H)) r (hwld t1)\<rparr>"
  using assms by (auto simp: guardedH_def bindM_Inr_iff finallyM_Inr)

lemma withEntries_Inr:
  assumes "withEntries H a k each h = (Inr vs, t)"
  obtains e n h1 t1 where "each e n h1 = (Inr vs, t1)"
proof -
  from assms obtain h0 e where "guardedH H (Some e) (throwM_when (k = 0) UndefinedBehaviour
      (bindM (readM (\<lambda>h. getBufferSpecs e (hwld h))) (\<lambda>specs. each e (BufferSpecs.sz specs div k)))) h0 = (Inr vs, t)"
    by (auto simp: withEntries_def bindM_Inr_iff)
  then show ?thesis using that by (rule guardedH_Inr) (auto simp: bindM_readM)
qed

text \<open>How many loaders, and entries, the loaded inference has.\<close>

definition tile_loaders :: "henv \<Rightarrow> PlatformInfo \<Rightarrow> NetworkMetadata \<Rightarrow> nat" where
  "tile_loaders H p m =
     (if mArchKind p = VPUX37XX \<and> ucast (nn_slice_count (mResourceRequirements m)) < VPU_MAX_TILES (api37 (he_api H))
      then unat (VPU_MAX_TILES (api37 (he_api H))) else 1)"

lemma load_parts:
  assumes run: "loadInference H h = (Inr (), t)" and x: "loaders (hpi h) = [x]"
  obtains p a m vs h1 where "platformInfo (hpi h) = Some p"
    and "getArchSpecificHPI (he_api H) (mArchKind p) = Inr a" and "metadata (hpi h) = Some m"
    and "tiles_done x (tile_loaders H p m) (loaders (hpi h1))" and "length vs = tile_loaders H p m"
    and "0 < tile_loaders H p m"
    and "finishInference H a (bindM (readPerfMetrics H) (\<lambda>pm. on_hpi (perfMetrics_update (\<lambda>_. pm)))) vs h1 = (Inr (), t)"
    and "kept h None h1"
proof -
  let ?load = "\<lambda>a syms. on_loader 0 (load (he_lenv H) syms (getSymbolSectionTypes a \<noteq> []) (getSymbolSectionTypes a))"
  let ?tiles = "\<lambda>a. getArchTilesCount (he_api H) a"
  let ?many = "\<lambda>a. throwM_when (?tiles a > 255) UndefinedBehaviour
    (withEntries H a (ucast (?tiles a)) (\<lambda>e n. mapM (loadTile H a e n) [0..<unat (?tiles a)]))"
  let ?one = "\<lambda>a m. bindM (liftM (getSymbolTable (he_api H) (nn_slice_count (mResourceRequirements m)) a))
    (\<lambda>syms. bindM (?load a syms) (\<lambda>_. frontEntry H))"
  from run obtain p a m vs h1 where p: "platformInfo (hpi h) = Some p"
    and a: "getArchSpecificHPI (he_api H) (mArchKind p) = Inr a" and m: "metadata (hpi h) = Some m"
    and es: "(if manyEntries (he_api H) a p m then ?many a else ?one a m) h = (Inr vs, h1)"
    and fin: "finishInference H a (bindM (readPerfMetrics H) (\<lambda>pm. on_hpi (perfMetrics_update (\<lambda>_. pm)))) vs h1 = (Inr (), t)"
    unfolding loadInference_def Let_def tile_branch by (auto simp: bindM_Inr_iff the_member_Inr liftM_def)
  have tiles: "mArchKind p = VPUX37XX \<Longrightarrow> ?tiles a = VPU_MAX_TILES (api37 (he_api H))"
    using a by (auto simp: getArchSpecificHPI_def)
  have start: "on_loaders (tiles_done x 0) h" by (simp add: tiles_done_def x)
  have k: "kept h None h1"
  proof -
    have "relates kept (if manyEntries (he_api H) a p m then ?many a else ?one a m)"
      by (intro kept.rel_rules kept_prims kept_entries)
    from relatesD [OF this es] show ?thesis by simp
  qed
  show ?thesis
  proof (cases "manyEntries (he_api H) a p m")
    case True
    then have n: "tile_loaders H p m = unat (?tiles a)" "mArchKind p = VPUX37XX"
      using manyEntries_arch [OF a, of m] tiles by (auto simp: tile_loaders_def)
    have pos: "0 < unat (?tiles a)" using True by (auto simp: manyEntries_def word_less_nat_alt)
    have es': "?many a h = (Inr vs, h1)" using es unfolding if_P [OF True] .
    have "hoare (on_loaders (tiles_done x 0)) (?many a) (\<lambda>_. on_loaders (tiles_done x (unat (?tiles a))))"
      by (intro any.t_when t_withEntries any.t_mapM_upto [where P = "\<lambda>i. on_loaders (tiles_done x i)"] t_loadTile)
    from triple_post [OF this start es'] have "tiles_done x (unat (?tiles a)) (loaders (hpi h1))" .
    moreover have "length vs = unat (?tiles a)"
    proof -
      have "withEntries H a (ucast (?tiles a)) (\<lambda>e n. mapM (loadTile H a e n) [0..<unat (?tiles a)]) h = (Inr vs, h1)"
        using es' by simp
      then show ?thesis by (rule withEntries_Inr) (auto dest: mapM_length)
    qed
    ultimately show ?thesis using that [OF p a m _ _ _ fin k] n pos by simp
  next
    case False
    then have n: "tile_loaders H p m = 1" using manyEntries_arch [OF a, of m] by (auto simp: tile_loaders_def)
    have es': "?one a m h = (Inr vs, h1)" using es unfolding if_not_P [OF False] .
    have "hoare (on_loaders (tiles_done x 0)) (?one a m) (\<lambda>_. on_loaders (tiles_done x (Suc 0)))"
      by (rule any.t_bind [OF t_quiet [OF quiet.rel_lift]], rule any.t_bind [OF t_loadFront t_quiet [OF quiet_reads(5)]])
    from triple_post [OF this start es'] have "tiles_done x (Suc 0) (loaders (hpi h1))" .
    moreover have "length vs = 1"
      using es' by (auto simp: bindM_Inr_iff frontEntry_def retM_def)
    ultimately show ?thesis using that [OF p a m _ _ _ fin k] n by simp
  qed
qed

section \<open>Memory\<close>

text \<open>
  \<open>hsteady N\<close>: blocks below \<open>N\<close> keep their bytes, buffer objects stay, and of what loaders share only
  the caches of the readers change.
\<close>

definition shared_kept :: "LoaderShared \<Rightarrow> LoaderShared \<Rightarrow> bool" where
  "shared_kept sh sh' \<longleftrightarrow>
     mSectionHeaders (m_reader sh') = mSectionHeaders (m_reader sh) \<and>
     m_relocationSectionIndexes sh' = m_relocationSectionIndexes sh \<and>
     m_jitRelocations sh' = m_jitRelocations sh \<and> (reader_ok (m_reader sh) \<longrightarrow> reader_ok (m_reader sh'))"

definition hsteady :: "nat \<Rightarrow> hstate \<Rightarrow> elf_error option \<Rightarrow> hstate \<Rightarrow> bool" where
  "hsteady N h x t \<longleftrightarrow> grows_from N (hwld h) x (hwld t) \<and> list_all2 shared_kept (shareds h) (shareds t)"

lemma copy_shared_kept:
  assumes "VPUXLoader_copy L syms other (sh, w) = (x, (sh', w'))"
  shows "shared_kept sh sh'"
  using assms
proof (rule copy_cases)
  assume "sh' = sh"
  then show ?thesis by (simp add: shared_kept_def)
next
  fix s z t
  assume "calm s z t" and "shd s = sh" and "sh' = shd t"
  then show ?thesis by (auto simp: shared_kept_def calm_def table_kept_def)
qed

lemma shared_kept_refl: "list_all2 shared_kept xs xs"
  by (simp add: list_all2_refl shared_kept_def)

lemma shared_kept_trans: "list_all2 shared_kept xs ys \<Longrightarrow> list_all2 shared_kept ys zs \<Longrightarrow> list_all2 shared_kept xs zs"
  by (rule list_all2_trans [of shared_kept shared_kept shared_kept]) (auto simp: shared_kept_def)

interpretation hsteady: state_relation "hsteady N"
  by unfold_locales
    (auto simp: hsteady_def shared_kept_refl intro: grows.R_refl grows.R_err grows.R_trans shared_kept_trans)

lemma hsteady_in_hworld: "relates (grows_from N) m \<Longrightarrow> relates (hsteady N) (in_hworld m)"
proof (rule relatesI)
  fix h x t
  assume m: "relates (grows_from N) m" and "in_hworld m h = (x, t)"
  then have "m (hwld h) = (x, hwld t)" "shareds t = shareds h"
    by (auto simp: in_hworld_def zoomM_def split: prod.splits)
  then show "hsteady N h (outcome x) t"
    using relatesD [OF m] by (simp add: hsteady_def shared_kept_refl)
qed

lemma shared_kept_update: "r < length xs \<Longrightarrow> shared_kept (xs ! r) y \<Longrightarrow> list_all2 shared_kept xs (xs[r := y])"
  by (auto simp: list_all2_conv_all_nth nth_list_update shared_kept_def)

lemma hsteady_on_loader:
  assumes "relates (steady N) m"
  shows "relates (hsteady N) (on_loader i m)"
proof (rule relatesI)
  fix h x t
  assume run: "on_loader i m h = (x, t)"
  let ?r = "snd (loaders (hpi h) ! i)"
  show "hsteady N h (outcome x) t"
  proof (cases "i < length (loaders (hpi h)) \<and> ?r < length (shareds h)")
    case False
    then show ?thesis
      using run hsteady.R_err [of N h UndefinedBehaviour] by (auto simp: on_loader_def)
  next
    case True
    let ?s = "\<lparr>ldr = fst (loaders (hpi h) ! i), shd = shareds h ! ?r, wld = hwld h\<rparr>"
    obtain s where s: "m ?s = (x, s)" and t: "shareds t = (shareds h)[?r := shd s]" "hwld t = wld s"
      using run True by (auto simp: on_loader_def Let_def split: prod.splits)
    have "steady N ?s (outcome x) s" by (rule relatesD [OF assms s])
    then show ?thesis
      using True t by (simp add: hsteady_def shared_kept_update shared_kept_def steady_calm_def table_kept_def)
  qed
qed

lemma hsteady_on_hpi: "relates (hsteady N) (on_hpi f)"
  by (simp add: relates_def on_hpi_def modifyM_def hsteady_def shared_kept_refl grows.R_refl)

lemma hsteady_reads: "relates (hsteady N) (bufferOf r)" "relates (hsteady N) (the_member f)"
    "relates (hsteady N) (in_hworld (deref b))"
  unfolding bufferOf_def the_member_def
  by (intro hsteady.rel_rules hsteady_in_hworld grows_deref,
      auto split: option.split intro!: hsteady.rel_rules hsteady_in_hworld grows_deref)

lemma steady_getSectionsOfType:
  assumes "loader_documented L"
  shows "relates (steady N) (getSectionsOfType L type)"
proof -
  have "relates (steady N) (sectionBuffer L c i)" for c i
    using assms unfolding sectionBuffer_def loader_documented_def
    by (intro steady.rel_rules steady_sectionAt steady_in_world grows_getDataBuffer) simp_all
  then show ?thesis
    unfolding getSectionsOfType_def
    by (intro steady.rel_rules) (auto split: option.split intro!: steady.rel_rules)
qed

lemma steady_getEntry:
  assumes "loader_documented L"
  shows "relates (steady N) (getEntry L)"
proof -
  have find: "relates (steady N) (findEntry p is)" for p "is"
    by (induction "is") (auto intro!: steady.rel_rules steady_infos)
  have "relates (steady N) (getEntryFrom L is)" for "is"
  proof (induction "is")
    case (Cons i "is")
    then show ?case
      by (auto intro!: steady.rel_rules steady_infos steady_sectionAt find steady_sectionData [OF assms]
          split: option.split)
  qed (simp add: steady.rel_raise)
  then show ?thesis unfolding getEntry_def by (intro steady.rel_rules steady_sectionsNum)
qed

lemma hsteady_readPerfMetrics: "loader_documented (he_lenv H) \<Longrightarrow> relates (hsteady N) (readPerfMetrics H)"
  unfolding readPerfMetrics_def sectionsOfType_def
  by (intro hsteady.rel_rules hsteady_on_loader steady_getSectionsOfType)

section \<open>The parsed inference\<close>

text \<open>The bytes of the struct for the hardware.\<close>

primrec parsed_image ::
    "npu_api \<Rightarrow> ResourceRequirements \<Rightarrow> VpuPerformanceMetrics \<Rightarrow> u64 list \<Rightarrow> HostParsedInferenceCommon \<Rightarrow> bytes" where
  "parsed_image A req metrics vs HPI_3720 = hpi_image (api37 A)
     ((hpi_init (api37 A))\<lparr>hpi_slice_count := nn_slice_count req, hpi_barriers := nn_barriers req,
       performance_metrics := metrics, mapped_address := hd vs, mapped_count := of_nat (length vs)\<rparr>)"
| "parsed_image A req metrics vs (HPI_4000 x) = hpi_image (api40 A)
     ((hpi_init (api40 A))\<lparr>hpi_slice_count := nn_slice_count req, hpi_barriers := nn_barriers req,
       hpi_slice_length := nn_slice_length req, performance_metrics := metrics, mapped_address := hd vs,
       mapped_count := of_nat (length vs)\<rparr>)"

primrec default_metrics :: "npu_api \<Rightarrow> HostParsedInferenceCommon \<Rightarrow> VpuPerformanceMetrics" where
  "default_metrics A HPI_3720 =
     setDefaultPerformanceMetrics (api37 A) (performance_metrics (hpi_init (api37 A)))"
| "default_metrics A (HPI_4000 x) =
     setDefaultPerformanceMetrics (api40 A) (performance_metrics (hpi_init (api40 A)))"

lemma write_spec:
  assumes "writeHostParsedInference api st db vs p w = (Inr (), w')"
  obtains metrics where "vs \<noteq> []"
    and "p = Null \<Longrightarrow> metrics = setDefaultPerformanceMetrics api (performance_metrics st)"
    and "write_mem (cpu_addr db) (hpi_image api (st\<lparr>performance_metrics := metrics, mapped_address := hd vs,
      mapped_count := of_nat (length vs)\<rparr>)) (memory w) = Inr (memory w')"
    and "objs w' = objs w"
proof -
  from assms obtain metrics w1 where m: "metricsFrom api (performance_metrics st) p w = (Inr metrics, w1)"
    and v: "vs \<noteq> []" and s: "storeM (cpu_addr db) (hpi_image api (st\<lparr>performance_metrics := metrics,
      mapped_address := hd vs, mapped_count := of_nat (length vs)\<rparr>)) w1 = (Inr (), w')"
    by (auto simp: writeHostParsedInference_def bindM_Inr_iff)
  have "w1 = w \<and> (p = Null \<longrightarrow> metrics = setDefaultPerformanceMetrics api (performance_metrics st))"
    using m by (auto simp: metricsFrom_def bindM_Inr_iff readM_def liftM_def retM_def split: if_splits)
  then show ?thesis using that [of metrics] v s by (auto simp: storeM_def split: sum.splits)
qed

lemma set_spec:
  assumes "setHostParsedInference A a db vs req p w = (Inr (), w')"
  obtains metrics where "vs \<noteq> []" and "p = Null \<Longrightarrow> metrics = default_metrics A a"
    and "write_mem (cpu_addr db) (parsed_image A req metrics vs a) (memory w) = Inr (memory w')"
    and "objs w' = objs w"
proof (cases a)
  case HPI_3720
  have "writeHostParsedInference (api37 A) ((hpi_init (api37 A))\<lparr>hpi_slice_count := nn_slice_count req,
      hpi_barriers := nn_barriers req\<rparr>) db vs p w = (Inr (), w')"
    using assms by (simp add: HPI_3720 setHostParsedInference_3720_def)
  then show ?thesis by (rule write_spec) (rule that, simp_all add: HPI_3720)
next
  case (HPI_4000 x)
  have "writeHostParsedInference (api40 A) ((hpi_init (api40 A))\<lparr>hpi_slice_count := nn_slice_count req,
      hpi_barriers := nn_barriers req, hpi_slice_length := nn_slice_length req\<rparr>) db vs p w = (Inr (), w')"
    using assms by (simp add: HPI_4000 setHostParsedInference_4000_def)
  then show ?thesis by (rule write_spec) (rule that, simp_all add: HPI_4000)
qed

lemma in_hworld_Inr: "in_hworld m h = (Inr v, t) \<longleftrightarrow> (\<exists>w. m (hwld h) = (Inr v, w) \<and> t = h\<lparr>hwld := w\<rparr>)"
  by (auto simp: in_hworld_def zoomM_def split: prod.splits)

lemma guardedH_option_Inr:
  assumes "lock_documented (env_bm (le_env (he_lenv H)))" and "guardedH H b body h = (Inr v, t)"
  obtains h1 t1 where "hpi h1 = hpi h" and "shareds h1 = shareds h" and "same_state (hwld h) (hwld h1)"
    and "body h1 = (Inr v, t1)"
    and "hpi t = hpi t1" and "shareds t = shareds t1" and "same_state (hwld t1) (hwld t)"
proof (cases b)
  case None
  then show ?thesis using that [of h t] assms(2) by (simp add: guardedH_def same_state_def)
next
  case (Some r)
  from assms(2) [unfolded Some] show ?thesis
  proof (rule guardedH_Inr)
    fix h1 t1
    assume l: "in_hworld (lock (le_env (he_lenv H)) r) h = (Inr (), h1)" and b: "body h1 = (Inr v, t1)"
      and t: "t = t1\<lparr>hwld := unlock (le_env (he_lenv H)) r (hwld t1)\<rparr>"
    then show ?thesis
      using that [OF _ _ _ b] lock_same [OF assms(1)] unlock_same [OF assms(1)] by (auto simp: in_hworld_Inr)
  qed
qed

text \<open>
  Whatever the metrics are read from, the new buffer holds the image of the struct in the end. \<open>wrote\<close>
  says so of a state.
\<close>

definition wrote :: "henv \<Rightarrow> HostParsedInferenceCommon \<Rightarrow> u64 list \<Rightarrow> hstate \<Rightarrow> bool" where
  "wrote H a vs h \<longleftrightarrow>
     (\<exists>r m metrics. parsedInference (hpi h) = Some r \<and> metadata (hpi h) = Some m \<and> vs \<noteq> [] \<and>
        (perfMetrics (hpi h) = None \<longrightarrow> metrics = default_metrics (he_api H) a) \<and>
        (let img = parsed_image (he_api H) (mResourceRequirements m) metrics vs a
         in peek (memory (hwld h)) (cpu_addr (getBuffer r (hwld h))) (length img) = img))"

lemma wroteE:
  assumes "wrote H a vs h" and "metadata (hpi h) = Some m"
  obtains r metrics where "parsedInference (hpi h) = Some r" and "vs \<noteq> []"
    and "perfMetrics (hpi h) = None \<longrightarrow> metrics = default_metrics (he_api H) a"
    and "let img = parsed_image (he_api H) (mResourceRequirements m) metrics vs a
     in peek (memory (hwld h)) (cpu_addr (getBuffer r (hwld h))) (length img) = img"
  using assms unfolding wrote_def by (elim exE conjE) simp

lemma wrote_same:
  "wrote H a vs h \<Longrightarrow> hpi t = hpi h \<Longrightarrow> same_state (hwld h) (hwld t) \<Longrightarrow> wrote H a vs t"
  by (simp add: wrote_def getBuffer_same) (simp add: same_state_def)

lemma read_metrics_steps:
  assumes "loader_documented (he_lenv H)"
    and "bindM (readPerfMetrics H) (\<lambda>pm. on_hpi (perfMetrics_update (\<lambda>_. pm))) h = (Inr (), t)"
  shows "grows_from 0 (hwld h) None (hwld t) \<and> parsedInference (hpi t) = parsedInference (hpi h)"
proof -
  have "relates (hsteady 0) (bindM (readPerfMetrics H) (\<lambda>pm. on_hpi (perfMetrics_update (\<lambda>_. pm))))"
    by (intro hsteady.rel_rules hsteady_readPerfMetrics [OF assms(1)] hsteady_on_hpi)
  from relatesD [OF this assms(2)] have "grows_from 0 (hwld h) None (hwld t)" by (simp add: hsteady_def)
  moreover have "parsedInference (hpi t) = parsedInference (hpi h)"
    using assms(2)
    by (auto simp: bindM_Inr_iff readPerfMetrics_def sectionsOfType_def on_loader_def on_hpi_def modifyM_def
        retM_def Let_def split: prod.splits if_splits)
  ultimately show ?thesis by simp
qed

lemma write_peek: "write_mem p bs m = Inr m' \<Longrightarrow> peek m' p (length bs) = bs"
  by (auto simp: write_mem_def peek_poke_same split: if_splits)

lemma finish_wrote:
  assumes L: "loader_documented (he_lenv H)"
    and steps: "\<And>h t. readMetrics h = (Inr (), t) \<Longrightarrow>
      grows_from 0 (hwld h) None (hwld t) \<and> parsedInference (hpi t) = parsedInference (hpi h)"
    and run: "finishInference H a readMetrics vs h = (Inr (), t)"
  shows "wrote H a vs t"
proof -
  have doc: "lock_documented (env_bm (le_env (he_lenv H)))" "allocate_documented (env_bm (le_env (he_lenv H)))"
    using L by (simp_all add: loader_documented_def)
  let ?tail = "\<lambda>r db pm. guardedH H pm
    (bindM (case pm of None \<Rightarrow> retM Null | Some b \<Rightarrow> bindM (bufferOf b) (\<lambda>db. retM (cpu_addr db))) (\<lambda>p.
     bindM (the_member metadata) (\<lambda>m.
     in_hworld (setHostParsedInference (he_api H) a db vs (mResourceRequirements m) p))))"
  from run obtain r w where new: "newAllocatedDeviceBuffer (le_env (he_lenv H)) (bufferManager (hpi h))
      (getParsedInferenceBufferSpecs (he_api H) a) (hwld h) = (Inr r, w)"
    and g': "guardedH H (Some r) (bindM (bufferOf r) (\<lambda>db. bindM readMetrics (\<lambda>_.
        bindM (readM (\<lambda>h. perfMetrics (hpi h))) (?tail r db))))
      (h\<lparr>hwld := w, hpi := (hpi h)\<lparr>parsedInference := Some r\<rparr>\<rparr>) = (Inr (), t)"
    by (auto simp: finishInference_def bindM_Inr_iff readM_def in_hworld_Inr on_hpi_def modifyM_def)
  define h1 where "h1 = h\<lparr>hwld := w, hpi := (hpi h)\<lparr>parsedInference := Some r\<rparr>\<rparr>"
  have h1: "parsedInference (hpi h1) = Some r" "hwld h1 = w" by (simp_all add: h1_def)
  note g = g' [folded h1_def]
  from g show ?thesis
  proof (rule guardedH_option_Inr [OF doc(1)])
    fix h2 t2
    assume h2: "hpi h2 = hpi h1" "same_state (hwld h1) (hwld h2)" and t2: "hpi t = hpi t2" "same_state (hwld t2) (hwld t)"
      and body: "bindM (bufferOf r) (\<lambda>db. bindM readMetrics (\<lambda>_.
        bindM (readM (\<lambda>h. perfMetrics (hpi h))) (?tail r db))) h2 = (Inr (), t2)"
    let ?db = "getBuffer r (hwld h2)"
    from body obtain h3 where rm: "readMetrics h2 = (Inr (), h3)" and tl: "?tail r ?db (perfMetrics (hpi h3)) h3 = (Inr (), t2)"
      by (auto simp: bindM_Inr_iff bufferOf_def readM_def)
    have "owned 0 r (hwld h1)" by (rule owned_newAllocatedDeviceBuffer [OF doc(2) new [folded h1(2)]]) simp
    then have "r < length (objs (hwld h2))" using h2(2) by (simp add: owned_def same_state_def)
    then have db: "getBuffer r (hwld h3) = ?db"
      using steps [OF rm] grows_objs [of 0 "hwld h2" None "hwld h3" r] by simp
    from tl show ?thesis
    proof (rule guardedH_option_Inr [OF doc(1)])
      fix h4 t3
      assume h4: "hpi h4 = hpi h3" "same_state (hwld h3) (hwld h4)" and t3: "hpi t2 = hpi t3" "same_state (hwld t3) (hwld t2)"
        and set: "bindM (case perfMetrics (hpi h3) of None \<Rightarrow> retM Null
            | Some b \<Rightarrow> bindM (bufferOf b) (\<lambda>db. retM (cpu_addr db))) (\<lambda>p.
          bindM (the_member metadata) (\<lambda>m.
          in_hworld (setHostParsedInference (he_api H) a ?db vs (mResourceRequirements m) p))) h4 = (Inr (), t3)"
      from set obtain p m w where p: "perfMetrics (hpi h3) = None \<longrightarrow> p = Null" and m: "metadata (hpi h4) = Some m"
        and s: "setHostParsedInference (he_api H) a ?db vs (mResourceRequirements m) p (hwld h4) = (Inr (), w)"
        and t3': "t3 = h4\<lparr>hwld := w\<rparr>"
        by (auto simp: bindM_Inr_iff the_member_Inr in_hworld_Inr bufferOf_def readM_def retM_def split: option.splits)
      from s have "wrote H a vs t3"
      proof (rule set_spec)
        fix metrics
        assume v: "vs \<noteq> []" and d: "p = Null \<Longrightarrow> metrics = default_metrics (he_api H) a"
          and w: "write_mem (cpu_addr ?db) (parsed_image (he_api H) (mResourceRequirements m) metrics vs a)
            (memory (hwld h4)) = Inr (memory w)" "objs w = objs (hwld h4)"
        have "getBuffer r w = ?db" using w(2) db getBuffer_same [OF h4(2), of r] by (simp add: getBuffer_def)
        moreover have "peek (memory w) (cpu_addr ?db) (length (parsed_image (he_api H) (mResourceRequirements m)
            metrics vs a)) = parsed_image (he_api H) (mResourceRequirements m) metrics vs a"
          by (rule write_peek [OF w(1)])
        moreover have "parsedInference (hpi t3) = Some r" "metadata (hpi t3) = Some m" "perfMetrics (hpi t3) = perfMetrics (hpi h3)"
          using steps [OF rm] h1(1) h2(1) h4(1) m by (simp_all add: t3')
        ultimately show ?thesis
          using v d p unfolding wrote_def Let_def t3'
          by (intro exI [of _ r] exI [of _ m] exI [of _ metrics]) simp
      qed
      then show ?thesis using wrote_same t2 t3 by metis
    qed
  qed
qed


end
