(* ===== verification/Elf_Hpi_Copy.thy ===== *)
theory Elf_Hpi_Copy imports Elf_Hpi_Props begin

text \<open>
  A copy of an inference does not disturb the original: whatever the copy constructor writes goes to
  storage that it has allocated.
\<close>

section \<open>Conditions that last\<close>

definition stableH :: "nat \<Rightarrow> (hstate \<Rightarrow> bool) \<Rightarrow> bool" where
  "stableH N P \<longleftrightarrow> (\<forall>h x t. P h \<longrightarrow> hsteady N h x t \<longrightarrow> P t)"

lemma t_hsteady: "relates (hsteady N) m \<Longrightarrow> stableH N P \<Longrightarrow> triple (hsteady N) P m (\<lambda>_. P)"
  unfolding triple_def stableH_def by (metis relatesD)

lemma stableH_conj: "stableH N P \<Longrightarrow> stableH N Q \<Longrightarrow> stableH N (\<lambda>h. P h \<and> Q h)"
  by (auto simp: stableH_def)

lemma stableH_owned: "stableH N (\<lambda>h. owned N r (hwld h))"
  unfolding stableH_def hsteady_def using owned_grows by blast

text \<open>The loaders that are copied: their shared parts are there, and their relocations stay in private buffers.\<close>

definition source_ok :: "LoaderShared list \<Rightarrow> VPUXLoader \<times> nat \<Rightarrow> bool" where
  "source_ok store x \<longleftrightarrow> snd x < length store \<and> reader_ok (m_reader (store ! snd x)) \<and>
     targets_private (store ! snd x) (fst x)"

definition sources_ok :: "nat \<Rightarrow> HostParsedInference \<Rightarrow> hstate \<Rightarrow> bool" where
  "sources_ok N other h \<longleftrightarrow> N \<le> length (memory (hwld h)) \<and>
     (\<forall>x \<in> set (loaders other). source_ok (shareds h) x)"

lemma targets_private_shared: "shared_kept sh sh' \<Longrightarrow> targets_private sh l \<Longrightarrow> targets_private sh' l"
  by (simp add: targets_private_def shared_kept_def)

lemma source_ok_kept: "list_all2 shared_kept store store' \<Longrightarrow> source_ok store x \<Longrightarrow> source_ok store' x"
  by (auto simp: source_ok_def list_all2_conv_all_nth shared_kept_def intro: targets_private_shared [rotated]
      simp: targets_private_def)

lemma stableH_sources: "stableH N (sources_ok N other)"
  unfolding stableH_def sources_ok_def hsteady_def
  using source_ok_kept by (auto simp: grows_from_def)

lemma t_guardedH_steady:
  assumes L: "loader_documented (he_lenv H)" and body: "triple (hsteady N) P body Q" and P: "stableH N P"
    and Q: "\<And>v. stableH N (Q v)"
  shows "triple (hsteady N) P (guardedH H b body) Q"
proof (cases b)
  case None
  then show ?thesis using body by (simp add: guardedH_def)
next
  case (Some r)
  let ?u = "\<lambda>h. h\<lparr>hwld := unlock (le_env (he_lenv H)) r (hwld h)\<rparr>"
  have doc: "lock_documented (env_bm (le_env (he_lenv H)))" using L by (simp add: loader_documented_def)
  have l: "triple (hsteady N) P (in_hworld (lock (le_env (he_lenv H)) r)) (\<lambda>_. P)"
    by (rule t_hsteady [OF hsteady_in_hworld [OF grows_lock [OF doc]] P])
  have u: "hsteady N t None (?u t)" for t
    using grows_unlock [OF doc] by (simp add: hsteady_def shared_kept_refl)
  have f: "triple (hsteady N) P (finallyM body ?u) Q"
  proof (rule tripleI)
    fix h x t
    assume h: "P h" and "finallyM body ?u h = (x, t)"
    then obtain t' where t': "body h = (x, t')" and t: "t = ?u t'"
      by (auto simp: finallyM_def split: prod.splits)
    have s: "hsteady N h (outcome x) t'" by (rule triple_rel [OF body h t'])
    then have "hsteady N h (outcome x) t" using u [of t'] unfolding t hsteady_def
      by (auto simp: grows_from_def intro: shared_kept_trans)
    moreover have "Q v t" if "x = Inr v" for v
      using triple_post [OF body h] t' that Q [of v] u [of t'] unfolding t stableH_def by blast
    ultimately show "hsteady N h (outcome x) t \<and> (\<forall>v. x = Inr v \<longrightarrow> Q v t)" by blast
  qed
  show ?thesis unfolding Some guardedH_def option.case by (rule hsteady.t_bind [OF l f])
qed

section \<open>Copying the loaders\<close>

lemma grows_mono: "grows_from M w x w' \<Longrightarrow> N \<le> M \<Longrightarrow> M \<le> length (memory w) \<Longrightarrow> grows_from N w x w'"
  by (auto simp: grows_from_def)

lemma pushCopy_steady:
  assumes L: "loader_documented (he_lenv H)" and x: "x \<in> set (loaders other)"
  shows "triple (hsteady N) (sources_ok N other) (pushCopy H syms x) (\<lambda>_. sources_ok N other)"
proof (rule tripleI)
  fix h y t
  assume pre: "sources_ok N other h" and run: "pushCopy H syms x h = (y, t)"
  have ok: "source_ok (shareds h) x" using pre x by (simp add: sources_ok_def)
  obtain z sh w where c: "VPUXLoader_copy (he_lenv H) syms (fst x) (shareds h ! snd x, hwld h) = (z, (sh, w))"
    by (metis surj_pair)
  have g: "grows_from (length (memory (hwld h))) (hwld h) (outcome z) w"
    using copy_private [OF L _ _ c] ok by (simp add: source_ok_def)
  have t: "shareds t = (shareds h)[snd x := sh]" "hwld t = w"
    using run c ok by (auto simp: pushCopy_def source_ok_def Let_def split: sum.splits)
  have "shared_kept (shareds h ! snd x) sh" by (rule copy_shared_kept [OF c])
  then have "list_all2 shared_kept (shareds h) (shareds t)"
    using ok unfolding t by (simp add: source_ok_def shared_kept_update)
  then have s: "hsteady N h (outcome y) t"
    using grows_mono [OF g, of N] pre unfolding hsteady_def t(2)
    by (simp add: sources_ok_def grows_from_def)
  then show "hsteady N h (outcome y) t \<and> (\<forall>v. y = Inr v \<longrightarrow> sources_ok N other t)"
    using stableH_sources pre unfolding stableH_def by blast
qed

section \<open>The new buffers\<close>

abbreviation copying :: "nat \<Rightarrow> HostParsedInference \<Rightarrow> bref \<Rightarrow> hstate \<Rightarrow> bool" where
  "copying N other e h \<equiv> sources_ok N other h \<and> owned N e (hwld h)"

lemma stableH_copying: "stableH N (copying N other e)"
  by (intro stableH_conj stableH_sources stableH_owned)

lemma t_bufferOf_owned:
  "triple (hsteady N) (copying N other e) (bufferOf e) (\<lambda>db h. beyond N (cpu_addr db) \<and> copying N other e h)"
  by (simp add: bufferOf_def triple_def readM_def hsteady.R_refl owned_def)

lemma t_write_beyond:
  assumes "\<And>w x w'. m w = (x, w') \<Longrightarrow> beyond N p \<Longrightarrow> grows_from N w (outcome x) w'" and "stableH N P"
  shows "triple (hsteady N) (\<lambda>h. beyond N p \<and> P h) (in_hworld m) (\<lambda>_. P)"
proof (rule triple_fact)
  assume "beyond N p"
  then have "relates (grows_from N) m" using assms(1) by (auto intro: relatesI)
  then show "triple (hsteady N) P (in_hworld m) (\<lambda>_. P)" by (rule t_hsteady [OF hsteady_in_hworld assms(2)])
qed

lemma beyond_ptr_add: "beyond N p \<Longrightarrow> beyond N (ptr_add p n)"
  by (cases p) simp_all

lemma stableH_fact: "stableH N P \<Longrightarrow> stableH N (\<lambda>h. F \<and> P h)"
  unfolding stableH_def by blast

lemma t_copyEntry:
  assumes L: "loader_documented (he_lenv H)"
  shows "triple (hsteady N) (copying N other e) (copyEntry H e n i) (\<lambda>_. copying N other e)"
proof -
  note keep = t_hsteady [OF _ stableH_copying]
  have "triple (hsteady N) (copying N other e)
     (bindM (in_hworld (deref b)) (\<lambda>e'. bindM (bufferOf e) (\<lambda>to. bindM (bufferOf e') (\<lambda>from.
      bindM (in_hworld (memcpyM (ptr_add (cpu_addr to) (i * unat n)) (cpu_addr from) (unat n))) (\<lambda>_.
      retM (vpu_addr to + of_nat i * n))))))
     (\<lambda>_. copying N other e)" for b
    by (rule hsteady.t_bind [OF keep [OF hsteady_reads(3)]], rule hsteady.t_bind [OF t_bufferOf_owned],
        rule hsteady.t_bind [OF t_hsteady [OF hsteady_reads(1) stableH_fact [OF stableH_copying]]],
        rule hsteady.t_bind [OF t_write_beyond [OF _ stableH_copying] hsteady.t_ret],
        rule grows_memcpyM [OF beyond_ptr_add])
  then show ?thesis
    unfolding copyEntry_def
    by (intro hsteady.t_bind [OF keep [OF hsteady_on_loader [OF steady_getEntry [OF L]]]]
        t_guardedH_steady [OF L _ stableH_copying stableH_copying])
qed

lemma t_newBuffer:
  assumes L: "loader_documented (he_lenv H)"
  shows "triple (hsteady N) (sources_ok N other)
    (in_hworld (newAllocatedDeviceBuffer (le_env (he_lenv H)) b specs)) (\<lambda>e. copying N other e)"
proof -
  have A: "allocate_documented (env_bm (le_env (he_lenv H)))" using L by (simp add: loader_documented_def)
  have r: "relates (hsteady N) (in_hworld (newAllocatedDeviceBuffer (le_env (he_lenv H)) b specs))"
    by (rule hsteady_in_hworld [OF grows_newAllocatedDeviceBuffer [OF A]])
  have "triple (hsteady N) (sources_ok N other)
      (in_hworld (newAllocatedDeviceBuffer (le_env (he_lenv H)) b specs)) (\<lambda>e h. owned N e (hwld h))"
    by (rule hsteady.t_relates [OF r])
      (auto simp: in_hworld_Inr sources_ok_def intro: owned_newAllocatedDeviceBuffer [OF A])
  from triple_split [OF t_hsteady [OF r stableH_sources] this] show ?thesis .
qed

lemma t_withEntries_steady:
  assumes L: "loader_documented (he_lenv H)"
    and each: "\<And>e n. triple (hsteady N) (copying N other e) (each e n) (\<lambda>_. copying N other e)"
  shows "triple (hsteady N) (sources_ok N other) (withEntries H a k each) (\<lambda>_. sources_ok N other)"
  unfolding withEntries_def
  by (rule hsteady.t_bind [OF t_hsteady [OF hsteady.rel_read stableH_sources]],
      rule hsteady.t_bind [OF t_newBuffer [OF L]],
      rule hsteady.t_bind [OF t_hsteady [OF hsteady_on_hpi stableH_copying]],
      rule triple_conseq [OF t_guardedH_steady [OF L _ stableH_copying stableH_copying]],
      rule hsteady.t_when, rule hsteady.t_bind [OF t_hsteady [OF hsteady.rel_read stableH_copying] each], simp_all)

lemma grows_writeHostParsedInference:
  assumes "beyond N (cpu_addr db)"
  shows "relates (grows_from N) (writeHostParsedInference api st db vs p)"
proof -
  have "relates (grows_from N) (storeM (cpu_addr db) bs)" for bs
    using assms
    by (auto simp: relates_def storeM_def write_mem_def grows_from_def poke_beyond split: sum.splits if_splits)
  then show ?thesis
    unfolding writeHostParsedInference_def metricsFrom_def by (intro grows.rel_rules)
qed

lemma grows_setHostParsedInference:
  assumes "beyond N (cpu_addr db)" and "setHostParsedInference A a db vs req p w = (x, w')"
  shows "grows_from N w (outcome x) w'"
proof -
  have "relates (grows_from N) (setHostParsedInference A a db vs req p)"
    by (cases a) (simp_all add: grows_writeHostParsedInference [OF assms(1)] setHostParsedInference_3720_def setHostParsedInference_4000_def)
  from relatesD [OF this assms(2)] show ?thesis .
qed

lemma t_finish_steady:
  assumes L: "loader_documented (he_lenv H)"
  shows "triple (hsteady N) (sources_ok N other) (finishInference H a (retM ()) vs) (\<lambda>_. sources_ok N other)"
proof -
  note keep = t_hsteady [OF _ stableH_copying]
  note keep' = t_hsteady [OF _ stableH_fact [OF stableH_copying]]
  have ptr: "relates (hsteady N) (case pm of None \<Rightarrow> retM Null | Some b \<Rightarrow> bindM (bufferOf b) (\<lambda>db. retM (cpu_addr db)))" for pm
    by (auto split: option.split intro!: hsteady.rel_rules hsteady_reads)
  have "triple (hsteady N) (\<lambda>h. beyond N (cpu_addr db) \<and> copying N other e h)
    (bindM (case pm of None \<Rightarrow> retM Null | Some b \<Rightarrow> bindM (bufferOf b) (\<lambda>db. retM (cpu_addr db))) (\<lambda>p.
     bindM (the_member metadata) (\<lambda>m.
     in_hworld (setHostParsedInference (he_api H) a db vs (mResourceRequirements m) p))))
    (\<lambda>_. copying N other e)" for db pm e
    by (rule hsteady.t_bind [OF keep' [OF ptr]], rule hsteady.t_bind [OF keep' [OF hsteady_reads(2)]],
        rule t_write_beyond [OF grows_setHostParsedInference stableH_copying])
  note fill = t_guardedH_steady [OF L this stableH_fact [OF stableH_copying] stableH_copying]
  have "triple (hsteady N) (copying N other e)
    (bindM (bufferOf e) (\<lambda>db. bindM (retM ()) (\<lambda>_. bindM (readM (\<lambda>h. perfMetrics (hpi h))) (\<lambda>pm.
      guardedH H pm
        (bindM (case pm of None \<Rightarrow> retM Null | Some b \<Rightarrow> bindM (bufferOf b) (\<lambda>db. retM (cpu_addr db))) (\<lambda>p.
         bindM (the_member metadata) (\<lambda>m.
         in_hworld (setHostParsedInference (he_api H) a db vs (mResourceRequirements m) p))))))))
    (\<lambda>_. copying N other e)" for e
    by (rule hsteady.t_bind [OF t_bufferOf_owned], rule hsteady.t_bind [OF keep' [OF hsteady.rel_ret]],
        rule hsteady.t_bind [OF keep' [OF hsteady.rel_read] fill])
  note body = t_guardedH_steady [OF L this stableH_copying stableH_copying]
  show ?thesis
    unfolding finishInference_def
    by (rule hsteady.t_bind [OF t_hsteady [OF hsteady.rel_read stableH_sources]],
        rule hsteady.t_bind [OF t_newBuffer [OF L]], rule hsteady.t_bind [OF keep [OF hsteady_on_hpi]],
        rule triple_conseq [OF body]) simp_all
qed

section \<open>The copy\<close>

lemma t_frontLoader:
  "triple (hsteady N) (sources_ok N other) (frontLoader other)
     (\<lambda>x h. x \<in> set (loaders other) \<and> sources_ok N other h)"
proof (cases "loaders other")
  case Nil
  then show ?thesis by (simp add: frontLoader_def hsteady.t_throw)
next
  case (Cons x xs)
  have "triple (hsteady N) (sources_ok N other) (retM x) (\<lambda>x h. x \<in> set (loaders other) \<and> sources_ok N other h)"
    by (rule triple_pre [OF hsteady.t_ret]) (simp add: Cons)
  then show ?thesis by (simp add: frontLoader_def Cons)
qed

lemma hsteady_frontEntry:
  "loader_documented (he_lenv H) \<Longrightarrow> relates (hsteady N) (frontEntry H)"
  unfolding frontEntry_def
  by (intro hsteady.rel_rules hsteady_on_loader steady_getEntry hsteady_reads)

lemma pushCopy_copying:
  assumes "loader_documented (he_lenv H)" and "x \<in> set (loaders other)"
  shows "triple (hsteady N) (copying N other e) (pushCopy H syms x) (\<lambda>_. copying N other e)"
  using pushCopy_steady [OF assms, of N] stableH_copying unfolding triple_def stableH_def by blast

lemma t_cloneInference:
  assumes L: "loader_documented (he_lenv H)"
  shows "triple (hsteady N) (sources_ok N other) (cloneInference H other) (\<lambda>_. sources_ok N other)"
proof -
  note keep = t_hsteady [OF _ stableH_sources]
  let ?n = "length (loaders other)"
  have many: "triple (hsteady N) (sources_ok N other)
      (withEntries H a (of_nat ?n) (\<lambda>e entrySize.
        mapM (\<lambda>idx. bindM (pushCopy H None (loaders other ! idx)) (\<lambda>_. copyEntry H e entrySize idx)) [0..<?n]))
      (\<lambda>_. sources_ok N other)" for a
    by (rule t_withEntries_steady [OF L], rule hsteady.t_mapM_upto [where P = "\<lambda>_. copying N other e" for e],
        rule hsteady.t_bind [OF pushCopy_copying [OF L] t_copyEntry [OF L]]) simp
  have one: "triple (hsteady N) (sources_ok N other)
      (bindM (bindM (frontLoader other) (pushCopy H None)) (\<lambda>_. frontEntry H)) (\<lambda>_. sources_ok N other)"
    by (rule hsteady.t_bind [OF hsteady.t_bind [OF t_frontLoader triple_fact] keep [OF hsteady_frontEntry [OF L]]],
        rule pushCopy_steady [OF L])
  show ?thesis
    unfolding cloneInference_def
    by (rule hsteady.t_bind [OF keep [OF hsteady_reads(2)]], rule hsteady.t_bind [OF keep [OF hsteady.rel_lift]],
        rule hsteady.t_bind [OF keep [OF hsteady_reads(2)]],
        rule hsteady.t_bind [OF hsteady.t_if [OF many one] t_finish_steady [OF L]])
qed


end
