(* ===== verification/Elf_Hpi_New.thy ===== *)
theory Elf_Hpi_New imports Elf_Hpi_Props begin

text \<open>
  What the constructor of the host parsed inference establishes: an invariant that holds from the
  creation of the loader to the last check, and the facts that the checks leave behind.
\<close>

section \<open>While the inference is checked\<close>

definition building :: "VPUXLoader \<Rightarrow> LoaderShared list \<Rightarrow> HPIConfigs \<Rightarrow> hstate \<Rightarrow> bool" where
  "building l store cfg h \<longleftrightarrow>
     loaders (hpi h) = [(l, length store)] \<and> (\<exists>sh. shareds h = store @ [sh]) \<and>
     hpiCfg (hpi h) = cfg \<and> parsedInference (hpi h) = None"

lemma building_hwld: "building l store cfg (h\<lparr>hwld := w\<rparr>) = building l store cfg h"
  by (simp add: building_def)

lemma b_in_hworld: "hoare (building l store cfg) (in_hworld m) (\<lambda>_. building l store cfg)"
  by (auto simp: triple_def in_hworld_def zoomM_def building_def split: prod.splits)

lemma b_front:
  assumes "relates calm m"
  shows "hoare (building l store cfg) (on_loader 0 m) (\<lambda>_. building l store cfg)"
  using relatesD [OF assms]
  by (fastforce simp: triple_def on_loader_def building_def Let_def calm_def split: prod.splits)

lemma b_guardedH:
  assumes "hoare (building l store cfg) body (\<lambda>_. building l store cfg)"
  shows "hoare (building l store cfg) (guardedH H b body) (\<lambda>_. building l store cfg)"
proof (cases b)
  case (Some r)
  have "hoare (building l store cfg) (finallyM body (\<lambda>h. h\<lparr>hwld := unlock (le_env (he_lenv H)) r (hwld h)\<rparr>))
      (\<lambda>_. building l store cfg)"
    using assms by (auto simp: triple_def finallyM_def building_hwld split: prod.splits)
  then show ?thesis unfolding guardedH_def Some option.case by (rule any.t_bind [OF b_in_hworld])
qed (simp add: guardedH_def assms)

lemma b_plain:
  "hoare (building l store cfg) (retM v) (\<lambda>_. building l store cfg)"
  "hoare (building l store cfg) (liftM r) (\<lambda>_. building l store cfg)"
  "hoare (building l store cfg) (readM f) (\<lambda>_. building l store cfg)"
  "hoare (building l store cfg) (throwM e) (\<lambda>_. building l store cfg)"
  "hoare (building l store cfg) (the_member g) (\<lambda>_. building l store cfg)"
  by (simp_all add: triple_def retM_def liftM_def readM_def throwM_def the_member_def bindM_def split: option.split)

lemma b_bind:
  "hoare P m (\<lambda>_. P) \<Longrightarrow> (\<And>v. hoare P (f v) (\<lambda>_. Q)) \<Longrightarrow> hoare P (bindM m f) (\<lambda>_. Q)"
  by (rule any.t_bind)

lemmas b_rules = b_bind any.t_if any.t_when any.t_unless b_plain b_in_hworld b_guardedH

lemma b_sections:
  "hoare (building l store cfg) (sectionsOfType H type) (\<lambda>_. building l store cfg)"
  "hoare (building l store cfg) (bufferOf r) (\<lambda>_. building l store cfg)"
  unfolding sectionsOfType_def bufferOf_def
  by (rule b_front [OF calm_getSectionsOfType], rule b_plain)

lemma b_findVersion: "hoare (building l store cfg) (findVersion H type ss) (\<lambda>_. building l store cfg)"
  by (induction ss) (auto intro!: b_rules b_sections simp: Let_def split: option.split)

lemma b_versions:
  "hoare (building l store cfg) (getElfABIVersion H) (\<lambda>_. building l store cfg)"
  "hoare (building l store cfg) (getMIVersion H) (\<lambda>_. building l store cfg)"
  "hoare (building l store cfg) (getLibraryELFVersion H) (\<lambda>_. building l store cfg)"
  "hoare (building l store cfg) (getLibraryMIVersion H) (\<lambda>_. building l store cfg)"
  unfolding getElfABIVersion_def getMIVersion_def readVersioningInfo_def getLibraryELFVersion_def
    getLibraryMIVersion_def libraryHpi_def
  by (intro b_rules b_sections b_findVersion)+

lemma b_deserialize:
  "hoare (building l store cfg) (deserializeSection H s parse) (\<lambda>_. building l store cfg)"
  unfolding deserializeSection_def by (intro b_rules b_sections)

lemma b_members:
  "hoare (building l store cfg) (readMetadata H) (\<lambda>_. building l store cfg)"
  "hoare (building l store cfg) (readPlatformInfo H) (\<lambda>_. building l store cfg)"
proof -
  have m: "hoare (building l store cfg) (on_hpi f) (\<lambda>_. building l store cfg)"
    if "\<And>i. loaders (f i) = loaders i \<and> hpiCfg (f i) = hpiCfg i \<and> parsedInference (f i) = parsedInference i" for f
    using that by (simp add: triple_def on_hpi_def modifyM_def building_def)
  show "hoare (building l store cfg) (readMetadata H) (\<lambda>_. building l store cfg)"
    unfolding readMetadata_def by (intro b_rules b_sections b_deserialize m) simp
  show "hoare (building l store cfg) (readPlatformInfo H) (\<lambda>_. building l store cfg)"
    unfolding readPlatformInfo_def by (intro b_rules b_sections b_deserialize m) simp
qed

lemma kept_versions:
  "relates kept (getLibraryMIVersion H)" "relates kept (getMIVersion H)"
proof -
  have "relates kept (findVersion H type ss)" for type ss
    by (induction ss) (auto intro!: kept.rel_rules kept_prims kept_reads simp: Let_def split: option.split)
  then show "relates kept (getLibraryMIVersion H)" "relates kept (getMIVersion H)"
    unfolding getLibraryMIVersion_def libraryHpi_def getMIVersion_def readVersioningInfo_def
    by (intro kept.rel_rules kept_prims kept_reads)+
qed

section \<open>The constructor\<close>

text \<open>The flag for inferences in parallel, as the tile count decides it.\<close>

definition may_run_in_parallel :: "ArchKind \<Rightarrow> u8 \<Rightarrow> bool" where
  "may_run_in_parallel kind tileCount \<longleftrightarrow> kind = VPUX37XX \<or> tileCount \<le> 3"

definition checked :: "VPUXLoader \<Rightarrow> LoaderShared list \<Rightarrow> HPIConfigs \<Rightarrow> hstate \<Rightarrow> bool" where
  "checked l store cfg h \<longleftrightarrow>
     (\<exists>m p. metadata (hpi h) = Some m \<and> platformInfo (hpi h) = Some p \<and> mArchKind p = archKind cfg \<and>
       (let n = nn_slice_count (mResourceRequirements m)
        in n \<le> (if archKind cfg = VPUX37XX then 2 else 6) \<and>
           building (if may_run_in_parallel (archKind cfg) n then l
             else m_inferencesMayBeRunInParallel_update (\<lambda>_. False) l) store cfg h))"

lemma checkTileCount_checked:
  assumes run: "checkTileCount H (mArchKind p) h = (Inr (), t)" and b: "building l store cfg h"
    and p: "platformInfo (hpi h) = Some p" "mArchKind p = archKind cfg"
    and k: "archKind cfg = VPUX37XX \<or> archKind cfg = VPUX40XX"
  shows "checked l store cfg t"
proof -
  from run obtain m where m: "metadata (hpi h) = Some m"
    by (auto simp: checkTileCount_def bindM_Inr_iff the_member_Inr)
  let ?n = "nn_slice_count (mResourceRequirements m)"
  let ?tail = "\<lambda>c. throwM_when (?n > c) ArgsError
    (if ?n > c div 2 \<and> archKind cfg \<noteq> VPUX30XX \<and> archKind cfg \<noteq> VPUX37XX
     then on_loader 0 (setInferencesMayBeRunInParallel False) else retM ()) h = (Inr (), t)"
  have set: "on_loader 0 (setInferencesMayBeRunInParallel False) h = (Inr (), t) \<Longrightarrow>
      metadata (hpi t) = metadata (hpi h) \<and> platformInfo (hpi t) = platformInfo (hpi h) \<and>
      building (m_inferencesMayBeRunInParallel_update (\<lambda>_. False) l) store cfg t"
    using b by (auto simp: on_loader_def building_def Let_def setInferencesMayBeRunInParallel_def on_ldr_def modifyM_def)
  from k show ?thesis
  proof
    assume k: "archKind cfg = VPUX37XX"
    have "?tail 2" using run m p(2) unfolding k
      by (simp add: checkTileCount_def bindM_Inr_iff the_member_Inr bindM_liftM getHardwareTileCount_def arch_defs Let_def)
    then have "?n \<le> 2" "t = h" by (auto simp: k retM_def arch_defs)
    then show ?thesis using b p m by (simp add: checked_def may_run_in_parallel_def k Let_def)
  next
    assume k: "archKind cfg = VPUX40XX"
    have "?tail 6" using run m p(2) unfolding k
      by (simp add: checkTileCount_def bindM_Inr_iff the_member_Inr bindM_liftM getHardwareTileCount_def arch_defs Let_def)
    then have "?n \<le> 6" "if ?n > 3 then on_loader 0 (setInferencesMayBeRunInParallel False) h = (Inr (), t) else t = h"
      by (auto simp: k retM_def arch_defs)
    then show ?thesis
      using b p m set k by (cases "?n > 3") (auto simp: checked_def may_run_in_parallel_def Let_def arch_defs)
  qed
qed

section \<open>The new loader\<close>

definition ldr_same :: "lstate \<Rightarrow> elf_error option \<Rightarrow> lstate \<Rightarrow> bool" where
  "ldr_same s x t \<longleftrightarrow> ldr t = ldr s"

interpretation same: state_relation ldr_same
  by unfold_locales (auto simp: ldr_same_def)

lemma same_calm: "relates calm m \<Longrightarrow> relates ldr_same m"
  by (auto simp: relates_def calm_def ldr_same_def)

lemma same_on_shd: "relates ldr_same (on_shd f)"
  by (simp add: relates_def on_shd_def modifyM_def ldr_same_def)

lemmas same_prims = same_on_shd calm_prims [THEN same_calm]

lemma same_fetchIO: "relates ldr_same (fetchIO L sec d)"
proof -
  have "relates ldr_same (registerUserIO symbols n d)" for symbols n
    unfolding registerUserIO_def by (intro same.rel_rules same_prims)
  then show ?thesis
    unfolding fetchIO_def by (intro same.rel_rules same_prims) (auto intro!: same.rel_rules)
qed

lemma same_registerSections: "relates ldr_same (registerSections L)"
proof -
  have "relates ldr_same (earlyFetchIO L sec)" for sec
    unfolding earlyFetchIO_def Let_def by (intro same.rel_rules same_prims same_fetchIO)
  then have "relates ldr_same (registerSection L i)" for i
    unfolding registerSection_def Let_def
    by (intro same.rel_rules same_prims) (auto split: option.split intro!: same.rel_rules)
  then show ?thesis
    unfolding registerSections_def registerPerfMetrics_def by (intro same.rel_rules same_prims)
qed

lemma new_loader:
  "VPUXLoader_new L b override0 explicit0 w = (Inr (l, sh), w') \<Longrightarrow> l = newLoader b override0 explicit0"
  using relatesD [OF same_registerSections]
  by (fastforce simp: VPUXLoader_new_def ldr_same_def split: prod.splits sum.splits)

section \<open>What is constructed\<close>

lemma checkInference_checked:
  assumes run: "checkInference H cfg h = (Inr (), t)" and b: "building l store cfg h"
  shows "archKind cfg = VPUX37XX \<or> archKind cfg = VPUX40XX" and "checked l store cfg t"
proof -
  let ?rest = "\<lambda>p. throwM_when (mArchKind p \<noteq> archKind cfg) ArgsError
     (bindM (if \<not> checkValidity (nnVersion cfg) then getLibraryMIVersion H else retM (nnVersion cfg)) (\<lambda>nn.
      bindM (getMIVersion H) (\<lambda>mi.
      bindM (liftM (checkVersionCompatibility nn mi)) (\<lambda>_. checkTileCount H (mArchKind p)))))"
  let ?head = "bindM (getLibraryELFVersion H) (\<lambda>lib. bindM (getElfABIVersion H) (\<lambda>elf.
    bindM (liftM (checkVersionCompatibility lib elf)) (\<lambda>_. bindM (readMetadata H) (\<lambda>_. readPlatformInfo H))))"
  from run obtain a p h1 where a: "getArchSpecificHPI (he_api H) (archKind cfg) = Inr a"
    and hd: "?head h = (Inr (), h1)" and p: "platformInfo (hpi h1) = Some p" and tl: "?rest p h1 = (Inr (), t)"
    unfolding checkInference_def by (simp add: bindM_assoc [symmetric])
      (auto simp: bindM_Inr_iff the_member_Inr liftM_def)
  show k: "archKind cfg = VPUX37XX \<or> archKind cfg = VPUX40XX"
    using a by (auto simp: getArchSpecificHPI_def split: if_splits)
  have "hoare (building l store cfg) ?head (\<lambda>_. building l store cfg)"
    by (intro b_rules b_versions b_members)
  from triple_post [OF this b hd] have b1: "building l store cfg h1" .
  let ?versions = "bindM (if \<not> checkValidity (nnVersion cfg) then getLibraryMIVersion H else retM (nnVersion cfg))
    (\<lambda>nn. bindM (getMIVersion H) (\<lambda>mi. liftM (checkVersionCompatibility nn mi)))"
  from tl obtain y h2 where v: "?versions h1 = (Inr y, h2)" and c: "checkTileCount H (mArchKind p) h2 = (Inr (), t)"
    and pk: "mArchKind p = archKind cfg"
    by (auto simp: bindM_Inr_iff)
  have "hoare (building l store cfg) ?versions (\<lambda>_. building l store cfg)" by (intro b_rules b_versions)
  from triple_post [OF this b1 v] have b2: "building l store cfg h2" .
  have "relates kept ?versions" by (intro kept.rel_rules kept_versions)
  from relatesD [OF this v] have "platformInfo (hpi h2) = Some p" using p by (simp add: kept_def)
  then show "checked l store cfg t" by (rule checkTileCount_checked [OF c b2 _ pk k])
qed

text \<open>
  C10. A constructed inference is consistent. The architecture asked for is one of the two that are
  built in, the platform information of the file names the same one, and the network asks for at most
  as many tiles as it has (2 or 6). There is exactly one loader, it is not loaded yet, what it shares
  is appended to the store, which is otherwise unchanged, and scratch buffers are used by inferences
  in parallel unless the network needs more than half of the tiles of a 40XX device.
\<close>

theorem constructed_inference:
  assumes "HostParsedInference_new H hasManager override0 explicit0 cfg (store, w) = (Inr i, (store', w'))"
  shows "archKind cfg \<in> {VPUX37XX, VPUX40XX} \<and> hpiCfg i = cfg \<and> parsedInference i = None \<and>
    (\<exists>m p l sh. metadata i = Some m \<and> platformInfo i = Some p \<and> mArchKind p = archKind cfg \<and>
       loaders i = [(l, length store)] \<and> store' = store @ [sh] \<and> \<not> m_loaded l \<and>
       nn_slice_count (mResourceRequirements m) \<le> (if archKind cfg = VPUX37XX then 2 else 6) \<and>
       (m_inferencesMayBeRunInParallel l \<longleftrightarrow>
          may_run_in_parallel (archKind cfg) (nn_slice_count (mResourceRequirements m))))"
proof -
  from assms obtain l sh w1 t
    where new: "VPUXLoader_new (he_lenv H) hasManager override0 explicit0 w = (Inr (l, sh), w1)"
      and run: "checkInference H cfg \<lparr>hpi = newInference hasManager cfg [(l, length store)],
        shareds = store @ [sh], hwld = w1\<rparr> = (Inr (), t)"
      and t: "i = hpi t" "store' = shareds t"
    by (auto simp: HostParsedInference_new_def split: prod.splits sum.splits)
  have l: "\<not> m_loaded l" "m_inferencesMayBeRunInParallel l" by (simp_all add: new_loader [OF new] newLoader_def)
  have b: "building l store cfg \<lparr>hpi = newInference hasManager cfg [(l, length store)], shareds = store @ [sh], hwld = w1\<rparr>"
    by (simp add: building_def newInference_def)
  note done1 = checkInference_checked [OF run b]
  from done1(2) obtain m p where m: "metadata (hpi t) = Some m" and p: "platformInfo (hpi t) = Some p" "mArchKind p = archKind cfg"
    and n: "nn_slice_count (mResourceRequirements m) \<le> (if archKind cfg = VPUX37XX then 2 else 6)"
    and t': "building (if may_run_in_parallel (archKind cfg) (nn_slice_count (mResourceRequirements m)) then l
      else m_inferencesMayBeRunInParallel_update (\<lambda>_. False) l) store cfg t"
    unfolding checked_def Let_def by (elim exE conjE)
  let ?l = "if may_run_in_parallel (archKind cfg) (nn_slice_count (mResourceRequirements m)) then l
      else m_inferencesMayBeRunInParallel_update (\<lambda>_. False) l"
  obtain sh' where sh': "shareds t = store @ [sh']" using t' by (auto simp: building_def)
  have l': "\<not> m_loaded ?l" "m_inferencesMayBeRunInParallel ?l \<longleftrightarrow>
      may_run_in_parallel (archKind cfg) (nn_slice_count (mResourceRequirements m))"
    using l by simp_all
  have "hpiCfg (hpi t) = cfg" "parsedInference (hpi t) = None" "loaders (hpi t) = [(?l, length store)]"
    using t' by (simp_all add: building_def)
  then show ?thesis
    unfolding t using done1(1) m p n sh' l'
    by (intro conjI exI [of _ m] exI [of _ p] exI [of _ ?l] exI [of _ sh']) simp_all
qed

text \<open>
  C35. The table of symbols for a number of 3720 tiles. On a device with two tiles there are three tables
  of eight symbols, for the indexes 0, 1 and 2. The guard in front of the table lets the index 3 pass,
  and the table behind the last one is read; larger indexes throw.
\<close>

theorem symbol_table_guard_off_by_one:
  assumes "VPU_MAX_TILES api = 2"
  shows "((\<exists>tab. getSymbolTable_3720 api index = Inr tab \<and> length tab = 8) \<longleftrightarrow> index < 3) \<and>
    (getSymbolTable_3720 api index = Inl UndefinedBehaviour \<longleftrightarrow> index = 3) \<and>
    (getSymbolTable_3720 api index = Inl ArgsError \<longleftrightarrow> index > 3)"
proof -
  have n: "N_TABS api = 3" by (simp add: N_TABS_def assms)
  consider "index < 3" | "index = 3" | "index > 3" by force
  then show ?thesis
    by cases (auto simp: getSymbolTable_3720_def n throw_when_def throw_unless_def symTab_3720_def
        put_symbol_def SPECIAL_SYMTAB_SIZE_def)
qed

end
