(* ===== verification/Elf_Hpi_Example.thy ===== *)
theory Elf_Hpi_Example imports Elf_Loader_Example Elf_Hpi_Copy Elf_Hpi_New begin

text \<open>
  A small inference for 40XX around the small loader. The parameters for the headers of the hardware
  interface are instantiated: two metrics, and a struct whose image is the address of the entry and the
  number of entries.
\<close>

definition small_metrics :: VpuPerformanceMetrics where
  "small_metrics = \<lparr>freq_base = 0, freq_step = 0, bw_base = 0, bw_step = 0,
     scalability = [[0, 0, 0, 0, 0]], ticks = [[0, 0, 0, 0, 0]]\<rparr>"

definition small_hpi :: VpuHostParsedInference where
  "small_hpi = \<lparr>hpi_slice_length = 0, hpi_slice_count = 0, hpi_barriers = 0,
     performance_metrics = small_metrics, mapped_address = 0, mapped_count = 0\<rparr>"

definition small_nn :: "u32 \<Rightarrow> nn_api" where
  "small_nn tiles = \<lparr>VPU_MAX_TILES = tiles, sizeof_HostParsedInference = 16,
     sizeof_PerformanceMetrics = 0, VPU_SCALABILITY_NUM_OF_FREQ = 1, VPU_SCALABILITY_VALUES_PER_FREQ = 5,
     API_VER_MAJOR = 1, API_VER_MINOR = 0, API_VER_PATCH = 0, hpi_init = small_hpi,
     hpi_image = \<lambda>h. le_bytes 8 (mapped_address h) @ le_bytes 8 (mapped_count h),
     metrics_of = \<lambda>bs. small_metrics\<rparr>"

definition small_api :: npu_api where
  "small_api = \<lparr>
     api37 = nn_api.extend (small_nn 2) (nn_api_37xx.fields 0 0 0 0 0 0 0 0 0 0 0 0 0 0 0 0),
     api40 = nn_api.extend (small_nn 6) (nn_api_40xx.fields (\<lambda>a p. p) 8 0 0 0)\<rparr>"

definition small_henv :: henv where
  "small_henv = \<lparr>he_lenv = small_lenv, he_api = small_api, he_fits = \<lambda>n. True\<rparr>"

definition small_configs :: HPIConfigs where
  "small_configs = \<lparr>nnVersion = version_default, archKind = VPUX40XX\<rparr>"

definition small_inference :: "(VPUXLoader \<times> nat) list \<Rightarrow> HostParsedInference" where
  "small_inference ls = (newInference True small_configs ls)
     \<lparr>metadata := Some NetworkMetadata_new, platformInfo := Some \<lparr>mArchKind = VPUX40XX\<rparr>\<rparr>"

text \<open>Before the loading; the constructor of the loader has registered an empty list of metrics.\<close>

definition small_hstart :: hstate where
  "small_hstart = \<lparr>hpi = small_inference [(newLoader True False False, 0)],
     shareds = [(newShared small_reader)\<lparr>m_sectionMap := [VPU_SHT_PERF_METRICS \<mapsto> []]\<rparr>],
     hwld = image_world small_blob\<rparr>"

lemma small_hdocumented: "loader_documented (he_lenv small_henv)"
  by (simp add: small_henv_def small_documented)

lemma small_hload:
  "fst (loadInference small_henv small_hstart) = Inr ()"
  by code_simp


section \<open>Copying and assigning\<close>

definition small_original :: "lstate \<Rightarrow> HostParsedInference" where
  "small_original s = small_inference [(ldr s, 0)]"

lemma small_hcopy:
  "let s = snd (load small_lenv [] False [] small_start) in
   case HostParsedInference_copy small_henv (small_original s) ([shd s], wld s) of
     (Inl e, _) \<Rightarrow> False
   | (Inr c, (store, w)) \<Rightarrow> length (memory (wld s)) = 2 \<and>
       memory (wld s) ! 1 = (0x1000, [6, 0x10, 0, 0, 0, 0, 0, 0]) \<and>
       memory w ! 2 = (0x2000, [6, 0x20, 0, 0, 0, 0, 0, 0])"
  by code_simp

lemma small_copied:
  obtains t c store w where "load small_lenv [] False [] small_start = (Inr (), t)"
    and "HostParsedInference_copy small_henv (small_original t) ([shd t], wld t) = (Inr c, (store, w))"
    and "length (memory (wld t)) = 2" and "memory (wld t) ! 1 = (0x1000, [6, 0x10, 0, 0, 0, 0, 0, 0])"
    and "memory w ! 2 = (0x2000, [6, 0x20, 0, 0, 0, 0, 0, 0])"
proof -
  obtain t where t: "load small_lenv [] False [] small_start = (Inr (), t)"
    using small_load by (metis prod.collapse)
  obtain x store w where run: "HostParsedInference_copy small_henv (small_original t) ([shd t], wld t) = (x, (store, w))"
    by (metis surj_pair)
  then show ?thesis using small_hcopy that [of t _ store w] by (auto simp: t split: sum.splits)
qed

theorem copies_forget_configuration_witness:
  "\<exists>t c store w. HostParsedInference_copy small_henv (small_original t) ([shd t], wld t) = (Inr c, (store, w)) \<and>
     hpiCfg (small_original t) = small_configs \<and>
     getHPISize small_henv \<lparr>hpi = c, shareds = store, hwld = w\<rparr> =
       (Inl RangeError, \<lparr>hpi = c, shareds = store, hwld = w\<rparr>)"
proof -
  obtain t c store w where c: "HostParsedInference_copy small_henv (small_original t) ([shd t], wld t) = (Inr c, (store, w))"
    by (rule small_copied)
  have "hpiCfg (small_original t) = small_configs"
    by (simp add: small_original_def small_inference_def newInference_def)
  then show ?thesis
    using copies_forget_configuration [OF c] c unfolding Let_def by blast
qed


text \<open>The assignment: an inference that is loaded too, with one input.\<close>

definition small_target :: "lstate \<Rightarrow> hstate" where
  "small_target s = \<lparr>hpi = small_inference [(ldr s, 1)],
     shareds = [shd s, (shd s)\<lparr>m_userInputsDescriptors := [DeviceBuffer_make Null 0 7]\<rparr>],
     hwld = wld s\<rparr>"

lemma small_hassign:
  "let s = snd (load small_lenv [] False [] small_start)
   in fst (HostParsedInference_assign small_henv (small_original s) (small_target s)) = Inr ()"
  by code_simp

theorem assignment_keeps_old_loaders_witness:
  "\<exists>s t. HostParsedInference_assign small_henv (small_original s) (small_target s) = (Inr (), t) \<and>
     1 < length (loaders (hpi t)) \<and>
     fst (HPI_getInputBuffers t) = Inr [DeviceBuffer_make Null 0 7]"
proof -
  let ?s = "snd (load small_lenv [] False [] small_start)"
  obtain t where t: "HostParsedInference_assign small_henv (small_original ?s) (small_target ?s) = (Inr (), t)"
    using small_hassign by (metis prod.collapse)
  have l: "loaders (hpi (small_target ?s)) = [(ldr ?s, 1)]" "1 < length (shareds (small_target ?s))"
    by (simp_all add: small_target_def small_inference_def newInference_def)
  have "m_userInputsDescriptors (shareds (small_target ?s) ! 1) = [DeviceBuffer_make Null 0 7]"
    by (simp add: small_target_def)
  then have "1 < length (loaders (hpi t)) \<and> fst (HPI_getInputBuffers t) = Inr [DeviceBuffer_make Null 0 7]"
    using assignment_keeps_old_loaders [OF t l] l(1) by simp
  then show ?thesis using t by blast
qed

theorem symbol_table_guard_off_by_one_witness:
  "getSymbolTable_3720 (api37 small_api) 3 = Inl UndefinedBehaviour"
proof -
  have "VPU_MAX_TILES (api37 small_api) = 2"
    by (simp add: small_api_def small_nn_def nn_api.defs nn_api_37xx.defs)
  from symbol_table_guard_off_by_one [OF this] show ?thesis by simp
qed

end
