(* ===== verification/Elf_Image.thy ===== *)
theory Elf_Image imports Elf_Hpi_New begin

text \<open>
  Opening an inference, as a function of the bytes of the file: \<open>open_inference\<close> says what the
  constructor of the host parsed inference accepts, what it reads and which exception it throws
  otherwise, without memory, buffers, locks and caches. \<open>refines\<close> compares a program with such a
  function, step by step.
\<close>

section \<open>The specification\<close>

primrec mapE :: "('a \<Rightarrow> 'b res) \<Rightarrow> 'a list \<Rightarrow> 'b list res" where
  "mapE f [] = Inr []"
| "mapE f (x # xs) = bindE (f x) (\<lambda>y. bindE (mapE f xs) (\<lambda>ys. Inr (y # ys)))"

text \<open>A range of the file that the code reads through a pointer, and a section.\<close>

definition cell :: "bytes \<Rightarrow> nat \<Rightarrow> nat \<Rightarrow> bytes res" where
  "cell img off n = throw_unless (off + n \<le> length img) UndefinedBehaviour (Inr (bslice off n img))"

definition open_section :: "bytes \<Rightarrow> Elf64_Shdr \<Rightarrow> Elf64_Shdr res" where
  "open_section img h =
     throw_when (sh_offset h + sh_size h > of_nat (length img)) AccessError (Inr h)"

text \<open>What registering the sections reads: the sizes of the user's inputs, outputs and profiling outputs.\<close>

record user_buffers =
  ub_inputs :: "DeviceBuffer list"
  ub_outputs :: "DeviceBuffer list"
  ub_profiling :: "DeviceBuffer list"

definition user_symbols :: "bytes \<Rightarrow> Elf64_Shdr \<Rightarrow> DeviceBuffer list \<Rightarrow> DeviceBuffer list res" where
  "user_symbols img h ds =
     throw_when (ds \<noteq> []) SequenceError
     (bindE (open_section img h) (\<lambda>_.
      throw_unless (sh_entsize h \<noteq> 0) SectionError
      (let n = unat (sh_size h div sh_entsize h)
       in if n \<le> 1 then Inr ds
          else mapE (\<lambda>i. bindE (cell img (unat (sh_offset h) + 24 * i) 24) (\<lambda>bs.
                 Inr (DeviceBuffer_make Null 0 (st_size (dec_Elf64_Sym bs))))) [1..<n])))"

definition user_io_of :: "bytes \<Rightarrow> Elf64_Shdr \<Rightarrow> user_buffers \<Rightarrow> user_buffers res" where
  "user_io_of img h u =
     (if sh_flags h AND VPU_SHF_USERINPUT \<noteq> 0
      then bindE (user_symbols img h (ub_inputs u)) (\<lambda>d. Inr (u\<lparr>ub_inputs := d\<rparr>))
      else if sh_flags h AND VPU_SHF_USEROUTPUT \<noteq> 0
      then bindE (user_symbols img h (ub_outputs u)) (\<lambda>d. Inr (u\<lparr>ub_outputs := d\<rparr>))
      else if sh_flags h AND VPU_SHF_PROFOUTPUT \<noteq> 0
      then bindE (user_symbols img h (ub_profiling u)) (\<lambda>d. Inr (u\<lparr>ub_profiling := d\<rparr>))
      else Inr u)"

definition register_header :: "bytes \<Rightarrow> bytes \<Rightarrow> Elf64_Shdr \<Rightarrow> user_buffers \<Rightarrow> user_buffers res" where
  "register_header img names h u =
     throw_when (length names \<le> unat (sh_name h)) UndefinedBehaviour
     (case actionMap (sh_type h) of
        None \<Rightarrow> Inl UndefinedBehaviour
      | Some action \<Rightarrow> if action = RegisterUserIO then user_io_of img h u else Inr u)"

definition register_headers :: "bytes \<Rightarrow> Reader \<Rightarrow> user_buffers res" where
  "register_headers img rd =
     throw_when (length (mSectionHeaders rd) > 0xfffe) ArgsError
     (foldE (register_header img (mSectionNames rd)) (mSectionHeaders rd) \<lparr>ub_inputs = [], ub_outputs = [], ub_profiling = []\<rparr>)"

text \<open>The sections of a type, which must exist, the only one of its type, and the version in a note.\<close>

definition sections_with :: "bytes \<Rightarrow> Elf64_Shdr list \<Rightarrow> u32 \<Rightarrow> Elf64_Shdr list res" where
  "sections_with img hs type =
     (let found = filter (\<lambda>h. sh_type h = type) hs
      in throw_when (found = []) RangeError (mapE (open_section img) found))"

definition only_section ::
    "u64 \<Rightarrow> bytes \<Rightarrow> Elf64_Shdr list \<Rightarrow> u32 \<Rightarrow> (u64 \<Rightarrow> bytes \<Rightarrow> u64 \<Rightarrow> 'a res) \<Rightarrow> 'a res" where
  "only_section base img hs type parse =
     bindE (sections_with img hs type) (\<lambda>found.
     throw_unless (length found = 1) RangeError
     (parse (base + sh_offset (hd found)) (drop (unat (sh_offset (hd found))) img) (sh_size (hd found))))"

primrec version_in :: "bytes \<Rightarrow> u32 \<Rightarrow> Elf64_Shdr list \<Rightarrow> version res" where
  "version_in img type [] = Inl RangeError"
| "version_in img type (h # hs) =
     throw_unless (sh_size h = 32) SectionError
     (bindE (cell img (unat (sh_offset h)) 32) (\<lambda>bs.
      let note = dec_VersionNote bs
      in if n_type note = type then Inr (version_of_note note) else version_in img type hs))"

definition version_of_file :: "bytes \<Rightarrow> Elf64_Shdr list \<Rightarrow> u32 \<Rightarrow> version res" where
  "version_of_file img hs type = bindE (sections_with img hs SHT_NOTE) (version_in img type)"

text \<open>The checks of the constructor, in their order.\<close>

definition inspect ::
    "npu_api \<Rightarrow> (nat \<Rightarrow> bool) \<Rightarrow> HPIConfigs \<Rightarrow> u64 \<Rightarrow> bytes \<Rightarrow> Elf64_Shdr list \<Rightarrow>
     (NetworkMetadata \<times> PlatformInfo) res" where
  "inspect A fits cfg base img hs =
     bindE (getArchSpecificHPI A (archKind cfg)) (\<lambda>a.
     bindE (getELFLibABIVersion a) (\<lambda>libraryVersion.
     bindE (version_of_file img hs NT_GNU_ABI_TAG) (\<lambda>elfVersion.
     bindE (checkVersionCompatibility libraryVersion elfVersion) (\<lambda>_.
     bindE (only_section base img hs VPU_SHT_NETDESC (deserialize_metadata fits)) (\<lambda>m.
     bindE (only_section base img hs VPU_SHT_PLATFORM_INFO (deserialize_platformInfo fits)) (\<lambda>p.
     throw_when (mArchKind p \<noteq> archKind cfg) ArgsError
     (bindE (version_of_file img hs NT_NPU_MPI_VERSION) (\<lambda>miVersion.
      bindE (checkVersionCompatibility
        (if checkValidity (nnVersion cfg) then nnVersion cfg else getStaticMIVersion A a) miVersion) (\<lambda>_.
      bindE (getHardwareTileCount (archKind cfg)) (\<lambda>tiles.
      throw_when (nn_slice_count (mResourceRequirements m) > tiles) ArgsError (Inr (m, p))))))))))))"

definition open_inference ::
    "npu_api \<Rightarrow> (nat \<Rightarrow> bool) \<Rightarrow> bool \<Rightarrow> HPIConfigs \<Rightarrow> u64 \<Rightarrow> bytes \<Rightarrow>
     (user_buffers \<times> NetworkMetadata \<times> PlatformInfo) res" where
  "open_inference A fits hasManager cfg base img =
     throw_unless hasManager ArgsError
     (bindE (parse_image img) (\<lambda>rd.
      bindE (register_headers img rd) (\<lambda>u.
      bindE (inspect A fits cfg base img (mSectionHeaders rd)) (\<lambda>x. Inr (u, x)))))"

section \<open>Comparing a program with a function\<close>

definition refines ::
    "('s, 'a) prog \<Rightarrow> 's \<Rightarrow> 'b res \<Rightarrow> ('b \<Rightarrow> 'a \<Rightarrow> 's \<Rightarrow> bool) \<Rightarrow> bool" where
  "refines m s r Q \<longleftrightarrow>
     (case r of Inl e \<Rightarrow> \<exists>t. m s = (Inl e, t) | Inr v \<Rightarrow> \<exists>x t. m s = (Inr x, t) \<and> Q v x t)"

lemma refines_run: "refines m' s' r Q \<Longrightarrow> m s = m' s' \<Longrightarrow> refines m s r Q"
  by (simp only: refines_def)

lemma refines_bind:
  assumes "refines m s r Q" and "\<And>v x t. Q v x t \<Longrightarrow> refines (f x) t (g v) Q'"
  shows "refines (bindM m f) s (bindE r g) Q'"
  using assms(1)
proof (cases r)
  case (Inl e)
  then show ?thesis using assms(1) by (auto simp: refines_def bindM_def)
next
  case (Inr v)
  then obtain x t where "m s = (Inr x, t)" "Q v x t" using assms(1) by (auto simp: refines_def)
  then show ?thesis using refines_run [OF assms(2)] Inr by (simp add: bindM_Inr)
qed

lemma refines_conseq: "refines m s r Q \<Longrightarrow> (\<And>v x t. Q v x t \<Longrightarrow> Q' v x t) \<Longrightarrow> refines m s r Q'"
  by (fastforce simp: refines_def split: sum.splits)

lemma refines_ret: "Q v x s \<Longrightarrow> refines (retM x) s (Inr v) Q"
  by (simp add: refines_def retM_def)

lemma refines_throw: "refines (throwM e) s (Inl e) Q"
  by (simp add: refines_def throwM_def)

lemma refines_lift: "refines (liftM r) s r (\<lambda>v x t. x = v \<and> t = s)"
  by (cases r) (simp_all add: refines_def liftM_def)

lemma refines_read: "refines (f (g s)) s r Q \<Longrightarrow> refines (bindM (readM g) f) s r Q"
  by (rule refines_run [of "f (g s)" s]) (simp_all add: bindM_readM)

lemma refines_modify: "refines (f ()) (g s) r Q \<Longrightarrow> refines (bindM (modifyM g) f) s r Q"
  by (rule refines_run) (simp_all add: bindM_modifyM)

lemma refines_when: "(\<not> c \<Longrightarrow> refines k s r Q) \<Longrightarrow> refines (throwM_when c e k) s (throw_when c e r) Q"
  by (cases c) (simp_all add: refines_throw)

lemma refines_unless: "(c \<Longrightarrow> refines k s r Q) \<Longrightarrow> refines (throwM_unless c e k) s (throw_unless c e r) Q"
  by (cases c) (simp_all add: refines_throw)

lemma refines_if:
  "(c \<Longrightarrow> refines k s r Q) \<Longrightarrow> (\<not> c \<Longrightarrow> refines l s r' Q) \<Longrightarrow>
    refines (if c then k else l) s (if c then r else r') Q"
  by simp

text \<open>The result of a program does not depend on what follows it.\<close>

lemma bindE_Inr_right: "bindE r Inr = r"
  by (cases r) simp_all

lemma refines_tail:
  "refines m s r Q \<Longrightarrow> (\<And>v x t. Q v x t \<Longrightarrow> refines (f x) t (Inr v) Q') \<Longrightarrow> refines (bindM m f) s r Q'"
  using refines_bind [of m s r Q f Inr Q'] by (simp add: bindE_Inr_right)

lemma refines_mapM:
  assumes "I s"
    and step: "\<And>x s. x \<in> set xs \<Longrightarrow> I s \<Longrightarrow>
      refines (f x) s (g x) (\<lambda>v y t. I t \<and> R v y t \<and> (\<forall>v y. R v y s \<longrightarrow> R v y t))"
  shows "refines (mapM f xs) s (mapE g xs)
    (\<lambda>vs ys t. I t \<and> list_all2 (\<lambda>v y. R v y t) vs ys \<and> (\<forall>v y. R v y s \<longrightarrow> R v y t))"
  using assms
proof (induction xs arbitrary: s)
  case Nil
  then show ?case by (simp add: refines_ret)
next
  case (Cons x xs)
  have 1: "refines (f x) s (g x) (\<lambda>v y t. I t \<and> R v y t \<and> (\<forall>v y. R v y s \<longrightarrow> R v y t))"
    using Cons.prems by simp
  have 2: "refines (mapM f xs) t (mapE g xs)
      (\<lambda>vs ys u. I u \<and> list_all2 (\<lambda>v y. R v y u) vs ys \<and> (\<forall>v y. R v y t \<longrightarrow> R v y u))" if "I t" for t
    using Cons.IH [OF that] Cons.prems(2) by simp
  show ?case
    unfolding mapM.simps mapE.simps
    by (rule refines_bind [OF 1], rule refines_bind [OF 2], blast, rule refines_ret) auto
qed

section \<open>Static buffers over the image\<close>

text \<open>
  The file lies in block \<open>b\<close>, at the address \<open>base\<close>, and the access manager emplaces. \<open>shows_section\<close>:
  a buffer object that is the range of a section.
\<close>

definition image_in :: "nat \<Rightarrow> u64 \<Rightarrow> bytes \<Rightarrow> world \<Rightarrow> bool" where
  "image_in b base img w \<longleftrightarrow> b < length (memory w) \<and> memory w ! b = (base, img)"

definition shows_section :: "nat \<Rightarrow> u64 \<Rightarrow> Elf64_Shdr \<Rightarrow> bref \<Rightarrow> world \<Rightarrow> bool" where
  "shows_section b base h r w \<longleftrightarrow> r < length (objs w) \<and> bufKind (objs w ! r) = StaticBuffer \<and>
     getBuffer r w = DeviceBuffer_make (Ptr b (unat (sh_offset h))) (base + sh_offset h) (sh_size h)"

lemma DeviceBuffer_make_simps:
  "cpu_addr (DeviceBuffer_make p v n) = p" "vpu_addr (DeviceBuffer_make p v n) = v"
  "buf_size (DeviceBuffer_make p v n) = n"
  by (simp_all add: DeviceBuffer_make_def)

text \<open>Between two worlds only static buffers have been made.\<close>

definition only_views :: "world \<Rightarrow> world \<Rightarrow> bool" where
  "only_views w w' \<longleftrightarrow> memory w' = memory w \<and> (\<exists>new. objs w' = objs w @ new)"

lemma only_views_refl: "only_views w w"
  by (simp add: only_views_def)

lemma only_views_trans: "only_views u v \<Longrightarrow> only_views v w \<Longrightarrow> only_views u w"
  by (auto simp: only_views_def)

lemma views_kept:
  "only_views w w' \<Longrightarrow> image_in b base img w \<Longrightarrow> image_in b base img w'"
  "only_views w w' \<Longrightarrow> shows_section b base h r w \<Longrightarrow> shows_section b base h r w'"
  by (auto simp: only_views_def image_in_def shows_section_def getBuffer_def nth_append)

text \<open>Reading the data of a section makes a view.\<close>

lemma refines_getDataBuffer:
  assumes "am = DDRAccessManagerAlways (Ptr b 0) (of_nat (length img))" and "image_in b base img w"
    and "hasMemoryFootprint (sh_type (rs_header s))"
  shows "refines (getDataBuffer E am c s) w (open_section img (rs_header s))
    (\<lambda>h r w'. only_views w w' \<and> (\<exists>i. r = Some i \<and> shows_section b base h i w'))"
proof -
  let ?h = "rs_header s"
  have "refines (readInternal E am (sh_offset ?h) specs) w (open_section img ?h)
      (\<lambda>h r w'. only_views w w' \<and> shows_section b base h r w')" if "sz specs = sh_size ?h" for specs
    unfolding assms(1) readInternal.simps open_section_def that
    by (rule refines_when)
      (use assms(2) that in \<open>simp add: refines_def getEmplacedBuffer_def newStaticBuffer_def newObj_def
         only_views_def shows_section_def getBuffer_def image_in_def\<close>)
  then have "refines (readInternal E am (sh_offset ?h) (BufferSpecs_make (sh_addralign ?h) (sh_size ?h)
        (if c then 0 else sh_flags ?h))) w (open_section img ?h)
      (\<lambda>h r w'. only_views w w' \<and> shows_section b base h r w')"
    by (simp add: BufferSpecs_make_def)
  then show ?thesis
    using assms(3) unfolding getDataBuffer_def Let_def hasMemoryFootprint_def
    by (simp add: refines_tail refines_ret)
qed

lemma refines_read_cell:
  assumes "image_in b base img w" and "0 < n"
  shows "refines (bindM (readM memory) (\<lambda>m. liftM (read_mem (Ptr b off) n m))) w (cell img off n)
    (\<lambda>v x t. x = v \<and> t = w)"
  by (rule refines_read)
    (use assms in \<open>auto simp: refines_def liftM_def read_mem_def cell_def image_in_def split: sum.splits\<close>)

section \<open>Registering the sections\<close>

lemma refines_in_world:
  "refines m (wld s) r Q \<Longrightarrow> refines (in_world m) s r (\<lambda>v x t. \<exists>w. t = s\<lparr>wld := w\<rparr> \<and> Q v x w)"
  by (auto simp: refines_def in_world_def zoomM_def split: sum.splits)

lemma refines_for:
  assumes "length xs = n" and "P 0 u s"
    and "\<And>i u s. i < n \<Longrightarrow> P i u s \<Longrightarrow> refines (f i) s (g (xs ! i) u) (\<lambda>u' _ t. P (Suc i) u' t)"
  shows "refines (forM f [0..<n]) s (foldE g xs u) (\<lambda>u' _ t. P n u' t)"
proof -
  have "refines (forM f [i..<n]) s (foldE g (drop i xs) u) (\<lambda>u' _ t. P n u' t)" if "P i u s" "i \<le> n" for i u s
    using that
  proof (induction "n - i" arbitrary: i u s)
    case 0
    then show ?case using assms(1) by (simp add: refines_ret)
  next
    case (Suc k)
    then have i: "i < n" by simp
    then have "drop i xs = xs ! i # drop (Suc i) xs" using assms(1) by (simp add: Cons_nth_drop_Suc)
    then show ?case
      using i Suc by (auto simp: upt_conv_Cons intro!: refines_bind [OF assms(3) [OF i Suc.prems(1)]])
  qed
  from this [of 0 u s] show ?thesis using assms(2) by simp
qed

text \<open>The reader of a state: its tables, and a cache whose sections have no data yet.\<close>

definition tabled :: "Elf64_Shdr list \<Rightarrow> bytes \<Rightarrow> LoaderShared \<Rightarrow> bool" where
  "tabled hs names sh \<longleftrightarrow>
     (let rd = m_reader sh
      in mSectionHeaders rd = hs \<and> mSectionNames rd = names \<and> unat (e_shnum (mElfHeader rd)) = length hs \<and>
         (\<forall>j sec. mSectionsCache rd j = Some sec \<longrightarrow> rs_header sec = hs ! j \<and> rs_dataBuffer sec = None))"

definition with_cache :: "(nat \<Rightarrow> RSection option) \<Rightarrow> LoaderShared \<Rightarrow> LoaderShared" where
  "with_cache c sh = sh\<lparr>m_reader := (m_reader sh)\<lparr>mSectionsCache := c\<rparr>\<rparr>"

definition cached :: "LoaderShared \<Rightarrow> nat \<Rightarrow> bool" where
  "cached sh i \<longleftrightarrow> mSectionsCache (m_reader sh) i \<noteq> None"

text \<open>A section that has been cached before comes without a check, and nothing changes.\<close>

lemma refines_sectionAt:
  assumes "tabled hs names (shd s)" and "i < length hs"
    and "cached (shd s) i \<Longrightarrow> unat (sh_name (hs ! i)) < length names"
  shows "refines (sectionAt i) s
    (throw_when (length names \<le> unat (sh_name (hs ! i))) UndefinedBehaviour (Inr (hs ! i)))
    (\<lambda>h sec t. rs_header sec = h \<and> rs_dataBuffer sec = None \<and>
       (\<exists>c. t = s\<lparr>shd := with_cache c (shd s)\<rparr> \<and> tabled hs names (shd t) \<and> cached (shd t) i \<and>
          (\<forall>j. cached (shd s) j \<longrightarrow> cached (shd t) j) \<and> (\<forall>j. j \<noteq> i \<and> cached (shd t) j \<longrightarrow> cached (shd s) j) \<and>
          (cached (shd s) i \<longrightarrow> t = s)))"
proof (cases "mSectionsCache (m_reader (shd s)) i")
  case (Some sec)
  then have "cached (shd s) i" by (simp add: cached_def)
  moreover have "sectionAt i s = (Inr sec, s)"
    using Some assms(1,2)
    by (simp add: sectionAt_def in_reader_def zoomM_def sectionM_def getSection_def tabled_def Let_def)
  moreover have "s = s\<lparr>shd := with_cache (mSectionsCache (m_reader (shd s))) (shd s)\<rparr>"
    by (simp add: with_cache_def)
  ultimately show ?thesis
    using assms Some
    by (auto simp: refines_def tabled_def Let_def throw_when_def intro!: exI [of _ "mSectionsCache (m_reader (shd s))"])
next
  case None
  then show ?thesis
    using assms
    by (auto simp: refines_def sectionAt_def in_reader_def zoomM_def sectionM_def getSection_def tabled_def Let_def
        throw_when_def with_cache_def cached_def)
qed

lemma refines_symbol_of:
  assumes "image_in b base img (wld s)"
  shows "refines (symbol_of (Ptr b off) i) s (bindE (cell img (off + 24 * i) 24) (\<lambda>bs. Inr (dec_Elf64_Sym bs)))
    (\<lambda>v x t. x = v \<and> t = s)"
  unfolding symbol_of_def read_at_def ptr_add.simps
  by (rule refines_bind [OF refines_in_world [OF refines_read_cell [OF assms]]]) (auto intro: refines_ret)

lemma refines_registerUserIO:
  assumes "image_in b base img (wld s)"
  shows "refines (registerUserIO (Ptr b off) n ds) s
    (if n \<le> 1 then Inr ds
     else mapE (\<lambda>i. bindE (cell img (off + 24 * i) 24) (\<lambda>bs. Inr (DeviceBuffer_make Null 0 (st_size (dec_Elf64_Sym bs))))) [1..<n])
    (\<lambda>v x t. x = v \<and> t = s)"
proof -
  have one: "refines (bindM (symbol_of (Ptr b off) i) (\<lambda>s. retM (DeviceBuffer_make Null 0 (st_size s)))) t
      (bindE (cell img (off + 24 * i) 24) (\<lambda>bs. Inr (DeviceBuffer_make Null 0 (st_size (dec_Elf64_Sym bs)))))
      (\<lambda>v x u. u = s \<and> x = v \<and> (\<forall>v' x'. x' = v' \<longrightarrow> x' = v'))" if "t = s" for i t
  proof -
    have "refines (bindM (symbol_of (Ptr b off) i) (\<lambda>s. retM (DeviceBuffer_make Null 0 (st_size s)))) s
        (bindE (bindE (cell img (off + 24 * i) 24) (\<lambda>bs. Inr (dec_Elf64_Sym bs)))
          (\<lambda>y. Inr (DeviceBuffer_make Null 0 (st_size y)))) (\<lambda>v x u. u = s \<and> x = v)"
      by (rule refines_bind [OF refines_symbol_of [OF assms]]) (auto intro: refines_ret)
    then show ?thesis using that by (simp add: bindE_assoc)
  qed
  have "refines (mapM (\<lambda>i. bindM (symbol_of (Ptr b off) i) (\<lambda>s. retM (DeviceBuffer_make Null 0 (st_size s)))) [1..<n]) s
      (mapE (\<lambda>i. bindE (cell img (off + 24 * i) 24) (\<lambda>bs. Inr (DeviceBuffer_make Null 0 (st_size (dec_Elf64_Sym bs))))) [1..<n])
      (\<lambda>v x t. x = v \<and> t = s)"
  proof (rule refines_conseq [OF refines_mapM [where I = "\<lambda>t. t = s" and R = "\<lambda>v x t. x = v", OF refl one]])
    fix vs ys t
    assume "t = s \<and> list_all2 (\<lambda>v y. y = v) vs ys \<and> (\<forall>v y. y = v \<longrightarrow> y = v)"
    then show "ys = vs \<and> t = s" by (auto simp: list_all2_conv_all_nth list_eq_iff_nth_eq)
  qed
  then show ?thesis unfolding registerUserIO_def by (simp add: refines_ret)
qed

lemma refines_getData:
  assumes "am = DDRAccessManagerAlways (Ptr b 0) (of_nat (length img))" and "image_in b base img w"
    and "hasMemoryFootprint (sh_type (rs_header s))" and "rs_dataBuffer s = None"
  shows "refines (getData E am s) w (open_section img (rs_header s))
    (\<lambda>h x w'. only_views w w' \<and> fst x = Ptr b (unat (sh_offset h)))"
  unfolding getData_def assms(4) option.case
  by (rule refines_tail [OF refines_getDataBuffer [OF assms(1-3)]])
    (auto simp: refines_def bindM_def deref_def readM_def shows_section_def DeviceBuffer_make_def)

lemma open_section_Inr: "open_section img h = Inr h' \<longleftrightarrow> h' = h \<and> \<not> sh_offset h + sh_size h > of_nat (length img)"
  by (auto simp: open_section_def throw_when_def)

lemma refines_guard: "refines m s r Q \<Longrightarrow> refines m s r (\<lambda>v x t. r = Inr v \<and> Q v x t)"
  by (auto simp: refines_def split: sum.splits)

lemma refines_fetchIO:
  assumes "le_am L = DDRAccessManagerAlways (Ptr b 0) (of_nat (length img))" and "image_in b base img (wld s)"
    and "rs_header sec = h" "rs_dataBuffer sec = None" "hasMemoryFootprint (sh_type h)"
  shows "refines (fetchIO L sec ds) s (user_symbols img h ds)
    (\<lambda>v x t. x = v \<and> (\<exists>w. t = s\<lparr>wld := w\<rparr> \<and> only_views (wld s) w))"
proof -
  have m: "hasMemoryFootprint (sh_type (rs_header sec))" using assms(3,5) by simp
  note g = refines_getData [OF assms(1,2) m assms(4), unfolded assms(3), of "le_env L"]
  let ?sizes = "if unat (sh_size h div sh_entsize h) \<le> 1 then Inr ds
    else mapE (\<lambda>i. bindE (cell img (unat (sh_offset h) + 24 * i) 24) (\<lambda>bs.
      Inr (DeviceBuffer_make Null 0 (st_size (dec_Elf64_Sym bs))))) [1..<unat (sh_size h div sh_entsize h)]"
  have n: "refines (bindM (liftM (getEntriesNum sec)) (\<lambda>n. registerUserIO p n ds)) t
      (throw_unless (sh_entsize h \<noteq> 0) SectionError ?sizes) (\<lambda>v x u. x = v \<and> u = t)"
    if "p = Ptr b (unat (sh_offset h))" "t = s\<lparr>wld := w\<rparr>" "only_views (wld s) w" for p t w
  proof -
    have img: "image_in b base img (wld t)" using that(2,3) views_kept(1) [OF _ assms(2)] by simp
    note r = refines_registerUserIO [OF img, of "unat (sh_offset h)" "unat (sh_size h div sh_entsize h)" ds]
    show ?thesis
    proof (cases "sh_entsize h = 0")
      case True
      then show ?thesis by (simp add: getEntriesNum_def assms(3) refines_def bindM_liftM)
    next
      case False
      then show ?thesis
        using r that(1)
        by (intro refines_run [OF _ bindM_Inr]) (simp_all add: getEntriesNum_def assms(3) liftM_def)
    qed
  qed
  show ?thesis
    unfolding fetchIO_def user_symbols_def Let_def case_prod_beta
  proof (rule refines_when, rule refines_bind [OF refines_in_world [OF refines_guard [OF g]]])
    fix v x t
    assume "\<exists>w. t = s\<lparr>wld := w\<rparr> \<and> open_section img h = Inr v \<and> only_views (wld s) w \<and>
      fst x = Ptr b (unat (sh_offset v))"
    then obtain w where w: "fst x = Ptr b (unat (sh_offset h))" "t = s\<lparr>wld := w\<rparr>" "only_views (wld s) w"
      by (auto simp: open_section_Inr)
    show "refines (bindM (liftM (getEntriesNum sec)) (\<lambda>n. registerUserIO (fst x) n ds)) t
        (throw_unless (sh_entsize h \<noteq> 0) SectionError ?sizes)
        (\<lambda>v x t. x = v \<and> (\<exists>w. t = s\<lparr>wld := w\<rparr> \<and> only_views (wld s) w))"
      by (rule refines_conseq [OF n [OF w]]) (use w in auto)
  qed
qed

text \<open>The buffers of the user in the shared part of a loader.\<close>

definition user_of :: "LoaderShared \<Rightarrow> user_buffers" where
  "user_of sh = \<lparr>ub_inputs = m_userInputsDescriptors sh, ub_outputs = m_userOutputsDescriptors sh,
     ub_profiling = m_profOutputsDescriptors sh\<rparr>"

lemma user_of_simps:
  "user_of (with_cache c sh) = user_of sh" "user_of (m_sectionMap_update f sh) = user_of sh"
  by (simp_all add: user_of_def with_cache_def)

definition io_step :: "lstate \<Rightarrow> user_buffers \<Rightarrow> lstate \<Rightarrow> bool" where
  "io_step s u t \<longleftrightarrow> ldr t = ldr s \<and> only_views (wld s) (wld t) \<and> user_of (shd t) = u \<and>
     m_reader (shd t) = m_reader (shd s) \<and> m_sectionMap (shd t) = m_sectionMap (shd s)"

lemma refines_earlyFetchIO:
  assumes "le_am L = DDRAccessManagerAlways (Ptr b 0) (of_nat (length img))" and "image_in b base img (wld s)"
    and "rs_header sec = h" "rs_dataBuffer sec = None" "hasMemoryFootprint (sh_type h)" and u: "user_of (shd s) = u"
  shows "refines (earlyFetchIO L sec) s (user_io_of img h u) (\<lambda>v _ t. io_step s v t)"
proof -
  note f = refines_fetchIO [OF assms(1-5)]
  have put: "refines (bindM (readM get) (\<lambda>d. bindM (fetchIO L sec d) (\<lambda>d'. on_shd (upd d')))) s
      (bindE (user_symbols img h (get s)) (\<lambda>d. Inr (g d))) (\<lambda>v _ t. io_step s v t)"
    if "\<And>d sh. user_of sh = u \<Longrightarrow> user_of (upd d sh) = g d \<and> m_reader (upd d sh) = m_reader sh \<and> m_sectionMap (upd d sh) = m_sectionMap sh"
    for get upd g
    by (rule refines_read, rule refines_bind [OF f])
      (use that u in \<open>auto simp: refines_def on_shd_def modifyM_def io_step_def\<close>)
  have ret: "refines (retM ()) s (Inr u) (\<lambda>v _ t. io_step s v t)"
    by (rule refines_ret) (simp add: io_step_def only_views_refl u)
  have get: "m_userInputsDescriptors (shd s) = ub_inputs u" "m_userOutputsDescriptors (shd s) = ub_outputs u"
    "m_profOutputsDescriptors (shd s) = ub_profiling u"
    using u by (auto simp: user_of_def)
  note p1 = put [where get = "\<lambda>s. m_userInputsDescriptors (shd s)" and upd = "\<lambda>d. m_userInputsDescriptors_update (\<lambda>_. d)"
      and g = "\<lambda>d. u\<lparr>ub_inputs := d\<rparr>", unfolded get]
  note p2 = put [where get = "\<lambda>s. m_userOutputsDescriptors (shd s)" and upd = "\<lambda>d. m_userOutputsDescriptors_update (\<lambda>_. d)"
      and g = "\<lambda>d. u\<lparr>ub_outputs := d\<rparr>", unfolded get]
  note p3 = put [where get = "\<lambda>s. m_profOutputsDescriptors (shd s)" and upd = "\<lambda>d. m_profOutputsDescriptors_update (\<lambda>_. d)"
      and g = "\<lambda>d. u\<lparr>ub_profiling := d\<rparr>", unfolded get]
  show ?thesis
    unfolding earlyFetchIO_def user_io_of_def Let_def assms(3)
    by (intro refines_if p1 p2 p3 ret) (auto simp: user_of_def)
qed

text \<open>The sections of each type, by their indexes; and a state in which the first \<open>i\<close> are registered.\<close>

definition type_map :: "Elf64_Shdr list \<Rightarrow> u32 \<Rightarrow> nat list option" where
  "type_map hs type =
     (let is = filter (\<lambda>j. sh_type (hs ! j) = type) [0..<length hs] in if is = [] then None else Some is)"

lemma type_map_take:
  assumes "i < length hs"
  shows "type_map (take (Suc i) hs) = (type_map (take i hs))(sh_type (hs ! i) \<mapsto>
    (case type_map (take i hs) (sh_type (hs ! i)) of None \<Rightarrow> [] | Some is \<Rightarrow> is) @ [i])"
proof -
  have "filter (\<lambda>j. sh_type (take (Suc i) hs ! j) = t) [0..<i] = filter (\<lambda>j. sh_type (take i hs ! j) = t) [0..<i]" for t
    by (rule filter_cong) simp_all
  moreover have "length (take (Suc i) hs) = Suc i" "length (take i hs) = i" using assms by simp_all
  ultimately show ?thesis unfolding type_map_def Let_def by (intro ext) simp
qed

definition registering ::
    "VPUXLoader \<Rightarrow> world \<Rightarrow> Elf64_Shdr list \<Rightarrow> bytes \<Rightarrow> nat \<Rightarrow> user_buffers \<Rightarrow> lstate \<Rightarrow> bool" where
  "registering l w hs names i u s \<longleftrightarrow>
     ldr s = l \<and> only_views w (wld s) \<and> tabled hs names (shd s) \<and> user_of (shd s) = u \<and>
     (\<forall>j. cached (shd s) j \<longleftrightarrow> j < i) \<and> (\<forall>j < i. unat (sh_name (hs ! j)) < length names) \<and>
     m_sectionMap (shd s) = type_map (take i hs)"

lemma user_io_has_data: "actionMap type = Some RegisterUserIO \<Longrightarrow> hasMemoryFootprint type"
  by (auto simp: actionMap_def hasMemoryFootprint_def elf_consts split: if_splits)

lemma refines_registerSection:
  assumes am: "le_am L = DDRAccessManagerAlways (Ptr b 0) (of_nat (length img))" and img: "image_in b base img w"
    and i: "i < length hs" and P: "registering l w hs names i u s"
  shows "refines (registerSection L i) s (register_header img names (hs ! i) u)
    (\<lambda>u' _ t. registering l w hs names (Suc i) u' t)"
proof -
  let ?h = "hs ! i"
  let ?r = "throw_when (length names \<le> unat (sh_name ?h)) UndefinedBehaviour (Inr ?h)"
  let ?k = "case actionMap (sh_type ?h) of None \<Rightarrow> Inl UndefinedBehaviour
    | Some a \<Rightarrow> if a = RegisterUserIO then user_io_of img ?h u else Inr u"
  have spec: "register_header img names ?h u = bindE ?r (\<lambda>_. ?k)"
    by (simp add: register_header_def throw_when_def)
  have tab: "tabled hs names (shd s)" and new: "\<not> cached (shd s) i" using P by (auto simp: registering_def)
  show ?thesis
    unfolding registerSection_def Let_def spec
  proof (rule refines_bind [OF refines_guard [OF refines_sectionAt [OF tab i]]])
    show "unat (sh_name ?h) < length names" if "cached (shd s) i" using that new by simp
  next
    fix v t and sec :: RSection
    assume "?r = Inr v \<and> rs_header sec = v \<and> rs_dataBuffer sec = None \<and>
       (\<exists>c. t = s\<lparr>shd := with_cache c (shd s)\<rparr> \<and> tabled hs names (shd t) \<and> cached (shd t) i \<and>
          (\<forall>j. cached (shd s) j \<longrightarrow> cached (shd t) j) \<and> (\<forall>j. j \<noteq> i \<and> cached (shd t) j \<longrightarrow> cached (shd s) j) \<and>
          (cached (shd s) i \<longrightarrow> t = s))"
    then obtain c where "?r = Inr v" "rs_header sec = v" and sec': "rs_dataBuffer sec = None"
      and t12: "t = s\<lparr>shd := with_cache c (shd s)\<rparr>" "tabled hs names (shd t)" and ci: "cached (shd t) i"
        "\<forall>j. cached (shd s) j \<longrightarrow> cached (shd t) j" "\<forall>j. j \<noteq> i \<and> cached (shd t) j \<longrightarrow> cached (shd s) j"
      by (elim conjE exE)
    then have sec: "rs_header sec = ?h" "rs_dataBuffer sec = None" and nm: "unat (sh_name ?h) < length names"
      by (auto simp: throw_when_def split: if_splits)
    have "cached (shd t) j \<longleftrightarrow> j < i \<or> j = i" for j
      using ci P unfolding registering_def by blast
    note t = t12 this
    let ?f = "m_sectionMap_update (\<lambda>m. m(sh_type ?h \<mapsto> (case m (sh_type ?h) of None \<Rightarrow> [] | Some is \<Rightarrow> is) @ [i]))"
    let ?t = "t\<lparr>shd := ?f (shd t)\<rparr>"
    have map: "m_sectionMap (shd ?t) = type_map (take (Suc i) hs)"
      using P by (simp add: t(1) with_cache_def registering_def type_map_take [OF i])
    have tab': "tabled hs names (shd ?t)" using t(2) by (simp add: tabled_def)
    have ca: "cached (shd ?t) j \<longleftrightarrow> j < Suc i" for j using t(3) [of j] by (auto simp: cached_def)
    have rest: "registering l w hs names (Suc i) u' v" if "io_step ?t u' v" for u' v
    proof -
      have "tabled hs names (shd v)" "\<And>j. cached (shd v) j \<longleftrightarrow> j < Suc i"
        using that tab' ca by (simp_all add: io_step_def tabled_def cached_def)
      moreover have "only_views w (wld v)"
        using that P only_views_trans by (auto simp: io_step_def t(1) registering_def)
      ultimately show ?thesis
        using that map P nm by (auto simp: io_step_def registering_def t(1) less_Suc_eq)
    qed
    have u: "user_of (shd ?t) = u" using P by (simp add: t(1) user_of_simps registering_def)
    have img': "image_in b base img (wld ?t)" using P views_kept(1) [OF _ img] by (simp add: t(1) registering_def)
    have "refines (case actionMap (sh_type ?h) of None \<Rightarrow> throwM UndefinedBehaviour
        | Some a \<Rightarrow> if a = RegisterUserIO then earlyFetchIO L sec else retM ()) ?t ?k
        (\<lambda>u' _ t. registering l w hs names (Suc i) u' t)"
    proof (cases "actionMap (sh_type ?h)")
      case None
      then show ?thesis by (simp add: refines_throw)
    next
      case (Some a)
      note io = refines_conseq [OF refines_earlyFetchIO [OF am img' sec _ u] rest]
      have "io_step ?t u ?t" using u by (simp add: io_step_def only_views_refl)
      then have ret: "refines (retM ()) ?t (Inr u) (\<lambda>u' _ t. registering l w hs names (Suc i) u' t)"
        by (intro refines_ret rest)
      show ?thesis
        unfolding Some option.case
        by (rule refines_if [OF io ret]) (use Some user_io_has_data in simp_all)
    qed
    then show "refines (bindM (on_shd (m_sectionMap_update (\<lambda>m. m(sh_type (rs_header sec) \<mapsto>
          (case m (sh_type (rs_header sec)) of None \<Rightarrow> [] | Some is \<Rightarrow> is) @ [i])))) (\<lambda>_.
        case actionMap (sh_type (rs_header sec)) of None \<Rightarrow> throwM UndefinedBehaviour
        | Some a \<Rightarrow> if a = RegisterUserIO then earlyFetchIO L sec else retM ())) t ?k
        (\<lambda>u' _ t. registering l w hs names (Suc i) u' t)"
      unfolding on_shd_def sec(1) by (rule refines_modify)
  qed
qed

text \<open>The state of a new loader, once all sections are registered.\<close>

definition registered_map :: "Elf64_Shdr list \<Rightarrow> u32 \<Rightarrow> nat list option" where
  "registered_map hs type =
     (if type = VPU_SHT_PERF_METRICS \<and> type_map hs type = None then Some [] else type_map hs type)"

definition opened :: "world \<Rightarrow> Elf64_Shdr list \<Rightarrow> bytes \<Rightarrow> user_buffers \<Rightarrow> LoaderShared \<Rightarrow> world \<Rightarrow> bool" where
  "opened w hs names u sh w' \<longleftrightarrow>
     only_views w w' \<and> tabled hs names sh \<and> user_of sh = u \<and>
     (\<forall>j < length hs. cached sh j \<and> unat (sh_name (hs ! j)) < length names) \<and>
     m_sectionMap sh = registered_map hs"

lemma refines_registerSections:
  assumes am: "le_am L = DDRAccessManagerAlways (Ptr b 0) (of_nat (length img))" and img: "image_in b base img w"
    and rd: "parse_image img = Inr rd"
  shows "refines (registerSections L) \<lparr>ldr = l, shd = newShared rd, wld = w\<rparr> (register_headers img rd)
    (\<lambda>u _ t. ldr t = l \<and> opened w (mSectionHeaders rd) (mSectionNames rd) u (shd t) (wld t))"
proof -
  let ?s = "\<lparr>ldr = l, shd = newShared rd, wld = w\<rparr>"
  let ?hs = "mSectionHeaders rd" and ?names = "mSectionNames rd"
  let ?u = "\<lparr>ub_inputs = [], ub_outputs = [], ub_profiling = []\<rparr>"
  have len: "unat (e_shnum (mElfHeader rd)) = length ?hs" and ca: "mSectionsCache rd = (\<lambda>_. None)"
    using rd reader_ok_new [OF rd] by (auto simp: reader_ok_def parse_image_def bindE_Inr_iff Let_def)
  have "type_map [] = (\<lambda>_. None)" by (intro ext) (simp add: type_map_def)
  then have start: "registering l w ?hs ?names 0 ?u ?s"
    by (simp add: registering_def only_views_refl tabled_def newShared_def Let_def len ca user_of_def cached_def)
  have num: "refines sectionsNum ?s (throw_when (length ?hs > 0xfffe) ArgsError (Inr (length ?hs)))
      (\<lambda>v x t. v = length ?hs \<and> x = length ?hs \<and> t = ?s)"
    unfolding sectionsNum_def
    by (rule refines_read)
      (simp add: refines_def liftM_def getSectionsNum_def newShared_def throw_when_def len [symmetric] word_less_nat_alt)
  have loop: "refines (forM (registerSection L) [0..<length ?hs]) ?s
      (foldE (register_header img ?names) ?hs ?u) (\<lambda>u _ t. registering l w ?hs ?names (length ?hs) u t)"
    by (rule refines_for [OF refl start refines_registerSection [OF am img]])
  have perf: "refines registerPerfMetrics s (Inr u)
      (\<lambda>u _ t. ldr t = l \<and> opened w ?hs ?names u (shd t) (wld t))"
    if "registering l w ?hs ?names (length ?hs) u s" for u s
    using that
    by (auto simp: refines_def registerPerfMetrics_def on_shd_def modifyM_def registering_def opened_def
        user_of_simps tabled_def cached_def registered_map_def fun_eq_iff)
  have spec: "register_headers img rd = bindE (throw_when (length ?hs > 0xfffe) ArgsError (Inr (length ?hs)))
      (\<lambda>_. foldE (register_header img ?names) ?hs ?u)"
    by (simp add: register_headers_def throw_when_def)
  show ?thesis
    unfolding registerSections_def spec
  proof (rule refines_bind [OF num])
    fix v x t
    assume "v = length ?hs \<and> x = length ?hs \<and> t = ?s"
    then show "refines (bindM (forM (registerSection L) [0..<x]) (\<lambda>_. registerPerfMetrics)) t
        (foldE (register_header img ?names) ?hs ?u)
        (\<lambda>u _ t. ldr t = l \<and> opened w ?hs ?names u (shd t) (wld t))"
      using refines_tail [OF loop perf] by simp
  qed
qed

section \<open>The new loader\<close>

text \<open>The reader's own copies do not touch the image.\<close>

definition image_stays :: "nat \<Rightarrow> u64 \<Rightarrow> bytes \<Rightarrow> world \<Rightarrow> elf_error option \<Rightarrow> world \<Rightarrow> bool" where
  "image_stays b base img w x w' \<longleftrightarrow> (image_in b base img w \<longrightarrow> image_in b base img w')"

interpretation image_stays: state_relation "image_stays b base img"
  by unfold_locales (simp_all add: image_stays_def)

lemma image_stays_readMember:
  assumes "is_ddr p n am"
  shows "relates (image_stays b base img) (readMember E am off k)"
proof (rule relatesI)
  fix w x w'
  assume run: "readMember E am off k w = (x, w')"
  let ?q = "Ptr (length (memory w)) 0"
  define w0 where "w0 = w\<lparr>memory := memory w @ [(0, replicate k 0)], objs := objs w @
    [\<lparr>bufKind = StaticBuffer, mDevBuffer = DeviceBuffer_make ?q
        (ptr_value (memory w @ [(0, replicate k 0)]) ?q) (of_nat k),
       mBufferSpecs = BufferSpecs_make 0 (of_nat k) 0\<rparr>]\<rparr>"
  from run obtain y where y: "readExternal_DDR E p n off (length (objs w)) w0 = (y, w')"
    by (auto simp: readMember_def modifyM_def readExternal_ddr [OF assms(1)] newStaticBuffer_def
        newObj_def bindM_def w0_def BufferSpecs_make_def liftM_def readM_def split: prod.splits sum.splits)
  have st: "getBuffer (length (objs w)) w0 = DeviceBuffer_make ?q (ptr_value (memory w @ [(0, replicate k 0)]) ?q) (of_nat k)"
    "bufKind (objs w0 ! length (objs w)) = StaticBuffer"
    by (simp_all add: w0_def getBuffer_def)
  have "memory w' = memory w0 \<or> (\<exists>bs. memory w' = poke (memory w0) ?q bs)"
    using y st
    by (auto simp: readExternal_DDR_def bindM_def readM_def throwM_when_def throwM_def withLock_def lock_def
        unlock_def finallyM_def memcpyM_def memcpy_mem_def DeviceBuffer_make_def simp del: poke.simps
        split: if_splits sum.splits prod.splits)
  then have "length (memory w) \<le> length (memory w') \<and> (\<forall>i < length (memory w). memory w' ! i = memory w ! i)"
    by (auto simp: w0_def nth_append)
  then show "image_stays b base img w (outcome x) w'" by (auto simp: image_stays_def image_in_def)
qed

lemma image_stays_Reader_new: "is_ddr p n am \<Longrightarrow> relates (image_stays b base img) (Reader_new E (Some am))"
  unfolding Reader_new_def readSectionNames_def option.case Let_def
  by (intro image_stays.rel_rules image_stays_readMember)

definition open_loader :: "bool \<Rightarrow> bytes \<Rightarrow> (Reader \<times> user_buffers) res" where
  "open_loader hasManager img =
     throw_unless hasManager ArgsError
     (bindE (parse_image img) (\<lambda>rd. bindE (register_headers img rd) (\<lambda>u. Inr (rd, u))))"

lemma refines_loader:
  assumes am: "le_am L = DDRAccessManagerAlways (Ptr b 0) (of_nat (length img))" and img: "image_in b base img w"
    and len: "length img < 2 ^ 64" and nw: "image_no_wrap img"
  shows "refines (VPUXLoader_new L hasManager override0 explicit0) w (open_loader hasManager img)
    (\<lambda>(rd, u) (l, sh) w'. l = newLoader hasManager override0 explicit0 \<and> image_in b base img w' \<and>
       opened w' (mSectionHeaders rd) (mSectionNames rd) u sh w')"
proof (cases hasManager)
  case False
  then show ?thesis by (simp add: refines_def open_loader_def VPUXLoader_new_def throwM_def)
next
  case True
  have ddr: "is_ddr (Ptr b 0) (of_nat (length img)) (le_am L)" by (simp add: am)
  have holds: "holds_image (Ptr b 0) img w" using img by (auto simp: holds_image_def image_in_def bslice_def)
  obtain w1 where w1: "Reader_new (le_env L) (Some (le_am L)) w = (parse_image img, w1)"
    by (rule Reader_new_ddr [OF ddr len holds nw])
  have img1: "image_in b base img w1"
    using relatesD [OF image_stays_Reader_new [OF ddr] w1] img by (simp add: image_stays_def)
  show ?thesis
  proof (cases "parse_image img")
    case (Inl e)
    then show ?thesis using w1 True by (simp add: refines_def open_loader_def VPUXLoader_new_def)
  next
    case (Inr rd)
    let ?l = "newLoader hasManager override0 explicit0"
    have r: "refines (registerSections L) \<lparr>ldr = ?l, shd = newShared rd, wld = w1\<rparr> (register_headers img rd)
        (\<lambda>u _ t. ldr t = ?l \<and> opened w1 (mSectionHeaders rd) (mSectionNames rd) u (shd t) (wld t))"
      by (rule refines_registerSections [OF am img1 Inr])
    show ?thesis
    proof (cases "register_headers img rd")
      case e: (Inl e)
      then obtain t where "registerSections L \<lparr>ldr = ?l, shd = newShared rd, wld = w1\<rparr> = (Inl e, t)"
        using r by (auto simp: refines_def)
      then show ?thesis using w1 True Inr e by (simp add: refines_def open_loader_def VPUXLoader_new_def)
    next
      case u: (Inr u)
      then obtain t where t: "registerSections L \<lparr>ldr = ?l, shd = newShared rd, wld = w1\<rparr> = (Inr (), t)"
        "ldr t = ?l" "opened w1 (mSectionHeaders rd) (mSectionNames rd) u (shd t) (wld t)"
        using r by (auto simp: refines_def)
      have "image_in b base img (wld t)" "opened (wld t) (mSectionHeaders rd) (mSectionNames rd) u (shd t) (wld t)"
        using t(3) views_kept(1) [OF _ img1] only_views_refl by (auto simp: opened_def)
      then show ?thesis
        using t w1 True Inr u by (simp add: refines_def open_loader_def VPUXLoader_new_def)
    qed
  qed
qed

end
