(* ===== verification/Elf_Image_Hpi.thy ===== *)
theory Elf_Image_Hpi imports Elf_Image begin

text \<open>
  The host parsed inference over an emplacing access manager: its constructor computes
  \<open>open_inference\<close>.
\<close>

section \<open>Sections of a type\<close>

definition views_only :: "hstate \<Rightarrow> hstate \<Rightarrow> bool" where
  "views_only h t \<longleftrightarrow> hpi t = hpi h \<and> shareds t = shareds h \<and> only_views (hwld h) (hwld t)"

lemma views_only_refl: "views_only h h"
  by (simp add: views_only_def only_views_refl)

lemma views_only_trans: "views_only g h \<Longrightarrow> views_only h t \<Longrightarrow> views_only g t"
  using only_views_trans by (auto simp: views_only_def)

text \<open>An inference with one loader, in front of the image.\<close>

definition ready ::
    "henv \<Rightarrow> nat \<Rightarrow> u64 \<Rightarrow> bytes \<Rightarrow> VPUXLoader \<Rightarrow> nat \<Rightarrow> Elf64_Shdr list \<Rightarrow> hstate \<Rightarrow> bool" where
  "ready H b base img l n hs h \<longleftrightarrow>
     le_am (he_lenv H) = DDRAccessManagerAlways (Ptr b 0) (of_nat (length img)) \<and>
     image_in b base img (hwld h) \<and> loaders (hpi h) = [(l, n)] \<and> n < length (shareds h) \<and>
     (\<exists>names u. opened (hwld h) hs names u (shareds h ! n) (hwld h))"

lemma ready_views: "ready H b base img l n hs h \<Longrightarrow> views_only h t \<Longrightarrow> ready H b base img l n hs t"
  using views_kept(1) by (auto simp: ready_def views_only_def opened_def only_views_refl)

lemma ready_members:
  "loaders i = loaders (hpi h) \<Longrightarrow> ready H b base img l n hs (h\<lparr>hpi := i\<rparr>) = ready H b base img l n hs h"
  by (simp add: ready_def)

definition section_ref :: "nat \<Rightarrow> u64 \<Rightarrow> Elf64_Shdr \<Rightarrow> bref option \<Rightarrow> world \<Rightarrow> bool" where
  "section_ref b base h r w \<longleftrightarrow> (\<exists>i. r = Some i \<and> shows_section b base h i w)"

lemma section_ref_kept: "only_views w w' \<Longrightarrow> section_ref b base h r w \<Longrightarrow> section_ref b base h r w'"
  using views_kept(2) by (auto simp: section_ref_def)

lemma refines_sectionBuffer:
  assumes am: "le_am L = DDRAccessManagerAlways (Ptr b 0) (of_nat (length img))" and img: "image_in b base img (wld s)"
    and o: "opened w0 hs names u (shd s) w1" and i: "i < length hs" "hasMemoryFootprint (sh_type (hs ! i))"
  shows "refines (sectionBuffer L False i) s (open_section img (hs ! i))
    (\<lambda>h r t. ldr t = ldr s \<and> shd t = shd s \<and> only_views (wld s) (wld t) \<and> section_ref b base h r (wld t))"
proof -
  have tab: "tabled hs names (shd s)" and c: "cached (shd s) i" "unat (sh_name (hs ! i)) < length names"
    using o i(1) by (auto simp: opened_def)
  then obtain sec where sec: "sectionAt i s = (Inr sec, s)" "rs_header sec = hs ! i"
    using refines_sectionAt [OF tab i(1)] by (auto simp: refines_def throw_when_def)
  have "refines (in_world (getDataBuffer (le_env L) (le_am L) False sec)) s (open_section img (hs ! i))
      (\<lambda>h r t. ldr t = ldr s \<and> shd t = shd s \<and> only_views (wld s) (wld t) \<and> section_ref b base h r (wld t))"
    using refines_in_world [OF refines_getDataBuffer [OF am img, of sec "le_env L" False]] i(2) sec(2)
    by (auto simp: section_ref_def elim: refines_conseq)
  then show ?thesis
    unfolding sectionBuffer_def by (rule refines_run) (simp add: bindM_Inr sec(1))
qed

lemma filter_nth: "filter P xs = map ((!) xs) (filter (\<lambda>j. P (xs ! j)) [0..<length xs])"
proof -
  have "filter P xs = filter P (map ((!) xs) [0..<length xs])" by (simp only: map_nth)
  then show ?thesis by (simp only: filter_map comp_def)
qed

lemma mapE_map: "mapE f (map g xs) = mapE (\<lambda>x. f (g x)) xs"
  by (induction xs) simp_all

lemma refines_getSectionsOfType:
  assumes am: "le_am L = DDRAccessManagerAlways (Ptr b 0) (of_nat (length img))" and img: "image_in b base img (wld s)"
    and o: "opened w0 hs names u (shd s) w1" and type: "hasMemoryFootprint type" "type \<noteq> VPU_SHT_PERF_METRICS"
  shows "refines (getSectionsOfType L type) s (sections_with img hs type)
    (\<lambda>vs rs t. ldr t = ldr s \<and> shd t = shd s \<and> only_views (wld s) (wld t) \<and>
       list_all2 (\<lambda>h r. section_ref b base h r (wld t)) vs rs)"
proof -
  let ?is = "filter (\<lambda>j. sh_type (hs ! j) = type) [0..<length hs]"
  have found: "filter (\<lambda>h. sh_type h = type) hs = map ((!) hs) ?is" by (rule filter_nth)
  have m: "m_sectionMap (shd s) type = (if ?is = [] then None else Some ?is)"
    using o type(2) by (simp add: opened_def registered_map_def type_map_def Let_def)
  let ?I = "\<lambda>t. ldr t = ldr s \<and> shd t = shd s \<and> only_views (wld s) (wld t)"
  have all: "refines (mapM (sectionBuffer L False) ?is) s (mapE (\<lambda>j. open_section img (hs ! j)) ?is)
      (\<lambda>vs rs t. ?I t \<and> list_all2 (\<lambda>h r. section_ref b base h r (wld t)) vs rs \<and>
        (\<forall>h r. section_ref b base h r (wld s) \<longrightarrow> section_ref b base h r (wld t)))"
  proof (rule refines_mapM)
    show "?I s" by (simp add: only_views_refl)
    fix i and t :: lstate
    assume i: "i \<in> set ?is" and t: "?I t"
    have img': "image_in b base img (wld t)" using t img views_kept(1) by blast
    have o': "opened w0 hs names u (shd t) w1" using o t by simp
    show "refines (sectionBuffer L False i) t (open_section img (hs ! i))
        (\<lambda>v r u. ?I u \<and> section_ref b base v r (wld u) \<and>
          (\<forall>h r. section_ref b base h r (wld t) \<longrightarrow> section_ref b base h r (wld u)))"
    proof (rule refines_conseq [OF refines_sectionBuffer [OF am img' o']])
      show "i < length hs" "hasMemoryFootprint (sh_type (hs ! i))" using i type(1) by auto
      fix v r and u' :: lstate
      assume "ldr u' = ldr t \<and> shd u' = shd t \<and> only_views (wld t) (wld u') \<and> section_ref b base v r (wld u')"
      then have e: "ldr u' = ldr s" "shd u' = shd s" "only_views (wld t) (wld u')" "section_ref b base v r (wld u')"
        using t by simp_all
      have "only_views (wld s) (wld u')" using t only_views_trans [OF _ e(3)] by blast
      then show "?I u' \<and> section_ref b base v r (wld u') \<and>
          (\<forall>h r. section_ref b base h r (wld t) \<longrightarrow> section_ref b base h r (wld u'))"
        using e section_ref_kept [OF e(3)] by blast
    qed
  qed
  show ?thesis
  proof (cases "?is = []")
    case True
    then show ?thesis
      using m type(1) found
      by (simp add: getSectionsOfType_def sections_with_def Let_def refines_read refines_throw)
  next
    case False
    have "refines (getSectionsOfType L type) s (mapE (\<lambda>j. open_section img (hs ! j)) ?is)
      (\<lambda>vs rs t. ?I t \<and> list_all2 (\<lambda>h r. section_ref b base h r (wld t)) vs rs)"
      unfolding getSectionsOfType_def
      using type(1) m False refines_conseq [OF all] by (simp add: refines_read)
    then show ?thesis using False found by (simp add: sections_with_def Let_def mapE_map)
  qed
qed

lemma refines_sectionsOfType:
  assumes R: "ready H b base img l n hs h" and type: "hasMemoryFootprint type" "type \<noteq> VPU_SHT_PERF_METRICS"
  shows "refines (sectionsOfType H type) h (sections_with img hs type)
    (\<lambda>vs rs t. views_only h t \<and> list_all2 (\<lambda>h r. section_ref b base h r (hwld t)) vs rs)"
proof -
  let ?s = "\<lparr>ldr = l, shd = shareds h ! n, wld = hwld h\<rparr>"
  obtain names u where o: "opened (hwld h) hs names u (shd ?s) (hwld h)"
    using R by (auto simp: ready_def)
  have am: "le_am (he_lenv H) = DDRAccessManagerAlways (Ptr b 0) (of_nat (length img))"
    and img: "image_in b base img (wld ?s)" and l: "loaders (hpi h) = [(l, n)]" "n < length (shareds h)"
    using R by (simp_all add: ready_def)
  have "refines (getSectionsOfType (he_lenv H) type) ?s (sections_with img hs type)
    (\<lambda>vs rs t. ldr t = l \<and> shd t = shareds h ! n \<and> only_views (hwld h) (wld t) \<and>
       list_all2 (\<lambda>h r. section_ref b base h r (wld t)) vs rs)"
    using refines_getSectionsOfType [OF am img o type] by simp
  moreover have "h\<lparr>hpi := (hpi h)\<lparr>loaders := [(l, n)]\<rparr>, shareds := (shareds h)[n := shareds h ! n], hwld := w\<rparr> =
      h\<lparr>hwld := w\<rparr>" for w
    using l by (metis (no_types) HostParsedInference.surjective HostParsedInference.update_convs(5)
        hstate.surjective hstate.update_convs(1,2) list_update_id)
  ultimately show ?thesis
    unfolding sectionsOfType_def refines_def
    by (fastforce simp: on_loader_def l Let_def views_only_def split: sum.splits)
qed

section \<open>Reading through a view\<close>

lemma refines_guardedH:
  fixes h :: hstate
  assumes "shows_section b base x r (hwld h)"
    and body: "refines body h res (\<lambda>v y t. views_only h t \<and> Q v y)"
  shows "refines (guardedH H (Some r) body) h res (\<lambda>v y t. views_only h t \<and> Q v y)"
proof -
  have s: "r < length (objs (hwld h))" "bufKind (objs (hwld h) ! r) = StaticBuffer"
    using assms(1) by (simp_all add: shows_section_def)
  have lock: "in_hworld (lock E r) h = (Inr (), h)" for E
    using s by (simp add: in_hworld_def zoomM_def lock_def)
  have un: "t\<lparr>hwld := unlock E r (hwld t)\<rparr> = t" if v: "views_only h t" for t :: hstate and E
  proof -
    obtain new where "objs (hwld t) = objs (hwld h) @ new"
      using v unfolding views_only_def only_views_def by blast
    then have "unlock E r (hwld t) = hwld t" using s by (simp add: unlock_def nth_append)
    then show ?thesis by simp
  qed
  have g: "guardedH H (Some r) body h = finallyM body (\<lambda>h. h\<lparr>hwld := unlock (le_env (he_lenv H)) r (hwld h)\<rparr>) h"
    by (simp add: guardedH_def bindM_def lock)
  show ?thesis
    using body un by (fastforce simp: refines_def g finallyM_def split: sum.splits)
qed

lemma refines_deref:
  assumes "shows_section b base x r (hwld h)" and "refines (f r) h res Q"
  shows "refines (bindM (in_hworld (deref (Some r))) f) h res Q"
  using assms(2)
  by (rule refines_run) (use assms(1) in \<open>simp add: bindM_def in_hworld_def zoomM_def deref_def shows_section_def\<close>)

lemma refines_bufferOf:
  assumes "shows_section b base x r (hwld h)"
    and "\<And>db. cpu_addr db = Ptr b (unat (sh_offset x)) \<Longrightarrow> buf_size db = sh_size x \<Longrightarrow> refines (f db) h res Q"
  shows "refines (bindM (bufferOf r) f) h res Q"
proof -
  have "bindM (bufferOf r) f h = f (getBuffer r (hwld h)) h" by (simp add: bufferOf_def bindM_readM)
  then show ?thesis
    using assms(1) by (intro refines_run [OF assms(2)]) (simp_all add: shows_section_def DeviceBuffer_make_simps)
qed

lemma refines_deserializeSection:
  assumes "image_in b base img (hwld h)" and "shows_section b base x r (hwld h)"
  shows "refines (deserializeSection H (Some r) parse) h
    (parse (base + sh_offset x) (drop (unat (sh_offset x)) img) (sh_size x))
    (\<lambda>v y t. views_only h t \<and> y = v)"
proof -
  have m: "fst (memory (hwld h) ! b) = base" "snd (memory (hwld h) ! b) = img"
    using assms(1) by (simp_all add: image_in_def)
  have "refines (liftM (parse (ptr_value (memory (hwld h)) (cpu_addr db)) (bytes_from (memory (hwld h)) (cpu_addr db))
        (buf_size db))) h
      (parse (base + sh_offset x) (drop (unat (sh_offset x)) img) (sh_size x)) (\<lambda>v y t. views_only h t \<and> y = v)"
    if "cpu_addr db = Ptr b (unat (sh_offset x))" "buf_size db = sh_size x" for db
  proof -
    have "refines (liftM q) h q (\<lambda>v y t. views_only h t \<and> y = v)" for q :: "'a res"
      by (rule refines_conseq [OF refines_lift]) (simp add: views_only_refl)
    then show ?thesis unfolding that using m by simp
  qed
  then show ?thesis
    unfolding deserializeSection_def
    by (intro refines_guardedH [OF assms(2)] refines_deref [OF assms(2)] refines_bufferOf [OF assms(2)] refines_read)
qed

lemma refs_kept:
  "only_views w w' \<Longrightarrow> list_all2 (\<lambda>x r. section_ref b base x r w) xs rs \<Longrightarrow> list_all2 (\<lambda>x r. section_ref b base x r w') xs rs"
  by (erule list_all2_mono) (rule section_ref_kept)

lemma refines_findVersion:
  assumes "image_in b base img (hwld h)" and "list_all2 (\<lambda>x r. section_ref b base x r (hwld h)) xs rs"
  shows "refines (findVersion H type rs) h (version_in img type xs) (\<lambda>v y t. views_only h t \<and> y = v)"
  using assms
proof (induction xs arbitrary: h rs)
  case Nil
  then show ?case by (simp add: refines_throw)
next
  case (Cons x xs)
  then obtain i rs' where rs: "rs = Some i # rs'" and i: "shows_section b base x i (hwld h)"
    and rest: "list_all2 (\<lambda>x r. section_ref b base x r (hwld h)) xs rs'"
    by (auto simp: list_all2_Cons1 section_ref_def)
  let ?note = "\<lambda>bs. if n_type (dec_VersionNote bs) = type then Some (version_of_note (dec_VersionNote bs)) else None"
  have one: "refines (bindM (readM (\<lambda>h. memory (hwld h))) (\<lambda>m.
        bindM (liftM (read_mem (cpu_addr db) 32 m)) (\<lambda>bs. retM (?note bs)))) h
      (bindE (cell img (unat (sh_offset x)) 32) (\<lambda>bs. Inr (?note bs))) (\<lambda>v y t. views_only h t \<and> y = v)"
    if "cpu_addr db = Ptr b (unat (sh_offset x))" for db
  proof (rule refines_read, rule refines_bind)
    have "read_mem (cpu_addr db) 32 (memory (hwld h)) = cell img (unat (sh_offset x)) 32"
      using Cons.prems(1) that by (simp add: read_mem_def cell_def image_in_def)
    then show "refines (liftM (read_mem (cpu_addr db) 32 (memory (hwld h)))) h (cell img (unat (sh_offset x)) 32)
        (\<lambda>v y t. y = v \<and> t = h)" by (simp add: refines_lift)
  qed (auto intro!: refines_ret views_only_refl)
  note cell = refines_guardedH [OF i refines_bufferOf [OF i one]]
  let ?rest = "\<lambda>found. case found of None \<Rightarrow> version_in img type xs | Some v \<Rightarrow> Inr v"
  have spec: "version_in img type (x # xs) = throw_unless (sh_size x = 32) SectionError
      (bindE (bindE (cell img (unat (sh_offset x)) 32) (\<lambda>bs. Inr (?note bs))) ?rest)"
  proof -
    have "(\<lambda>bs. if n_type (dec_VersionNote bs) = type then Inr (version_of_note (dec_VersionNote bs))
        else version_in img type xs) = (\<lambda>bs. ?rest (?note bs))" by (intro ext) simp
    then show ?thesis by (simp add: bindE_assoc Let_def)
  qed
  have tail: "refines (case y of None \<Rightarrow> findVersion H type rs' | Some v \<Rightarrow> retM v) t (?rest v)
      (\<lambda>v y t. views_only h t \<and> y = v)" if a: "views_only h t \<and> y = v" for v y t
  proof -
    have "image_in b base img (hwld t)" "list_all2 (\<lambda>x r. section_ref b base x r (hwld t)) xs rs'"
      using a Cons.prems(1) rest views_kept(1) refs_kept by (auto simp: views_only_def)
    from refines_conseq [OF Cons.IH [OF this]] show ?thesis
      using a views_only_trans by (cases v) (auto intro!: refines_ret)
  qed
  show ?case
    unfolding spec rs findVersion.simps Let_def
  proof (rule refines_deref [OF i], rule refines_bufferOf [OF i])
    fix db
    assume d: "buf_size db = sh_size x"
    show "refines (throwM_unless (buf_size db = 32) SectionError
        (bindM (guardedH H (Some i) (bindM (bufferOf i) (\<lambda>db. bindM (readM (\<lambda>h. memory (hwld h))) (\<lambda>m.
          bindM (liftM (read_mem (cpu_addr db) 32 m)) (\<lambda>bs. retM (?note bs))))))
          (\<lambda>found. case found of None \<Rightarrow> findVersion H type rs' | Some v \<Rightarrow> retM v))) h
        (throw_unless (sh_size x = 32) SectionError
          (bindE (bindE (cell img (unat (sh_offset x)) 32) (\<lambda>bs. Inr (?note bs))) ?rest))
        (\<lambda>v y t. views_only h t \<and> y = v)"
      unfolding d by (rule refines_unless, rule refines_bind [OF cell tail])
  qed
qed

lemma refines_version:
  assumes R: "ready H b base img l n hs h"
  shows "refines (readVersioningInfo H type) h (version_of_file img hs type) (\<lambda>v y t. views_only h t \<and> y = v)"
  unfolding readVersioningInfo_def version_of_file_def
proof (rule refines_bind [OF refines_sectionsOfType [OF R]])
  show "hasMemoryFootprint SHT_NOTE" "SHT_NOTE \<noteq> VPU_SHT_PERF_METRICS"
    by (simp_all add: hasMemoryFootprint_def elf_consts)
  fix xs rs and t :: hstate
  assume t: "views_only h t \<and> list_all2 (\<lambda>x r. section_ref b base x r (hwld t)) xs rs"
  then have "image_in b base img (hwld t)" using ready_views [OF R] by (simp add: ready_def)
  from refines_findVersion [OF this] t
  have "refines (findVersion H type rs) t (version_in img type xs) (\<lambda>v y u. views_only t u \<and> y = v)" by blast
  then show "refines (findVersion H type rs) t (version_in img type xs) (\<lambda>v y u. views_only h u \<and> y = v)"
  proof (rule refines_conseq)
    fix v y and u :: hstate
    assume "views_only t u \<and> y = v"
    then show "views_only h u \<and> y = v" using t views_only_trans by blast
  qed
qed

lemma refines_only_section:
  assumes R: "ready H b base img l n hs h" and type: "hasMemoryFootprint type" "type \<noteq> VPU_SHT_PERF_METRICS"
    and f: "\<And>v t. views_only h t \<Longrightarrow> refines (f v) t (Inr v) Q"
  shows "refines (bindM (sectionsOfType H type) (\<lambda>rs. throwM_unless (length rs = 1) RangeError
      (bindM (deserializeSection H (rs ! 0) parse) f))) h (only_section base img hs type parse) Q"
  unfolding only_section_def
proof (rule refines_bind [OF refines_sectionsOfType [OF R type]])
  fix xs rs and t :: hstate
  assume t: "views_only h t \<and> list_all2 (\<lambda>x r. section_ref b base x r (hwld t)) xs rs"
  then have len: "length rs = length xs" by (metis list_all2_lengthD)
  have img: "image_in b base img (hwld t)" using ready_views [OF R] t by (simp add: ready_def)
  show "refines (throwM_unless (length rs = 1) RangeError (bindM (deserializeSection H (rs ! 0) parse) f)) t
      (throw_unless (length xs = 1) RangeError
        (parse (base + sh_offset (hd xs)) (drop (unat (sh_offset (hd xs))) img) (sh_size (hd xs)))) Q"
    unfolding len
  proof (rule refines_unless)
    assume "length xs = 1"
    then obtain x r where "xs = [x]" "rs = [Some r]" and r: "shows_section b base x r (hwld t)"
      using t by (auto simp: section_ref_def length_Suc_conv list_all2_Cons1)
    then have eq: "hd xs = x" "rs ! 0 = Some r" by simp_all
    show "refines (bindM (deserializeSection H (rs ! 0) parse) f) t
        (parse (base + sh_offset (hd xs)) (drop (unat (sh_offset (hd xs))) img) (sh_size (hd xs))) Q"
      unfolding eq
    proof (rule refines_tail [OF refines_deserializeSection [OF img r]])
      fix v y :: 'a and t' :: hstate
      assume "views_only t t' \<and> y = v"
      then show "refines (f y) t' (Inr v) Q" using f views_only_trans t by blast
    qed
  qed
qed

section \<open>The checks\<close>

text \<open>An inference in construction, with the members that have been read.\<close>

definition underway ::
    "henv \<Rightarrow> nat \<Rightarrow> u64 \<Rightarrow> bytes \<Rightarrow> VPUXLoader \<Rightarrow> nat \<Rightarrow> Elf64_Shdr list \<Rightarrow> HPIConfigs \<Rightarrow> LoaderShared list \<Rightarrow>
     NetworkMetadata option \<Rightarrow> PlatformInfo option \<Rightarrow> hstate \<Rightarrow> bool" where
  "underway H b base img l n hs cfg S m p h \<longleftrightarrow>
     ready H b base img l n hs h \<and> hpiCfg (hpi h) = cfg \<and> shareds h = S \<and>
     metadata (hpi h) = m \<and> platformInfo (hpi h) = p"

lemma underway_views:
  "underway H b base img l n hs cfg S m p h \<Longrightarrow> views_only h t \<Longrightarrow> underway H b base img l n hs cfg S m p t"
  using ready_views by (auto simp: underway_def views_only_def)

lemma refines_readMetadata:
  assumes "underway H b base img l n hs cfg S m p h"
  shows "refines (readMetadata H) h (only_section base img hs VPU_SHT_NETDESC (deserialize_metadata (he_fits H)))
    (\<lambda>v _ t. underway H b base img l n hs cfg S (Some v) p t)"
  unfolding readMetadata_def
proof (rule refines_only_section)
  show "ready H b base img l n hs h" using assms by (simp add: underway_def)
  show "hasMemoryFootprint VPU_SHT_NETDESC" "VPU_SHT_NETDESC \<noteq> VPU_SHT_PERF_METRICS"
    by (simp_all add: hasMemoryFootprint_def elf_consts)
  fix v and t :: hstate
  assume "views_only h t"
  from underway_views [OF assms this]
  show "refines (on_hpi (metadata_update (\<lambda>_. Some v))) t (Inr v)
      (\<lambda>v _ t. underway H b base img l n hs cfg S (Some v) p t)"
    by (auto simp: refines_def on_hpi_def modifyM_def underway_def ready_def)
qed

lemma refines_readPlatformInfo:
  assumes "underway H b base img l n hs cfg S m p h"
  shows "refines (readPlatformInfo H) h
    (only_section base img hs VPU_SHT_PLATFORM_INFO (deserialize_platformInfo (he_fits H)))
    (\<lambda>v _ t. underway H b base img l n hs cfg S m (Some v) t)"
  unfolding readPlatformInfo_def
proof (rule refines_only_section)
  show "ready H b base img l n hs h" using assms by (simp add: underway_def)
  show "hasMemoryFootprint VPU_SHT_PLATFORM_INFO" "VPU_SHT_PLATFORM_INFO \<noteq> VPU_SHT_PERF_METRICS"
    by (simp_all add: hasMemoryFootprint_def elf_consts)
  fix v and t :: hstate
  assume "views_only h t"
  from underway_views [OF assms this]
  show "refines (on_hpi (platformInfo_update (\<lambda>_. Some v))) t (Inr v)
      (\<lambda>v _ t. underway H b base img l n hs cfg S m (Some v) t)"
    by (auto simp: refines_def on_hpi_def modifyM_def underway_def ready_def)
qed

lemma refines_member:
  assumes "f (hpi h) = Some x" and "refines (k x) h r Q"
  shows "refines (bindM (the_member f) k) h r Q"
  using assms(2) by (rule refines_run) (simp add: the_member_def bindM_assoc bindM_readM assms(1))

lemma refines_checkTileCount:
  assumes "underway H b base img l n hs cfg S (Some m) (Some p) h"
  shows "refines (checkTileCount H kind) h
    (bindE (getHardwareTileCount kind) (\<lambda>tiles.
      throw_when (nn_slice_count (mResourceRequirements m) > tiles) ArgsError (Inr (m, p))))
    (\<lambda>(m, p) _ t. shareds t = S \<and> metadata (hpi t) = Some m \<and> platformInfo (hpi t) = Some p)"
proof -
  have h: "metadata (hpi h) = Some m" "platformInfo (hpi h) = Some p" "shareds h = S"
    "loaders (hpi h) = [(l, n)]" "n < length (shareds h)"
    using assms by (auto simp: underway_def ready_def)
  have "refines (on_loader 0 (setInferencesMayBeRunInParallel False)) h (Inr (m, p))
      (\<lambda>(m, p) _ t. shareds t = S \<and> metadata (hpi t) = Some m \<and> platformInfo (hpi t) = Some p)"
    using h by (auto simp: refines_def on_loader_def setInferencesMayBeRunInParallel_def on_ldr_def modifyM_def Let_def)
  moreover have "refines (retM ()) h (Inr (m, p))
      (\<lambda>(m, p) _ t. shareds t = S \<and> metadata (hpi t) = Some m \<and> platformInfo (hpi t) = Some p)"
    using h by (intro refines_ret) simp
  ultimately show ?thesis
    unfolding checkTileCount_def Let_def
    by (intro refines_member [of metadata, OF h(1)] refines_bind [OF refines_lift]) (auto intro!: refines_when)
qed

text \<open>The library's answers do not depend on the file.\<close>

lemma refines_library:
  assumes "getArchSpecificHPI (he_api H) (archKind (hpiCfg (hpi h))) = Inr a"
  shows "refines (getLibraryELFVersion H) h (getELFLibABIVersion a) (\<lambda>v y t. y = v \<and> t = h)"
    and "refines (getLibraryMIVersion H) h (Inr (getStaticMIVersion (he_api H) a)) (\<lambda>v y t. y = v \<and> t = h)"
proof -
  have run: "bindM (libraryHpi H) f h = f a h" for f :: "_ \<Rightarrow> (hstate, version) prog"
    by (simp add: libraryHpi_def bindM_assoc bindM_readM bindM_liftM assms)
  have "refines (liftM (getELFLibABIVersion a)) h (getELFLibABIVersion a) (\<lambda>v y t. y = v \<and> t = h)"
    by (rule refines_lift)
  then show "refines (getLibraryELFVersion H) h (getELFLibABIVersion a) (\<lambda>v y t. y = v \<and> t = h)"
    unfolding getLibraryELFVersion_def by (rule refines_run) (rule run)
  have "refines (retM (getStaticMIVersion (he_api H) a)) h (Inr (getStaticMIVersion (he_api H) a)) (\<lambda>v y t. y = v \<and> t = h)"
    by (simp add: refines_ret)
  then show "refines (getLibraryMIVersion H) h (Inr (getStaticMIVersion (he_api H) a)) (\<lambda>v y t. y = v \<and> t = h)"
    unfolding getLibraryMIVersion_def by (rule refines_run) (rule run)
qed

lemma refines_given: "refines (f a) s r Q \<Longrightarrow> refines (bindM (liftM (Inr a)) f) s r Q"
  by (rule refines_run) (simp_all add: bindM_liftM)

lemma refines_underway:
  assumes "underway H b base img l n hs cfg S m p h" and "refines k h r (\<lambda>v y t. views_only h t \<and> y = v)"
  shows "refines k h r (\<lambda>v y t. underway H b base img l n hs cfg S m p t \<and> y = v)"
  using assms(2) by (rule refines_conseq) (use underway_views [OF assms(1)] in blast)

lemma refines_checkInference:
  assumes U: "underway H b base img l n hs cfg S None None h"
  shows "refines (checkInference H cfg) h (inspect (he_api H) (he_fits H) cfg base img hs)
    (\<lambda>(m, p) _ t. shareds t = S \<and> metadata (hpi t) = Some m \<and> platformInfo (hpi t) = Some p)"
proof (cases "getArchSpecificHPI (he_api H) (archKind cfg)")
  case (Inl e)
  then show ?thesis by (simp add: refines_def checkInference_def inspect_def bindM_liftM throwM_def)
next
  case a: (Inr a)
  let ?kind = "archKind cfg"
  let ?U = "\<lambda>m p t. underway H b base img l n hs cfg S m p t"
  have step: "refines (readVersioningInfo H type) t (version_of_file img hs type) (\<lambda>v y u. ?U m p u \<and> y = v)"
    if "?U m p t" for type m p t
  proof (rule refines_underway [OF that refines_version])
    show "ready H b base img l n hs t" using that by (simp add: underway_def)
  qed
  have known: "getArchSpecificHPI (he_api H) (archKind (hpiCfg (hpi t))) = Inr a" if "?U m p t" for m p t
    using that a by (simp add: underway_def)
  have check: "refines (liftM (checkVersionCompatibility v v')) t (checkVersionCompatibility v v') (\<lambda>_ _ u. ?U m p u)"
    if "?U m p t" for v v' m p t
    using refines_lift by (rule refines_conseq) (simp add: that)
  have expected: "refines (if \<not> checkValidity (nnVersion cfg) then getLibraryMIVersion H else retM (nnVersion cfg)) t
      (Inr (if checkValidity (nnVersion cfg) then nnVersion cfg else getStaticMIVersion (he_api H) a))
      (\<lambda>v y u. y = v \<and> u = t)" if "?U m p t" for m p t
    using refines_library(2) [OF known [OF that]] by (simp add: refines_ret)
  have versions: "refines (bindM (if \<not> checkValidity (nnVersion cfg) then getLibraryMIVersion H
             else retM (nnVersion cfg)) (\<lambda>nnExpectedVersion.
      bindM (getMIVersion H) (\<lambda>miVersion.
      bindM (liftM (checkVersionCompatibility nnExpectedVersion miVersion)) (\<lambda>_. checkTileCount H ?kind)))) t
      (bindE (version_of_file img hs NT_NPU_MPI_VERSION) (\<lambda>miVersion.
        bindE (checkVersionCompatibility
          (if checkValidity (nnVersion cfg) then nnVersion cfg else getStaticMIVersion (he_api H) a) miVersion) (\<lambda>_.
        bindE (getHardwareTileCount ?kind) (\<lambda>tiles.
        throw_when (nn_slice_count (mResourceRequirements m) > tiles) ArgsError (Inr (m, p))))))
      (\<lambda>(m, p) _ t. shareds t = S \<and> metadata (hpi t) = Some m \<and> platformInfo (hpi t) = Some p)"
    if t: "?U (Some m) (Some p) t" for m p t
  proof -
    let ?Q = "\<lambda>(m, p) _ t. shareds t = S \<and> metadata (hpi t) = Some m \<and> platformInfo (hpi t) = Some p"
    let ?tiles = "bindE (getHardwareTileCount ?kind) (\<lambda>tiles.
        throw_when (nn_slice_count (mResourceRequirements m) > tiles) ArgsError (Inr (m, p)))"
    have 1: "refines (bindM (liftM (checkVersionCompatibility nn mi)) (\<lambda>_. checkTileCount H ?kind)) t
        (bindE (checkVersionCompatibility nn mi) (\<lambda>_. ?tiles)) ?Q" if "?U (Some m) (Some p) t" for nn mi t
      by (rule refines_bind [OF check [OF that]]) (rule refines_checkTileCount)
    have 2: "refines (bindM (getMIVersion H) (\<lambda>mi. bindM (liftM (checkVersionCompatibility nn mi)) (\<lambda>_. checkTileCount H ?kind))) t
        (bindE (version_of_file img hs NT_NPU_MPI_VERSION) (\<lambda>mi. bindE (checkVersionCompatibility nn mi) (\<lambda>_. ?tiles))) ?Q" for nn
      unfolding getMIVersion_def by (rule refines_bind [OF step [OF t]]) (use 1 in blast)
    from refines_bind [OF expected [OF t], where f = "\<lambda>nn. bindM (getMIVersion H) (\<lambda>mi.
        bindM (liftM (checkVersionCompatibility nn mi)) (\<lambda>_. checkTileCount H ?kind))" and Q' = ?Q
      and g = "\<lambda>nn. bindE (version_of_file img hs NT_NPU_MPI_VERSION) (\<lambda>mi. bindE (checkVersionCompatibility nn mi) (\<lambda>_. ?tiles))"]
    show ?thesis using 2 by simp
  qed
  have kind: "refines (bindM (the_member platformInfo) (\<lambda>q. throwM_when (mArchKind q \<noteq> ?kind) e (k q))) t
      (throw_when (mArchKind p \<noteq> ?kind) e r) Q"
    if "?U m (Some p) t" "mArchKind p = ?kind \<Longrightarrow> refines (k p) t r Q" for m p t k e r and Q :: "_ \<Rightarrow> unit \<Rightarrow> _"
    using that by (intro refines_member [of platformInfo _ p] refines_when) (simp_all add: underway_def)
  show ?thesis
    unfolding checkInference_def inspect_def a bindE_simps getElfABIVersion_def
    apply (rule refines_given)
    apply (rule refines_bind [OF refines_library(1) [OF known [OF U]]])
    apply (elim conjE, hypsubst)
    apply (rule refines_bind [OF step [OF U]])
    apply (elim conjE, hypsubst)
    apply (rule refines_bind [OF check], assumption)
    apply (rule refines_bind [OF refines_readMetadata], assumption)
    apply (rule refines_bind [OF refines_readPlatformInfo], assumption)
    apply (rule kind, assumption)
    apply (simp only: )
    apply (rule versions, assumption)
    done
qed

section \<open>The constructor\<close>

lemma underway_new:
  assumes "le_am (he_lenv H) = DDRAccessManagerAlways (Ptr b 0) (of_nat (length img))"
    and "image_in b base img w" "opened w hs names u sh w"
  shows "underway H b base img l (length store) hs cfg (store @ [sh]) None None
    \<lparr>hpi = newInference hasManager cfg [(l, length store)], shareds = store @ [sh], hwld = w\<rparr>"
  using assms by (auto simp: underway_def ready_def newInference_def)

lemma constructor_refines:
  assumes am: "le_am (he_lenv H) = DDRAccessManagerAlways (Ptr b 0) (of_nat (length img))"
    and img: "image_in b base img w" and len: "length img < 2 ^ 64" and nw: "image_no_wrap img"
  shows "case open_inference (he_api H) (he_fits H) hasManager cfg base img of
      Inl e \<Rightarrow> fst (HostParsedInference_new H hasManager override0 explicit0 cfg (store, w)) = Inl e
    | Inr (u, m, p) \<Rightarrow> \<exists>i sh w'. HostParsedInference_new H hasManager override0 explicit0 cfg (store, w) =
          (Inr i, (store @ [sh], w')) \<and> metadata i = Some m \<and> platformInfo i = Some p \<and> user_of sh = u"
proof -
  let ?L = "he_lenv H" and ?l = "newLoader hasManager override0 explicit0"
  have spec: "open_inference (he_api H) (he_fits H) hasManager cfg base img = bindE (open_loader hasManager img)
      (\<lambda>(rd, u). bindE (inspect (he_api H) (he_fits H) cfg base img (mSectionHeaders rd)) (\<lambda>x. Inr (u, x)))"
    by (cases hasManager) (simp_all add: open_inference_def open_loader_def bindE_assoc)
  note ld = refines_loader [OF am img len nw, of hasManager override0 explicit0]
  show ?thesis
  proof (cases "open_loader hasManager img")
    case (Inl e)
    with ld obtain w' where "VPUXLoader_new ?L hasManager override0 explicit0 w = (Inl e, w')"
      by (auto simp: refines_def)
    then show ?thesis by (simp add: spec Inl HostParsedInference_new_def)
  next
    case (Inr x)
    obtain rd u where x: "x = (rd, u)" by (cases x)
    from ld obtain sh w1 where new: "VPUXLoader_new ?L hasManager override0 explicit0 w = (Inr (?l, sh), w1)"
      and img1: "image_in b base img w1" and o: "opened w1 (mSectionHeaders rd) (mSectionNames rd) u sh w1"
      by (auto simp: refines_def Inr x)
    let ?h = "\<lparr>hpi = newInference hasManager cfg [(?l, length store)], shareds = store @ [sh], hwld = w1\<rparr>"
    note ck = refines_checkInference [OF underway_new [OF am img1 o, of ?l store cfg hasManager]]
    have u: "user_of sh = u" using o by (simp add: opened_def)
    show ?thesis
    proof (cases "inspect (he_api H) (he_fits H) cfg base img (mSectionHeaders rd)")
      case e: (Inl e)
      with ck obtain t where "checkInference H cfg ?h = (Inl e, t)" by (auto simp: refines_def)
      then show ?thesis by (simp add: spec Inr x e HostParsedInference_new_def new)
    next
      case mp: (Inr y)
      obtain m p where y: "y = (m, p)" by (cases y)
      from ck obtain t where "checkInference H cfg ?h = (Inr (), t)" "shareds t = store @ [sh]"
        "metadata (hpi t) = Some m" "platformInfo (hpi t) = Some p"
        by (auto simp: refines_def mp y)
      then show ?thesis using u by (simp add: spec Inr x mp y HostParsedInference_new_def new)
    qed
  qed
qed

text \<open>
  C7. Constructing a host parsed inference over an emplacing access manager computes \<open>open_inference\<close>, a
  function of the bytes of the file, its address and the configuration: where that function says which
  exception, the constructor throws it, and where it returns the user's buffers, the metadata and the
  platform information, the constructor succeeds with exactly these, whatever the memory, the buffers,
  the other loaders and the flags are. The side condition excludes files whose tables wrap around the
  address space, which the reader accepts without noticing.
\<close>

theorem constructor_computes_open_inference:
  assumes am: "le_am (he_lenv H) = DDRAccessManagerAlways (Ptr b 0) (of_nat (length img))"
    and img: "image_in b base img w" and len: "length img < 2 ^ 64" and nw: "image_no_wrap img"
  shows "case open_inference (he_api H) (he_fits H) hasManager cfg base img of
      Inl e \<Rightarrow> fst (HostParsedInference_new H hasManager override0 explicit0 cfg (store, w)) = Inl e
    | Inr (u, m, p) \<Rightarrow> \<exists>i sh w'. HostParsedInference_new H hasManager override0 explicit0 cfg (store, w) =
          (Inr i, (store @ [sh], w')) \<and> metadata i = Some m \<and> platformInfo i = Some p \<and> user_of sh = u"
  by (rule constructor_refines [OF assms])

end
