(* ===== verification/Elf_Image_Example.thy ===== *)
theory Elf_Image_Example imports Elf_Image_Hpi Elf_Hpi_Example begin

text \<open>
  A file that the constructor of the host parsed inference accepts: a table of names, the two version
  notes, a symbol table with one user input, metadata and platform information for 40XX.
\<close>

section \<open>The file\<close>

definition part :: "u32 \<Rightarrow> u64 \<Rightarrow> u64 \<Rightarrow> Elf64_Shdr" where
  "part type off n = \<lparr>sh_name = 0, sh_type = type, sh_flags = 0, sh_addr = 0, sh_offset = off,
     sh_size = n, sh_link = 0, sh_info = 0, sh_addralign = 8, sh_entsize = 0\<rparr>"

definition file_header :: Elf64_Ehdr where
  "file_header = example_header\<lparr>e_shnum := 7\<rparr>"

definition file_table :: "Elf64_Shdr list" where
  "file_table = [part SHT_NULL 0 0, part SHT_STRTAB 512 8, part SHT_NOTE 520 32, part SHT_NOTE 552 32,
     (part SHT_SYMTAB 584 48)\<lparr>sh_flags := VPU_SHF_USERINPUT, sh_entsize := 24\<rparr>,
     part VPU_SHT_NETDESC 632 32, part VPU_SHT_PLATFORM_INFO 664 40]"

definition file_note :: "u32 \<Rightarrow> u32 \<Rightarrow> u32 \<Rightarrow> u32 \<Rightarrow> VersionNote" where
  "file_note type x y z = \<lparr>n_namesz = 4, n_descz = 16, n_type = type, n_name = [0, 0, 0, 0],
     n_desc = [0, x, y, z]\<rparr>"

definition file_symbol :: "u64 \<Rightarrow> Elf64_Sym" where
  "file_symbol n = \<lparr>st_name = 0, st_info = 0, st_other = 0, st_shndx = 0, st_value = 0, st_size = n\<rparr>"

definition file_platform :: "element list" where
  "file_platform = SerialPlatformInfo \<lparr>mArchKind = VPUX40XX\<rparr>"

definition file_image :: bytes where
  "file_image = enc_Elf64_Ehdr file_header @ pod_elf64_shdr.enc_table file_table @
     [0, 97, 0, 0, 0, 0, 0, 0] @
     enc_VersionNote (file_note NT_GNU_ABI_TAG 1 2 4) @ enc_VersionNote (file_note NT_NPU_MPI_VERSION 1 0 0) @
     enc_Elf64_Sym (file_symbol 0) @ enc_Elf64_Sym (file_symbol 16) @
     replicate 32 0 @ chain 0 0 file_platform"

lemma file_wf:
  "wf_Elf64_Ehdr file_header" "header_ok file_header" "wf_VersionNote (file_note type x y z)"
  by (simp_all add: wf_Elf64_Ehdr_def header_ok_def file_header_def example_header_def wf_VersionNote_def
      file_note_def)

lemma file_lengths:
  "length (enc_Elf64_Ehdr file_header) = 64" "length (pod_elf64_shdr.enc_table file_table) = 448"
  "length (enc_VersionNote (file_note type x y z)) = 32" "length (enc_Elf64_Sym (file_symbol n)) = 24"
  "length (chain 0 0 file_platform) = 40"
proof -
  show "length (pod_elf64_shdr.enc_table file_table) = 448"
    by (simp add: pod_elf64_shdr.length_enc_table file_table_def)
  show "length (chain 0 0 file_platform) = 40"
    using length_chain [OF platform_elements(1)] platform_elements(2) by (simp add: file_platform_def)
qed (simp_all add: pod_elf64_ehdr.length_enc pod_versionnote.length_enc pod_elf64_sym.length_enc file_wf)

lemma file_parts:
  "length file_image = 704" "bslice 0 64 file_image = enc_Elf64_Ehdr file_header"
  "bslice 64 448 file_image = pod_elf64_shdr.enc_table file_table"
  "bslice 512 8 file_image = [0, 97, 0, 0, 0, 0, 0, 0]"
  "bslice 520 32 file_image = enc_VersionNote (file_note NT_GNU_ABI_TAG 1 2 4)"
  "bslice 552 32 file_image = enc_VersionNote (file_note NT_NPU_MPI_VERSION 1 0 0)"
  "bslice 608 24 file_image = enc_Elf64_Sym (file_symbol 16)"
  "drop 632 file_image = replicate 32 0 @ chain 0 0 file_platform"
  "drop 664 file_image = chain 0 0 file_platform"
  by (simp_all add: file_image_def bslice_def file_lengths)

section \<open>What is read\<close>

lemma file_table_len: "length file_table = 7"
  by (simp add: file_table_def)

lemma file_parses:
  "parse_image file_image = Inr \<lparr>mElfHeader = file_header, mSectionHeaders = file_table,
     mSectionNames = [0, 97, 0, 0, 0, 0, 0, 0], mSectionsCache = \<lambda>_. None\<rparr>"
  "dec_Elf64_Ehdr (bslice 0 64 file_image) = file_header"
  "pod_elf64_shdr.dec_table (unat (e_shnum file_header))
     (bslice (unat (e_shoff file_header)) (unat (e_shnum file_header) * 64) file_image) = file_table"
proof -
  have h: "e_shoff file_header = 64" "e_shnum file_header = 7" "e_shstrndx file_header = 1"
    by (simp_all add: file_header_def example_header_def)
  have n: "file_table ! Suc 0 = part SHT_STRTAB 512 8" by (simp add: file_table_def)
  have s: "sh_offset (part SHT_STRTAB 512 8) = 512" "sh_size (part SHT_STRTAB 512 8) = 8"
    by (simp_all add: part_def)
  note b = parse_image_built [of file_image file_header file_table "part SHT_STRTAB 512 8", OF file_parts(2) file_wf(1,2)]
  show "parse_image file_image = Inr \<lparr>mElfHeader = file_header, mSectionHeaders = file_table,
     mSectionNames = [0, 97, 0, 0, 0, 0, 0, 0], mSectionsCache = \<lambda>_. None\<rparr>"
    using b(1) by (simp add: h n s file_parts file_table_len)
  show "dec_Elf64_Ehdr (bslice 0 64 file_image) = file_header"
    using b(2) by (simp add: h n s file_parts file_table_len)
  show "pod_elf64_shdr.dec_table (unat (e_shnum file_header))
     (bslice (unat (e_shoff file_header)) (unat (e_shnum file_header) * 64) file_image) = file_table"
    using b(3) by (simp add: h n s file_parts file_table_len)
qed

lemma file_no_wrap: "image_no_wrap file_image"
  unfolding image_no_wrap_def Let_def file_parses(2,3)
  by (simp add: file_table_def part_def file_header_def example_header_def)

definition file_buffers :: user_buffers where
  "file_buffers = \<lparr>ub_inputs = [DeviceBuffer_make Null 0 16], ub_outputs = [], ub_profiling = []\<rparr>"

lemma file_sections: "sections_with file_image file_table type =
   (let found = filter (\<lambda>h. sh_type h = type) file_table in throw_when (found = []) RangeError (Inr found))"
proof -
  have "open_section file_image h = Inr h" if "h \<in> set file_table" for h
    using that by (auto simp: file_table_def part_def open_section_def file_parts)
  then have "mapE (open_section file_image) hs = Inr hs" if "set hs \<subseteq> set file_table" for hs
    using that by (induction hs) auto
  then show ?thesis by (simp add: sections_with_def Let_def)
qed

lemma file_found:
  "filter (\<lambda>h. sh_type h = SHT_NOTE) file_table = [part SHT_NOTE 520 32, part SHT_NOTE 552 32]"
  "filter (\<lambda>h. sh_type h = VPU_SHT_NETDESC) file_table = [part VPU_SHT_NETDESC 632 32]"
  "filter (\<lambda>h. sh_type h = VPU_SHT_PLATFORM_INFO) file_table = [part VPU_SHT_PLATFORM_INFO 664 40]"
  by (simp_all add: file_table_def part_def elf_consts)

lemma file_versions:
  "version_of_file file_image file_table NT_GNU_ABI_TAG = Inr (Version 1 2 4 True)"
  "version_of_file file_image file_table NT_NPU_MPI_VERSION = Inr (Version 1 0 0 True)"
proof -
  have c: "cell file_image 520 32 = Inr (enc_VersionNote (file_note NT_GNU_ABI_TAG 1 2 4))"
    "cell file_image 552 32 = Inr (enc_VersionNote (file_note NT_NPU_MPI_VERSION 1 0 0))"
    by (simp_all add: cell_def file_parts)
  have v: "version_of_note (file_note type x y z) = Version x y z True" "n_type (file_note type x y z) = type"
    for type x y z by (simp_all add: version_of_note_def file_note_def)
  show "version_of_file file_image file_table NT_GNU_ABI_TAG = Inr (Version 1 2 4 True)"
    "version_of_file file_image file_table NT_NPU_MPI_VERSION = Inr (Version 1 0 0 True)"
    by (simp_all add: version_of_file_def file_sections file_found Let_def part_def c v
        pod_versionnote.dec_enc [OF file_wf(3)]) (simp_all add: NT_GNU_ABI_TAG_def NT_NPU_MPI_VERSION_def)
qed

lemma zero_descriptor: "dec_SerialDescriptor (replicate 32 0) = SerialDescriptor_default"
proof -
  have "replicate 32 0 = enc_SerialDescriptor SerialDescriptor_default"
    by (simp add: enc_SerialDescriptor_def SerialDescriptor_default_def le_bytes_zero replicate_add [symmetric])
  then show ?thesis by (simp only: pod_serialdescriptor.dec_enc)
qed

text \<open>Metadata of which only the first descriptor is written: every element keeps its default.\<close>

lemma empty_metadata:
  "deserialize_metadata fits 0x1278 (replicate 32 0 @ bs) 32 = Inr NetworkMetadata_new"
proof -
  have wf: "wf_NetworkMetadata NetworkMetadata_new"
    by (simp add: wf_NetworkMetadata_def NetworkMetadata_new_def zero_image_def
        pod_identification.wf_dec pod_resourcerequirements.wf_dec)
  let ?b = "\<lparr>si_address = 0x1278, si_bytes = replicate 32 0 @ bs, si_size = 32\<rparr>"
  have "readDescriptor ?b 0 = Inr SerialDescriptor_default"
    by (simp add: readDescriptor_def getAddressOfOffset_def checkDataPointer_def Let_def read_input_def
        bslice_def zero_descriptor)
  moreover have "map clear (SerialMetadata NetworkMetadata_new) = SerialMetadata NetworkMetadata_new"
    by (simp add: SerialMetadata_def NetworkMetadata_new_def pod_identification.enc_dec
        pod_resourcerequirements.enc_dec zero_image_def)
  ultimately have "deserialize fits 0x1278 (replicate 32 0 @ bs) 32 (SerialMetadata NetworkMetadata_new) =
      (Inr (), SerialMetadata NetworkMetadata_new)"
    by (simp add: deserialize_def newSerialInputBuffer_def bindM_liftM deserializeElements_default)
  then show ?thesis by (simp add: deserialize_metadata_def metadata_of_elements [OF wf])
qed

lemma file_metadata:
  "only_section 0x1000 file_image file_table VPU_SHT_NETDESC (deserialize_metadata fits) = Inr NetworkMetadata_new"
  using empty_metadata
  by (simp add: only_section_def file_sections file_found Let_def) (simp add: part_def file_parts)

lemma written_platform:
  "deserialize_platformInfo (\<lambda>_. True) 0x1298 (chain 0 0 file_platform) 40 = Inr \<lparr>mArchKind = VPUX40XX\<rparr>"
proof -
  have ne: "file_platform \<noteq> []" by (simp add: file_platform_def SerialPlatformInfo_def)
  have "serialize (\<lambda>_. True) file_platform = Inr (chain 0 0 file_platform)"
    using serializeElements_result [OF ne, of "\<lambda>_. True"] by (simp add: file_platform_def platform_elements)
  from deserialize_serialized [OF ne _ _ _ _ _ this, where a = "0x1298" and fs = "SerialPlatformInfo \<lparr>mArchKind = 0\<rparr>"]
  have "deserialize (\<lambda>_. True) 0x1298 (chain 0 0 file_platform) 40 (SerialPlatformInfo \<lparr>mArchKind = 0\<rparr>) =
      (Inr (), file_platform)"
    using platform_elements [of "\<lparr>mArchKind = VPUX40XX\<rparr>"] file_lengths(5)
    by (simp add: file_platform_def SerialPlatformInfo_def isz_def cnt_def zero_image_def)
  then show ?thesis
    by (simp add: deserialize_platformInfo_def platformInfo_of_def file_platform_def SerialPlatformInfo_def)
qed

lemma file_platform_info:
  "only_section 0x1000 file_image file_table VPU_SHT_PLATFORM_INFO (deserialize_platformInfo (\<lambda>_. True)) =
     Inr \<lparr>mArchKind = VPUX40XX\<rparr>"
  using written_platform
  by (simp add: only_section_def file_sections file_found Let_def) (simp add: part_def file_parts)

lemma file_register:
  "register_headers file_image \<lparr>mElfHeader = file_header, mSectionHeaders = file_table,
     mSectionNames = [0, 97, 0, 0, 0, 0, 0, 0], mSectionsCache = \<lambda>_. None\<rparr> = Inr file_buffers"
proof -
  have c: "cell file_image 608 24 = Inr (enc_Elf64_Sym (file_symbol 16))"
    by (simp add: cell_def file_parts)
  have u: "user_symbols file_image ((part SHT_SYMTAB 584 48)\<lparr>sh_flags := VPU_SHF_USERINPUT, sh_entsize := 24\<rparr>) [] =
      Inr [DeviceBuffer_make Null 0 16]"
    by (simp add: user_symbols_def open_section_def part_def file_parts Let_def c upt_rec
        pod_elf64_sym.dec_enc) (simp add: file_symbol_def)
  show ?thesis
    using u
    by (simp add: register_headers_def file_table_def register_header_def part_def actionMap_def elf_consts
        user_io_of_def file_buffers_def)
qed

lemma file_inspected:
  "inspect small_api (\<lambda>_. True) small_configs 0x1000 file_image file_table =
     Inr (NetworkMetadata_new, \<lparr>mArchKind = VPUX40XX\<rparr>)"
proof -
  have n: "nn_slice_count (mResourceRequirements NetworkMetadata_new) = 0" by code_simp
  have a: "getArchSpecificHPI small_api VPUX40XX = Inr (HPI_4000 (newHostParsedInference_4000 (api40 small_api) VPUX40XX))"
    by (simp add: getArchSpecificHPI_def VPUX37XX_def VPUX40XX_def)
  have e: "getELFLibABIVersion (HPI_4000 (newHostParsedInference_4000 A VPUX40XX)) = Inr (Version 1 2 4 True)" for A
    by (simp add: getELFLibABIVersion_4000_def newHostParsedInference_4000_def Let_def)
  have v: "getStaticMIVersion small_api (HPI_4000 h) = Version 1 0 0 True" for h
    by (simp add: small_api_def getStaticMIVersion_of_def small_nn_def nn_api.defs)
  have c: "checkVersionCompatibility (Version 1 x y True) (Version 1 x z True) = Inr LOG_DEBUG" for x y z
    by (simp add: checkVersionCompatibility_def checkValidity_def)
  have t: "getHardwareTileCount VPUX40XX = Inr 6" by code_simp
  have k: "archKind small_configs = VPUX40XX" "\<not> checkValidity (nnVersion small_configs)"
    by (simp_all add: small_configs_def checkValidity_def version_default_def)
  show ?thesis
    by (simp add: inspect_def k a e v c t n file_versions file_metadata file_platform_info
        del: getELFLibABIVersion.simps getStaticMIVersion.simps)
qed

lemma file_opens:
  "open_inference small_api (\<lambda>_. True) True small_configs 0x1000 file_image =
     Inr (file_buffers, NetworkMetadata_new, \<lparr>mArchKind = VPUX40XX\<rparr>)"
  by (simp add: open_inference_def file_parses(1) file_register file_inspected)

section \<open>The witnesses\<close>

definition file_henv :: henv where
  "file_henv = small_henv\<lparr>he_lenv := small_lenv\<lparr>le_am := DDRAccessManagerAlways (Ptr 0 0) 704\<rparr>\<rparr>"

lemma file_env:
  "le_am (he_lenv file_henv) = DDRAccessManagerAlways (Ptr 0 0) (of_nat (length file_image))"
  "image_in 0 0x1000 file_image (image_world file_image)"
  "he_api file_henv = small_api" "he_fits file_henv = (\<lambda>_. True)"
  by (simp_all add: file_henv_def small_henv_def file_parts image_in_def image_world_def)

theorem constructor_computes_open_inference_witness:
  "\<exists>i sh w'. HostParsedInference_new file_henv True False False small_configs ([], image_world file_image) =
       (Inr i, ([sh], w')) \<and> metadata i = Some NetworkMetadata_new \<and>
       platformInfo i = Some \<lparr>mArchKind = VPUX40XX\<rparr> \<and> user_of sh = file_buffers"
  using constructor_computes_open_inference [OF file_env(1,2) _ file_no_wrap,
      where hasManager = True and cfg = small_configs and ?override0.0 = False and ?explicit0.0 = False and store = "[]"]
  by (simp add: file_env file_opens file_parts)

lemma file_constructed:
  "\<exists>i sh w'. HostParsedInference_new file_henv True False False small_configs ([], image_world file_image) =
     (Inr i, ([sh], w'))"
  using constructor_refines [OF file_env(1,2) _ file_no_wrap,
      where hasManager = True and cfg = small_configs and ?override0.0 = False and ?explicit0.0 = False and store = "[]"]
  by (auto simp add: file_env file_opens file_parts)

theorem constructed_inference_witness:
  "\<exists>i sh w' l. HostParsedInference_new file_henv True False False small_configs ([], image_world file_image) =
     (Inr i, ([sh], w')) \<and> loaders i = [(l, 0)] \<and> \<not> m_loaded l"
proof -
  obtain i sh w' where run: "HostParsedInference_new file_henv True False False small_configs ([], image_world file_image) =
     (Inr i, ([sh], w'))" using file_constructed by blast
  then show ?thesis using constructed_inference [OF run] by fastforce
qed

end
