(* ===== verification/Elf_Image_Load.thy ===== *)
theory Elf_Image_Load imports Elf_Image begin

text \<open>
  Loading, as a function of the bytes of the file and of the device addresses that the allocator
  chose: \<open>relocate\<close> says what the relocation sections make of the contents of the buffers. A successful
  run of the loader computes it. \<open>computes\<close> is the partial counterpart of \<open>refines\<close>, because
  allocating and locking may throw.
\<close>

section \<open>Comparing a successful run with a function\<close>

definition computes ::
    "('s, 'a) prog \<Rightarrow> 's \<Rightarrow> 'b res \<Rightarrow> ('b \<Rightarrow> 'a \<Rightarrow> 's \<Rightarrow> bool) \<Rightarrow> bool" where
  "computes m s r Q \<longleftrightarrow> (\<forall>x t. m s = (Inr x, t) \<longrightarrow> (\<exists>v. r = Inr v \<and> Q v x t))"

lemma computes_refines: "refines m s r Q \<Longrightarrow> computes m s r Q"
  by (auto simp: refines_def computes_def split: sum.splits)

lemma computes_run: "computes m' s' r Q \<Longrightarrow> m s = m' s' \<Longrightarrow> computes m s r Q"
  by (simp only: computes_def)

lemma computes_bind:
  assumes "computes m s r Q" and "\<And>v x t. r = Inr v \<Longrightarrow> Q v x t \<Longrightarrow> computes (f x) t (g v) Q'"
  shows "computes (bindM m f) s (bindE r g) Q'"
  using assms unfolding computes_def bindM_Inr_iff by (metis bindE_simps(2))

lemma computes_skip: "(\<And>x t. m s = (Inr x, t) \<Longrightarrow> computes (f x) t r Q) \<Longrightarrow> computes (bindM m f) s r Q"
  by (fastforce simp: computes_def bindM_Inr_iff)

lemma computes_conseq: "computes m s r Q \<Longrightarrow> (\<And>v x t. Q v x t \<Longrightarrow> Q' v x t) \<Longrightarrow> computes m s r Q'"
  by (fastforce simp: computes_def)

lemma computes_ret: "Q v x s \<Longrightarrow> computes (retM x) s (Inr v) Q"
  by (simp add: computes_def retM_def)

lemma computes_throw: "computes (throwM e) s r Q"
  by (simp add: computes_def throwM_def)

lemma computes_read: "computes (f (g s)) s r Q \<Longrightarrow> computes (bindM (readM g) f) s r Q"
  by (rule computes_run [of "f (g s)" s]) (simp_all add: bindM_readM)

lemma computes_when: "(\<not> c \<Longrightarrow> computes k s r Q) \<Longrightarrow> computes (throwM_when c e k) s (throw_when c e' r) Q"
  by (cases c) (simp_all add: computes_throw)

lemma computes_unless: "(c \<Longrightarrow> computes k s r Q) \<Longrightarrow> computes (throwM_unless c e k) s (throw_unless c e' r) Q"
  by (cases c) (simp_all add: computes_throw)

lemma computes_lift: "computes (liftM r) s r (\<lambda>v x t. x = v \<and> t = s)"
  by (rule computes_refines [OF refines_lift])

lemma computes_for:
  assumes "P u s" and "\<And>x u s. x \<in> set xs \<Longrightarrow> P u s \<Longrightarrow> computes (f x) s (g x u) (\<lambda>u' _ t. P u' t)"
  shows "computes (forM f xs) s (foldE g xs u) (\<lambda>u' _ t. P u' t)"
  using assms
proof (induction xs arbitrary: u s)
  case Nil
  then show ?case by (simp add: computes_ret)
next
  case (Cons x xs)
  show ?case
    unfolding forM.simps foldE.simps
    by (rule computes_bind [OF Cons.prems(2) [OF _ Cons.prems(1)]]) (use Cons in simp_all)
qed

section \<open>The specification\<close>

definition header_at :: "Elf64_Shdr list \<Rightarrow> nat \<Rightarrow> Elf64_Shdr res" where
  "header_at hs i = throw_when (length hs \<le> i) RangeError (Inr (hs ! i))"

text \<open>Where the data of a section starts; a section without file data has none.\<close>

definition data_at :: "bytes \<Rightarrow> Elf64_Shdr \<Rightarrow> nat res" where
  "data_at img h =
     throw_unless (hasMemoryFootprint (sh_type h)) UndefinedBehaviour
     (bindE (open_section img h) (\<lambda>h. Inr (unat (sh_offset h))))"

definition entries_of :: "Elf64_Shdr \<Rightarrow> nat res" where
  "entries_of h = throw_unless (sh_entsize h \<noteq> 0) SectionError (Inr (unat (sh_size h div sh_entsize h)))"

text \<open>The symbols that a relocation section refers to: the runtime's, or the place and number of a table's.\<close>

definition table_of :: "bytes \<Rightarrow> Elf64_Shdr list \<Rightarrow> u32 \<Rightarrow> (nat \<times> nat) option res" where
  "table_of img hs idx =
     (if idx = VPU_RT_SYMTAB then Inr None
      else bindE (header_at hs (unat idx)) (\<lambda>h.
           bindE (entries_of h) (\<lambda>n.
           throw_unless (sh_type h = SHT_SYMTAB) RelocError
           (bindE (data_at img h) (\<lambda>off. Inr (Some (off, n)))))))"

definition entry_at :: "bytes \<Rightarrow> nat \<Rightarrow> nat \<Rightarrow> (bytes \<Rightarrow> 'a) \<Rightarrow> 'a res" where
  "entry_at img off i dec = bindE (cell img (off + 24 * i) 24) (\<lambda>bs. Inr (dec bs))"

definition runtime_at :: "Elf64_Sym list \<Rightarrow> nat \<Rightarrow> Elf64_Sym res" where
  "runtime_at runtime i = throw_unless (i < length runtime) UndefinedBehaviour (Inr (runtime ! i))"

definition symbol_in :: "bytes \<Rightarrow> Elf64_Sym list \<Rightarrow> (nat \<times> nat) option \<Rightarrow> nat \<Rightarrow> Elf64_Sym res" where
  "symbol_in img runtime tab i =
     (case tab of None \<Rightarrow> runtime_at runtime i | Some (off, n) \<Rightarrow> entry_at img off i dec_Elf64_Sym)"

text \<open>
  \<open>buffers i\<close> is the device buffer of section \<open>i\<close>. A symbol of a section that has one is moved to its
  device address, any other is replaced by the runtime symbol for the type of its section.
\<close>

type_synonym device_buffers = "nat \<Rightarrow> DeviceBuffer option"

definition symbol_meant ::
    "Elf64_Shdr list \<Rightarrow> device_buffers \<Rightarrow> Elf64_Sym list \<Rightarrow> u32 list \<Rightarrow> (nat \<times> nat) option \<Rightarrow> Elf64_Sym \<Rightarrow>
     Elf64_Sym res" where
  "symbol_meant hs buffers runtime types tab y =
     (let j = unat (st_shndx y); addr = (case buffers j of None \<Rightarrow> 0 | Some d \<Rightarrow> vpu_addr d)
      in if addr \<noteq> 0 \<or> tab = None then Inr (y\<lparr>st_value := st_value y + addr\<rparr>)
         else bindE (header_at hs j) (\<lambda>h. runtime_at runtime (indexOf (sh_type h) types)))"

definition relocate_entry ::
    "bytes \<Rightarrow> Elf64_Shdr list \<Rightarrow> device_buffers \<Rightarrow> Elf64_Sym list \<Rightarrow> u32 list \<Rightarrow> (nat \<times> nat) option \<Rightarrow> nat \<Rightarrow>
     DeviceBuffer \<Rightarrow> nat \<Rightarrow> bytes \<Rightarrow> bytes res" where
  "relocate_entry img hs buffers runtime types tab off d idx bs =
     bindE (entry_at img off idx dec_Elf64_Rela) (\<lambda>rel.
     throw_unless (r_offset rel < buf_size d) RelocError
     (let i = unat (elf64RSym (r_info rel))
      in throw_when (case tab of None \<Rightarrow> i > length runtime | Some (_, n) \<Rightarrow> i > n) RelocError
         (case relocationMap (elf64RType (r_info rel)) of
            None \<Rightarrow> Inl RelocError
          | Some f \<Rightarrow>
              bindE (symbol_in img runtime tab i) (\<lambda>y.
              bindE (symbol_meant hs buffers runtime types tab y) (\<lambda>y.
              throw_when (cpu_addr d = Null) UndefinedBehaviour
              (applyReloc f (unat (r_offset rel)) y (r_addend rel) bs))))))"

definition relocate_section ::
    "bytes \<Rightarrow> Elf64_Shdr list \<Rightarrow> device_buffers \<Rightarrow> Elf64_Sym list \<Rightarrow> u32 list \<Rightarrow> nat \<Rightarrow> (nat \<Rightarrow> bytes) \<Rightarrow>
     (nat \<Rightarrow> bytes) res" where
  "relocate_section img hs buffers runtime types k c =
     bindE (header_at hs k) (\<lambda>h.
     bindE (data_at img h) (\<lambda>off.
     bindE (entries_of h) (\<lambda>n.
     throw_unless (unat (sh_link h) < length hs \<or> sh_link h = VPU_RT_SYMTAB) RangeError
     (bindE (table_of img hs (sh_link h)) (\<lambda>tab.
      case relocationTarget h of
        None \<Rightarrow> Inl RelocError
      | Some i \<Rightarrow>
          throw_when (i = 0 \<or> i > length hs) RelocError
          (bindE (header_at hs i) (\<lambda>_.
           case buffers i of
             None \<Rightarrow> Inl OutOfRange
           | Some d \<Rightarrow>
               bindE (foldE (relocate_entry img hs buffers runtime types tab off d) [0..<n] (c i)) (\<lambda>bs.
               Inr (c(i := bs))))))))))"

definition relocate ::
    "bytes \<Rightarrow> Elf64_Shdr list \<Rightarrow> device_buffers \<Rightarrow> Elf64_Sym list \<Rightarrow> u32 list \<Rightarrow> nat list \<Rightarrow> (nat \<Rightarrow> bytes) \<Rightarrow>
     (nat \<Rightarrow> bytes) res" where
  "relocate img hs buffers runtime types ks c = foldE (relocate_section img hs buffers runtime types) ks c"

section \<open>The state behind it\<close>

text \<open>
  Between two worlds the image and the buffer objects have stayed. The sections of the reader are all
  cached, with views of the image where their data has been asked for.
\<close>

definition keeps :: "nat \<Rightarrow> world \<Rightarrow> world \<Rightarrow> bool" where
  "keeps b w w' \<longleftrightarrow> (b < length (memory w) \<longrightarrow> b < length (memory w') \<and> memory w' ! b = memory w ! b) \<and>
     (\<exists>new. objs w' = objs w @ new)"

lemma keeps_refl: "keeps b w w"
  by (simp add: keeps_def)

lemma keeps_trans: "keeps b u v \<Longrightarrow> keeps b v w \<Longrightarrow> keeps b u w"
  by (auto simp: keeps_def)

lemma only_views_keeps: "only_views w w' \<Longrightarrow> keeps b w w'"
  by (auto simp: only_views_def keeps_def)

lemma keeps_facts:
  "keeps b w w' \<Longrightarrow> image_in b base img w \<Longrightarrow> image_in b base img w'"
  "keeps b w w' \<Longrightarrow> shows_section b' base h r w \<Longrightarrow> shows_section b' base h r w'"
  "keeps b w w' \<Longrightarrow> r < length (objs w) \<Longrightarrow> r < length (objs w') \<and> getBuffer r w' = getBuffer r w"
  by (auto simp: keeps_def image_in_def shows_section_def getBuffer_def nth_append)

definition shown :: "nat \<Rightarrow> u64 \<Rightarrow> bytes \<Rightarrow> Elf64_Shdr list \<Rightarrow> LoaderShared \<Rightarrow> world \<Rightarrow> bool" where
  "shown b base img hs sh w \<longleftrightarrow>
     (let rd = m_reader sh
      in mSectionHeaders rd = hs \<and> unat (e_shnum (mElfHeader rd)) = length hs \<and>
         (\<forall>j < length hs. \<exists>sec. mSectionsCache rd j = Some sec \<and> rs_header sec = hs ! j \<and>
            (\<forall>r. rs_dataBuffer sec = Some r \<longrightarrow> hasMemoryFootprint (sh_type (hs ! j)) \<and>
               open_section img (hs ! j) = Inr (hs ! j) \<and> shows_section b base (hs ! j) r w)))"

lemma shown_keeps:
  assumes "keeps b w w'" and "shown b base img hs sh w"
  shows "shown b base img hs sh w'"
  unfolding shown_def Let_def
proof (intro conjI allI impI)
  fix j
  assume "j < length hs"
  then obtain sec where "mSectionsCache (m_reader sh) j = Some sec" "rs_header sec = hs ! j"
    "\<forall>r. rs_dataBuffer sec = Some r \<longrightarrow> hasMemoryFootprint (sh_type (hs ! j)) \<and>
       open_section img (hs ! j) = Inr (hs ! j) \<and> shows_section b base (hs ! j) r w"
    using assms(2) unfolding shown_def Let_def by blast
  then show "\<exists>sec. mSectionsCache (m_reader sh) j = Some sec \<and> rs_header sec = hs ! j \<and>
      (\<forall>r. rs_dataBuffer sec = Some r \<longrightarrow> hasMemoryFootprint (sh_type (hs ! j)) \<and>
         open_section img (hs ! j) = Inr (hs ! j) \<and> shows_section b base (hs ! j) r w')"
    using keeps_facts(2) [OF assms(1)] by blast
qed (use assms(2) in \<open>simp_all add: shown_def Let_def\<close>)

lemma opened_shown: "opened w0 hs names u sh w \<Longrightarrow> shown b base img hs sh w'"
  by (fastforce simp: opened_def shown_def tabled_def cached_def Let_def)

lemma shown_sectionAt:
  assumes "shown b base img hs (shd s) (wld s)"
  shows "computes (sectionAt i) s (header_at hs i) (\<lambda>h sec t. h = hs ! i \<and> i < length hs \<and> rs_header sec = h \<and> t = s)"
proof -
  have n: "unat (e_shnum (mElfHeader (m_reader (shd s)))) = length hs" using assms by (simp add: shown_def Let_def)
  show ?thesis
  proof (cases "i < length hs")
    case True
    then obtain sec where "mSectionsCache (m_reader (shd s)) i = Some sec" "rs_header sec = hs ! i"
      using assms by (auto simp: shown_def Let_def)
    then have "sectionAt i s = (Inr sec, s)"
      using n True by (simp add: sectionAt_def in_reader_def zoomM_def sectionM_def getSection_def)
    then show ?thesis using True \<open>rs_header sec = hs ! i\<close> by (simp add: computes_def header_at_def)
  next
    case False
    then show ?thesis
      using n by (simp add: computes_def sectionAt_def in_reader_def zoomM_def sectionM_def getSection_def)
  qed
qed

text \<open>What a program that only reads sections may change: caches and views.\<close>

definition reads :: "nat \<Rightarrow> u64 \<Rightarrow> bytes \<Rightarrow> Elf64_Shdr list \<Rightarrow> lstate \<Rightarrow> lstate \<Rightarrow> bool" where
  "reads b base img hs s t \<longleftrightarrow> ldr t = ldr s \<and> only_views (wld s) (wld t) \<and>
     m_relocationSectionIndexes (shd t) = m_relocationSectionIndexes (shd s) \<and>
     m_jitRelocations (shd t) = m_jitRelocations (shd s) \<and> shown b base img hs (shd t) (wld t)"

lemma getData_shows:
  assumes am: "am = DDRAccessManagerAlways (Ptr b 0) (of_nat (length img))" and img: "image_in b base img w"
    and sec: "rs_header sec = h"
    and old: "\<And>r. rs_dataBuffer sec = Some r \<Longrightarrow>
      hasMemoryFootprint (sh_type h) \<and> open_section img h = Inr h \<and> shows_section b base h r w"
    and run: "getData E am sec w = (Inr (p, sec'), w')"
  obtains r where "only_views w w'" "hasMemoryFootprint (sh_type h)" "open_section img h = Inr h"
    "sec' = sec\<lparr>rs_dataBuffer := Some r\<rparr>" "shows_section b base h r w'" "p = Ptr b (unat (sh_offset h))"
proof -
  from run obtain buf w1 where b: "(case rs_dataBuffer sec of None \<Rightarrow> getDataBuffer E am False sec | Some r \<Rightarrow> retM (Some r)) w = (Inr buf, w1)"
    and d: "bindM (deref buf) (\<lambda>r. readM (\<lambda>w. (cpu_addr (getBuffer r w), sec\<lparr>rs_dataBuffer := Some r\<rparr>))) w1 = (Inr (p, sec'), w')"
    unfolding getData_def by (auto simp: bindM_Inr_iff)
  from d obtain r where r: "buf = Some r" "w' = w1" "p = cpu_addr (getBuffer r w1)" "sec' = sec\<lparr>rs_dataBuffer := Some r\<rparr>"
    by (auto simp: bindM_Inr_iff deref_def readM_def split: option.splits if_splits)
  have "only_views w w1 \<and> hasMemoryFootprint (sh_type h) \<and> open_section img h = Inr h \<and> shows_section b base h r w1"
  proof (cases "rs_dataBuffer sec")
    case (Some r')
    then show ?thesis using b r(1) old [OF Some] by (auto simp: retM_def only_views_refl)
  next
    case None
    then have g: "getDataBuffer E am False sec w = (Inr (Some r), w1)" using b r(1) by simp
    then have f: "hasMemoryFootprint (sh_type (rs_header sec))"
      by (auto simp: getDataBuffer_def Let_def retM_def hasMemoryFootprint_def split: if_splits)
    from refines_getDataBuffer [OF am img f, of E False] g show ?thesis
      using f by (auto simp: refines_def sec open_section_Inr split: sum.splits)
  qed
  then show ?thesis using that r by (simp add: shows_section_def DeviceBuffer_make_def)
qed

lemma shown_sectionData:
  assumes am: "le_am L = DDRAccessManagerAlways (Ptr b 0) (of_nat (length img))"
    and img: "image_in b base img (wld s)" and sh: "shown b base img hs (shd s) (wld s)" and i: "i < length hs"
  shows "computes (sectionData L i) s (data_at img (hs ! i))
    (\<lambda>off p t. p = Ptr b off \<and> off = unat (sh_offset (hs ! i)) \<and> reads b base img hs s t)"
  unfolding computes_def
proof (intro allI impI)
  fix p t
  assume "sectionData L i s = (Inr p, t)"
  then obtain rd' w' where d: "sectionDataM (le_env L) (le_am L) i (m_reader (shd s), wld s) = (Inr p, (rd', w'))"
    and t: "t = s\<lparr>shd := (shd s)\<lparr>m_reader := rd'\<rparr>, wld := w'\<rparr>"
    by (auto simp: sectionData_def in_reader_def zoomM_def split: prod.splits)
  have n: "unat (e_shnum (mElfHeader (m_reader (shd s)))) = length hs" and tab: "mSectionHeaders (m_reader (shd s)) = hs"
    using sh by (simp_all add: shown_def Let_def)
  obtain sec where sec: "mSectionsCache (m_reader (shd s)) i = Some sec" "rs_header sec = hs ! i"
    "\<And>r. rs_dataBuffer sec = Some r \<Longrightarrow> hasMemoryFootprint (sh_type (hs ! i)) \<and>
       open_section img (hs ! i) = Inr (hs ! i) \<and> shows_section b base (hs ! i) r (wld s)"
    using sh i unfolding shown_def Let_def by blast
  have g: "getSection i (m_reader (shd s)) = (Inr sec, m_reader (shd s))" using sec(1) n i by (simp add: getSection_def)
  from d obtain sec' where run: "getData (le_env L) (le_am L) sec (wld s) = (Inr (p, sec'), w')"
    and rd': "rd' = (m_reader (shd s))\<lparr>mSectionsCache := (mSectionsCache (m_reader (shd s)))(i \<mapsto> sec')\<rparr>"
    by (cases rule: sectionDataM_cases) (auto simp: g)
  obtain r where r: "only_views (wld s) w'" "hasMemoryFootprint (sh_type (hs ! i))" "open_section img (hs ! i) = Inr (hs ! i)"
    "sec' = sec\<lparr>rs_dataBuffer := Some r\<rparr>" "shows_section b base (hs ! i) r w'" "p = Ptr b (unat (sh_offset (hs ! i)))"
    by (rule getData_shows [OF am img sec(2,3) run])
  have old: "shown b base img hs (shd s) w'" by (rule shown_keeps [OF only_views_keeps [OF r(1)] sh])
  have "shown b base img hs (shd t) (wld t)"
    unfolding shown_def Let_def
  proof (intro conjI allI impI)
    fix j
    assume j: "j < length hs"
    show "\<exists>sec. mSectionsCache (m_reader (shd t)) j = Some sec \<and> rs_header sec = hs ! j \<and>
        (\<forall>r. rs_dataBuffer sec = Some r \<longrightarrow> hasMemoryFootprint (sh_type (hs ! j)) \<and>
           open_section img (hs ! j) = Inr (hs ! j) \<and> shows_section b base (hs ! j) r (wld t))"
    proof (cases "j = i")
      case True
      then show ?thesis using sec(2) r(2-5) by (simp add: t rd')
    next
      case False
      then show ?thesis using old j by (simp add: t rd' shown_def Let_def)
    qed
  qed (use n tab in \<open>simp_all add: t rd'\<close>)
  then have "reads b base img hs s t" using r(1) by (simp add: reads_def t)
  then show "\<exists>off. data_at img (hs ! i) = Inr off \<and> p = Ptr b off \<and> off = unat (sh_offset (hs ! i)) \<and> reads b base img hs s t"
    using r(2,3,6) by (simp add: data_at_def)
qed

section \<open>The buffers behind it\<close>

text \<open>
  \<open>buffers i\<close> is what the container of the loader holds for section \<open>i\<close>. The contents \<open>c\<close> of the
  sections in \<open>T\<close> are whole blocks of their own, apart from the image.
\<close>

definition buffers_are :: "device_buffers \<Rightarrow> VPUXLoader \<Rightarrow> world \<Rightarrow> bool" where
  "buffers_are buffers l w \<longleftrightarrow>
     (\<forall>i. case buffers i of
        None \<Rightarrow> \<not> hasBufferInfoAtIndex i (m_inferBufferContainer l)
      | Some d \<Rightarrow> \<exists>info r. getBufferInfoFromIndex i (m_inferBufferContainer l) = Inr info \<and>
          mBuffer info = Some r \<and> r < length (objs w) \<and> getBuffer r w = d)"

definition block_holds :: "nat \<Rightarrow> DeviceBuffer \<Rightarrow> bytes \<Rightarrow> mem \<Rightarrow> bool" where
  "block_holds b d bs m \<longleftrightarrow>
     (case cpu_addr d of Null \<Rightarrow> True | Ptr k off \<Rightarrow> off = 0 \<and> k \<noteq> b \<and> k < length m \<and> snd (m ! k) = bs)"

definition separate :: "DeviceBuffer \<Rightarrow> DeviceBuffer \<Rightarrow> bool" where
  "separate d e \<longleftrightarrow>
     (case (cpu_addr d, cpu_addr e) of (Ptr k _, Ptr l _) \<Rightarrow> k \<noteq> l | _ \<Rightarrow> True)"

definition contents_are :: "nat \<Rightarrow> nat set \<Rightarrow> device_buffers \<Rightarrow> (nat \<Rightarrow> bytes) \<Rightarrow> mem \<Rightarrow> bool" where
  "contents_are b T buffers c m \<longleftrightarrow>
     (\<forall>i \<in> T. \<forall>d. buffers i = Some d \<longrightarrow> block_holds b d (c i) m \<and>
        (\<forall>j \<in> T. \<forall>e. j \<noteq> i \<and> buffers j = Some e \<longrightarrow> separate d e))"

text \<open>
  The buffer of a shared entry is a view of its section, that of any other entry is memory of the device;
  and where a private buffer holds data, the backup has a view of the section to fill it from.
\<close>

definition sound :: "nat \<Rightarrow> u64 \<Rightarrow> Elf64_Shdr list \<Rightarrow> VPUXLoader \<Rightarrow> world \<Rightarrow> bool" where
  "sound b base hs l w \<longleftrightarrow>
     (\<forall>i info q. getBufferInfoFromIndex i (m_inferBufferContainer l) = Inr info \<and> mBuffer info = Some q \<longrightarrow>
        (if mIsShared (mBufferDetails info) then shows_section b base (hs ! i) q w
         else q < length (objs w) \<and> bufKind (objs w ! q) = AllocatedDeviceBuffer)) \<and>
     (\<forall>i info q. getBufferInfoFromIndex i (m_backupBufferContainer l) = Inr info \<and> mIsShared (mBufferDetails info) \<and>
        mBuffer info = Some q \<longrightarrow> shows_section b base (hs ! i) q w) \<and>
     (\<forall>i info. getBufferInfoFromIndex i (m_inferBufferContainer l) = Inr info \<and> mHasData (mBufferDetails info) \<and>
        mIsProcessed (mBufferDetails info) \<and> \<not> mIsShared (mBufferDetails info) \<longrightarrow>
        (\<exists>back. getBufferInfoFromIndex i (m_backupBufferContainer l) = Inr back \<and> mIsShared (mBufferDetails back)))"

lemma sound_keeps:
  assumes "keeps b w w'" and "sound b base hs l w"
  shows "sound b base hs l w'"
  using assms(2) keeps_facts(2) [OF assms(1)] assms(1) unfolding sound_def keeps_def
  by (fastforce simp: nth_append split: if_splits)

definition standing ::
    "nat \<Rightarrow> u64 \<Rightarrow> bytes \<Rightarrow> Elf64_Shdr list \<Rightarrow> device_buffers \<Rightarrow> nat set \<Rightarrow> VPUXLoader \<Rightarrow> (nat \<Rightarrow> bytes) \<Rightarrow> lstate \<Rightarrow> bool" where
  "standing b base img hs buffers T l c s \<longleftrightarrow>
     ldr s = l \<and> image_in b base img (wld s) \<and> shown b base img hs (shd s) (wld s) \<and>
     buffers_are buffers l (wld s) \<and> sound b base hs l (wld s) \<and> contents_are b T buffers c (memory (wld s))"

lemma buffers_are_keeps: "keeps b w w' \<Longrightarrow> buffers_are buffers l w \<Longrightarrow> buffers_are buffers l w'"
  unfolding buffers_are_def
  using keeps_facts(3) by (fastforce split: option.splits)

lemma standing_reads:
  assumes "standing b base img hs buffers T l c s" and "reads b base img hs s t"
  shows "standing b base img hs buffers T l c t"
proof -
  have k: "keeps b (wld s) (wld t)" using assms(2) only_views_keeps by (simp add: reads_def)
  then show ?thesis
    using assms buffers_are_keeps [OF k] sound_keeps [OF k] keeps_facts(1) [OF k]
    by (auto simp: standing_def reads_def only_views_def)
qed

lemma same_state_keeps: "same_state w w' \<Longrightarrow> keeps b w w'"
  by (simp add: same_state_def keeps_def)

lemma standing_same:
  assumes "standing b base img hs buffers T l c s" and "same_state (wld s) w"
  shows "standing b base img hs buffers T l c (s\<lparr>wld := w\<rparr>)"
proof -
  have k: "keeps b (wld s) w" by (rule same_state_keeps [OF assms(2)])
  then show ?thesis
    using assms shown_keeps [OF k] buffers_are_keeps [OF k] sound_keeps [OF k] keeps_facts(1) [OF k]
    by (simp add: standing_def same_state_def)
qed

lemma computes_guarded:
  assumes doc: "lock_documented (env_bm (le_env L))"
    and body: "\<And>w. same_state (wld s) w \<Longrightarrow> computes body (s\<lparr>wld := w\<rparr>) r Q"
    and Q: "\<And>v x t w. Q v x t \<Longrightarrow> same_state (wld t) w \<Longrightarrow> Q v x (t\<lparr>wld := w\<rparr>)"
  shows "computes (guarded L (Some rf) body) s r Q"
  unfolding computes_def
proof (intro allI impI)
  fix x t
  assume "guarded L (Some rf) body s = (Inr x, t)"
  then obtain w t' where l: "lock (le_env L) rf (wld s) = (Inr (), w)" and b: "body (s\<lparr>wld := w\<rparr>) = (Inr x, t')"
    and t: "t = t'\<lparr>wld := unlock (le_env L) rf (wld t')\<rparr>"
    by (auto simp: guarded_def bindM_Inr_iff in_world_def zoomM_def finallyM_def split: prod.splits)
  from body [OF lock_same [OF doc l]] b obtain v where "r = Inr v" "Q v x t'"
    by (auto simp: computes_def)
  then show "\<exists>v. r = Inr v \<and> Q v x t" using Q unlock_same [OF doc] by (auto simp: t)
qed

section \<open>Relocating one buffer\<close>

lemma computes_entry:
  assumes "image_in b base img (wld s)"
  shows "computes (symbol_of (Ptr b off) i) s (entry_at img off i dec_Elf64_Sym) (\<lambda>v x t. x = v \<and> t = s)"
    and "computes (relocation_of (Ptr b off) i) s (entry_at img off i dec_Elf64_Rela) (\<lambda>v x t. x = v \<and> t = s)"
proof -
  show "computes (symbol_of (Ptr b off) i) s (entry_at img off i dec_Elf64_Sym) (\<lambda>v x t. x = v \<and> t = s)"
    unfolding entry_at_def by (rule computes_refines [OF refines_symbol_of [OF assms]])
  have "refines (relocation_of (Ptr b off) i) s (entry_at img off i dec_Elf64_Rela) (\<lambda>v x t. x = v \<and> t = s)"
    unfolding relocation_of_def read_at_def ptr_add.simps entry_at_def
    by (rule refines_bind [OF refines_in_world [OF refines_read_cell [OF assms]]]) (auto intro: refines_ret)
  then show "computes (relocation_of (Ptr b off) i) s (entry_at img off i dec_Elf64_Rela) (\<lambda>v x t. x = v \<and> t = s)"
    by (rule computes_refines)
qed

definition table_meant :: "nat \<Rightarrow> (nat \<times> nat) option \<Rightarrow> symtab" where
  "table_meant b tab = (case tab of None \<Rightarrow> RuntimeSymTab | Some (off, n) \<Rightarrow> SectionSymTab (Ptr b off) n)"

lemma computes_getSymTab:
  assumes am: "le_am L = DDRAccessManagerAlways (Ptr b 0) (of_nat (length img))"
    and st: "standing b base img hs buffers T l c s"
  shows "computes (getSymTab L idx) s (table_of img hs idx)
    (\<lambda>tab x t. x = table_meant b tab \<and> standing b base img hs buffers T l c t)"
proof (cases "idx = VPU_RT_SYMTAB")
  case True
  then show ?thesis using st by (simp add: getSymTab_def table_of_def computes_ret table_meant_def)
next
  case False
  have img: "image_in b base img (wld s)" and sh: "shown b base img hs (shd s) (wld s)"
    using st by (simp_all add: standing_def)
  have data: "computes (bindM (sectionData L (unat idx)) (\<lambda>p. retM (SectionSymTab p n))) s
      (bindE (data_at img (hs ! unat idx)) (\<lambda>off. Inr (Some (off, n))))
      (\<lambda>tab x t. x = table_meant b tab \<and> standing b base img hs buffers T l c t)" if "unat idx < length hs" for n
    by (rule computes_bind [OF shown_sectionData [OF am img sh that]])
      (auto intro!: computes_ret standing_reads [OF st] simp: table_meant_def)
  have entries: "computes (liftM (getEntriesNum sec)) s (entries_of h) (\<lambda>v x t. x = v \<and> t = s)" if "rs_header sec = h" for sec h
    using computes_lift by (simp add: getEntriesNum_def entries_of_def that)
  show ?thesis
    unfolding getSymTab_def table_of_def if_not_P [OF False]
  proof (rule computes_bind [OF shown_sectionAt [OF sh]], elim conjE, hypsubst)
    fix sec :: RSection
    assume i: "unat idx < length hs" and sec: "rs_header sec = hs ! unat idx"
    show "computes (bindM (liftM (getEntriesNum sec)) (\<lambda>n. throwM_unless (checkSectionType (rs_header sec) SHT_SYMTAB)
          RelocError (bindM (sectionData L (unat idx)) (\<lambda>p. retM (SectionSymTab p n))))) s
        (bindE (entries_of (hs ! unat idx)) (\<lambda>n. throw_unless (sh_type (hs ! unat idx) = SHT_SYMTAB) RelocError
          (bindE (data_at img (hs ! unat idx)) (\<lambda>off. Inr (Some (off, n))))))
        (\<lambda>tab x t. x = table_meant b tab \<and> standing b base img hs buffers T l c t)"
      by (rule computes_bind [OF entries [OF sec]])
        (use data [OF i] sec in \<open>auto simp: checkSectionType_def intro: computes_unless\<close>)
  qed
qed

lemma computes_runtimeSymbol:
  "computes (runtimeSymbol i) s (runtime_at (m_runtimeSymTabs (ldr s)) i) (\<lambda>v x t. x = v \<and> t = s)"
  unfolding runtimeSymbol_def runtime_at_def
  by (rule computes_read, rule computes_unless) (simp add: computes_ret)

lemma computes_symTabAt:
  assumes "image_in b base img (wld s)"
  shows "computes (symTabAt (table_meant b tab) i) s (symbol_in img (m_runtimeSymTabs (ldr s)) tab i) (\<lambda>v x t. x = v \<and> t = s)"
  using computes_runtimeSymbol computes_entry(1) [OF assms]
  by (auto simp: table_meant_def symbol_in_def split: option.split)

lemma computes_resolveSymbol:
  assumes st: "standing b base img hs buffers T l c s"
  shows "computes (resolveSymbol (table_meant b tab) y) s
    (symbol_meant hs buffers (m_runtimeSymTabs l) (m_symbolSectionTypes l) tab y) (\<lambda>v x t. x = v \<and> t = s)"
proof -
  let ?j = "unat (st_shndx y)"
  let ?addr = "case buffers ?j of None \<Rightarrow> 0 | Some d \<Rightarrow> vpu_addr d"
  have l: "ldr s = l" and sh: "shown b base img hs (shd s) (wld s)" and bf: "buffers_are buffers l (wld s)"
    using st by (simp_all add: standing_def)
  let ?m = "\<lambda>has. if has then bindM (inferInfo ?j) (\<lambda>info.
      in_world (bindM (deref (mBuffer info)) (\<lambda>r. readM (\<lambda>w. vpu_addr (getBuffer r w))))) else retM 0"
  have addr: "?m (hasBufferInfoAtIndex ?j (m_inferBufferContainer l)) s = (Inr ?addr, s)"
  proof (cases "buffers ?j")
    case None
    then have "\<not> hasBufferInfoAtIndex ?j (m_inferBufferContainer l)"
      using bf by (auto simp: buffers_are_def dest: spec [of _ ?j])
    then show ?thesis using None by (simp add: retM_def)
  next
    case (Some d)
    then obtain info r where "getBufferInfoFromIndex ?j (m_inferBufferContainer l) = Inr info" "mBuffer info = Some r"
      "r < length (objs (wld s))" "getBuffer r (wld s) = d"
      using bf by (auto simp: buffers_are_def dest!: spec [of _ ?j])
    then show ?thesis
      using Some l container.has_lookup [of ?j]
      by (auto simp: inferInfo_def bindM_def readM_def liftM_def in_world_def zoomM_def deref_def)
  qed
  have step: "bindM (?m (hasBufferInfoAtIndex ?j (m_inferBufferContainer l))) f s = f ?addr s"
    for f :: "_ \<Rightarrow> (lstate, Elf64_Sym) prog" by (rule bindM_Inr) (rule addr)
  have tab: "table_meant b tab = RuntimeSymTab \<longleftrightarrow> tab = None" by (simp add: table_meant_def split: option.split)
  have run: "computes (resolveSymbol (table_meant b tab) y) s r Q"
    if "computes (if ?addr \<noteq> 0 \<or> tab = None then retM (y\<lparr>st_value := st_value y + ?addr\<rparr>)
         else bindM (sectionAt ?j) (\<lambda>section. bindM (readM (\<lambda>s. m_symbolSectionTypes (ldr s))) (\<lambda>types.
              runtimeSymbol (indexOf (sh_type (rs_header section)) types)))) s r Q" for r Q
    by (rule computes_run [OF that])
      (simp only: resolveSymbol_def Let_def bindM_readM l step tab)
  show ?thesis
    unfolding symbol_meant_def Let_def
  proof (rule run, cases "?addr \<noteq> 0 \<or> tab = None")
    case False
    have "computes (bindM (sectionAt ?j) (\<lambda>section. bindM (readM (\<lambda>s. m_symbolSectionTypes (ldr s))) (\<lambda>types.
              runtimeSymbol (indexOf (sh_type (rs_header section)) types)))) s
        (bindE (header_at hs ?j) (\<lambda>h. runtime_at (m_runtimeSymTabs l) (indexOf (sh_type h) (m_symbolSectionTypes l))))
        (\<lambda>v x t. x = v \<and> t = s)"
      by (rule computes_bind [OF shown_sectionAt [OF sh]])
        (use computes_runtimeSymbol [of _ s] l in \<open>auto intro!: computes_read\<close>)
    then show "computes (if ?addr \<noteq> 0 \<or> tab = None then retM (y\<lparr>st_value := st_value y + ?addr\<rparr>)
         else bindM (sectionAt ?j) (\<lambda>section. bindM (readM (\<lambda>s. m_symbolSectionTypes (ldr s))) (\<lambda>types.
              runtimeSymbol (indexOf (sh_type (rs_header section)) types)))) s
        (if ?addr \<noteq> 0 \<or> tab = None then Inr (y\<lparr>st_value := st_value y + ?addr\<rparr>)
         else bindE (header_at hs ?j) (\<lambda>h. runtime_at (m_runtimeSymTabs l) (indexOf (sh_type h) (m_symbolSectionTypes l))))
        (\<lambda>v x t. x = v \<and> t = s)" unfolding if_not_P [OF False] .
  qed (simp add: computes_ret)
qed

lemma contents_put:
  assumes c: "contents_are b T buffers c m" and i: "i \<in> T" "buffers i = Some d" and d: "cpu_addr d = Ptr k 0"
  shows "contents_are b T buffers (c(i := bs)) (m[k := (fst (m ! k), bs)])"
  unfolding contents_are_def
proof (intro ballI allI impI conjI)
  fix j e
  assume j: "j \<in> T" "buffers j = Some e"
  have h: "block_holds b e (c j) m" and k: "k < length m" "k \<noteq> b"
    using c i j d by (auto simp: contents_are_def block_holds_def)
  show "block_holds b e ((c(i := bs)) j) (m[k := (fst (m ! k), bs)])"
  proof (cases "j = i")
    case True
    then show ?thesis using i j d k by (simp add: block_holds_def)
  next
    case False
    then have "separate e d" using c i j by (simp add: contents_are_def)
    then show ?thesis using h d False by (cases "cpu_addr e") (auto simp: block_holds_def separate_def)
  qed
next
  fix j d' j' e
  assume "j \<in> T" "buffers j = Some d'" "j' \<in> T" "j' \<noteq> j \<and> buffers j' = Some e"
  then show "separate d' e" using c by (simp add: contents_are_def)
qed

lemma standing_put:
  assumes st: "standing b base img hs buffers T l c s" and i: "i \<in> T" "buffers i = Some d" and d: "cpu_addr d = Ptr k 0"
  shows "standing b base img hs buffers T l (c(i := bs))
    (s\<lparr>wld := (wld s)\<lparr>memory := (memory (wld s))[k := (fst (memory (wld s) ! k), bs)]\<rparr>\<rparr>)"
proof -
  have c: "contents_are b T buffers c (memory (wld s))" using st by (simp add: standing_def)
  then have k: "k \<noteq> b" using i d by (auto simp: contents_are_def block_holds_def)
  let ?w = "(wld s)\<lparr>memory := (memory (wld s))[k := (fst (memory (wld s) ! k), bs)]\<rparr>"
  have kp: "keeps b (wld s) ?w" using k by (simp add: keeps_def)
  then show ?thesis
    using st shown_keeps [OF kp] buffers_are_keeps [OF kp] sound_keeps [OF kp] keeps_facts(1) [OF kp] contents_put [OF c i d]
    by (simp add: standing_def)
qed

lemma computes_applyRelocM:
  assumes st: "standing b base img hs buffers T l c s" and i: "i \<in> T" "buffers i = Some d"
  shows "computes (applyRelocM f (ptr_add (cpu_addr d) off) y a) s
    (throw_when (cpu_addr d = Null) UndefinedBehaviour (applyReloc f off y a (c i)))
    (\<lambda>bs _ t. standing b base img hs buffers T l (c(i := bs)) t \<and> objs (wld t) = objs (wld s))"
proof (cases "cpu_addr d")
  case Null
  then show ?thesis by (simp add: computes_def applyRelocM_def in_world_def zoomM_def)
next
  case (Ptr k j)
  then have "block_holds b d (c i) (memory (wld s))" using st i by (simp add: standing_def contents_are_def)
  then have k: "j = 0" "k < length (memory (wld s))" "snd (memory (wld s) ! k) = c i"
    using Ptr by (simp_all add: block_holds_def)
  note p = standing_put [OF st i Ptr [unfolded k(1)]]
  show ?thesis
    using k p by (auto simp: computes_def applyRelocM_def in_world_def zoomM_def Ptr split: sum.splits)
qed

lemma computes_applyRelocation:
  assumes st: "standing b base img hs buffers T l c s" and i: "i \<in> T" "buffers i = Some d"
    and target: "r < length (objs (wld s))" "getBuffer r (wld s) = d"
  shows "computes (applyRelocation (table_meant b tab) (Ptr b off) r (cpu_addr d) idx) s
    (relocate_entry img hs buffers (m_runtimeSymTabs l) (m_symbolSectionTypes l) tab off d idx (c i))
    (\<lambda>bs _ t. standing b base img hs buffers T l (c(i := bs)) t \<and> r < length (objs (wld t)) \<and> getBuffer r (wld t) = d)"
proof -
  have l: "ldr s = l" and img: "image_in b base img (wld s)" using st by (simp_all add: standing_def)
  let ?Q = "\<lambda>bs _ t. standing b base img hs buffers T l (c(i := bs)) t \<and> r < length (objs (wld t)) \<and> getBuffer r (wld t) = d"
  have num: "(unat j > symTabEntriesOf (table_meant b tab) \<and> table_meant b tab \<noteq> RuntimeSymTab \<or>
      unat j > length (m_runtimeSymTabs l) \<and> table_meant b tab = RuntimeSymTab) =
      (case tab of None \<Rightarrow> unat j > length (m_runtimeSymTabs l) | Some (_, n) \<Rightarrow> unat j > n)" for j :: u32
    by (auto simp: table_meant_def split: option.split)
  have patch: "computes (applyRelocM f (ptr_add (cpu_addr d) off) y a) s
      (throw_when (cpu_addr d = Null) UndefinedBehaviour (applyReloc f off y a (c i))) ?Q" for f off y a
    by (rule computes_conseq [OF computes_applyRelocM [OF st i]]) (use target in \<open>auto simp: getBuffer_def\<close>)
  have func: "computes (case relocationMap type of None \<Rightarrow> throwM RelocError
      | Some f \<Rightarrow> bindM (symTabAt (table_meant b tab) j) (\<lambda>y. bindM (resolveSymbol (table_meant b tab) y) (\<lambda>y.
          applyRelocM f (ptr_add (cpu_addr d) off) y a))) s
      (case relocationMap type of None \<Rightarrow> Inl RelocError
      | Some f \<Rightarrow> bindE (symbol_in img (m_runtimeSymTabs l) tab j) (\<lambda>y.
          bindE (symbol_meant hs buffers (m_runtimeSymTabs l) (m_symbolSectionTypes l) tab y) (\<lambda>y.
          throw_when (cpu_addr d = Null) UndefinedBehaviour (applyReloc f off y a (c i))))) ?Q" for type j off a
  proof (cases "relocationMap type")
    case None
    then show ?thesis by (simp add: computes_throw)
  next
    case (Some f)
    show ?thesis
      unfolding Some option.case
    proof (rule computes_bind [OF computes_symTabAt [OF img, unfolded l]], elim conjE, hypsubst)
      fix y
      show "computes (bindM (resolveSymbol (table_meant b tab) y) (\<lambda>y. applyRelocM f (ptr_add (cpu_addr d) off) y a)) s
          (bindE (symbol_meant hs buffers (m_runtimeSymTabs l) (m_symbolSectionTypes l) tab y) (\<lambda>y.
          throw_when (cpu_addr d = Null) UndefinedBehaviour (applyReloc f off y a (c i)))) ?Q"
        by (rule computes_bind [OF computes_resolveSymbol [OF st]], elim conjE, hypsubst, rule patch)
    qed
  qed
  show ?thesis
    unfolding applyRelocation_def relocate_entry_def Let_def
  proof (rule computes_bind [OF computes_entry(2) [OF img]], elim conjE, hypsubst)
    fix rel
    show "computes (bindM (readM (\<lambda>s. buf_size (getBuffer r (wld s)))) (\<lambda>bufferSize.
        throwM_unless (r_offset rel < bufferSize) RelocError
        (bindM (readM (\<lambda>s. length (m_runtimeSymTabs (ldr s)))) (\<lambda>runtimeEntries.
         throwM_when (unat (elf64RSym (r_info rel)) > symTabEntriesOf (table_meant b tab) \<and> table_meant b tab \<noteq> RuntimeSymTab \<or>
            unat (elf64RSym (r_info rel)) > runtimeEntries \<and> table_meant b tab = RuntimeSymTab) RelocError
         (case relocationMap (elf64RType (r_info rel)) of None \<Rightarrow> throwM RelocError
          | Some f \<Rightarrow> bindM (symTabAt (table_meant b tab) (unat (elf64RSym (r_info rel)))) (\<lambda>y.
              bindM (resolveSymbol (table_meant b tab) y) (\<lambda>y.
              applyRelocM f (ptr_add (cpu_addr d) (unat (r_offset rel))) y (r_addend rel)))))))) s
        (throw_unless (r_offset rel < buf_size d) RelocError
        (throw_when (case tab of None \<Rightarrow> length (m_runtimeSymTabs l) < unat (elf64RSym (r_info rel))
            | Some (_, n) \<Rightarrow> n < unat (elf64RSym (r_info rel))) RelocError
         (case relocationMap (elf64RType (r_info rel)) of None \<Rightarrow> Inl RelocError
          | Some f \<Rightarrow> bindE (symbol_in img (m_runtimeSymTabs l) tab (unat (elf64RSym (r_info rel)))) (\<lambda>y.
              bindE (symbol_meant hs buffers (m_runtimeSymTabs l) (m_symbolSectionTypes l) tab y) (\<lambda>y.
              throw_when (cpu_addr d = Null) UndefinedBehaviour
                (applyReloc f (unat (r_offset rel)) y (r_addend rel) (c i))))))) ?Q"
      by (rule computes_read, unfold target(2), rule computes_unless, rule computes_read, unfold l num,
          rule computes_when, rule func)
  qed
qed

lemma computes_relocate_section:
  assumes am: "le_am L = DDRAccessManagerAlways (Ptr b 0) (of_nat (length img))"
    and doc: "lock_documented (env_bm (le_env L))"
    and st: "standing b base img hs buffers T l c s"
    and T: "\<And>i. k < length hs \<Longrightarrow> relocationTarget (hs ! k) = Some i \<Longrightarrow> buffers i \<noteq> None \<Longrightarrow> i \<in> T"
  shows "computes (applyRelocationSection L k) s
    (relocate_section img hs buffers (m_runtimeSymTabs l) (m_symbolSectionTypes l) k c)
    (\<lambda>c _ t. standing b base img hs buffers T l c t)"
proof -
  let ?S = "standing b base img hs buffers T l"
  let ?entry = "relocate_entry img hs buffers (m_runtimeSymTabs l) (m_symbolSectionTypes l)"
  have img: "image_in b base img (wld s)" and sh: "shown b base img hs (shd s) (wld s)" using st by (simp_all add: standing_def)
  have entries: "computes (liftM (getEntriesNum sec)) t (entries_of h) (\<lambda>v x u. x = v \<and> u = t)" if "rs_header sec = h" for sec h t
    using computes_lift by (simp add: getEntriesNum_def entries_of_def that)
  have loop: "computes (forM (applyRelocation (table_meant b tab) (Ptr b off) r (cpu_addr d)) [0..<n]) t
      (bindE (foldE (?entry tab off d) [0..<n] (c i)) (\<lambda>bs. Inr (c(i := bs)))) (\<lambda>c _ u. ?S c u)"
    if t: "?S c t" "r < length (objs (wld t))" "getBuffer r (wld t) = d" and i: "i \<in> T" "buffers i = Some d" for tab off n t r d i
  proof -
    let ?P = "\<lambda>bs u. ?S (c(i := bs)) u \<and> r < length (objs (wld u)) \<and> getBuffer r (wld u) = d"
    have "computes (applyRelocation (table_meant b tab) (Ptr b off) r (cpu_addr d) j) u (?entry tab off d j bs) (\<lambda>bs _ u. ?P bs u)"
      if "?P bs u" for j bs u
      using computes_applyRelocation [of b base img hs buffers T l "c(i := bs)" u i d r tab off j] that i by simp
    then have "computes (forM (applyRelocation (table_meant b tab) (Ptr b off) r (cpu_addr d)) [0..<n]) t
        (foldE (?entry tab off d) [0..<n] (c i)) (\<lambda>bs _ u. ?P bs u)"
      by (intro computes_for) (use t in simp_all)
    then show ?thesis unfolding computes_def by fastforce
  qed
  have patch: "computes (bindM (inferInfo i) (\<lambda>info. guarded L (mBuffer info)
        (bindM (in_world (deref (mBuffer info))) (\<lambda>target.
         bindM (readM (\<lambda>s. cpu_addr (getBuffer target (wld s)))) (\<lambda>addr.
         forM (applyRelocation (table_meant b tab) (Ptr b off) target addr) [0..<n]))))) t
      (case buffers i of None \<Rightarrow> Inl OutOfRange
       | Some d \<Rightarrow> bindE (foldE (?entry tab off d) [0..<n] (c i)) (\<lambda>bs. Inr (c(i := bs)))) (\<lambda>c _ u. ?S c u)"
    if t: "?S c t" and i: "buffers i \<noteq> None \<Longrightarrow> i \<in> T" for tab off n t i
  proof (rule computes_skip)
    fix info u
    assume "inferInfo i t = (Inr info, u)"
    then have u: "u = t" and info: "getBufferInfoFromIndex i (m_inferBufferContainer l) = Inr info"
      using t by (simp_all add: inferInfo_Inr standing_def)
    have "buffers_are buffers l (wld t)" using t by (simp add: standing_def)
    then obtain d r where d: "buffers i = Some d" "mBuffer info = Some r" "r < length (objs (wld t))" "getBuffer r (wld t) = d"
      using info container.has_lookup [of i "m_inferBufferContainer l"]
      by (cases "buffers i") (auto simp: buffers_are_def dest!: spec [of _ i])
    show "computes (guarded L (mBuffer info) (bindM (in_world (deref (mBuffer info))) (\<lambda>target.
         bindM (readM (\<lambda>s. cpu_addr (getBuffer target (wld s)))) (\<lambda>addr.
         forM (applyRelocation (table_meant b tab) (Ptr b off) target addr) [0..<n])))) u
      (case buffers i of None \<Rightarrow> Inl OutOfRange
       | Some d \<Rightarrow> bindE (foldE (?entry tab off d) [0..<n] (c i)) (\<lambda>bs. Inr (c(i := bs)))) (\<lambda>c _ u. ?S c u)"
      unfolding u d(1,2) option.case
    proof (rule computes_guarded [OF doc])
      fix w
      assume w: "same_state (wld t) w"
      have r: "r < length (objs w)" "getBuffer r w = d" using d(3,4) w by (simp_all add: same_state_def getBuffer_def)
      show "computes (bindM (in_world (deref (Some r))) (\<lambda>target.
           bindM (readM (\<lambda>s. cpu_addr (getBuffer target (wld s)))) (\<lambda>addr.
           forM (applyRelocation (table_meant b tab) (Ptr b off) target addr) [0..<n]))) (t\<lparr>wld := w\<rparr>)
          (bindE (foldE (?entry tab off d) [0..<n] (c i)) (\<lambda>bs. Inr (c(i := bs)))) (\<lambda>c _ u. ?S c u)"
        by (rule computes_run [OF loop [OF standing_same [OF t w], of r d]])
          (use r d(1) i in \<open>simp_all add: bindM_def in_world_def zoomM_def deref_def readM_def\<close>)
    qed (rule standing_same)
  qed
  show ?thesis
    unfolding applyRelocationSection_def relocate_section_def Let_def
  proof (rule computes_bind [OF shown_sectionAt [OF sh]], elim conjE, hypsubst)
    fix sec :: RSection
    assume k: "k < length hs" and sec: "rs_header sec = hs ! k"
    let ?h = "hs ! k"
    show "computes (bindM (sectionData L k) (\<lambda>relocations. bindM (liftM (getEntriesNum sec)) (\<lambda>n. bindM sectionsNum (\<lambda>ns.
        throwM_unless (unat (sh_link (rs_header sec)) < ns \<or> sh_link (rs_header sec) = VPU_RT_SYMTAB) RangeError
          (bindM (getSymTab L (sh_link (rs_header sec))) (\<lambda>symTabs.
            case relocationTarget (rs_header sec) of None \<Rightarrow> throwM RelocError
            | Some i \<Rightarrow> throwM_when (i = 0 \<or> i > ns) RelocError
                (bindM (sectionAt i) (\<lambda>_. bindM (inferInfo i) (\<lambda>info. guarded L (mBuffer info)
                   (bindM (in_world (deref (mBuffer info))) (\<lambda>target.
                    bindM (readM (\<lambda>s. cpu_addr (getBuffer target (wld s)))) (\<lambda>addr.
                    forM (applyRelocation symTabs relocations target addr) [0..<n])))))))))))) s
      (bindE (data_at img ?h) (\<lambda>off. bindE (entries_of ?h) (\<lambda>n.
        throw_unless (unat (sh_link ?h) < length hs \<or> sh_link ?h = VPU_RT_SYMTAB) RangeError
         (bindE (table_of img hs (sh_link ?h)) (\<lambda>tab. case relocationTarget ?h of None \<Rightarrow> Inl RelocError
          | Some i \<Rightarrow> throw_when (i = 0 \<or> i > length hs) RelocError (bindE (header_at hs i) (\<lambda>_.
             case buffers i of None \<Rightarrow> Inl OutOfRange
             | Some d \<Rightarrow> bindE (foldE (?entry tab off d) [0..<n] (c i)) (\<lambda>bs. Inr (c(i := bs))))))))))
      (\<lambda>c _ t. ?S c t)"
      unfolding sec
    proof (rule computes_bind [OF shown_sectionData [OF am img sh k]], elim conjE)
      fix off p and t :: lstate
      assume p: "p = Ptr b off" and "reads b base img hs s t"
      then have t: "?S c t" by (intro standing_reads [OF st])
      have ns: "x = length hs \<and> u = t" if "sectionsNum t = (Inr x, u)" for x u
        using that t by (auto simp: sectionsNum_def bindM_readM liftM_def getSectionsNum_def standing_def shown_def
            Let_def throw_when_def split: if_splits)
      have body: "computes (bindM (getSymTab L (sh_link ?h)) (\<lambda>symTabs.
            case relocationTarget ?h of None \<Rightarrow> throwM RelocError
            | Some i \<Rightarrow> throwM_when (i = 0 \<or> i > length hs) RelocError
                (bindM (sectionAt i) (\<lambda>_. bindM (inferInfo i) (\<lambda>info. guarded L (mBuffer info)
                   (bindM (in_world (deref (mBuffer info))) (\<lambda>target.
                    bindM (readM (\<lambda>s. cpu_addr (getBuffer target (wld s)))) (\<lambda>addr.
                    forM (applyRelocation symTabs p target addr) [0..<n])))))))) t
          (bindE (table_of img hs (sh_link ?h)) (\<lambda>tab. case relocationTarget ?h of None \<Rightarrow> Inl RelocError
          | Some i \<Rightarrow> throw_when (i = 0 \<or> i > length hs) RelocError (bindE (header_at hs i) (\<lambda>_.
             case buffers i of None \<Rightarrow> Inl OutOfRange
             | Some d \<Rightarrow> bindE (foldE (?entry tab off d) [0..<n] (c i)) (\<lambda>bs. Inr (c(i := bs)))))))
          (\<lambda>c _ t. ?S c t)" for n
        unfolding p
      proof (rule computes_bind [OF computes_getSymTab [OF am t]], elim conjE, hypsubst)
        fix tab and u :: lstate
        assume u: "?S c u"
        then have sh': "shown b base img hs (shd u) (wld u)" by (simp add: standing_def)
        show "computes (case relocationTarget ?h of None \<Rightarrow> throwM RelocError
            | Some i \<Rightarrow> throwM_when (i = 0 \<or> i > length hs) RelocError
                (bindM (sectionAt i) (\<lambda>_. bindM (inferInfo i) (\<lambda>info. guarded L (mBuffer info)
                   (bindM (in_world (deref (mBuffer info))) (\<lambda>target.
                    bindM (readM (\<lambda>s. cpu_addr (getBuffer target (wld s)))) (\<lambda>addr.
                    forM (applyRelocation (table_meant b tab) (Ptr b off) target addr) [0..<n]))))))) u
            (case relocationTarget ?h of None \<Rightarrow> Inl RelocError
            | Some i \<Rightarrow> throw_when (i = 0 \<or> i > length hs) RelocError (bindE (header_at hs i) (\<lambda>_.
             case buffers i of None \<Rightarrow> Inl OutOfRange
             | Some d \<Rightarrow> bindE (foldE (?entry tab off d) [0..<n] (c i)) (\<lambda>bs. Inr (c(i := bs))))))
            (\<lambda>c _ t. ?S c t)"
        proof (cases "relocationTarget ?h")
          case None
          then show ?thesis by (simp add: computes_throw)
        next
          case (Some i)
          show ?thesis
            unfolding Some option.case
            by (rule computes_when, rule computes_bind [OF shown_sectionAt [OF sh']], elim conjE, hypsubst,
                rule patch [OF u]) (rule T [OF k Some])
        qed
      qed
      show "computes (bindM (liftM (getEntriesNum sec)) (\<lambda>n. bindM sectionsNum (\<lambda>ns.
        throwM_unless (unat (sh_link ?h) < ns \<or> sh_link ?h = VPU_RT_SYMTAB) RangeError
          (bindM (getSymTab L (sh_link ?h)) (\<lambda>symTabs.
            case relocationTarget ?h of None \<Rightarrow> throwM RelocError
            | Some i \<Rightarrow> throwM_when (i = 0 \<or> i > ns) RelocError
                (bindM (sectionAt i) (\<lambda>_. bindM (inferInfo i) (\<lambda>info. guarded L (mBuffer info)
                   (bindM (in_world (deref (mBuffer info))) (\<lambda>target.
                    bindM (readM (\<lambda>s. cpu_addr (getBuffer target (wld s)))) (\<lambda>addr.
                    forM (applyRelocation symTabs p target addr) [0..<n]))))))))))) t
        (bindE (entries_of ?h) (\<lambda>n.
          throw_unless (unat (sh_link ?h) < length hs \<or> sh_link ?h = VPU_RT_SYMTAB) RangeError
         (bindE (table_of img hs (sh_link ?h)) (\<lambda>tab. case relocationTarget ?h of None \<Rightarrow> Inl RelocError
          | Some i \<Rightarrow> throw_when (i = 0 \<or> i > length hs) RelocError (bindE (header_at hs i) (\<lambda>_.
             case buffers i of None \<Rightarrow> Inl OutOfRange
             | Some d \<Rightarrow> bindE (foldE (?entry tab off d) [0..<n] (c i)) (\<lambda>bs. Inr (c(i := bs)))))))))
        (\<lambda>c _ t. ?S c t)"
        by (rule computes_bind [OF entries [OF sec]], elim conjE, hypsubst, rule computes_skip, drule ns, elim conjE,
            hypsubst, rule computes_unless, rule body)
    qed
  qed
qed

lemma computes_relocate:
  assumes am: "le_am L = DDRAccessManagerAlways (Ptr b 0) (of_nat (length img))"
    and doc: "lock_documented (env_bm (le_env L))"
    and st: "standing b base img hs buffers T l c s"
    and T: "\<And>k i. k \<in> set ks \<Longrightarrow> k < length hs \<Longrightarrow> relocationTarget (hs ! k) = Some i \<Longrightarrow> buffers i \<noteq> None \<Longrightarrow> i \<in> T"
  shows "computes (applyRelocations L ks) s
    (relocate img hs buffers (m_runtimeSymTabs l) (m_symbolSectionTypes l) ks c)
    (\<lambda>c _ t. standing b base img hs buffers T l c t)"
  unfolding applyRelocations_def relocate_def
  by (rule computes_for [OF st computes_relocate_section [OF am doc]]) (use T in blast)+

end
