(* ===== verification/Elf_Image_Loaded.thy ===== *)
theory Elf_Image_Loaded imports Elf_Image_Load begin

text \<open>
  Loading from the file on: where the buffers of the loader lie while it loads, what is in them, and
  what the relocations make of it.
\<close>

section \<open>Where the buffers lie\<close>

text \<open>
  Storage that no one else has, for a buffer that is filled from its section; and the buffer that an
  entry of the container refers to: none yet, a view of the image, or storage of its own.
\<close>

definition alone :: "nat \<Rightarrow> DeviceBuffer \<Rightarrow> mem \<Rightarrow> bool" where
  "alone b d m \<longleftrightarrow> (case cpu_addr d of Null \<Rightarrow> True | Ptr k off \<Rightarrow> off = 0 \<and> k \<noteq> b \<and> k < length m)"

definition bytes_in :: "DeviceBuffer \<Rightarrow> mem \<Rightarrow> bytes" where
  "bytes_in d m = (case cpu_addr d of Null \<Rightarrow> [] | Ptr k off \<Rightarrow> drop off (snd (m ! k)))"

definition section_bytes :: "bytes \<Rightarrow> Elf64_Shdr \<Rightarrow> bytes" where
  "section_bytes img h = bslice (unat (sh_offset h)) (unat (sh_size h)) img"

definition filled :: "bytes \<Rightarrow> Elf64_Shdr \<Rightarrow> bytes \<Rightarrow> bool" where
  "filled img h bs \<longleftrightarrow> take (unat (sh_size h)) bs = section_bytes img h"

definition located_in :: "bool \<Rightarrow> nat \<Rightarrow> u64 \<Rightarrow> bytes \<Rightarrow> Elf64_Shdr \<Rightarrow> BufferInfo \<Rightarrow> world \<Rightarrow> bool" where
  "located_in f b base img h info w \<longleftrightarrow>
     (case mBuffer info of
        None \<Rightarrow> \<not> mIsProcessed (mBufferDetails info) \<and>
          (mIsShared (mBufferDetails info) \<longrightarrow> sh_type h = SHT_PROGBITS)
      | Some r \<Rightarrow> r < length (objs w) \<and>
          (if mIsShared (mBufferDetails info)
           then mIsProcessed (mBufferDetails info) \<and> shows_section b base h r w
           else alone b (getBuffer r w) (memory w) \<and>
             (f \<and> mHasData (mBufferDetails info) \<and> mIsProcessed (mBufferDetails info) \<longrightarrow>
                filled img h (bytes_in (getBuffer r w) (memory w)))))"

abbreviation located :: "nat \<Rightarrow> u64 \<Rightarrow> bytes \<Rightarrow> Elf64_Shdr \<Rightarrow> BufferInfo \<Rightarrow> world \<Rightarrow> bool" where
  "located \<equiv> located_in True"

definition own_buffer :: "nat \<Rightarrow> VPUXLoader \<Rightarrow> bref \<Rightarrow> bool" where
  "own_buffer i l r \<longleftrightarrow> (\<exists>info. getBufferInfoFromIndex i (m_inferBufferContainer l) = Inr info \<and>
     mBuffer info = Some r \<and> \<not> mIsShared (mBufferDetails info))"

text \<open>\<open>F\<close> has the sections whose private buffers have been filled from the file.\<close>

definition laid_in :: "nat set \<Rightarrow> nat \<Rightarrow> u64 \<Rightarrow> bytes \<Rightarrow> Elf64_Shdr list \<Rightarrow> lstate \<Rightarrow> bool" where
  "laid_in F b base img hs s \<longleftrightarrow>
     image_in b base img (wld s) \<and> shown b base img hs (shd s) (wld s) \<and> sound b base hs (ldr s) (wld s) \<and>
     (\<forall>i info. getBufferInfoFromIndex i (m_inferBufferContainer (ldr s)) = Inr info \<longrightarrow>
        located_in (i \<in> F) b base img (hs ! i) info (wld s)) \<and>
     (\<forall>i j r q. i \<noteq> j \<and> own_buffer i (ldr s) r \<and> own_buffer j (ldr s) q \<longrightarrow>
        separate (getBuffer r (wld s)) (getBuffer q (wld s)))"

abbreviation laid :: "nat \<Rightarrow> u64 \<Rightarrow> bytes \<Rightarrow> Elf64_Shdr list \<Rightarrow> lstate \<Rightarrow> bool" where
  "laid \<equiv> laid_in UNIV"

text \<open>A step that adds blocks and objects, and changes neither the entries nor the sections.\<close>

definition enlarges :: "world \<Rightarrow> world \<Rightarrow> bool" where
  "enlarges w w' \<longleftrightarrow> (\<exists>ext. memory w' = memory w @ ext) \<and> (\<exists>new. objs w' = objs w @ new)"

lemma enlarges_refl: "enlarges w w"
  by (simp add: enlarges_def)

lemma enlarges_trans: "enlarges u v \<Longrightarrow> enlarges v w \<Longrightarrow> enlarges u w"
  by (auto simp: enlarges_def)

lemma enlarges_keeps: "enlarges w w' \<Longrightarrow> keeps b w w'"
  by (auto simp: enlarges_def keeps_def nth_append)

lemma enlarges_views: "only_views w w' \<Longrightarrow> enlarges w w'"
  by (auto simp: enlarges_def only_views_def)

lemma enlarges_same: "same_state w w' \<Longrightarrow> enlarges w w'"
  by (simp add: enlarges_def same_state_def)

lemma enlarges_facts:
  assumes "enlarges w w'"
  shows "r < length (objs w) \<Longrightarrow> r < length (objs w') \<and> getBuffer r w' = getBuffer r w"
    and "alone b d (memory w) \<Longrightarrow> alone b d (memory w') \<and> bytes_in d (memory w') = bytes_in d (memory w)"
    and "r < length (objs w) \<Longrightarrow> objs w' ! r = objs w ! r"
  using assms by (auto simp: enlarges_def alone_def bytes_in_def getBuffer_def nth_append split: ptr.splits)

lemma located_adds:
  assumes "enlarges w w'" and "located_in f b base img h info w"
  shows "located_in f b base img h info w'"
proof (cases "mBuffer info")
  case (Some r)
  then have r: "r < length (objs w)" using assms(2) by (simp add: located_in_def)
  note f = enlarges_facts(1) [OF assms(1) r]
  show ?thesis
    using assms(2) Some f enlarges_facts(2) [OF assms(1), of b "getBuffer r w"]
      keeps_facts(2) [OF enlarges_keeps [OF assms(1)], of b base h r]
    by (auto simp: located_in_def)
qed (use assms in \<open>simp add: located_in_def\<close>)

lemma own_located:
  assumes "laid_in F b base img hs s" and "own_buffer i (ldr s) r"
  shows "r < length (objs (wld s))" "alone b (getBuffer r (wld s)) (memory (wld s))"
  using assms by (fastforce simp: laid_in_def own_buffer_def located_in_def)+

lemma laid_adds:
  assumes "laid_in F b base img hs s" and "enlarges (wld s) (wld t)" and "ldr t = ldr s" and "shown b base img hs (shd t) (wld t)"
  shows "laid_in F b base img hs t"
  unfolding laid_in_def assms(3)
proof (intro conjI allI impI)
  show "image_in b base img (wld t)"
    using assms(1) keeps_facts(1) [OF enlarges_keeps [OF assms(2)]] by (simp add: laid_in_def)
  show "shown b base img hs (shd t) (wld t)" by (rule assms(4))
  show "sound b base hs (ldr s) (wld t)"
    using assms(1) sound_keeps [OF enlarges_keeps [OF assms(2)]] by (simp add: laid_in_def)
next
  fix i info
  assume "getBufferInfoFromIndex i (m_inferBufferContainer (ldr s)) = Inr info"
  then show "located_in (i \<in> F) b base img (hs ! i) info (wld t)"
    using assms(1) located_adds [OF assms(2)] by (simp add: laid_in_def)
next
  fix i j r q
  assume o: "i \<noteq> j \<and> own_buffer i (ldr s) r \<and> own_buffer j (ldr s) q"
  then have "getBuffer r (wld t) = getBuffer r (wld s)" "getBuffer q (wld t) = getBuffer q (wld s)"
    using enlarges_facts(1) [OF assms(2)] own_located(1) [OF assms(1)] by blast+
  then show "separate (getBuffer r (wld t)) (getBuffer q (wld t))" using assms(1) o unfolding laid_in_def by metis
qed

lemma laid_wld:
  assumes "laid_in F b base img hs s" and "enlarges (wld s) w"
  shows "laid_in F b base img hs (s\<lparr>wld := w\<rparr>)"
  by (rule laid_adds [OF assms(1)])
    (use assms shown_keeps [OF enlarges_keeps [OF assms(2)]] in \<open>simp_all add: laid_in_def\<close>)

lemma laid_reads: "laid_in F b base img hs s \<Longrightarrow> reads b base img hs s t \<Longrightarrow> laid_in F b base img hs t"
  by (rule laid_adds) (auto simp: reads_def intro: enlarges_views)

text \<open>Changes of the loader that leave its buffers alone.\<close>

lemma sound_cong:
  "m_inferBufferContainer l = m_inferBufferContainer l' \<Longrightarrow> m_backupBufferContainer l = m_backupBufferContainer l' \<Longrightarrow>
    sound b base hs l w = sound b base hs l' w"
  by (simp add: sound_def)

lemma laid_cong:
  assumes "laid_in F b base img hs s" and "m_inferBufferContainer (ldr t) = m_inferBufferContainer (ldr s)"
    and "m_backupBufferContainer (ldr t) = m_backupBufferContainer (ldr s)"
    and "m_reader (shd t) = m_reader (shd s)" and "wld t = wld s"
  shows "laid_in F b base img hs t"
  using assms sound_cong [of "ldr t" "ldr s"] by (simp add: laid_in_def shown_def own_buffer_def)

text \<open>A buffer that may become the one of section \<open>i\<close>.\<close>

definition room :: "nat \<Rightarrow> nat \<Rightarrow> bref \<Rightarrow> lstate \<Rightarrow> bool" where
  "room b i r s \<longleftrightarrow> r < length (objs (wld s)) \<and> bufKind (objs (wld s) ! r) = AllocatedDeviceBuffer \<and>
     alone b (getBuffer r (wld s)) (memory (wld s)) \<and>
     (\<forall>j q. j \<noteq> i \<and> own_buffer j (ldr s) q \<longrightarrow>
        separate (getBuffer q (wld s)) (getBuffer r (wld s)) \<and> separate (getBuffer r (wld s)) (getBuffer q (wld s)))"

lemma own_room:
  assumes "laid_in F b base img hs s" and "own_buffer i (ldr s) r"
  shows "room b i r s"
proof -
  have "bufKind (objs (wld s) ! r) = AllocatedDeviceBuffer"
    using assms unfolding laid_in_def sound_def own_buffer_def by metis
  moreover have "separate (getBuffer q (wld s)) (getBuffer r (wld s)) \<and> separate (getBuffer r (wld s)) (getBuffer q (wld s))"
    if "j \<noteq> i" "own_buffer j (ldr s) q" for j q
    using assms that unfolding laid_in_def by metis
  ultimately show ?thesis using own_located [OF assms] by (auto simp: room_def)
qed

lemma own_buffer_put:
  "own_buffer j (l\<lparr>m_inferBufferContainer := setBufferInfo i info (m_inferBufferContainer l)\<rparr>) q \<longleftrightarrow>
     (if j = i then mBuffer info = Some q \<and> \<not> mIsShared (mBufferDetails info) else own_buffer j l q)"
  by (auto simp: own_buffer_def container.lookup_put)

lemma laid_put:
  assumes "laid_in F b base img hs s" and "located_in (i \<in> F) b base img (hs ! i) info (wld s)"
    and bak: "mHasData (mBufferDetails info) \<Longrightarrow> mIsProcessed (mBufferDetails info) \<Longrightarrow>
      \<not> mIsShared (mBufferDetails info) \<Longrightarrow>
      \<exists>back. getBufferInfoFromIndex i (m_backupBufferContainer (ldr s)) = Inr back \<and> mIsShared (mBufferDetails back)"
    and own: "\<And>r. mBuffer info = Some r \<Longrightarrow> \<not> mIsShared (mBufferDetails info) \<Longrightarrow> room b i r s"
  shows "laid_in F b base img hs (s\<lparr>ldr := (ldr s)\<lparr>m_inferBufferContainer := setBufferInfo i info (m_inferBufferContainer (ldr s))\<rparr>\<rparr>)"
  unfolding laid_in_def
proof (intro conjI allI impI)
  fix j k r q
  assume "j \<noteq> k \<and> own_buffer j (ldr (s\<lparr>ldr := (ldr s)\<lparr>m_inferBufferContainer :=
      setBufferInfo i info (m_inferBufferContainer (ldr s))\<rparr>\<rparr>)) r \<and>
    own_buffer k (ldr (s\<lparr>ldr := (ldr s)\<lparr>m_inferBufferContainer :=
      setBufferInfo i info (m_inferBufferContainer (ldr s))\<rparr>\<rparr>)) q"
  then show "separate (getBuffer r (wld (s\<lparr>ldr := (ldr s)\<lparr>m_inferBufferContainer :=
      setBufferInfo i info (m_inferBufferContainer (ldr s))\<rparr>\<rparr>)))
      (getBuffer q (wld (s\<lparr>ldr := (ldr s)\<lparr>m_inferBufferContainer :=
      setBufferInfo i info (m_inferBufferContainer (ldr s))\<rparr>\<rparr>)))"
    using assms(1) own [unfolded room_def]
    by (auto simp: own_buffer_put laid_in_def split: if_splits)
next
  show "sound b base hs (ldr (s\<lparr>ldr := (ldr s)\<lparr>m_inferBufferContainer :=
      setBufferInfo i info (m_inferBufferContainer (ldr s))\<rparr>\<rparr>))
    (wld (s\<lparr>ldr := (ldr s)\<lparr>m_inferBufferContainer := setBufferInfo i info (m_inferBufferContainer (ldr s))\<rparr>\<rparr>))"
    using assms(1,2) own bak
    by (auto simp: laid_in_def sound_def container.lookup_put located_in_def room_def split: if_splits)
qed (use assms(1,2) in \<open>auto simp: laid_in_def container.lookup_put split: if_splits\<close>)

text \<open>An entry of the backup: one that is shared is a view, and no entry that a private buffer needs gets lost.\<close>

lemma laid_backup:
  assumes "laid_in F b base img hs s"
    and "\<And>q. mIsShared (mBufferDetails info) \<Longrightarrow> mBuffer info = Some q \<Longrightarrow> shows_section b base (hs ! i) q (wld s)"
    and "\<And>x. getBufferInfoFromIndex i (m_inferBufferContainer (ldr s)) = Inr x \<Longrightarrow> mHasData (mBufferDetails x) \<Longrightarrow>
      mIsProcessed (mBufferDetails x) \<Longrightarrow> \<not> mIsShared (mBufferDetails x) \<Longrightarrow> mIsShared (mBufferDetails info)"
  shows "laid_in F b base img hs
    (s\<lparr>ldr := (ldr s)\<lparr>m_backupBufferContainer := setBufferInfo i info (m_backupBufferContainer (ldr s))\<rparr>\<rparr>)"
  using assms by (fastforce simp: laid_in_def sound_def own_buffer_def container.lookup_put)

lemma room_adds:
  assumes "room b i r s" and "laid_in F b base img hs s" and "enlarges (wld s) (wld t)" and "ldr t = ldr s"
  shows "room b i r t"
proof -
  have r: "r < length (objs (wld t))" "getBuffer r (wld t) = getBuffer r (wld s)" "alone b (getBuffer r (wld t)) (memory (wld t))"
    "bufKind (objs (wld t) ! r) = AllocatedDeviceBuffer"
    using assms(1) enlarges_facts [OF assms(3)] by (simp_all add: room_def)
  have "getBuffer q (wld t) = getBuffer q (wld s)" if "own_buffer j (ldr s) q" for j q
    using enlarges_facts(1) [OF assms(3) own_located(1) [OF assms(2) that]] by simp
  then show ?thesis using r assms(1,4) by (auto simp: room_def)
qed

lemma room_put:
  "room b i r s \<Longrightarrow>
    room b i r (s\<lparr>ldr := (ldr s)\<lparr>m_inferBufferContainer := setBufferInfo i info (m_inferBufferContainer (ldr s))\<rparr>\<rparr>)"
  by (simp add: room_def own_buffer_put)

lemma allocated_room:
  assumes doc: "allocate_documented (env_bm E)" and laid: "laid_in F b base img hs s"
    and run: "newAllocatedDeviceBuffer E mgr specs (wld s) = (Inr r, w)"
  shows "enlarges (wld s) w" "room b i r (s\<lparr>wld := w\<rparr>)"
proof -
  let ?w = "wld s"
  obtain y m where y: "bm_allocate (env_bm E) specs (memory ?w) = (y, m)" by (metis surj_pair)
  obtain db where y': "y = Inr db"
    using run y by (cases y) (auto simp: newAllocatedDeviceBuffer_def throwM_unless_def throwM_def split: if_splits)
  have db: "y = Inr db" "memory w = m" "getBuffer r w = db" "r = length (objs ?w)"
      "objs w = objs ?w @ [\<lparr>bufKind = AllocatedDeviceBuffer, mDevBuffer = db, mBufferSpecs = specs\<rparr>]"
    using run y y' by (auto simp: newAllocatedDeviceBuffer_def newObj_def Let_def getBuffer_def logEv_def
        throwM_unless_def throwM_def split: if_splits)
  have grow: "mem_grows (memory ?w) m" using doc y by (metis allocate_documented_def snd_conv)
  have new: "cpu_addr db = Null \<or> (\<exists>blk. cpu_addr db = Ptr blk 0 \<and> length (memory ?w) \<le> blk \<and> blk < length m)"
    using doc y db(1) unfolding allocate_documented_def by (metis fst_conv snd_conv)
  show a: "enlarges ?w w" using grow db(2,5) by (auto simp: enlarges_def mem_grows_def)
  have bl: "b < length (memory ?w)" using laid by (simp add: laid_in_def image_in_def)
  have sep: "separate (getBuffer q w) db \<and> separate db (getBuffer q w)" if "own_buffer j (ldr s) q" for j q
  proof -
    have "getBuffer q w = getBuffer q ?w" "alone b (getBuffer q ?w) (memory ?w)"
      using enlarges_facts(1) [OF a] own_located [OF laid that] by blast+
    then show ?thesis using new by (auto simp: alone_def separate_def split: ptr.splits)
  qed
  have "alone b db m" using new bl by (auto simp: alone_def)
  moreover have "r < length (objs w)" "bufKind (objs w ! r) = AllocatedDeviceBuffer" using db(4,5) by simp_all
  ultimately show "room b i r (s\<lparr>wld := w\<rparr>)" using sep db(2,3) by (auto simp: room_def)
qed

lemma built_room:
  assumes doc: "allocate_documented (env_bm (le_env L))" and laid: "laid_in F b base img hs s"
    and run: "buildInfer L specs s = (Inr r, t)"
  shows "enlarges (wld s) (wld t)" "ldr t = ldr s" "shd t = shd s" "room b i r t" "r < length (objs (wld t))"
proof -
  obtain w where n: "newAllocatedDeviceBuffer (le_env L) (mBufferManager (m_inferBufferContainer (ldr s))) specs (wld s) = (Inr r, w)"
    and t: "t = s\<lparr>wld := w\<rparr>"
    using run by (auto simp: buildInfer_def bindM_readM buildAllocatedDeviceBuffer_def in_world_def zoomM_def split: prod.splits)
  note ar = allocated_room [OF doc laid n]
  show "enlarges (wld s) (wld t)" "ldr t = ldr s" "shd t = shd s" "room b i r t" using ar by (simp_all add: t)
  then show "r < length (objs (wld t))" by (simp add: room_def)
qed

section \<open>Filling a buffer\<close>

lemma laid_write:
  assumes laid: "laid_in F b base img hs s" and room: "room b i r s" and k: "cpu_addr (getBuffer r (wld s)) = Ptr k 0"
    and new: "\<And>info. getBufferInfoFromIndex i (m_inferBufferContainer (ldr s)) = Inr info \<Longrightarrow>
      (\<not> mIsProcessed (mBufferDetails info) \<or> i \<notin> F) \<and> mBuffer info = Some r"
  shows "laid_in F b base img hs (s\<lparr>wld := (wld s)\<lparr>memory := (memory (wld s))[k := (fst (memory (wld s) ! k), bs)]\<rparr>\<rparr>)"
    (is "laid_in F b base img hs ?t")
proof -
  let ?m = "memory (wld s)"
  have kb: "k \<noteq> b" "k < length ?m" using room k by (simp_all add: room_def alone_def)
  have keep: "keeps b (wld s) (wld ?t)" using kb by (simp add: keeps_def)
  have buf: "getBuffer q ((wld s)\<lparr>memory := m\<rparr>) = getBuffer q (wld s)" for q m by (simp add: getBuffer_def)
  have other: "bytes_in d (memory (wld ?t)) = bytes_in d ?m" if "separate d (getBuffer r (wld s))" for d
    using that k by (cases "cpu_addr d") (auto simp: bytes_in_def separate_def)
  have al: "alone b d (?m[k := x]) = alone b d ?m" for d x by (simp add: alone_def split: ptr.split)
  show ?thesis
    unfolding laid_in_def
  proof (intro conjI allI impI)
    show "image_in b base img (wld ?t)" "shown b base img hs (shd ?t) (wld ?t)" "sound b base hs (ldr ?t) (wld ?t)"
      using laid keeps_facts(1) [OF keep] shown_keeps [OF keep] sound_keeps [OF keep] by (simp_all add: laid_in_def)
  next
    fix j info
    assume e: "getBufferInfoFromIndex j (m_inferBufferContainer (ldr ?t)) = Inr info"
    then have l: "located_in (j \<in> F) b base img (hs ! j) info (wld s)" using laid by (simp add: laid_in_def)
    show "located_in (j \<in> F) b base img (hs ! j) info (wld ?t)"
    proof (cases "mBuffer info")
      case None
      then show ?thesis using l by (simp add: located_in_def)
    next
      case (Some q)
      have sh: "shows_section b base (hs ! j) q (wld s) \<Longrightarrow> shows_section b base (hs ! j) q (wld ?t)"
        by (rule keeps_facts(2) [OF keep])
      have "bytes_in (getBuffer q (wld s)) (memory (wld ?t)) = bytes_in (getBuffer q (wld s)) ?m"
        if "\<not> mIsShared (mBufferDetails info)" "mIsProcessed (mBufferDetails info)" "j \<in> F"
      proof (rule other)
        have "j \<noteq> i" using e new that(2,3) by auto
        then show "separate (getBuffer q (wld s)) (getBuffer r (wld s))"
          using room e Some that(1) unfolding room_def own_buffer_def by fastforce
      qed
      then show ?thesis using l Some sh by (auto simp: located_in_def buf al)
    qed
  next
    fix j j' q q'
    assume "j \<noteq> j' \<and> own_buffer j (ldr ?t) q \<and> own_buffer j' (ldr ?t) q'"
    then show "separate (getBuffer q (wld ?t)) (getBuffer q' (wld ?t))" using laid by (simp add: laid_in_def buf)
  qed
qed

lemma load_buffer_Inr:
  assumes "copy_documented (env_bm E)" and "load_buffer E r src n w = (Inr (), w')"
  shows "objs w' = objs w \<and> memcpy_mem (cpu_addr (getBuffer r w)) src (unat n) (memory w) = Inr (memory w')"
proof (cases "bufKind (objs w ! r) = AllocatedDeviceBuffer")
  case True
  have c: "bm_copy (env_bm E) (getBuffer r w) src n (memory w) =
      (case memcpy_mem (cpu_addr (getBuffer r w)) src (unat n) (memory w) of
         Inl e \<Rightarrow> (Inl e, memory w) | Inr m' \<Rightarrow> (Inr (getBuffer r w), m'))"
    using assms(1) by (simp add: copy_documented_def)
  show ?thesis
    using assms(2) True c
    by (auto simp: load_buffer_def setDevBuffer_def getBuffer_def logEv_def split: sum.splits)
next
  case False
  then have "memcpyM (cpu_addr (getBuffer r w)) src (unat n) w = (Inr (), w')"
    using assms(2) by (cases "bufKind (objs w ! r)") (simp_all add: load_buffer_def)
  then show ?thesis by (auto simp: memcpyM_def split: sum.splits)
qed

lemma load_fills:
  assumes doc: "lock_documented (env_bm (le_env L))" "copy_documented (env_bm (le_env L))"
    and laid: "laid_in F b base img hs s" and room: "room b i r s"
    and new: "\<And>info. getBufferInfoFromIndex i (m_inferBufferContainer (ldr s)) = Inr info \<Longrightarrow>
      (\<not> mIsProcessed (mBufferDetails info) \<or> i \<notin> F) \<and> mBuffer info = Some r"
    and run: "in_world (loadWithLock (le_env L) r (Ptr b off) n) s = (Inr (), t)"
  shows "laid_in F b base img hs t" "room b i r t" "ldr t = ldr s" "shd t = shd s"
    "take (unat n) (bytes_in (getBuffer r (wld t)) (memory (wld t))) = bslice off (unat n) img"
    "objs (wld t) = objs (wld s)"
proof -
  let ?E = "le_env L" and ?d = "getBuffer r (wld s)"
  from run obtain w1 w2 where w1: "lock ?E r (wld s) = (Inr (), w1)" and w2: "load_buffer ?E r (Ptr b off) n w1 = (Inr (), w2)"
    and t: "t = s\<lparr>wld := unlock ?E r w2\<rparr>"
    by (auto simp: in_world_def zoomM_def loadWithLock_def bindM_Inr_iff modifyM_def split: prod.splits)
  have s1: "same_state (wld s) w1" by (rule lock_same [OF doc(1) w1])
  note c = load_buffer_Inr [OF doc(2) w2]
  have s2: "same_state w2 (unlock ?E r w2)" by (rule unlock_same [OF doc(1)])
  have d1: "getBuffer r w1 = ?d" by (rule getBuffer_same [OF s1])
  have img: "memory (wld s) ! b = (base, img)" using laid by (simp add: laid_in_def image_in_def)
  have mm: "memcpy_mem (cpu_addr ?d) (Ptr b off) (unat n) (memory (wld s)) = Inr (memory w2)" and ob: "objs w2 = objs (wld s)"
    using c s1 d1 by (simp_all add: same_state_def)
  let ?w = "(wld s)\<lparr>memory := memory w2\<rparr>"
  show "ldr t = ldr s" "shd t = shd s" "objs (wld t) = objs (wld s)" using s2 ob by (simp_all add: t same_state_def)
  have add: "enlarges ?w (wld t)" using s2 ob by (simp add: enlarges_def same_state_def t)
  have "laid_in F b base img hs (s\<lparr>wld := ?w\<rparr>) \<and> room b i r (s\<lparr>wld := ?w\<rparr>) \<and>
      take (unat n) (bytes_in ?d (memory w2)) = bslice off (unat n) img"
  proof (cases "cpu_addr ?d")
    case Null
    then have "unat n = 0" "memory w2 = memory (wld s)" using mm by (auto simp: memcpy_mem_def split: if_splits)
    then show ?thesis using laid room by (simp add: bslice_def)
  next
    case (Ptr k j)
    then have j: "j = 0" "k < length (memory (wld s))" using room by (simp_all add: room_def alone_def)
    let ?bs = "if n = 0 then snd (memory (wld s) ! k) else bwrite 0 (bslice off (unat n) img) (snd (memory (wld s) ! k))"
    have v: "n = 0 \<or> unat n \<le> length (snd (memory (wld s) ! k)) \<and> off + unat n \<le> length img"
      and m: "memory w2 = (memory (wld s))[k := (fst (memory (wld s) ! k), ?bs)]"
      using mm Ptr j img by (auto simp: memcpy_mem_def bslice_def unat_eq_0 list_update_id split: if_splits)
    have "take (unat n) (bytes_in ?d (memory w2)) = bslice off (unat n) img"
      using v Ptr j by (auto simp: bytes_in_def m bslice_def bwrite_def)
    moreover have "room b i r (s\<lparr>wld := ?w\<rparr>)"
      using room by (auto simp: room_def m getBuffer_def alone_def split: ptr.splits)
    ultimately show ?thesis using laid_write [OF laid room Ptr [unfolded j(1)] new, of ?bs] m by simp
  qed
  then show "laid_in F b base img hs t" "room b i r t" "take (unat n) (bytes_in (getBuffer r (wld t)) (memory (wld t))) = bslice off (unat n) img"
    using laid_wld [of F b base img hs "s\<lparr>wld := ?w\<rparr>" "wld t"] room_adds [of b i r "s\<lparr>wld := ?w\<rparr>" F base img hs t] add s2 ob
    by (auto simp: t same_state_def getBuffer_def)
qed

section \<open>The passes of the loader\<close>

abbreviation passes :: "(lstate \<Rightarrow> bool) \<Rightarrow> (lstate, 'a) prog \<Rightarrow> ('a \<Rightarrow> lstate \<Rightarrow> bool) \<Rightarrow> bool" where
  "passes \<equiv> triple (\<lambda>_ _ _. True)"

lemma passesI: "(\<And>s v t. P s \<Longrightarrow> m s = (Inr v, t) \<Longrightarrow> Q v t) \<Longrightarrow> passes P m Q"
  by (simp add: triple_def)

lemma laid_on_ldr:
  "(\<And>l. m_inferBufferContainer (f l) = m_inferBufferContainer l \<and>
      m_backupBufferContainer (f l) = m_backupBufferContainer l) \<Longrightarrow>
    passes (laid b base img hs) (on_ldr f) (\<lambda>_. laid b base img hs)"
  unfolding on_ldr_def by (rule any.t_modify) (auto elim: laid_cong)

lemma laid_on_shd:
  "(\<And>sh. m_reader (f sh) = m_reader sh) \<Longrightarrow> passes (laid b base img hs) (on_shd f) (\<lambda>_. laid b base img hs)"
  unfolding on_shd_def by (rule any.t_modify) (auto elim: laid_cong)

lemma laid_readM: "passes P (readM g) (\<lambda>_. P)"
  by (rule passesI) (simp add: readM_def)

lemma laid_liftM: "passes P (liftM r) (\<lambda>_. P)"
  by (rule passesI) (auto simp: liftM_def split: sum.splits)

lemma laid_sectionAt:
  "passes (laid b base img hs) (sectionAt i)
    (\<lambda>sec s. (i < length hs \<and> rs_header sec = hs ! i) \<and> laid b base img hs s)"
proof (rule passesI)
  fix s t and sec :: RSection
  assume l: "laid b base img hs s" and run: "sectionAt i s = (Inr sec, t)"
  then have "shown b base img hs (shd s) (wld s)" by (simp add: laid_in_def)
  from shown_sectionAt [OF this] run l show "(i < length hs \<and> rs_header sec = hs ! i) \<and> laid b base img hs t"
    by (auto simp: computes_def)
qed

lemma laid_sectionData:
  assumes am: "le_am L = DDRAccessManagerAlways (Ptr b 0) (of_nat (length img))" and i: "i < length hs"
  shows "passes (laid b base img hs) (sectionData L i) (\<lambda>_. laid b base img hs)"
proof (rule passesI)
  fix s t and p :: ptr
  assume l: "laid b base img hs s" and run: "sectionData L i s = (Inr p, t)"
  then have "image_in b base img (wld s)" "shown b base img hs (shd s) (wld s)" by (simp_all add: laid_in_def)
  from shown_sectionData [OF am this i] run show "laid b base img hs t"
    by (auto simp: computes_def intro: laid_reads [OF l])
qed

lemma put_infer: "m_inferBufferContainer_update (setBufferInfo i info) l =
    l\<lparr>m_inferBufferContainer := setBufferInfo i info (m_inferBufferContainer l)\<rparr>"
  by (cases l) simp

lemma put_backup: "m_backupBufferContainer_update (setBufferInfo i info) l =
    l\<lparr>m_backupBufferContainer := setBufferInfo i info (m_backupBufferContainer l)\<rparr>"
  by (cases l) simp

lemma laid_setInfer:
  assumes "\<And>s. P s \<Longrightarrow> laid b base img hs s \<and> located b base img (hs ! i) info (wld s)"
    and "\<And>s. P s \<Longrightarrow> mHasData (mBufferDetails info) \<Longrightarrow> mIsProcessed (mBufferDetails info) \<Longrightarrow>
      \<not> mIsShared (mBufferDetails info) \<Longrightarrow>
      \<exists>back. getBufferInfoFromIndex i (m_backupBufferContainer (ldr s)) = Inr back \<and> mIsShared (mBufferDetails back)"
    and "\<And>s r. P s \<Longrightarrow> mBuffer info = Some r \<Longrightarrow> \<not> mIsShared (mBufferDetails info) \<Longrightarrow> room b i r s"
  shows "passes P (setInfer i info) (\<lambda>_. laid b base img hs)"
  unfolding setInfer_def on_ldr_def
  by (rule any.t_modify) (use assms laid_put in \<open>simp add: put_infer\<close>)

text \<open>While the backup of an entry is not complete, its buffer cannot have been filled from there.\<close>

definition unfilled :: "nat \<Rightarrow> VPUXLoader \<Rightarrow> bool" where
  "unfilled i l \<longleftrightarrow>
     (\<exists>back. getBufferInfoFromIndex i (m_backupBufferContainer l) = Inr back \<and> \<not> mIsShared (mBufferDetails back))"

lemma laid_unfilled:
  assumes "laid_in F b base img hs s" and "unfilled i (ldr s)"
    and "getBufferInfoFromIndex i (m_inferBufferContainer (ldr s)) = Inr x"
  shows "\<not> (mHasData (mBufferDetails x) \<and> mIsProcessed (mBufferDetails x) \<and> \<not> mIsShared (mBufferDetails x))"
  using assms unfolding laid_in_def sound_def unfilled_def by fastforce

lemma laid_safeInit:
  "passes (laid b base img hs) (safeInitInfer i) (\<lambda>_. laid b base img hs)"
  "passes (laid b base img hs) (safeInitBackup i) (\<lambda>_ s. laid b base img hs s \<and> unfilled i (ldr s))"
proof -
  show "passes (laid b base img hs) (safeInitInfer i) (\<lambda>_. laid b base img hs)"
  proof (rule passesI)
    fix s t and v :: unit
    assume l: "laid b base img hs s" and run: "safeInitInfer i s = (Inr v, t)"
    then have t: "t = s\<lparr>ldr := (ldr s)\<lparr>m_inferBufferContainer := setBufferInfo i BufferInfo_default (m_inferBufferContainer (ldr s))\<rparr>\<rparr>"
      by (auto simp: safeInitInfer_def bindM_readM bindM_liftM safeInitBufferInfoAtIndex_def throw_when_def
          on_ldr_def modifyM_def throwM_def split: if_splits)
    show "laid b base img hs t"
      unfolding t by (rule laid_put [OF l]) (simp_all add: located_in_def BufferInfo_default_def BufferDetails_default_def)
  qed
  show "passes (laid b base img hs) (safeInitBackup i) (\<lambda>_ s. laid b base img hs s \<and> unfilled i (ldr s))"
  proof (rule passesI)
    fix s t and v :: unit
    assume l: "laid b base img hs s" and run: "safeInitBackup i s = (Inr v, t)"
    then have t: "t = s\<lparr>ldr := (ldr s)\<lparr>m_backupBufferContainer := setBufferInfo i BufferInfo_default (m_backupBufferContainer (ldr s))\<rparr>\<rparr>"
      and no: "\<not> hasBufferInfoAtIndex i (m_backupBufferContainer (ldr s))"
      by (auto simp: safeInitBackup_def bindM_readM bindM_liftM safeInitBufferInfoAtIndex_def throw_when_def
          on_ldr_def modifyM_def throwM_def split: if_splits)
    have "laid b base img hs t"
      unfolding t
    proof (rule laid_backup [OF l])
      fix x
      assume "getBufferInfoFromIndex i (m_inferBufferContainer (ldr s)) = Inr x" "mHasData (mBufferDetails x)"
        "mIsProcessed (mBufferDetails x)" "\<not> mIsShared (mBufferDetails x)"
      then have "\<exists>y. getBufferInfoFromIndex i (m_backupBufferContainer (ldr s)) = Inr y"
        using l unfolding laid_in_def sound_def by blast
      then show "mIsShared (mBufferDetails BufferInfo_default)" using no by (auto simp: container.has_lookup)
    qed (simp_all add: BufferInfo_default_def BufferDetails_default_def)
    then show "laid b base img hs t \<and> unfilled i (ldr t)"
      by (simp add: t unfilled_def container.lookup_put BufferInfo_default_def BufferDetails_default_def)
  qed
qed

lemma laid_loadDataSection:
  "sh_type (hs ! i) = SHT_PROGBITS \<Longrightarrow>
    passes (laid b base img hs) (loadDataSection i h) (\<lambda>_. laid b base img hs)"
  unfolding loadDataSection_def
  by (rule any.t_bind [OF laid_readM], rule any.t_if, rule any.t_ret, rule any.t_bind [OF laid_safeInit(1)],
      rule laid_setInfer) (auto simp: located_in_def details_def)

lemma laid_loadScratchSection:
  assumes "allocate_documented (env_bm (le_env L))"
  shows "passes (laid b base img hs) (loadScratchSection L i h) (\<lambda>_. laid b base img hs)"
proof -
  let ?P = "\<lambda>r s. laid b base img hs s \<and> room b i r s"
  have build: "passes (laid b base img hs) (buildInfer L specs) ?P" for specs
  proof (rule passesI)
    fix s t r
    assume l: "laid b base img hs s" and run: "buildInfer L specs s = (Inr r, t)"
    note bt = built_room [OF assms l run]
    have "laid b base img hs t"
      by (rule laid_adds [OF l bt(1,2)])
        (use l shown_keeps [OF enlarges_keeps [OF bt(1)]] in \<open>simp add: bt(3) laid_in_def\<close>)
    then show "?P r t" using bt(4) by simp
  qed
  have put: "passes (?P r) (setInfer i info) (\<lambda>_. ?P r)"
    if "mBuffer info = Some r" "\<not> mIsShared (mBufferDetails info)" "\<not> mHasData (mBufferDetails info)" for info r
    unfolding setInfer_def on_ldr_def
  proof (rule any.t_modify, intro conjI TrueI)
    fix s
    assume s: "?P r s"
    then have "located b base img (hs ! i) info (wld s)" using that by (simp add: located_in_def room_def)
    then show "laid b base img hs (s\<lparr>ldr := m_inferBufferContainer_update (setBufferInfo i info) (ldr s)\<rparr>)"
      "room b i r (s\<lparr>ldr := m_inferBufferContainer_update (setBufferInfo i info) (ldr s)\<rparr>)"
      using laid_put [of UNIV b base img hs s i info] room_put [of b i r s info] s that by (simp_all add: put_infer)
  qed
  have note1: "passes (?P r) (if c then on_ldr (m_sharedScratchBuffers_update (\<lambda>xs. xs @ [i])) else retM ()) (\<lambda>_. ?P r)" for c r
    by (cases c) (auto simp: on_ldr_def retM_def modifyM_def triple_def room_def own_buffer_def elim: laid_cong)
  show ?thesis
    unfolding loadScratchSection_def Let_def
    apply (rule any.t_bind [OF laid_readM], rule any.t_if, rule any.t_ret, rule any.t_when)
    apply (rule any.t_bind [OF laid_readM], rule any.t_bind [OF laid_safeInit(1)], rule any.t_bind [OF build])
    apply (rule any.t_bind [OF put], simp, simp add: BufferDetails_default_def, simp add: BufferDetails_default_def)
    apply (rule any.t_bind [OF laid_readM], rule any.t_bind [OF note1])
    apply (rule triple_conseq [OF put])
        apply (auto simp: details_def)
    done
qed

lemma laid_loadSection:
  assumes am: "le_am L = DDRAccessManagerAlways (Ptr b 0) (of_nat (length img))"
    and doc: "allocate_documented (env_bm (le_env L))"
  shows "passes (laid b base img hs) (loadSection L i) (\<lambda>_. laid b base img hs)"
  unfolding loadSection_def Let_def
proof (rule any.t_bind [OF laid_sectionAt], rule triple_fact)
  fix sec :: RSection
  assume sec: "i < length hs \<and> rs_header sec = hs ! i"
  then have i: "i < length hs" by simp
  have reg: "passes (laid b base img hs) (registerRelocation L i h) (\<lambda>_. laid b base img hs)" for h
    unfolding registerRelocation_def
    by (intro any.t_if any.t_bind [OF laid_sectionData [OF am i]] laid_on_shd) simp_all
  show "passes (laid b base img hs)
      (bindM (liftM (sectionAction (sh_type (rs_header sec)))) (\<lambda>action. case action of
          AllocateAndLoad \<Rightarrow> loadDataSection i (rs_header sec)
        | Allocate \<Rightarrow> loadScratchSection L i (rs_header sec)
        | Relocate \<Rightarrow> registerRelocation L i (rs_header sec)
        | ActionError \<Rightarrow> throwM SectionError
        | RegisterUserIO \<Rightarrow> bindM (sectionData L i) (\<lambda>_. retM ())
        | ActionNone \<Rightarrow> retM ()
        | _ \<Rightarrow> throwM ImplausibleState)) (\<lambda>_. laid b base img hs)"
  proof (rule any.t_bind [OF any.t_lift], rule triple_fact)
    fix action
    assume "sectionAction (sh_type (rs_header sec)) = Inr action"
    from sectionAction_types(1) [OF this] sec
    have data: "action = AllocateAndLoad \<Longrightarrow> sh_type (hs ! i) = SHT_PROGBITS" by simp
    show "passes (laid b base img hs)
      (case action of
          AllocateAndLoad \<Rightarrow> loadDataSection i (rs_header sec)
        | Allocate \<Rightarrow> loadScratchSection L i (rs_header sec)
        | Relocate \<Rightarrow> registerRelocation L i (rs_header sec)
        | ActionError \<Rightarrow> throwM SectionError
        | RegisterUserIO \<Rightarrow> bindM (sectionData L i) (\<lambda>_. retM ())
        | ActionNone \<Rightarrow> retM ()
        | _ \<Rightarrow> throwM ImplausibleState) (\<lambda>_. laid b base img hs)"
      by (cases action)
        (simp_all add: data laid_loadDataSection laid_loadScratchSection [OF doc] reg any.t_throw any.t_ret [of "\<lambda>_. laid b base img hs"]
          any.t_bind [OF laid_sectionData [OF am i] any.t_ret [of "\<lambda>_. laid b base img hs"]])
  qed
qed

lemma laid_inferInfo:
  "passes (laid b base img hs) (inferInfo i)
    (\<lambda>info s. laid b base img hs s \<and> getBufferInfoFromIndex i (m_inferBufferContainer (ldr s)) = Inr info)"
  by (rule passesI) (auto simp: inferInfo_Inr)

lemma laid_updateSharedBuffers: "passes (laid b base img hs) (updateSharedBuffers ks) (\<lambda>_. laid b base img hs)"
  unfolding updateSharedBuffers_def
proof (rule any.t_for)
  fix k
  show "passes (laid b base img hs) (updateSharedBuffer k) (\<lambda>_. laid b base img hs)"
    unfolding updateSharedBuffer_def
  proof (rule any.t_bind [OF laid_sectionAt], rule triple_fact, rule any.t_option, rule any.t_throw)
    fix sec i
    have unshare: "passes (\<lambda>s. laid b base img hs s \<and> getBufferInfoFromIndex i (m_inferBufferContainer (ldr s)) = Inr info)
        (if \<not> mIsProcessed (mBufferDetails info)
         then setInfer i (info\<lparr>mBufferDetails := (mBufferDetails info)\<lparr>mIsShared := False\<rparr>\<rparr>)
         else retM ()) (\<lambda>_. laid b base img hs)" for info
    proof (rule any.t_if)
      assume p: "\<not> mIsProcessed (mBufferDetails info)"
      have l: "located b base img (hs ! i) info (wld s)"
        if "laid b base img hs s \<and> getBufferInfoFromIndex i (m_inferBufferContainer (ldr s)) = Inr info" for s
        using that by (simp add: laid_in_def)
      show "passes (\<lambda>s. laid b base img hs s \<and> getBufferInfoFromIndex i (m_inferBufferContainer (ldr s)) = Inr info)
          (setInfer i (info\<lparr>mBufferDetails := (mBufferDetails info)\<lparr>mIsShared := False\<rparr>\<rparr>)) (\<lambda>_. laid b base img hs)"
      proof (rule laid_setInfer)
        fix s
        assume s: "laid b base img hs s \<and> getBufferInfoFromIndex i (m_inferBufferContainer (ldr s)) = Inr info"
        show "laid b base img hs s \<and> located b base img (hs ! i)
            (info\<lparr>mBufferDetails := (mBufferDetails info)\<lparr>mIsShared := False\<rparr>\<rparr>) (wld s)"
          using s l [OF s] p by (auto simp: located_in_def split: option.splits if_splits)
        fix r
        assume "mBuffer (info\<lparr>mBufferDetails := (mBufferDetails info)\<lparr>mIsShared := False\<rparr>\<rparr>) = Some r"
        then have r: "mBuffer info = Some r" by simp
        then have "\<not> mIsShared (mBufferDetails info)" using l [OF s] p by (auto simp: located_in_def)
        then have "own_buffer i (ldr s) r" using s r by (auto simp: own_buffer_def)
        then show "room b i r s"
          using own_room s by blast
      qed (use p in simp)
    qed (simp add: triple_def retM_def)
    show "passes (laid b base img hs)
      (bindM sectionsNum (\<lambda>numSections. throwM_when (i = 0 \<or> i > numSections) RelocError
        (bindM (inferInfo i) (\<lambda>info.
          if \<not> mIsProcessed (mBufferDetails info)
          then setInfer i (info\<lparr>mBufferDetails := (mBufferDetails info)\<lparr>mIsShared := False\<rparr>\<rparr>)
          else retM ())))) (\<lambda>_. laid b base img hs)"
      unfolding sectionsNum_def bindM_assoc
      by (rule any.t_bind [OF laid_readM], rule any.t_bind [OF laid_liftM], rule any.t_when,
          rule any.t_bind [OF laid_inferInfo unshare])
  qed
qed

lemma laid_sectionBuffer:
  assumes am: "le_am L = DDRAccessManagerAlways (Ptr b 0) (of_nat (length img))" and i: "i < length hs"
  shows "passes (laid b base img hs) (sectionBuffer L cpu i)
    (\<lambda>r s. (hasMemoryFootprint (sh_type (hs ! i)) \<longrightarrow> r \<noteq> None) \<and>
       laid b base img hs s \<and> (\<forall>q. r = Some q \<longrightarrow> shows_section b base (hs ! i) q (wld s)))"
proof (rule passesI)
  fix s t and r :: "bref option"
  assume l: "laid b base img hs s" and run: "sectionBuffer L cpu i s = (Inr r, t)"
  then have sh: "shown b base img hs (shd s) (wld s)" and img: "image_in b base img (wld s)" by (simp_all add: laid_in_def)
  from run obtain sec u where "sectionAt i s = (Inr sec, u)"
    and g: "in_world (getDataBuffer (le_env L) (le_am L) cpu sec) u = (Inr r, t)"
    by (auto simp: sectionBuffer_def bindM_Inr_iff)
  with shown_sectionAt [OF sh, of i] have u: "u = s" and sec: "rs_header sec = hs ! i" by (auto simp: computes_def)
  from g obtain w where g': "getDataBuffer (le_env L) (le_am L) cpu sec (wld s) = (Inr r, w)" and t: "t = s\<lparr>wld := w\<rparr>"
    by (auto simp: in_world_def zoomM_def u split: prod.splits)
  show "(hasMemoryFootprint (sh_type (hs ! i)) \<longrightarrow> r \<noteq> None) \<and>
      laid b base img hs t \<and> (\<forall>q. r = Some q \<longrightarrow> shows_section b base (hs ! i) q (wld t))"
  proof (cases "hasMemoryFootprint (sh_type (hs ! i))")
    case True
    then have "only_views (wld s) w \<and> (\<exists>q. r = Some q \<and> shows_section b base (hs ! i) q w)"
      using refines_getDataBuffer [OF am img, of sec "le_env L" cpu] g' sec
      by (auto simp: refines_def open_section_Inr split: sum.splits)
    then show ?thesis using laid_wld [OF l enlarges_views] by (auto simp: t)
  next
    case False
    then have "r = None \<and> w = wld s" using g' sec by (auto simp: getDataBuffer_def hasMemoryFootprint_def Let_def retM_def)
    then show ?thesis using l False by (simp add: t)
  qed
qed

lemma laid_guarded:
  assumes doc: "lock_documented (env_bm (le_env L))" and body: "passes P body Q"
    and P: "\<And>s w. P s \<Longrightarrow> same_state (wld s) w \<Longrightarrow> P (s\<lparr>wld := w\<rparr>)"
    and Q: "\<And>v s w. Q v s \<Longrightarrow> same_state (wld s) w \<Longrightarrow> Q v (s\<lparr>wld := w\<rparr>)"
  shows "passes P (guarded L r body) Q"
proof (cases r)
  case None
  then show ?thesis using body by (simp add: guarded_def)
next
  case (Some rf)
  show ?thesis
  proof (rule passesI)
    fix s t v
    assume s: "P s" and "guarded L r body s = (Inr v, t)"
    then obtain w t' where l: "lock (le_env L) rf (wld s) = (Inr (), w)" and b: "body (s\<lparr>wld := w\<rparr>) = (Inr v, t')"
      and t: "t = t'\<lparr>wld := unlock (le_env L) rf (wld t')\<rparr>"
      by (auto simp: guarded_def Some bindM_Inr_iff in_world_def zoomM_def finallyM_def split: prod.splits)
    have "Q v t'" by (rule triple_post [OF body P [OF s lock_same [OF doc l]] b])
    then show "Q v t" unfolding t by (rule Q) (rule unlock_same [OF doc])
  qed
qed

text \<open>The private copy of a section: the backup is a view of it, the new buffer is filled from there.\<close>

lemma laid_fill:
  assumes doc: "lock_documented (env_bm (le_env L))" "allocate_documented (env_bm (le_env L))"
      "copy_documented (env_bm (le_env L))"
    and info: "\<not> mIsProcessed (mBufferDetails info)" "\<not> mIsShared (mBufferDetails info)"
  shows "passes (\<lambda>s. laid b base img hs s \<and> (\<forall>q. backup = Some q \<longrightarrow> shows_section b base (hs ! i) q (wld s)))
    (bindM (in_world (deref backup)) (\<lambda>q.
     bindM (readM (\<lambda>s. getBufferSpecs q (wld s))) (\<lambda>bufferSpecs.
     bindM (buildInfer L (bufferSpecs\<lparr>procFlags := flags\<rparr>)) (\<lambda>r.
     bindM (setInfer i (info\<lparr>mBuffer := Some r\<rparr>)) (\<lambda>_.
     bindM (readM (\<lambda>s. getBuffer q (wld s))) (\<lambda>db.
     bindM (in_world (loadWithLock (le_env L) r (cpu_addr db) (buf_size db))) (\<lambda>_.
     bindM (setBackup i \<lparr>mBuffer = backup, mBufferDetails = details True True True\<rparr>) (\<lambda>_.
     retM r))))))))
    (\<lambda>r s. laid b base img hs s \<and> room b i r s \<and> filled img (hs ! i) (bytes_in (getBuffer r (wld s)) (memory (wld s))) \<and>
      (\<exists>back. getBufferInfoFromIndex i (m_backupBufferContainer (ldr s)) = Inr back \<and> mIsShared (mBufferDetails back)))"
    (is "passes ?P ?m ?Q")
proof (rule passesI)
  fix s t r
  assume s: "?P s" and run: "?m s = (Inr r, t)"
  from run obtain q s2 where q: "backup = Some q" and b: "buildInfer L ((getBufferSpecs q (wld s))\<lparr>procFlags := flags\<rparr>) s = (Inr r, s2)"
    and r2: "bindM (setInfer i (info\<lparr>mBuffer := Some r\<rparr>)) (\<lambda>_.
     bindM (readM (\<lambda>s. getBuffer q (wld s))) (\<lambda>db.
     bindM (in_world (loadWithLock (le_env L) r (cpu_addr db) (buf_size db))) (\<lambda>_.
     bindM (setBackup i \<lparr>mBuffer = backup, mBufferDetails = details True True True\<rparr>) (\<lambda>_.
     retM r)))) s2 = (Inr r, t)"
    by (auto simp: bindM_Inr_iff in_world_def zoomM_def deref_def readM_def retM_def split: option.splits if_splits)
  let ?info = "info\<lparr>mBuffer := Some r\<rparr>"
  define s3 where "s3 = s2\<lparr>ldr := (ldr s2)\<lparr>m_inferBufferContainer := setBufferInfo i ?info (m_inferBufferContainer (ldr s2))\<rparr>\<rparr>"
  have l: "laid b base img hs s" and view: "shows_section b base (hs ! i) q (wld s)" using s q by simp_all
  note bt = built_room [OF doc(2) l b]
  have l2: "laid b base img hs s2"
    by (rule laid_adds [OF l bt(1,2)]) (use l shown_keeps [OF enlarges_keeps [OF bt(1)]] in \<open>simp add: bt(3) laid_in_def\<close>)
  have l3: "laid b base img hs s3"
    unfolding s3_def
    by (rule laid_put [OF l2]) (use bt(4) info in \<open>simp_all add: located_in_def room_def\<close>)
  have room3: "room b i r s3" unfolding s3_def by (rule room_put [OF bt(4)])
  have db: "getBuffer q (wld s3) = DeviceBuffer_make (Ptr b (unat (sh_offset (hs ! i)))) (base + sh_offset (hs ! i)) (sh_size (hs ! i))"
    using view enlarges_facts(1) [OF bt(1)] by (simp add: s3_def shows_section_def)
  from r2 obtain s4 where ld: "in_world (loadWithLock (le_env L) r (Ptr b (unat (sh_offset (hs ! i)))) (sh_size (hs ! i))) s3 = (Inr (), s4)"
    and t: "t = s4\<lparr>ldr := m_backupBufferContainer_update (setBufferInfo i \<lparr>mBuffer = backup, mBufferDetails = details True True True\<rparr>) (ldr s4)\<rparr>"
    using db by (auto simp: bindM_Inr_iff setInfer_def setBackup_def on_ldr_def modifyM_def readM_def retM_def put_infer
        s3_def [symmetric] DeviceBuffer_make_simps)
  have new: "(\<not> mIsProcessed (mBufferDetails i') \<or> i \<notin> UNIV) \<and> mBuffer i' = Some r"
    if "getBufferInfoFromIndex i (m_inferBufferContainer (ldr s3)) = Inr i'" for i'
    using that info by (auto simp: s3_def container.lookup_put)
  note lf = load_fills [OF doc(1,3) l3 room3 new ld]
  have "shows_section b base (hs ! i) q (wld s4)"
    using keeps_facts(2) [OF enlarges_keeps [OF bt(1)] view] lf(6) by (simp add: s3_def shows_section_def getBuffer_def)
  then have "laid b base img hs t"
    using laid_backup [OF lf(1), of "\<lparr>mBuffer = backup, mBufferDetails = details True True True\<rparr>" i] q
    by (simp add: t put_backup details_def)
  moreover have "room b i r t" using lf(2) by (simp add: room_def t own_buffer_def)
  ultimately show "?Q r t" using lf(5) by (simp add: t filled_def section_bytes_def container.lookup_put details_def)
qed

lemma t_calm_ldr:
  "relates calm m \<Longrightarrow> passes P m Q \<Longrightarrow> passes (\<lambda>s. P s \<and> R (ldr s)) m (\<lambda>v s. Q v s \<and> R (ldr s))"
  by (rule passesI) (auto simp: calm_def dest: relatesD triple_post)

lemma laid_loadBuffer:
  assumes am: "le_am L = DDRAccessManagerAlways (Ptr b 0) (of_nat (length img))" and doc: "loader_documented L"
  shows "passes (laid b base img hs) (loadBuffer L i) (\<lambda>_. laid b base img hs)"
  unfolding loadBuffer_def Let_def
proof (rule any.t_bind [OF laid_inferInfo])
  fix info :: BufferInfo
  let ?I = "laid b base img hs"
  let ?set = "\<lambda>buf. setInfer i \<lparr>mBuffer = buf, mBufferDetails = (mBufferDetails info)\<lparr>mIsProcessed := True\<rparr>\<rparr>"
  have docs: "lock_documented (env_bm (le_env L))" "allocate_documented (env_bm (le_env L))" "copy_documented (env_bm (le_env L))"
    using doc by (simp_all add: loader_documented_def)
  show "passes (\<lambda>s. ?I s \<and> getBufferInfoFromIndex i (m_inferBufferContainer (ldr s)) = Inr info)
    (if mIsProcessed (mBufferDetails info) then retM ()
     else bindM (sectionAt i) (\<lambda>sec.
       if mIsShared (mBufferDetails info) then bindM (sectionBuffer L False i) ?set
       else bindM (safeInitBackup i) (\<lambda>_.
            bindM (sectionBuffer L True i) (\<lambda>backup.
            bindM (setBackup i \<lparr>mBuffer = backup, mBufferDetails = BufferDetails_default\<rparr>) (\<lambda>_.
            bindM (guarded L backup
              (bindM (in_world (deref backup)) (\<lambda>b.
               bindM (readM (\<lambda>s. getBufferSpecs b (wld s))) (\<lambda>bufferSpecs.
               bindM (buildInfer L (bufferSpecs\<lparr>procFlags := sh_flags (rs_header sec)\<rparr>)) (\<lambda>r.
               bindM (setInfer i (info\<lparr>mBuffer := Some r\<rparr>)) (\<lambda>_.
               bindM (readM (\<lambda>s. getBuffer b (wld s))) (\<lambda>db.
               bindM (in_world (loadWithLock (le_env L) r (cpu_addr db) (buf_size db))) (\<lambda>_.
               bindM (setBackup i \<lparr>mBuffer = backup, mBufferDetails = details True True True\<rparr>) (\<lambda>_.
               retM r))))))))) (\<lambda>r. ?set (Some r)))))))
    (\<lambda>_. ?I)"
  proof (rule any.t_if)
    show "passes (\<lambda>s. ?I s \<and> getBufferInfoFromIndex i (m_inferBufferContainer (ldr s)) = Inr info) (retM ()) (\<lambda>_. ?I)"
      by (simp add: triple_def retM_def)
  next
    assume p: "\<not> mIsProcessed (mBufferDetails info)"
    let ?F = "mIsShared (mBufferDetails info) \<longrightarrow> hasMemoryFootprint (sh_type (hs ! i))"
    let ?P = "\<lambda>backup s. laid b base img hs s \<and> (\<forall>q. backup = Some q \<longrightarrow> shows_section b base (hs ! i) q (wld s))"
    have fact: "?F \<and> ?I s" if "?I s \<and> getBufferInfoFromIndex i (m_inferBufferContainer (ldr s)) = Inr info" for s
    proof -
      have "located b base img (hs ! i) info (wld s)" using that by (simp add: laid_in_def)
      then have "mIsShared (mBufferDetails info) \<Longrightarrow> sh_type (hs ! i) = SHT_PROGBITS"
        using p by (auto simp: located_in_def split: option.splits)
      moreover have "hasMemoryFootprint SHT_PROGBITS" by (simp add: hasMemoryFootprint_def elf_consts)
      ultimately show ?thesis using that by auto
    qed
    show "passes (\<lambda>s. ?I s \<and> getBufferInfoFromIndex i (m_inferBufferContainer (ldr s)) = Inr info)
     (bindM (sectionAt i) (\<lambda>sec.
       if mIsShared (mBufferDetails info) then bindM (sectionBuffer L False i) ?set
       else bindM (safeInitBackup i) (\<lambda>_.
            bindM (sectionBuffer L True i) (\<lambda>backup.
            bindM (setBackup i \<lparr>mBuffer = backup, mBufferDetails = BufferDetails_default\<rparr>) (\<lambda>_.
            bindM (guarded L backup
              (bindM (in_world (deref backup)) (\<lambda>b.
               bindM (readM (\<lambda>s. getBufferSpecs b (wld s))) (\<lambda>bufferSpecs.
               bindM (buildInfer L (bufferSpecs\<lparr>procFlags := sh_flags (rs_header sec)\<rparr>)) (\<lambda>r.
               bindM (setInfer i (info\<lparr>mBuffer := Some r\<rparr>)) (\<lambda>_.
               bindM (readM (\<lambda>s. getBuffer b (wld s))) (\<lambda>db.
               bindM (in_world (loadWithLock (le_env L) r (cpu_addr db) (buf_size db))) (\<lambda>_.
               bindM (setBackup i \<lparr>mBuffer = backup, mBufferDetails = details True True True\<rparr>) (\<lambda>_.
               retM r))))))))) (\<lambda>r. ?set (Some r))))))) (\<lambda>_. ?I)"
    proof (rule triple_pre [OF triple_fact fact], rule any.t_bind [OF laid_sectionAt], rule triple_fact, rule any.t_if)
      fix sec :: RSection
      assume F: ?F and i: "i < length hs \<and> rs_header sec = hs ! i" and sh: "mIsShared (mBufferDetails info)"
      show "passes ?I (bindM (sectionBuffer L False i) ?set) (\<lambda>_. ?I)"
      proof (rule any.t_bind [OF laid_sectionBuffer [OF am]], use i in simp, rule laid_setInfer)
        fix r s
        assume "(hasMemoryFootprint (sh_type (hs ! i)) \<longrightarrow> r \<noteq> None) \<and> ?I s \<and>
          (\<forall>q. r = Some q \<longrightarrow> shows_section b base (hs ! i) q (wld s))"
        then show "?I s \<and> located b base img (hs ! i)
            \<lparr>mBuffer = r, mBufferDetails = (mBufferDetails info)\<lparr>mIsProcessed := True\<rparr>\<rparr> (wld s)"
          using F sh by (auto simp: located_in_def shows_section_def)
      qed (use sh in simp_all)
    next
      fix sec :: RSection
      assume i: "i < length hs \<and> rs_header sec = hs ! i" and sh: "\<not> mIsShared (mBufferDetails info)"
      have view: "passes (\<lambda>s. ?I s \<and> unfilled i (ldr s)) (sectionBuffer L True i) (\<lambda>r s. ?P r s \<and> unfilled i (ldr s))"
        by (rule triple_conseq [OF t_calm_ldr [OF calm_reads(9) laid_sectionBuffer [OF am]]]) (use i in auto)
      have bak: "passes (\<lambda>s. ?P r s \<and> unfilled i (ldr s))
          (setBackup i \<lparr>mBuffer = r, mBufferDetails = BufferDetails_default\<rparr>) (\<lambda>_. ?P r)" for r
        unfolding setBackup_def on_ldr_def put_backup
        by (rule any.t_modify) (auto intro!: laid_backup simp: BufferDetails_default_def dest: laid_unfilled)
      have same: "?P r (s\<lparr>wld := w\<rparr>)" if "?P r s" "same_state (wld s) w" for r s w
        using that laid_wld [OF _ enlarges_same [OF that(2)]] keeps_facts(2) [OF same_state_keeps [OF that(2)]] by auto
      let ?Q = "\<lambda>r s. ?I s \<and> room b i r s \<and> filled img (hs ! i) (bytes_in (getBuffer r (wld s)) (memory (wld s))) \<and>
          (\<exists>back. getBufferInfoFromIndex i (m_backupBufferContainer (ldr s)) = Inr back \<and> mIsShared (mBufferDetails back))"
      have same': "?Q r (s\<lparr>wld := w\<rparr>)" if "?Q r s" "same_state (wld s) w" for r s w
        using that laid_wld [OF _ enlarges_same [OF that(2)]] room_adds [of b i r s UNIV base img hs "s\<lparr>wld := w\<rparr>"] enlarges_same [OF that(2)]
        by (auto simp: same_state_def getBuffer_def)
      have fin: "passes (?Q r) (?set (Some r)) (\<lambda>_. ?I)" for r
        by (rule laid_setInfer) (use sh in \<open>auto simp: located_in_def room_def\<close>)
      show "passes ?I (bindM (safeInitBackup i) (\<lambda>_.
            bindM (sectionBuffer L True i) (\<lambda>backup.
            bindM (setBackup i \<lparr>mBuffer = backup, mBufferDetails = BufferDetails_default\<rparr>) (\<lambda>_.
            bindM (guarded L backup
              (bindM (in_world (deref backup)) (\<lambda>b.
               bindM (readM (\<lambda>s. getBufferSpecs b (wld s))) (\<lambda>bufferSpecs.
               bindM (buildInfer L (bufferSpecs\<lparr>procFlags := sh_flags (rs_header sec)\<rparr>)) (\<lambda>r.
               bindM (setInfer i (info\<lparr>mBuffer := Some r\<rparr>)) (\<lambda>_.
               bindM (readM (\<lambda>s. getBuffer b (wld s))) (\<lambda>db.
               bindM (in_world (loadWithLock (le_env L) r (cpu_addr db) (buf_size db))) (\<lambda>_.
               bindM (setBackup i \<lparr>mBuffer = backup, mBufferDetails = details True True True\<rparr>) (\<lambda>_.
               retM r))))))))) (\<lambda>r. ?set (Some r)))))) (\<lambda>_. ?I)"
        by (rule any.t_bind [OF laid_safeInit(2)], rule any.t_bind [OF view], rule any.t_bind [OF bak],
            rule any.t_bind [OF laid_guarded [OF docs(1) laid_fill [OF docs p sh] same same'] fin])
    qed
  qed
qed

lemma laid_lay_out:
  assumes am: "le_am L = DDRAccessManagerAlways (Ptr b 0) (of_nat (length img))" and doc: "loader_documented L"
  shows "passes (laid b base img hs) (lay_out L) (\<lambda>_. laid b base img hs)"
proof -
  have alloc: "allocate_documented (env_bm (le_env L))" using doc by (simp add: loader_documented_def)
  have buffers: "passes (laid b base img hs) (loadBuffers L) (\<lambda>_. laid b base img hs)"
    unfolding loadBuffers_def by (rule any.t_bind [OF laid_readM], rule any.t_for, rule laid_loadBuffer [OF am doc])
  show ?thesis
    unfolding lay_out_def sectionsNum_def bindM_assoc
    by (rule any.t_bind [OF laid_readM], rule any.t_bind [OF laid_liftM],
        rule any.t_bind [OF any.t_for [OF laid_loadSection [OF am alloc]]], rule any.t_bind [OF laid_readM],
        rule any.t_bind [OF laid_updateSharedBuffers], rule any.t_bind [OF laid_readM],
        rule any.t_bind [OF laid_updateSharedBuffers], rule any.t_bind [OF buffers], rule any.t_ret)
qed

section \<open>What the constructor hands over\<close>

lemma fresh_calm: "relates calm m \<Longrightarrow> passes fresh_loader m (\<lambda>_. fresh_loader)"
  by (rule passesI) (auto simp: fresh_loader_def calm_def table_kept_def dest: relatesD)

lemma fresh_on_shd:
  assumes "\<And>sh. m_reader (f sh) = m_reader sh \<and> m_relocationSectionIndexes (f sh) = m_relocationSectionIndexes sh \<and>
    m_jitRelocations (f sh) = m_jitRelocations sh"
  shows "passes fresh_loader (on_shd f) (\<lambda>_. fresh_loader)"
  unfolding on_shd_def by (rule any.t_modify) (simp add: fresh_loader_def assms)

lemma fresh_readM: "passes fresh_loader (readM g) (\<lambda>_. fresh_loader)"
  by (simp add: triple_def readM_def)

lemma fresh_registerSections: "passes fresh_loader (registerSections L) (\<lambda>_. fresh_loader)"
proof -
  have "relates calm (registerUserIO p n d)" for p n d
    unfolding registerUserIO_def by (intro calm.rel_rules calm_prims)
  then have "relates calm (fetchIO L sec d)" for sec d
    unfolding fetchIO_def by (intro calm.rel_rules calm_prims) (auto intro!: calm.rel_rules calm_prims)
  then have fetch: "passes fresh_loader (fetchIO L sec d) (\<lambda>_. fresh_loader)" for sec d
    by (rule fresh_calm)
  have io: "passes fresh_loader (earlyFetchIO L sec) (\<lambda>_. fresh_loader)" for sec
    unfolding earlyFetchIO_def Let_def
    by (intro any.t_if any.t_bind [OF fresh_readM] any.t_bind [OF fetch] fresh_on_shd any.t_ret) simp_all
  have "passes fresh_loader (registerSection L i) (\<lambda>_. fresh_loader)" for i
    unfolding registerSection_def Let_def
    by (rule any.t_bind [OF fresh_calm [OF calm_sections(1)]], rule any.t_bind [OF fresh_on_shd], simp,
        rule any.t_option, rule any.t_throw, rule any.t_if, rule io, rule any.t_ret)
  then show ?thesis
    unfolding registerSections_def registerPerfMetrics_def
    by (intro any.t_bind [OF fresh_calm [OF calm_sections(3)]] any.t_bind [OF any.t_for] fresh_on_shd) simp_all
qed

lemma constructed_loader:
  assumes am: "le_am L = DDRAccessManagerAlways (Ptr b 0) (of_nat (length img))" and img: "image_in b base img w"
    and len: "length img < 2 ^ 64" and nw: "image_no_wrap img"
    and new: "VPUXLoader_new L hasManager override0 explicit0 w = (Inr (l, sh), w1)"
  obtains rd where "parse_image img = Inr rd" "l = newLoader hasManager override0 explicit0"
    "mSectionHeaders (m_reader sh) = mSectionHeaders rd"
    "fresh_loader \<lparr>ldr = l, shd = sh, wld = w1\<rparr>"
    "laid b base img (mSectionHeaders rd) \<lparr>ldr = l, shd = sh, wld = w1\<rparr>"
proof -
  from refines_loader [OF am img len nw, of hasManager override0 explicit0] new obtain rd u
    where o: "open_loader hasManager img = Inr (rd, u)" "l = newLoader hasManager override0 explicit0"
      "image_in b base img w1" "opened w1 (mSectionHeaders rd) (mSectionNames rd) u sh w1"
    by (auto simp: refines_def split: sum.splits)
  then have rd: "parse_image img = Inr rd" by (simp add: open_loader_def bindE_Inr_iff throw_unless_def split: if_splits)
  have tab: "mSectionHeaders (m_reader sh) = mSectionHeaders rd" using o(4) by (simp add: opened_def tabled_def Let_def)
  from new obtain rd' w0 t where run: "registerSections L \<lparr>ldr = l, shd = newShared rd', wld = w0\<rparr> = (Inr (), t)"
    and t: "shd t = sh" and rd': "Reader_new (le_env L) (Some (le_am L)) w = (Inr rd', w0)"
    by (auto simp: VPUXLoader_new_def o(2) split: prod.splits sum.splits)
  have ddr: "is_ddr (Ptr b 0) (of_nat (length img)) (le_am L)" by (simp add: am)
  have holds: "holds_image (Ptr b 0) img w" using img by (auto simp: holds_image_def image_in_def bslice_def)
  obtain w2 where "Reader_new (le_env L) (Some (le_am L)) w = (parse_image img, w2)"
    by (rule Reader_new_ddr [OF ddr len holds nw])
  then have "reader_ok rd'" using rd' reader_ok_new by simp
  then have "fresh_loader \<lparr>ldr = l, shd = newShared rd', wld = w0\<rparr>"
    by (simp add: fresh_loader_def newShared_def o(2) newLoader_def DeviceBufferContainer_new_def)
  from triple_post [OF fresh_registerSections this run]
  have fresh: "fresh_loader \<lparr>ldr = l, shd = sh, wld = w1\<rparr>"
    by (simp add: fresh_loader_def t o(2) newLoader_def DeviceBufferContainer_new_def)
  have "laid b base img (mSectionHeaders rd) \<lparr>ldr = l, shd = sh, wld = w1\<rparr>"
    using o opened_shown [OF o(4), of b base img w1]
    by (simp add: laid_in_def own_buffer_def newLoader_def DeviceBufferContainer_new_def getBufferInfoFromIndex_def sound_def)
  with rd o(2) tab fresh show ?thesis by (rule that)
qed

section \<open>From the buffers to the relocations\<close>

definition device_of :: "VPUXLoader \<Rightarrow> world \<Rightarrow> device_buffers" where
  "device_of l w i =
     (case getBufferInfoFromIndex i (m_inferBufferContainer l) of
        Inl _ \<Rightarrow> None
      | Inr info \<Rightarrow> map_option (\<lambda>r. getBuffer r w) (mBuffer info))"

text \<open>The entries that \<^verbatim>\<open>load\<close> makes, all processed.\<close>

abbreviation entries_loaded :: "Elf64_Shdr list \<Rightarrow> bool \<Rightarrow> DeviceBufferContainer \<Rightarrow> bool" where
  "entries_loaded hs ov \<equiv> entries_are (\<lambda>i. i < length hs \<and> gets_buffer ov (hs ! i)) (loaded_details hs)"

text \<open>After laying out every entry has its buffer, and the contents are those that relocation starts from.\<close>

lemma laid_entry:
  assumes laid: "laid b base img hs s" and led: "entries_loaded hs ov (m_inferBufferContainer (ldr s))"
    and e: "getBufferInfoFromIndex i (m_inferBufferContainer (ldr s)) = Inr info"
  obtains r where "mBuffer info = Some r" "r < length (objs (wld s))" "device_of (ldr s) (wld s) i = Some (getBuffer r (wld s))"
    "i < length hs \<and> gets_buffer ov (hs ! i)" "mIsShared (mBufferDetails info) \<longleftrightarrow> shareable hs i"
    "shareable hs i \<Longrightarrow> shows_section b base (hs ! i) r (wld s)"
    "\<not> shareable hs i \<Longrightarrow> alone b (getBuffer r (wld s)) (memory (wld s)) \<and> own_buffer i (ldr s) r"
    "\<not> shareable hs i \<Longrightarrow> sh_type (hs ! i) = SHT_PROGBITS \<Longrightarrow>
       filled img (hs ! i) (bytes_in (getBuffer r (wld s)) (memory (wld s)))"
proof -
  note d = entries_lookup [OF led e]
  have l: "located b base img (hs ! i) info (wld s)" using laid e by (simp add: laid_in_def)
  have p: "mIsProcessed (mBufferDetails info)" "mIsShared (mBufferDetails info) \<longleftrightarrow> shareable hs i"
    "mHasData (mBufferDetails info) \<longleftrightarrow> sh_type (hs ! i) = SHT_PROGBITS"
    using d by (simp_all add: loaded_details_shared)
  then obtain r where r: "mBuffer info = Some r" using l by (auto simp: located_in_def split: option.splits)
  show ?thesis
    by (rule that [of r]) (use r l p d e in \<open>auto simp: located_in_def device_of_def own_buffer_def\<close>)
qed

lemma laid_device:
  assumes laid: "laid b base img hs s" and led: "entries_loaded hs ov (m_inferBufferContainer (ldr s))"
  shows "device_of (ldr s) (wld s) i \<noteq> None \<longleftrightarrow> i < length hs \<and> gets_buffer ov (hs ! i)"
proof (cases "getBufferInfoFromIndex i (m_inferBufferContainer (ldr s))")
  case (Inl e)
  have "hasBufferInfoAtIndex i (m_inferBufferContainer (ldr s)) \<longleftrightarrow> i < length hs \<and> gets_buffer ov (hs ! i)"
    using led by (simp add: entries_are_def)
  then show ?thesis using Inl by (simp add: device_of_def container.has_lookup)
next
  case (Inr info)
  obtain r where "device_of (ldr s) (wld s) i = Some (getBuffer r (wld s))" "i < length hs \<and> gets_buffer ov (hs ! i)"
    using laid_entry [OF laid led Inr] by metis
  then show ?thesis by simp
qed

lemma laid_standing:
  assumes laid: "laid b base img hs s" and led: "entries_loaded hs ov (m_inferBufferContainer (ldr s))"
  defines "dev \<equiv> device_of (ldr s) (wld s)"
  defines "c \<equiv> \<lambda>i. (case dev i of None \<Rightarrow> [] | Some d \<Rightarrow> bytes_in d (memory (wld s)))"
  shows "standing b base img hs dev {i. \<not> shareable hs i} (ldr s) c s"
    and "dev i = Some d \<Longrightarrow> shareable hs i \<Longrightarrow>
      d = DeviceBuffer_make (Ptr b (unat (sh_offset (hs ! i)))) (base + sh_offset (hs ! i)) (sh_size (hs ! i))"
    and "dev i = Some d \<Longrightarrow> \<not> shareable hs i \<Longrightarrow> sh_type (hs ! i) = SHT_PROGBITS \<Longrightarrow> filled img (hs ! i) (c i)"
proof -
  have buffers: "buffers_are dev (ldr s) (wld s)"
    unfolding buffers_are_def
  proof
    fix i
    show "case dev i of None \<Rightarrow> \<not> hasBufferInfoAtIndex i (m_inferBufferContainer (ldr s))
      | Some d \<Rightarrow> \<exists>info r. getBufferInfoFromIndex i (m_inferBufferContainer (ldr s)) = Inr info \<and>
          mBuffer info = Some r \<and> r < length (objs (wld s)) \<and> getBuffer r (wld s) = d"
    proof (cases "getBufferInfoFromIndex i (m_inferBufferContainer (ldr s))")
      case (Inl e)
      then show ?thesis by (simp add: dev_def device_of_def container.has_lookup)
    next
      case (Inr info)
      obtain r where "mBuffer info = Some r" "r < length (objs (wld s))" "dev i = Some (getBuffer r (wld s))"
        using laid_entry [OF laid led Inr] unfolding dev_def by metis
      then show ?thesis using Inr by simp
    qed
  qed
  have entry: "\<exists>info r. getBufferInfoFromIndex i (m_inferBufferContainer (ldr s)) = Inr info \<and> mBuffer info = Some r \<and> d = getBuffer r (wld s)"
    if "dev i = Some d" for i d
    using that by (auto simp: dev_def device_of_def split: sum.splits)
  show "d = DeviceBuffer_make (Ptr b (unat (sh_offset (hs ! i)))) (base + sh_offset (hs ! i)) (sh_size (hs ! i))"
    if "dev i = Some d" "shareable hs i"
    using entry [OF that(1)] laid_entry [OF laid led] that(2) unfolding shows_section_def by (metis option.inject)
  show "filled img (hs ! i) (c i)" if "dev i = Some d" "\<not> shareable hs i" "sh_type (hs ! i) = SHT_PROGBITS"
    using entry [OF that(1)] laid_entry [OF laid led] that unfolding c_def by (metis option.case(2) option.inject)
  have own: "\<exists>r. d = getBuffer r (wld s) \<and> alone b d (memory (wld s)) \<and> own_buffer i (ldr s) r"
    if "dev i = Some d" "\<not> shareable hs i" for i d
    using entry [OF that(1)] laid_entry [OF laid led] that(2) by (metis option.inject)
  have "contents_are b {i. \<not> shareable hs i} dev c (memory (wld s))"
    unfolding contents_are_def
  proof (intro ballI allI impI conjI)
    fix i d
    assume i: "i \<in> {i. \<not> shareable hs i}" "dev i = Some d"
    then show "block_holds b d (c i) (memory (wld s))"
      using own [of i d] by (auto simp: c_def block_holds_def alone_def bytes_in_def split: ptr.splits)
    fix j e
    assume j: "j \<in> {i. \<not> shareable hs i}" "j \<noteq> i \<and> dev j = Some e"
    obtain r q where "d = getBuffer r (wld s)" "own_buffer i (ldr s) r" "e = getBuffer q (wld s)" "own_buffer j (ldr s) q"
      using own i j by blast
    then show "separate d e" using laid j(2) unfolding laid_in_def by metis
  qed
  then show "standing b base img hs dev {i. \<not> shareable hs i} (ldr s) c s"
    using laid buffers by (simp add: standing_def laid_in_def)
qed

lemma buffers_device: "buffers_are dev l w \<Longrightarrow> device_of l w = dev"
proof
  fix i
  assume "buffers_are dev l w"
  then have "case dev i of None \<Rightarrow> \<not> hasBufferInfoAtIndex i (m_inferBufferContainer l)
      | Some d \<Rightarrow> \<exists>info r. getBufferInfoFromIndex i (m_inferBufferContainer l) = Inr info \<and>
          mBuffer info = Some r \<and> r < length (objs w) \<and> getBuffer r w = d"
    by (simp add: buffers_are_def)
  then show "device_of l w i = dev i"
    by (auto simp: device_of_def container.has_lookup split: option.splits sum.splits)
qed

lemma reloc_target_private:
  "k \<in> set (relocs_upto False hs (length hs)) \<Longrightarrow> relocationTarget (hs ! k) = Some i \<Longrightarrow> \<not> shareable hs i"
  using hit_relocs [of hs i] by (auto simp: hit_def shareable_def)

text \<open>
  What the buffers of a loader hold, as a function of the file: \<open>dev\<close> is the device buffer of each section.
  Exactly the sections that get a buffer have one; the shared ones are views of the file; the others have
  blocks of their own, with contents that come from the file (\<open>c0\<close>, before) by relocation (\<open>c\<close>, after).
\<close>

definition holds_file ::
    "nat \<Rightarrow> u64 \<Rightarrow> bytes \<Rightarrow> Elf64_Shdr list \<Rightarrow> bool \<Rightarrow> Elf64_Sym list \<Rightarrow> u32 list \<Rightarrow> bool \<Rightarrow> device_buffers \<Rightarrow> mem \<Rightarrow>
     bool" where
  "holds_file b base img hs ov syms types relocated dev m \<longleftrightarrow>
     (\<forall>i. dev i \<noteq> None \<longleftrightarrow> i < length hs \<and> gets_buffer ov (hs ! i)) \<and>
     (\<forall>i d. dev i = Some d \<and> shareable hs i \<longrightarrow>
        d = DeviceBuffer_make (Ptr b (unat (sh_offset (hs ! i)))) (base + sh_offset (hs ! i)) (sh_size (hs ! i))) \<and>
     (\<exists>c0 c. (\<forall>i d. dev i = Some d \<and> sh_type (hs ! i) = SHT_PROGBITS \<and> \<not> shareable hs i \<longrightarrow> filled img (hs ! i) (c0 i)) \<and>
        (if relocated then relocate img hs dev syms types (relocs_upto False hs (length hs)) c0 = Inr c else c = c0) \<and>
        contents_are b {i. \<not> shareable hs i} dev c m)"

text \<open>The state in which loading leaves a loader, as far as copies depend on it.\<close>

definition file_loaded :: "nat \<Rightarrow> u64 \<Rightarrow> bytes \<Rightarrow> Elf64_Shdr list \<Rightarrow> bool \<Rightarrow> lstate \<Rightarrow> bool" where
  "file_loaded b base img hs ov s \<longleftrightarrow>
     image_in b base img (wld s) \<and> shown b base img hs (shd s) (wld s) \<and> sound b base hs (ldr s) (wld s) \<and>
     entries_loaded hs ov (m_inferBufferContainer (ldr s)) \<and>
     (\<forall>i info. getBufferInfoFromIndex i (m_inferBufferContainer (ldr s)) = Inr info \<longrightarrow> mBuffer info \<noteq> None) \<and>
     m_relocationSectionIndexes (shd s) = relocs_upto False hs (length hs)"

lemma laid_relocates:
  assumes am: "le_am L = DDRAccessManagerAlways (Ptr b 0) (of_nat (length img))" and doc: "loader_documented L"
    and laid: "laid b base img hs s" and led: "entries_loaded hs ov (m_inferBufferContainer (ldr s))"
    and relocs: "m_relocationSectionIndexes (shd s) = relocs_upto False hs (length hs)"
    and run: "(if relocated then applyRelocations L (relocs_upto False hs (length hs)) else retM ()) s = (Inr (), u)"
  shows "file_loaded b base img hs ov u" "ldr u = ldr s"
    "holds_file b base img hs ov (m_runtimeSymTabs (ldr s)) (m_symbolSectionTypes (ldr s)) relocated
       (device_of (ldr u) (wld u)) (memory (wld u))"
proof -
  define dev where "dev = device_of (ldr s) (wld s)"
  define c0 where "c0 = (\<lambda>i. case dev i of None \<Rightarrow> [] | Some d \<Rightarrow> bytes_in d (memory (wld s)))"
  note st = laid_standing [OF laid led, folded dev_def, folded c0_def]
  let ?spec = "relocate img hs dev (m_runtimeSymTabs (ldr s)) (m_symbolSectionTypes (ldr s)) (relocs_upto False hs (length hs)) c0"
  have "computes (applyRelocations L (relocs_upto False hs (length hs))) s ?spec
      (\<lambda>c _ t. standing b base img hs dev {i. \<not> shareable hs i} (ldr s) c t)"
    using computes_relocate [OF am _ st(1)] doc reloc_target_private by (simp add: loader_documented_def)
  then obtain c where c: "if relocated then ?spec = Inr c else c = c0"
    and u: "standing b base img hs dev {i. \<not> shareable hs i} (ldr s) c u"
    using run st(1) by (cases relocated) (auto simp: computes_def retM_def)
  show l: "ldr u = ldr s" using u by (simp add: standing_def)
  have dev: "device_of (ldr u) (wld u) = dev"
    using buffers_device [of dev "ldr u" "wld u"] u by (simp add: standing_def)
  have "\<forall>i. dev i \<noteq> None \<longleftrightarrow> i < length hs \<and> gets_buffer ov (hs ! i)"
    using laid_device [OF laid led] by (simp add: dev_def)
  moreover have "\<forall>i d. dev i = Some d \<and> sh_type (hs ! i) = SHT_PROGBITS \<and> \<not> shareable hs i \<longrightarrow> filled img (hs ! i) (c0 i)"
    using st(3) unfolding c0_def by blast
  ultimately show "holds_file b base img hs ov (m_runtimeSymTabs (ldr s)) (m_symbolSectionTypes (ldr s)) relocated
       (device_of (ldr u) (wld u)) (memory (wld u))"
    unfolding holds_file_def dev
    by (intro conjI exI [of _ c0] exI [of _ c]) (use st(2) c u in \<open>simp_all add: standing_def\<close>)
  have "m_relocationSectionIndexes (shd u) = m_relocationSectionIndexes (shd s)"
    using run relatesD [OF calm_applyRelocations, of L "relocs_upto False hs (length hs)" s "Inr ()" u]
    by (cases relocated) (simp_all add: calm_def retM_def)
  moreover have "mBuffer info \<noteq> None" if "getBufferInfoFromIndex i (m_inferBufferContainer (ldr s)) = Inr info" for i info
    using laid_entry [OF laid led that] by auto
  ultimately show "file_loaded b base img hs ov u" using u led relocs by (simp add: file_loaded_def standing_def)
qed

lemma load_stages:
  assumes run: "load L syms ov types s = (Inr (), t)"
  obtains s0 relocs s1 u where "s0 = s\<lparr>ldr := (ldr s)\<lparr>m_runtimeSymTabs := syms, m_symTabOverrideMode := ov,
      m_explicitAllocations := ov, m_symbolSectionTypes := types\<rparr>\<rparr>"
    "lay_out L s0 = (Inr relocs, s1)"
    "(if m_sharedScratchBuffers (ldr s1) = [] then applyRelocations L relocs else retM ()) s1 = (Inr (), u)"
    "t = u\<lparr>ldr := m_loaded_update (\<lambda>_. True) (ldr u)\<rparr>"
    "m_runtimeSymTabs (ldr s1) = syms" "m_symbolSectionTypes (ldr s1) = types"
proof -
  let ?s0 = "s\<lparr>ldr := (ldr s)\<lparr>m_runtimeSymTabs := syms, m_symTabOverrideMode := ov,
      m_explicitAllocations := ov, m_symbolSectionTypes := types\<rparr>\<rparr>"
  from run obtain relocs s1 u where lo: "lay_out L ?s0 = (Inr relocs, s1)"
    and rel: "(if m_sharedScratchBuffers (ldr s1) = [] then applyRelocations L relocs else retM ()) s1 = (Inr (), u)"
    and t: "t = u\<lparr>ldr := m_loaded_update (\<lambda>_. True) (ldr u)\<rparr>"
    by (auto simp: load_split load_body_def bindM_Inr_iff on_ldr_def modifyM_def readM_def split: if_splits)
  have "m_runtimeSymTabs (ldr s1) = syms" "m_symbolSectionTypes (ldr s1) = types"
    using relatesD [OF flag_lay_out lo] by (simp_all add: flag_kept_def)
  with lo rel t show ?thesis by (rule that [OF refl])
qed

lemma loaded_from_file:
  assumes am: "le_am L = DDRAccessManagerAlways (Ptr b 0) (of_nat (length img))" and img: "image_in b base img w"
    and len: "length img < 2 ^ 64" and nw: "image_no_wrap img"
    and doc: "loader_documented L" and ord: "order_ok (le_ord L)"
    and new: "VPUXLoader_new L hasManager override0 explicit0 w = (Inr (l, sh), w1)"
    and run: "load L syms ov types \<lparr>ldr = l, shd = sh, wld = w1\<rparr> = (Inr (), t)"
  obtains rd where "parse_image img = Inr rd" "file_loaded b base img (mSectionHeaders rd) ov t"
    "holds_file b base img (mSectionHeaders rd) ov syms types (m_sharedScratchBuffers (ldr t) = [])
      (device_of (ldr t) (wld t)) (memory (wld t))"
    "m_runtimeSymTabs (ldr t) = syms" "m_symbolSectionTypes (ldr t) = types"
proof -
  obtain rd where rd: "parse_image img = Inr rd" and l: "l = newLoader hasManager override0 explicit0"
    and tab: "mSectionHeaders (m_reader sh) = mSectionHeaders rd"
    and fresh: "fresh_loader \<lparr>ldr = l, shd = sh, wld = w1\<rparr>"
    and laid: "laid b base img (mSectionHeaders rd) \<lparr>ldr = l, shd = sh, wld = w1\<rparr>"
    by (rule constructed_loader [OF am img len nw new])
  let ?hs = "mSectionHeaders rd"
  obtain s0 relocs s u where s0: "s0 = \<lparr>ldr = l, shd = sh, wld = w1\<rparr>\<lparr>ldr := l\<lparr>m_runtimeSymTabs := syms,
      m_symTabOverrideMode := ov, m_explicitAllocations := ov, m_symbolSectionTypes := types\<rparr>\<rparr>"
    and lo: "lay_out L s0 = (Inr relocs, s)"
    and rel: "(if m_sharedScratchBuffers (ldr s) = [] then applyRelocations L relocs else retM ()) s = (Inr (), u)"
    and t: "t = u\<lparr>ldr := m_loaded_update (\<lambda>_. True) (ldr u)\<rparr>"
    and cfg: "m_runtimeSymTabs (ldr s) = syms" "m_symbolSectionTypes (ldr s) = types"
    by (rule load_stages [OF run], rule that) simp_all
  have "laid b base img ?hs s0" by (rule laid_cong [OF laid]) (simp_all add: s0)
  then have laid: "laid b base img ?hs s" by (rule triple_post [OF laid_lay_out [OF am doc] _ lo])
  have "registered ?hs ov 0 s0" using fresh_registered [OF fresh, of ?hs] tab by (simp add: s0)
  from triple_post [OF t_lay_out [OF ord] this lo]
  have led: "loaded_ledger ?hs ov s" and relocs: "relocs = relocs_upto False ?hs (length ?hs)" by simp_all
  then have "entries_loaded ?hs ov (m_inferBufferContainer (ldr s))"
    "m_relocationSectionIndexes (shd s) = relocs_upto False ?hs (length ?hs)" by (simp_all add: ledger_def)
  note u = laid_relocates [OF am doc laid this rel [unfolded relocs], unfolded cfg]
  have dev: "device_of (ldr t) (wld t) = device_of (ldr u) (wld u)" by (simp add: t device_of_def fun_eq_iff)
  show ?thesis
  proof (rule that [OF rd])
    show "file_loaded b base img ?hs ov t" using u(1) sound_cong [of "ldr t" "ldr u"] by (simp add: t file_loaded_def)
    show "holds_file b base img ?hs ov syms types (m_sharedScratchBuffers (ldr t) = []) (device_of (ldr t) (wld t)) (memory (wld t))"
      using u(3) unfolding dev by (simp add: t u(2))
  qed (simp_all add: t u(2) cfg)
qed


end
