(* ===== verification/Elf_Image_Copy.thy ===== *)
theory Elf_Image_Copy imports Elf_Image_Loaded begin

text \<open>
  Copying from the file on: the private buffers of a copy are blocks of its own, they are filled from the
  file again through the backups, and the relocation sections run on them with their own addresses.
\<close>

section \<open>Copying a container\<close>

lemma createNew_enlarges:
  assumes "allocate_documented (env_bm E)" and "createNew E q w = (Inr r, w')"
  shows "enlarges w w'"
proof (cases "bufKind (objs w ! q) = AllocatedDeviceBuffer")
  case True
  then have run: "newAllocatedDeviceBuffer E True (getBufferSpecs q w) w = (Inr r, w')" using assms(2) by (simp add: createNew_def)
  obtain y m where y: "bm_allocate (env_bm E) (getBufferSpecs q w) (memory w) = (y, m)" by (metis surj_pair)
  have "mem_grows (memory w) m" using assms(1) y by (metis allocate_documented_def snd_conv)
  then show ?thesis
    using run y by (cases y) (auto simp: newAllocatedDeviceBuffer_def newObj_def Let_def logEv_def enlarges_def
        mem_grows_def throwM_when_def throwM_def split: if_splits)
next
  case False
  then have "newDynamicBuffer E (getBufferSpecs q w) w = (Inr r, w')"
    using assms(2) by (cases "bufKind (objs w ! q)") (simp_all add: createNew_def)
  then show ?thesis
    by (auto simp: newDynamicBuffer_def newObj_def Let_def enlarges_def throwM_when_def throwM_unless_def throwM_def
        split: if_splits option.splits prod.splits)
qed

text \<open>One entry: a shared one is taken over, any other gets a new buffer.\<close>

lemma copyBufferInfo_run:
  assumes "copyBufferInfo E other i (c, w) = (Inr (), (c', w'))"
  obtains (same) old where "getBufferInfoFromIndex i other = Inr old" "mIsShared (mBufferDetails old)"
      "c' = setBufferInfo i old c" "w' = w"
    | (anew) old q r where "getBufferInfoFromIndex i other = Inr old" "\<not> mIsShared (mBufferDetails old)"
      "mBuffer old = Some q" "createNew E q w = (Inr r, w')"
      "c' = setBufferInfo i \<lparr>mBuffer = Some r, mBufferDetails = mBufferDetails old\<rparr> c"
proof -
  from assms obtain old where old: "getBufferInfoFromIndex i other = Inr old"
    by (auto simp: copyBufferInfo_def bindM_Inr_iff liftM_def)
  show thesis
  proof (cases "mIsShared (mBufferDetails old)")
    case True
    with assms old same show ?thesis by (simp add: copyBufferInfo_def bindM_liftM modifyM_def)
  next
    case False
    with assms old anew show ?thesis
      by (auto simp: copyBufferInfo_def bindM_liftM bindM_Inr_iff inWorld_def zoomM_def modifyM_def
          deref_def split: prod.splits option.splits if_splits)
  qed
qed

text \<open>The entries of a copy: those of the source with its details, a shared one the same.\<close>

definition taken_over :: "DeviceBufferContainer \<Rightarrow> DeviceBufferContainer \<Rightarrow> bool" where
  "taken_over other c \<longleftrightarrow>
     (\<forall>i info. getBufferInfoFromIndex i c = Inr info \<longrightarrow>
        (\<exists>old. getBufferInfoFromIndex i other = Inr old \<and> mBufferDetails info = mBufferDetails old \<and>
           (mIsShared (mBufferDetails old) \<longrightarrow> info = old)))"

lemma taken_over_put:
  assumes "taken_over other c" and "getBufferInfoFromIndex i other = Inr old"
    and "mBufferDetails info = mBufferDetails old" and "mIsShared (mBufferDetails old) \<Longrightarrow> info = old"
  shows "taken_over other (setBufferInfo i info c)"
  using assms by (auto simp: taken_over_def container.lookup_put)

lemma container_copied:
  assumes ord: "order_ok ord" and run: "DeviceBufferContainer_copy E ord other w = (Inr c, w')"
    and start: "I (DeviceBufferContainer_new (mBufferManager other)) w"
    and step: "\<And>c w i c' w'. I c w \<Longrightarrow> copyBufferInfo E other i (c, w) = (Inr (), (c', w')) \<Longrightarrow> I c' w'"
  shows "I c w'" "taken_over other c" "hasBufferInfoAtIndex i c \<longleftrightarrow> hasBufferInfoAtIndex i other"
proof -
  let ?P = "\<lambda>ys (c, w). I c w \<and> taken_over other c \<and> (\<forall>i \<in> set ys. hasBufferInfoAtIndex i c)"
  have "triple (\<lambda>_ _ _. True) (?P []) (forM (copyBufferInfo E other) ks) (\<lambda>_. ?P ks)" for ks
  proof (rule any.t_prefix)
    fix ys k zs
    show "triple (\<lambda>_ _ _. True) (?P ys) (copyBufferInfo E other k) (\<lambda>_. ?P (ys @ [k]))"
    proof (rule tripleI, intro conjI allI impI TrueI)
      fix s x t and v :: unit
      assume s: "?P ys s" and run: "copyBufferInfo E other k s = (x, t)" and x: "x = Inr v"
      obtain c w c' w' where ct: "s = (c, w)" "t = (c', w')" by (metis surj_pair)
      have run': "copyBufferInfo E other k (c, w) = (Inr (), (c', w'))" using run x ct by simp
      have "I c' w'" using step [OF _ run'] s ct by simp
      moreover have "taken_over other c' \<and> (\<forall>i \<in> set (ys @ [k]). hasBufferInfoAtIndex i c')"
        using run' by (rule copyBufferInfo_run) (use s ct in \<open>auto simp: container.has_put intro!: taken_over_put\<close>)
      ultimately show "?P (ys @ [k]) t" using ct by simp
    qed
  qed
  note loop = this [of "container_keys ord other"]
  have c: "forM (copyBufferInfo E other) (container_keys ord other) (DeviceBufferContainer_new (mBufferManager other), w) =
      (Inr (), (c, w'))"
    using run by (auto simp: DeviceBufferContainer_copy_def copyBufferMap_def split: prod.splits sum.splits)
  have "taken_over other (DeviceBufferContainer_new (mBufferManager other))"
    by (simp add: taken_over_def DeviceBufferContainer_new_def getBufferInfoFromIndex_def)
  then have P: "?P (container_keys ord other) (c, w')" using triple_post [OF loop _ c] start by simp
  then show "I c w'" "taken_over other c" by simp_all
  show "hasBufferInfoAtIndex i c \<longleftrightarrow> hasBufferInfoAtIndex i other"
    using P container_keys_set [OF ord, of other] by (fastforce simp: taken_over_def container.has_lookup)
qed

lemmas container_taken_over = container_copied(2,3) [where I = "\<lambda>_ _. True", OF _ _ TrueI TrueI]

section \<open>The containers of a loader\<close>

text \<open>The inference buffers are copied while the rest of the loader is still that of the original.\<close>

lemma infer_copied:
  assumes doc: "allocate_documented (env_bm E)" and ord: "order_ok ord" and ld: "file_loaded b base img hs ov t"
    and run: "DeviceBufferContainer_copy E ord (m_inferBufferContainer (ldr t)) (wld t) = (Inr c, w)"
  shows "laid_in {} b base img hs (\<lparr>ldr = (ldr t)\<lparr>m_inferBufferContainer := c\<rparr>, shd = shd t, wld = w\<rparr>)"
    "enlarges (wld t) w" "entries_loaded hs ov c"
proof -
  let ?O = "m_inferBufferContainer (ldr t)"
  let ?s = "\<lambda>c w. \<lparr>ldr = (ldr t)\<lparr>m_inferBufferContainer := c\<rparr>, shd = shd t, wld = w\<rparr>"
  let ?I = "\<lambda>c w. laid_in {} b base img hs (?s c w) \<and> enlarges (wld t) w"
  have so: "sound b base hs (ldr t) (wld t)" and ent: "entries_loaded hs ov ?O" using ld by (simp_all add: file_loaded_def)
  have start: "?I (DeviceBufferContainer_new (mBufferManager ?O)) (wld t)"
    using ld by (auto simp: laid_in_def own_buffer_def DeviceBufferContainer_new_def getBufferInfoFromIndex_def
        file_loaded_def sound_def enlarges_def)
  have put: "?I (setBufferInfo i info c) w'"
    if I: "?I c w" and grow: "enlarges w w'" and old: "getBufferInfoFromIndex i ?O = Inr old"
      and d: "mBufferDetails info = mBufferDetails old"
      and loc: "located_in False b base img (hs ! i) info w'"
      and room: "\<And>r. mBuffer info = Some r \<Longrightarrow> \<not> mIsShared (mBufferDetails info) \<Longrightarrow> room b i r (?s c w')"
    for c w i w' old info
  proof -
    have laid: "laid_in {} b base img hs (?s c w')" using laid_wld [of "{}" b base img hs "?s c w" w'] I grow by simp
    have "\<exists>back. getBufferInfoFromIndex i (m_backupBufferContainer (ldr t)) = Inr back \<and> mIsShared (mBufferDetails back)"
      if "mHasData (mBufferDetails info)" "mIsProcessed (mBufferDetails info)" "\<not> mIsShared (mBufferDetails info)"
      using so old d that unfolding sound_def by metis
    with laid_put [OF laid, of i info] loc room show ?thesis using I grow enlarges_trans by auto
  qed
  have step: "?I c' w'" if I: "?I c w" and run: "copyBufferInfo E ?O i (c, w) = (Inr (), (c', w'))" for c w i c' w'
    using run
  proof (cases rule: copyBufferInfo_run)
    case (same old)
    have p: "mIsProcessed (mBufferDetails old)" using entries_lookup [OF ent same(1)] by (simp add: loaded_details_shared)
    obtain q where q: "mBuffer old = Some q" using ld same(1) by (auto simp: file_loaded_def)
    have "shows_section b base (hs ! i) q (wld t)" using so same q unfolding sound_def by metis
    then have "shows_section b base (hs ! i) q w" using keeps_facts(2) [OF enlarges_keeps] I by blast
    then have "located_in False b base img (hs ! i) old w" using same(2) p q by (simp add: located_in_def shows_section_def)
    then show ?thesis using put [OF I enlarges_refl same(1) refl] same by simp
  next
    case (anew old q r)
    have "bufKind (objs (wld t) ! q) = AllocatedDeviceBuffer" "q < length (objs (wld t))"
      using so anew(1-3) unfolding sound_def by metis+
    then have "bufKind (objs w ! q) = AllocatedDeviceBuffer" using I enlarges_facts(3) by metis
    then have n: "newAllocatedDeviceBuffer E True (getBufferSpecs q w) (wld (?s c w)) = (Inr r, w')"
      using anew(4) by (simp add: createNew_def)
    from I have laid: "laid_in {} b base img hs (?s c w)" by simp
    note ar = allocated_room [OF doc laid n]
    have "located_in False b base img (hs ! i) \<lparr>mBuffer = Some r, mBufferDetails = mBufferDetails old\<rparr> w'"
      using ar(2) anew(2) by (simp add: located_in_def room_def)
    then show ?thesis using put [OF I _ anew(1), of w' "\<lparr>mBuffer = Some r, mBufferDetails = mBufferDetails old\<rparr>"] ar anew(5) by simp
  qed
  have cc: "?I c w" "taken_over ?O c" "hasBufferInfoAtIndex i c \<longleftrightarrow> hasBufferInfoAtIndex i ?O" for i
    by (rule container_copied(1) [where I = ?I, OF ord run start], rule step) (use container_taken_over [OF ord run] in simp_all)
  show "laid_in {} b base img hs (\<lparr>ldr = (ldr t)\<lparr>m_inferBufferContainer := c\<rparr>, shd = shd t, wld = w\<rparr>)" "enlarges (wld t) w"
    using cc(1) by simp_all
  show "entries_loaded hs ov c"
    unfolding entries_are_def
  proof (intro allI conjI impI)
    show "hasBufferInfoAtIndex i c \<longleftrightarrow> i < length hs \<and> gets_buffer ov (hs ! i)" for i
      using ent cc(3) by (simp add: entries_are_def)
    fix i info
    assume "getBufferInfoFromIndex i c = Inr info"
    then obtain old where "getBufferInfoFromIndex i ?O = Inr old" "mBufferDetails info = mBufferDetails old"
      using cc(2) unfolding taken_over_def by blast
    then show "mBufferDetails info = loaded_details hs i" using entries_lookup [OF ent] by simp
  qed
qed

text \<open>Then the backups: their views are taken over.\<close>

lemma backups_copied:
  assumes doc: "allocate_documented (env_bm E)" and ord: "order_ok ord"
    and laid: "laid_in F b base img hs s"
    and run: "DeviceBufferContainer_copy E ord (m_backupBufferContainer (ldr s)) (wld s) = (Inr c, w)"
  shows "laid_in F b base img hs \<lparr>ldr = (ldr s)\<lparr>m_backupBufferContainer := c, m_runtimeSymTabs := syms\<rparr>, shd = shd s, wld = w\<rparr>"
proof -
  let ?O = "m_backupBufferContainer (ldr s)"
  have step: "enlarges (wld s) w'"
    if I: "enlarges (wld s) w" and run: "copyBufferInfo E ?O i (c, w) = (Inr (), (c', w'))" for c w i c' w'
    using run by (cases rule: copyBufferInfo_run) (use I enlarges_trans createNew_enlarges [OF doc] in blast)+
  have cc: "enlarges (wld s) w" "taken_over ?O c" "hasBufferInfoAtIndex i c \<longleftrightarrow> hasBufferInfoAtIndex i ?O" for i
    by (rule container_copied(1) [where I = "\<lambda>_. enlarges (wld s)", OF ord run enlarges_refl], rule step)
      (use container_taken_over [OF ord run] in simp_all)
  have l: "laid_in F b base img hs (s\<lparr>wld := w\<rparr>)" by (rule laid_wld [OF laid cc(1)])
  then have so: "sound b base hs (ldr s) w" by (simp add: laid_in_def)
  have "sound b base hs ((ldr s)\<lparr>m_backupBufferContainer := c, m_runtimeSymTabs := syms\<rparr>) w"
    unfolding sound_def
  proof (intro conjI allI impI)
    fix i info q
    assume "getBufferInfoFromIndex i (m_backupBufferContainer ((ldr s)\<lparr>m_backupBufferContainer := c, m_runtimeSymTabs := syms\<rparr>)) = Inr info \<and>
      mIsShared (mBufferDetails info) \<and> mBuffer info = Some q"
    then have "getBufferInfoFromIndex i ?O = Inr info \<and> mIsShared (mBufferDetails info) \<and> mBuffer info = Some q"
      using cc(2) unfolding taken_over_def by fastforce
    then show "shows_section b base (hs ! i) q w" using so unfolding sound_def by blast
  next
    fix i info
    assume "getBufferInfoFromIndex i (m_inferBufferContainer ((ldr s)\<lparr>m_backupBufferContainer := c, m_runtimeSymTabs := syms\<rparr>)) = Inr info \<and>
      mHasData (mBufferDetails info) \<and> mIsProcessed (mBufferDetails info) \<and> \<not> mIsShared (mBufferDetails info)"
    then obtain x where old: "getBufferInfoFromIndex i ?O = Inr x" "mIsShared (mBufferDetails x)"
      using so unfolding sound_def by auto
    then obtain info' where "getBufferInfoFromIndex i c = Inr info'" using cc(3) [of i] by (auto simp: container.has_lookup)
    moreover from this have "mBufferDetails info' = mBufferDetails x" using cc(2) old(1) unfolding taken_over_def by fastforce
    ultimately show "\<exists>back. getBufferInfoFromIndex i (m_backupBufferContainer
        ((ldr s)\<lparr>m_backupBufferContainer := c, m_runtimeSymTabs := syms\<rparr>)) = Inr back \<and> mIsShared (mBufferDetails back)"
      using old(2) by simp
  qed (use so in \<open>auto simp: sound_def\<close>)
  then show ?thesis using l by (simp add: laid_in_def own_buffer_def)
qed

section \<open>Filling the buffers again\<close>

lemma laid_subset:
  assumes "laid_in F b base img hs s" and "F' \<subseteq> F"
  shows "laid_in F' b base img hs s"
proof -
  have "located_in (i \<in> F') b base img h info w" if "located_in (i \<in> F) b base img h info w" for i h info w
    using that assms(2) by (auto simp: located_in_def split: option.splits)
  then show ?thesis using assms(1) unfolding laid_in_def by blast
qed

lemma laid_insert:
  assumes "laid_in F b base img hs s"
    and "\<And>info. getBufferInfoFromIndex k (m_inferBufferContainer (ldr s)) = Inr info \<Longrightarrow>
      located b base img (hs ! k) info (wld s)"
  shows "laid_in (insert k F) b base img hs s"
proof -
  have "located_in (i \<in> insert k F) b base img (hs ! i) info (wld s)"
    if "getBufferInfoFromIndex i (m_inferBufferContainer (ldr s)) = Inr info" for i info
    using that assms by (cases "i = k") (simp_all add: laid_in_def)
  then show ?thesis using assms(1) by (simp add: laid_in_def)
qed

lemma laid_all:
  assumes "laid_in F b base img hs s"
    and "\<And>i info. getBufferInfoFromIndex i (m_inferBufferContainer (ldr s)) = Inr info \<Longrightarrow> i \<in> F"
  shows "laid b base img hs s"
  using assms by (auto simp: laid_in_def)

text \<open>One private buffer with data, from the view in the backup.\<close>

lemma laid_refill:
  assumes doc: "loader_documented L"
    and laid: "laid_in F b base img hs s"
    and info: "getBufferInfoFromIndex k (m_inferBufferContainer (ldr s)) = Inr info" "mIsProcessed (mBufferDetails info)"
      "mHasData (mBufferDetails info)" "\<not> mIsShared (mBufferDetails info)"
    and bak: "getBufferInfoFromIndex k (m_backupBufferContainer (ldr s)) = Inr x"
    and run: "bindM (in_world (deref (mBuffer x))) (\<lambda>q.
       bindM (in_world (deref (mBuffer info))) (\<lambda>r.
       bindM (readM (\<lambda>s. getBuffer q (wld s))) (\<lambda>from.
       bindM (readM (\<lambda>s. getBuffer r (wld s))) (\<lambda>to.
       throwM_unless (buf_size from = buf_size to) RuntimeError
       (in_world (loadWithLock (le_env L) r (cpu_addr from) (buf_size to))))))) s = (Inr (), t)"
  shows "laid_in (insert k F) b base img hs t" "ldr t = ldr s"
proof -
  from run obtain q r where q: "mBuffer x = Some q" and r: "mBuffer info = Some r"
    and size: "buf_size (getBuffer q (wld s)) = buf_size (getBuffer r (wld s))"
    and ld: "in_world (loadWithLock (le_env L) r (cpu_addr (getBuffer q (wld s))) (buf_size (getBuffer q (wld s)))) s = (Inr (), t)"
    by (auto simp: bindM_Inr_iff deref_Inr readM_def)
  have "shows_section b base (hs ! k) q (wld s)"
    using laid info bak q unfolding laid_in_def sound_def by (metis sum.inject(2))
  then have db: "getBuffer q (wld s) = DeviceBuffer_make (Ptr b (unat (sh_offset (hs ! k)))) (base + sh_offset (hs ! k)) (sh_size (hs ! k))"
    by (simp add: shows_section_def)
  have l: "laid_in (F - {k}) b base img hs s" by (rule laid_subset [OF laid]) blast
  have "own_buffer k (ldr s) r" using info r by (simp add: own_buffer_def)
  then have room: "room b k r s" by (rule own_room [OF laid])
  have new: "(\<not> mIsProcessed (mBufferDetails i') \<or> k \<notin> F - {k}) \<and> mBuffer i' = Some r"
    if "getBufferInfoFromIndex k (m_inferBufferContainer (ldr s)) = Inr i'" for i'
    using that info(1) r by simp
  note docs = doc [unfolded loader_documented_def]
  have "lock_documented (env_bm (le_env L))" "copy_documented (env_bm (le_env L))" using docs by simp_all
  note lf = load_fills [OF this l room new ld [unfolded db DeviceBuffer_make_simps]]
  show "ldr t = ldr s" by (rule lf(3))
  have "laid_in (insert k (F - {k})) b base img hs t"
  proof (rule laid_insert [OF lf(1)])
    fix i'
    assume "getBufferInfoFromIndex k (m_inferBufferContainer (ldr t)) = Inr i'"
    then have "i' = info" using info(1) lf(3) by simp
    then show "located b base img (hs ! k) i' (wld t)"
      using lf(2,5) info r by (auto simp: located_in_def room_def filled_def section_bytes_def)
  qed
  then show "laid_in (insert k F) b base img hs t" by simp
qed

definition reloading :: "nat \<Rightarrow> u64 \<Rightarrow> bytes \<Rightarrow> Elf64_Shdr list \<Rightarrow> VPUXLoader \<Rightarrow> nat set \<Rightarrow> lstate \<Rightarrow> bool" where
  "reloading b base img hs l F s \<longleftrightarrow> laid_in F b base img hs s \<and> ldr s = l"

lemma reloading_loadBuffer:
  assumes doc: "loader_documented L" and all: "\<And>i info. getBufferInfoFromIndex i (m_inferBufferContainer l) = Inr info \<Longrightarrow>
      mIsProcessed (mBufferDetails info)"
  shows "passes (reloading b base img hs l F) (reloadNewBuffer L k) (\<lambda>_. reloading b base img hs l (insert k F))"
proof (rule passesI)
  fix s t and v :: unit
  assume s: "reloading b base img hs l F s" and run: "reloadNewBuffer L k s = (Inr v, t)"
  then have laid: "laid_in F b base img hs s" and l: "ldr s = l" by (simp_all add: reloading_def)
  from run obtain info where info: "getBufferInfoFromIndex k (m_inferBufferContainer l) = Inr info"
    by (auto simp: reloadNewBuffer_def bindM_Inr_iff inferInfo_Inr l)
  show "reloading b base img hs l (insert k F) t"
  proof (cases "mHasData (mBufferDetails info) \<and> \<not> mIsShared (mBufferDetails info)")
    case False
    then have "t = s" using run info by (auto simp: reloadNewBuffer_def bindM_Inr_iff inferInfo_Inr l retM_def)
    moreover have "located_in (k \<in> F) b base img (hs ! k) info (wld s)" using laid info l by (simp add: laid_in_def)
    then have "located b base img (hs ! k) info (wld s)" using False by (auto simp: located_in_def split: option.splits)
    ultimately show ?thesis using laid_insert [OF laid, of k] info l by (simp add: reloading_def)
  next
    case True
    let ?body = "\<lambda>x. bindM (in_world (deref (mBuffer x))) (\<lambda>q.
       bindM (in_world (deref (mBuffer info))) (\<lambda>r.
       bindM (readM (\<lambda>s. getBuffer q (wld s))) (\<lambda>from.
       bindM (readM (\<lambda>s. getBuffer r (wld s))) (\<lambda>to.
       throwM_unless (buf_size from = buf_size to) RuntimeError
       (in_world (loadWithLock (le_env L) r (cpu_addr from) (buf_size to)))))))"
    from run True obtain x where x: "getBufferInfoFromIndex k (m_backupBufferContainer l) = Inr x"
      and g: "guarded L (mBuffer x) (?body x) s = (Inr (), t)"
      using info by (auto simp: reloadNewBuffer_def bindM_Inr_iff inferInfo_Inr backupInfo_def readM_def liftM_def l
          split: sum.splits)
    have body: "passes (reloading b base img hs l F) (?body x) (\<lambda>_. reloading b base img hs l (insert k F))"
    proof (rule passesI)
      fix s t and v :: unit
      assume s: "reloading b base img hs l F s" and run: "?body x s = (Inr v, t)"
      then have laid: "laid_in F b base img hs s" and l: "ldr s = l" by (simp_all add: reloading_def)
      from laid_refill [OF doc laid _ all [OF info], of k x t] run True info x l
      show "reloading b base img hs l (insert k F) t" by (simp add: reloading_def)
    qed
    have same: "reloading b base img hs l F (s\<lparr>wld := w\<rparr>)" if "reloading b base img hs l F s" "same_state (wld s) w" for s w F
      using that laid_wld [OF _ enlarges_same] by (simp add: reloading_def)
    have lock: "lock_documented (env_bm (le_env L))" using doc by (simp add: loader_documented_def)
    show ?thesis by (rule triple_post [OF laid_guarded [OF lock body same same] s g])
  qed
qed

lemma reloading_all:
  assumes doc: "loader_documented L" and ord: "order_ok (le_ord L)"
    and all: "\<And>i info. getBufferInfoFromIndex i (m_inferBufferContainer (ldr s)) = Inr info \<Longrightarrow>
      mIsProcessed (mBufferDetails info)"
    and laid: "laid_in {} b base img hs s" and run: "reloadNewBuffers L s = (Inr (), t)"
  shows "laid b base img hs t" "ldr t = ldr s"
proof -
  let ?ks = "container_keys (le_ord L) (m_inferBufferContainer (ldr s))"
  have loop: "passes (reloading b base img hs (ldr s) (set [])) (forM (reloadNewBuffer L) ?ks)
      (\<lambda>_. reloading b base img hs (ldr s) (set ?ks))"
  proof (rule any.t_prefix)
    fix ys k zs
    show "passes (reloading b base img hs (ldr s) (set ys)) (reloadNewBuffer L k) (\<lambda>_. reloading b base img hs (ldr s) (set (ys @ [k])))"
      using reloading_loadBuffer [OF doc all] by simp
  qed
  have "forM (reloadNewBuffer L) ?ks s = (Inr (), t)" using run by (simp add: reloadNewBuffers_def bindM_readM)
  from triple_post [OF loop _ this] laid have "reloading b base img hs (ldr s) (set ?ks) t" by (simp add: reloading_def)
  then have l: "laid_in (set ?ks) b base img hs t" "ldr t = ldr s" by (simp_all add: reloading_def)
  show "ldr t = ldr s" by (rule l(2))
  show "laid b base img hs t"
    by (rule laid_all [OF l(1)]) (simp add: l(2) container_keys_set [OF ord] container.has_lookup)
qed

section \<open>The copy\<close>

lemma copy_from_file:
  assumes am: "le_am L = DDRAccessManagerAlways (Ptr b 0) (of_nat (length img))" and doc: "loader_documented L"
    and ord: "order_ok (le_ord L)" and ld: "file_loaded b base img hs ov t"
    and run: "VPUXLoader_copy L syms (ldr t) (shd t, wld t) = (Inr l, (sh, w))"
  shows "file_loaded b base img hs ov \<lparr>ldr = l, shd = sh, wld = w\<rparr>"
    and "holds_file b base img hs ov (case syms of None \<Rightarrow> m_runtimeSymTabs (ldr t) | Some xs \<Rightarrow> xs)
      (m_symbolSectionTypes (ldr t)) True (device_of l w) (memory w)"
proof -
  let ?syms = "case syms of None \<Rightarrow> m_runtimeSymTabs (ldr t) | Some xs \<Rightarrow> xs"
  from run obtain infer w1 backup w2 u
    where c1: "DeviceBufferContainer_copy (le_env L) (le_ord L) (m_inferBufferContainer (ldr t)) (wld t) = (Inr infer, w1)"
      and c2: "DeviceBufferContainer_copy (le_env L) (le_ord L) (m_backupBufferContainer (ldr t)) w1 = (Inr backup, w2)"
      and rr: "reloadAndRelocate L \<lparr>ldr = (ldr t)\<lparr>m_inferBufferContainer := infer, m_backupBufferContainer := backup,
          m_runtimeSymTabs := ?syms\<rparr>, shd = shd t, wld = w2\<rparr> = (Inr (), u)"
      and u: "l = ldr u" "sh = shd u" "w = wld u"
    by (auto simp: VPUXLoader_copy_def bindM_Inr_iff retM_def split: prod.splits sum.splits)
  let ?s = "\<lparr>ldr = (ldr t)\<lparr>m_inferBufferContainer := infer, m_backupBufferContainer := backup,
      m_runtimeSymTabs := ?syms\<rparr>, shd = shd t, wld = w2\<rparr>"
  have alloc: "allocate_documented (env_bm (le_env L))" using doc by (simp add: loader_documented_def)
  note ic = infer_copied [OF alloc ord ld c1]
  have laid0: "laid_in {} b base img hs ?s"
    using backups_copied [OF alloc ord ic(1), of backup w2 ?syms] c2 by simp
  have ent: "entries_loaded hs ov (m_inferBufferContainer (ldr ?s))" using ic(3) by simp
  from rr obtain s relocs where reload: "reloadNewBuffers L ?s = (Inr (), s)"
    and rel: "applyRelocations L (m_relocationSectionIndexes (shd s)) s = (Inr (), u)"
    by (auto simp: reloadAndRelocate_def bindM_Inr_iff readM_def)
  have proc: "mIsProcessed (mBufferDetails info)"
    if "getBufferInfoFromIndex i (m_inferBufferContainer (ldr ?s)) = Inr info" for i info
    using entries_lookup [OF ent that] by (simp add: loaded_details_shared)
  have ra: "laid b base img hs s" "ldr s = ldr ?s"
    by (rule reloading_all [OF doc ord _ laid0 reload], rule proc, assumption)+
  have ent: "entries_loaded hs ov (m_inferBufferContainer (ldr s))" using ent by (simp add: ra(2))
  have relocs: "m_relocationSectionIndexes (shd s) = relocs_upto False hs (length hs)"
    using relatesD [OF calm_reloadNewBuffers reload] ld by (simp add: calm_def file_loaded_def)
  have "(if True then applyRelocations L (relocs_upto False hs (length hs)) else retM ()) s = (Inr (), u)"
    using rel by (simp add: relocs)
  note lr = laid_relocates [OF am doc ra(1) ent relocs this]
  have "file_loaded b base img hs ov u" "ldr u = ldr s" "holds_file b base img hs ov (m_runtimeSymTabs (ldr s))
      (m_symbolSectionTypes (ldr s)) True (device_of (ldr u) (wld u)) (memory (wld u))"
    using lr by simp_all
  then show "file_loaded b base img hs ov \<lparr>ldr = l, shd = sh, wld = w\<rparr>"
    "holds_file b base img hs ov ?syms (m_symbolSectionTypes (ldr t)) True (device_of l w) (memory w)"
    using ra(2) by (simp_all add: u file_loaded_def)
qed


end
