(* ===== verification/Elf_Load_File.thy ===== *)
theory Elf_Load_File imports Elf_Loader_Example begin

text \<open>
  A file to load: section 2 holds eight bytes that the relocation section 3 patches with the device
  address of the section plus 6, through the symbol table in section 4. The kernel evaluates the load, and the copy of the loader.
\<close>

section \<open>The file\<close>

definition obj_header :: Elf64_Ehdr where
  "obj_header = example_header\<lparr>e_shnum := 5\<rparr>"

definition obj_table :: "Elf64_Shdr list" where
  "obj_table =
     [small_shdr SHT_NULL 0 0 0 0 0 0,
      small_shdr SHT_STRTAB 0 384 8 0 0 0,
      small_shdr SHT_PROGBITS SHF_ALLOC 392 8 0 0 0,
      small_shdr SHT_RELA SHF_INFO_LINK 400 24 4 2 24,
      small_shdr SHT_SYMTAB 0 424 48 0 0 24]"

definition obj_symbol :: "u16 \<Rightarrow> u64 \<Rightarrow> Elf64_Sym" where
  "obj_symbol j v = \<lparr>st_name = 0, st_info = 0, st_other = 0, st_shndx = j, st_value = v, st_size = 0\<rparr>"

definition obj_data :: bytes where
  "obj_data = [0, 97, 0, 0, 0, 0, 0, 0] @ [1, 2, 3, 4, 5, 6, 7, 8] @
     enc_Elf64_Rela \<lparr>r_offset = 0, r_info = elf64RInfo 1 R_VPU_64, r_addend = 2\<rparr> @
     enc_Elf64_Sym (obj_symbol 0 0) @ enc_Elf64_Sym (obj_symbol 2 4)"

definition obj_image :: bytes where
  "obj_image = enc_Elf64_Ehdr obj_header @ pod_elf64_shdr.enc_table obj_table @ obj_data"

definition obj_lenv :: lenv where
  "obj_lenv = small_lenv\<lparr>le_am := DDRAccessManagerAlways (Ptr 0 0) 472\<rparr>"

lemma obj_wf: "wf_Elf64_Ehdr obj_header" "header_ok obj_header"
  by (simp_all add: wf_Elf64_Ehdr_def header_ok_def obj_header_def example_header_def)

lemma obj_lengths:
  "length (enc_Elf64_Ehdr obj_header) = 64" "length (pod_elf64_shdr.enc_table obj_table) = 320"
  "length obj_data = 88"
  by (simp_all add: pod_elf64_ehdr.length_enc obj_wf pod_elf64_shdr.length_enc_table obj_table_def obj_data_def
      pod_elf64_rela.length_enc pod_elf64_sym.length_enc)

lemma obj_parts:
  "length obj_image = 472" "bslice 0 64 obj_image = enc_Elf64_Ehdr obj_header"
  "bslice 64 320 obj_image = pod_elf64_shdr.enc_table obj_table"
  "bslice 384 8 obj_image = [0, 97, 0, 0, 0, 0, 0, 0]"
  "bslice 392 8 obj_image = [1, 2, 3, 4, 5, 6, 7, 8]"
  by (simp_all add: obj_image_def bslice_def obj_lengths) (simp_all add: obj_data_def)

definition obj_reader :: Reader where
  "obj_reader = \<lparr>mElfHeader = obj_header, mSectionHeaders = obj_table,
     mSectionNames = [0, 97, 0, 0, 0, 0, 0, 0], mSectionsCache = \<lambda>_. None\<rparr>"

lemma obj_parses:
  "parse_image obj_image = Inr obj_reader"
  "dec_Elf64_Ehdr (bslice 0 64 obj_image) = obj_header"
  "pod_elf64_shdr.dec_table (unat (e_shnum obj_header))
     (bslice (unat (e_shoff obj_header)) (unat (e_shnum obj_header) * 64) obj_image) = obj_table"
proof -
  have h: "e_shoff obj_header = 64" "e_shnum obj_header = 5" "e_shstrndx obj_header = 1"
    by (simp_all add: obj_header_def example_header_def)
  have n: "length obj_table = 5" "obj_table ! Suc 0 = small_shdr SHT_STRTAB 0 384 8 0 0 0" by (simp_all add: obj_table_def)
  have s: "sh_offset (small_shdr SHT_STRTAB 0 384 8 0 0 0) = 384" "sh_size (small_shdr SHT_STRTAB 0 384 8 0 0 0) = 8"
    by (simp_all add: small_shdr_def)
  note b = parse_image_built [of obj_image obj_header obj_table "small_shdr SHT_STRTAB 0 384 8 0 0 0",
      OF obj_parts(2) obj_wf]
  show "parse_image obj_image = Inr obj_reader" using b(1) by (simp add: h n s obj_parts obj_reader_def)
  show "dec_Elf64_Ehdr (bslice 0 64 obj_image) = obj_header" using b(2) by (simp add: h n s obj_parts)
  show "pod_elf64_shdr.dec_table (unat (e_shnum obj_header))
     (bslice (unat (e_shoff obj_header)) (unat (e_shnum obj_header) * 64) obj_image) = obj_table"
    using b(3) by (simp add: h n s obj_parts)
qed

lemma obj_no_wrap: "image_no_wrap obj_image"
  unfolding image_no_wrap_def Let_def obj_parses(2,3)
  by (simp add: obj_table_def small_shdr_def obj_header_def example_header_def)

lemma obj_small: "(472::nat) < 2 ^ 64"
  by simp

section \<open>The run\<close>

text \<open>
  Each read of the reader leaves one block and one buffer behind. Loading does not look at them, so that
  the kernel evaluates it with variables in their place.
\<close>

lemma readMember_after:
  assumes "readMember E (DDRAccessManagerAlways p n) off k w = (Inr bs, w')"
  obtains x r where "w' = w\<lparr>memory := memory w @ [x], objs := objs w @ [r]\<rparr>"
proof -
  let ?q = "Ptr (length (memory w)) 0"
  define w0 where "w0 = w\<lparr>memory := memory w @ [(0, replicate k 0)], objs := objs w @
    [\<lparr>bufKind = StaticBuffer, mDevBuffer = DeviceBuffer_make ?q
        (ptr_value (memory w @ [(0, replicate k 0)]) ?q) (of_nat k),
       mBufferSpecs = BufferSpecs_make 0 (of_nat k) 0\<rparr>]\<rparr>"
  from assms have y: "readExternal_DDR E p n off (length (objs w)) w0 = (Inr (), w')"
    by (auto simp: readMember_def modifyM_def newStaticBuffer_def
        newObj_def bindM_def w0_def BufferSpecs_make_def liftM_def readM_def split: prod.splits sum.splits)
  have st: "getBuffer (length (objs w)) w0 = DeviceBuffer_make ?q (ptr_value (memory w @ [(0, replicate k 0)]) ?q) (of_nat k)"
    "bufKind (objs w0 ! length (objs w)) = StaticBuffer"
    by (simp_all add: w0_def getBuffer_def)
  obtain bs where w': "w' = w0\<lparr>memory := poke (memory w0) ?q bs\<rparr>"
    using y st
    by (auto simp: readExternal_DDR_def bindM_def readM_def throwM_when_def throwM_def withLock_def lock_def
        unlock_def finallyM_def memcpyM_def memcpy_mem_def DeviceBuffer_make_def simp del: poke.simps
        split: if_splits sum.splits prod.splits)
  obtain x where "poke (memory w0) ?q bs = memory w @ [x]" by (cases "bs = []") (auto simp: w0_def)
  then show ?thesis using that w' by (cases w) (simp add: w0_def)
qed

lemma Reader_new_after:
  assumes run: "Reader_new E (Some (DDRAccessManagerAlways a n)) w = (Inr rd, w')" and "e_shstrndx (mElfHeader rd) \<noteq> 0"
  obtains x y z p q r where "w' = w\<lparr>memory := memory w @ [x, y, z], objs := objs w @ [p, q, r]\<rparr>"
proof -
  let ?read = "readMember E (DDRAccessManagerAlways a n)"
  from run obtain hb w1 tb w2 nb where hb: "?read 0 64 w = (Inr hb, w1)"
    and tb: "?read (e_shoff (mElfHeader rd)) (unat (e_shnum (mElfHeader rd)) * 64) w1 = (Inr tb, w2)"
    and nb: "readSectionNames E (DDRAccessManagerAlways a n) (mElfHeader rd) (mSectionHeaders rd) w2 = (Inr nb, w')"
    unfolding Reader_new_def option.case Let_def by (auto simp: bindM_Inr_iff retM_def liftM_def)
  from nb obtain off k where nb: "?read off k w2 = (Inr nb, w')"
    using assms(2) by (auto simp: readSectionNames_def Let_def)
  obtain x p where "w1 = w\<lparr>memory := memory w @ [x], objs := objs w @ [p]\<rparr>" by (rule readMember_after [OF hb])
  moreover obtain y q where "w2 = w1\<lparr>memory := memory w1 @ [y], objs := objs w1 @ [q]\<rparr>" by (rule readMember_after [OF tb])
  moreover obtain z r where "w' = w2\<lparr>memory := memory w2 @ [z], objs := objs w2 @ [r]\<rparr>" by (rule readMember_after [OF nb])
  ultimately show ?thesis by (intro that) simp
qed

lemma obj_Reader_new:
  obtains x y z p q r where "Reader_new (le_env obj_lenv) (Some (le_am obj_lenv)) (image_world obj_image) =
    (Inr obj_reader, \<lparr>memory = [(0x1000, obj_image), x, y, z], objs = [p, q, r], trace = [], streamGood = True\<rparr>)"
proof -
  have am: "le_am obj_lenv = DDRAccessManagerAlways (Ptr 0 0) 472" by (simp add: obj_lenv_def)
  have ddr: "is_ddr (Ptr 0 0) (of_nat (length obj_image)) (le_am obj_lenv)" by (simp add: am obj_parts)
  have holds: "holds_image (Ptr 0 0) obj_image (image_world obj_image)"
    by (rule image_world_holds) (simp add: obj_image_def obj_data_def)
  obtain w' where w': "Reader_new (le_env obj_lenv) (Some (le_am obj_lenv)) (image_world obj_image) = (Inr obj_reader, w')"
    using Reader_new_ddr [OF ddr _ holds obj_no_wrap] by (metis obj_parses(1) obj_parts(1) obj_small)
  have "e_shstrndx (mElfHeader obj_reader) \<noteq> 0" by (simp add: obj_reader_def obj_header_def example_header_def)
  from Reader_new_after [OF w' [unfolded am] this] show ?thesis using w' that by (auto simp: image_world_def)
qed

definition obj_loads :: "world \<Rightarrow> bool" where
  "obj_loads w =
     (case registerSections obj_lenv \<lparr>ldr = newLoader True False False, shd = newShared obj_reader, wld = w\<rparr> of
        (x, s) \<Rightarrow> x = Inr () \<and>
          (case load obj_lenv [] False [] s of
             (y, t) \<Rightarrow> y = Inr () \<and> m_sharedScratchBuffers (ldr t) = [] \<and>
               (case VPUXLoader_copy obj_lenv None (ldr t) (shd t, wld t) of (z, _) \<Rightarrow> case z of Inr _ \<Rightarrow> True | Inl _ \<Rightarrow> False)))"

lemma obj_loads:
  "obj_loads \<lparr>memory = [(0x1000, obj_image), x, y, z], objs = [p, q, r], trace = [], streamGood = True\<rparr>"
  by code_simp

lemma obj_run:
  obtains l sh w1 t l' sh' w' where "VPUXLoader_new obj_lenv True False False (image_world obj_image) = (Inr (l, sh), w1)"
    "load obj_lenv [] False [] \<lparr>ldr = l, shd = sh, wld = w1\<rparr> = (Inr (), t)" "m_sharedScratchBuffers (ldr t) = []"
    "VPUXLoader_copy obj_lenv None (ldr t) (shd t, wld t) = (Inr l', (sh', w'))"
proof -
  obtain w where w: "Reader_new (le_env obj_lenv) (Some (le_am obj_lenv)) (image_world obj_image) = (Inr obj_reader, w)"
    and ok: "obj_loads w"
    using obj_loads by (metis obj_Reader_new)
  then obtain s t l' sh' w' where
      reg: "registerSections obj_lenv \<lparr>ldr = newLoader True False False, shd = newShared obj_reader, wld = w\<rparr> = (Inr (), s)"
    and run: "load obj_lenv [] False [] s = (Inr (), t)" and t: "m_sharedScratchBuffers (ldr t) = []"
    and cp: "VPUXLoader_copy obj_lenv None (ldr t) (shd t, wld t) = (Inr l', (sh', w'))"
    by (auto simp: obj_loads_def split: prod.splits sum.splits)
  have "VPUXLoader_new obj_lenv True False False (image_world obj_image) = (Inr (ldr s, shd s), wld s)"
    by (simp add: VPUXLoader_new_def w reg)
  then show ?thesis by (rule that) (use run t cp in \<open>cases s; simp\<close>)+
qed

end
