(* ===== verification/Elf_Load_Example.thy ===== *)
theory Elf_Load_Example imports Elf_Image_Copy Elf_Load_File begin

text \<open>The file of \<open>Elf_Load_File\<close> is loaded, and the loader copied, so that what the theorems on
  loading and on copying say holds of it.\<close>

lemma obj_env:
  "le_am obj_lenv = DDRAccessManagerAlways (Ptr 0 0) (of_nat (length obj_image))"
  "image_in 0 0x1000 obj_image (image_world obj_image)" "loader_documented obj_lenv" "order_ok (le_ord obj_lenv)"
  using small_documented
  by (simp_all add: obj_lenv_def obj_parts image_in_def image_world_def loader_documented_def small_lenv_def order_ok_def)

lemma obj_sections:
  "gets_buffer False (obj_table ! 2)" "sh_type (obj_table ! 2) = SHT_PROGBITS" "\<not> shareable obj_table 2"
  "relocs_upto False obj_table (length obj_table) = [3]"
proof -
  show "gets_buffer False (obj_table ! 2)" "sh_type (obj_table ! 2) = SHT_PROGBITS"
    by (simp_all add: obj_table_def small_shdr_def gets_buffer_def elf_consts)
  have "targeted obj_table 2"
    unfolding targeted_def
    by (rule exI [of _ 3]) (simp add: obj_table_def small_shdr_def relocationTarget_def elf_consts)
  then show "\<not> shareable obj_table 2" by (simp add: shareable_def)
  show "relocs_upto False obj_table (length obj_table) = [3]"
    by (simp add: relocs_upto_def is_reloc_def obj_table_def small_shdr_def elf_consts upt_rec)
qed

lemma obj_holds:
  assumes h: "holds_file 0 0x1000 obj_image obj_table False [] [] True dev m"
  obtains d c0 c where "dev 2 = Some d" "take 8 (c0 2) = [1, 2, 3, 4, 5, 6, 7, 8]"
    "relocate obj_image obj_table dev [] [] [3] c0 = Inr c" "block_holds 0 d (c 2) m"
proof -
  have "dev 2 \<noteq> None" using h obj_sections(1) by (simp add: holds_file_def obj_table_def)
  then obtain d where d: "dev 2 = Some d" by auto
  obtain c0 c where c0: "\<forall>i d. dev i = Some d \<and> sh_type (obj_table ! i) = SHT_PROGBITS \<and> \<not> shareable obj_table i \<longrightarrow>
      filled obj_image (obj_table ! i) (c0 i)"
    and c: "relocate obj_image obj_table dev [] [] [3] c0 = Inr c" and m: "contents_are 0 {i. \<not> shareable obj_table i} dev c m"
    using h obj_sections(4) by (auto simp: holds_file_def)
  have "filled obj_image (obj_table ! 2) (c0 2)" using c0 d obj_sections by simp
  then have "take 8 (c0 2) = [1, 2, 3, 4, 5, 6, 7, 8]"
    using obj_parts(5) by (simp add: filled_def section_bytes_def obj_table_def small_shdr_def)
  moreover have "block_holds 0 d (c 2) m" using m d obj_sections(3) by (simp add: contents_are_def)
  ultimately show ?thesis by (rule that [OF d _ c])
qed



end
